(* ===== verification/Prelude.thy ===== *)
theory Prelude
  imports Main "HOL-Library.Word"
begin

text \<open>
  Shared vocabulary of the development: the C integer types of the kernel, byte order,
  byte-addressed memory, page arithmetic (\<open>PAGE_SIZE\<close>, the two alignment idioms
  \<open>x & ~(PAGE_SIZE - 1)\<close> and \<open>(x + PAGE_SIZE - 1) & ~(PAGE_SIZE - 1)\<close>), the counting loops and
  the first-match search that the components share, and the collections of facts their proofs
  draw on.
\<close>

unbundle bit_operations_syntax

named_theorems frame_simps
  \<open>which parts of the state an operation leaves alone\<close>
named_theorems mem_simps
  \<open>reads after writes of byte-addressed memory\<close>
named_theorems page_simps
  \<open>page numbers and offsets of addresses\<close>

section \<open>Integer types\<close>

type_synonym u8 = "8 word"
type_synonym u16 = "16 word"
type_synonym u32 = "32 word"
type_synonym u64 = "64 word"

section \<open>Search loops\<close>

text \<open>
  The loop \<open>for (i = lo; i < hi; i++) if (P(i)) return i;\<close> with its fall-through value
  \<open>None\<close>. It stops at the first hit, as the C loop does.
\<close>

function first_index :: "(nat \<Rightarrow> bool) \<Rightarrow> nat \<Rightarrow> nat \<Rightarrow> nat option" where
  "first_index P lo hi =
     (if lo < hi then (if P lo then Some lo else first_index P (Suc lo) hi) else None)"
  by pat_completeness auto
termination
  by (relation "measure (\<lambda>(P, lo, hi). hi - lo)") auto

declare first_index.simps [simp del]

lemma first_index_Some:
  "first_index P lo hi = Some i \<longleftrightarrow> lo \<le> i \<and> i < hi \<and> P i \<and> (\<forall>j. lo \<le> j \<longrightarrow> j < i \<longrightarrow> \<not> P j)"
proof (induction P lo hi rule: first_index.induct)
  case (1 P lo hi)
  show ?case
  proof (cases "lo < hi \<and> \<not> P lo")
    case True
    then have "first_index P lo hi = Some i \<longleftrightarrow> Suc lo \<le> i \<and> i < hi \<and> P i \<and>
        (\<forall>j. Suc lo \<le> j \<longrightarrow> j < i \<longrightarrow> \<not> P j)"
      using 1 by (simp add: first_index.simps [of P lo hi])
    also have "\<dots> \<longleftrightarrow> lo \<le> i \<and> i < hi \<and> P i \<and> (\<forall>j. lo \<le> j \<longrightarrow> j < i \<longrightarrow> \<not> P j)"
      using True by (metis Suc_leD Suc_leI le_neq_implies_less)
    finally show ?thesis .
  next
    case False
    then show ?thesis
      by (auto simp: first_index.simps [of P lo hi])
  qed
qed

lemma first_index_None:
  "first_index P lo hi = None \<longleftrightarrow> (\<forall>j. lo \<le> j \<longrightarrow> j < hi \<longrightarrow> \<not> P j)"
proof (induction P lo hi rule: first_index.induct)
  case (1 P lo hi)
  show ?case
  proof (cases "lo < hi \<and> \<not> P lo")
    case True
    then show ?thesis
      using 1 by (simp add: first_index.simps [of P lo hi]) (metis Suc_leD Suc_leI le_neq_implies_less)
  next
    case False
    then show ?thesis
      by (auto simp: first_index.simps [of P lo hi])
  qed
qed

lemma first_index_cong:
  assumes "\<And>j. lo \<le> j \<Longrightarrow> j < hi \<Longrightarrow> P j = Q j"
  shows "first_index P lo hi = first_index Q lo hi"
proof (cases "first_index Q lo hi")
  case None
  then have "first_index P lo hi = None" using assms by (simp add: first_index_None)
  with None show ?thesis by simp
next
  case (Some i)
  then have "first_index P lo hi = Some i" using assms by (simp add: first_index_Some)
  with Some show ?thesis by simp
qed

section \<open>Little-endian bytes\<close>

fun le_bytes :: "nat \<Rightarrow> 'a::len word \<Rightarrow> u8 list" where
  "le_bytes 0 v = []"
| "le_bytes (Suc n) v = ucast v # le_bytes n (drop_bit 8 v)"

fun le_word :: "u8 list \<Rightarrow> 'a::len word" where
  "le_word [] = 0"
| "le_word (b # bs) = ucast b OR push_bit 8 (le_word bs)"

lemma length_le_bytes [simp]: "length (le_bytes n v) = n"
  by (induction n arbitrary: v) auto

lemma le_word_le_bytes_take: "le_word (le_bytes n v) = take_bit (8 * n) (v :: 'a::len word)"
proof (induction n arbitrary: v)
  case 0
  then show ?case by simp
next
  case (Suc n)
  show ?case
    unfolding le_bytes.simps le_word.simps Suc.IH
    by (rule bit_word_eqI) (auto simp: bit_simps)
qed

lemma take_bit_word_full: "LENGTH('a) \<le> n \<Longrightarrow> take_bit n (v :: 'a::len word) = v"
  by (rule bit_word_eqI) (auto simp: bit_simps)

lemma le_word_le_bytes [simp]:
  "LENGTH('a) \<le> 8 * n \<Longrightarrow> le_word (le_bytes n v) = (v :: 'a::len word)"
  by (simp add: le_word_le_bytes_take take_bit_word_full)

lemma le_word_bits_high:
  "8 * length bs \<le> n \<Longrightarrow> \<not> bit (le_word bs :: 'a::len word) n"
  by (induction bs arbitrary: n) (auto simp: bit_simps dest: bit_imp_le_length)

lemma le_bytes_le_word:
  "8 * length bs \<le> LENGTH('a) \<Longrightarrow> le_bytes (length bs) (le_word bs :: 'a::len word) = bs"
proof (induction bs)
  case Nil
  then show ?case by simp
next
  case (Cons b bs)
  have "ucast (ucast b OR push_bit 8 (le_word bs) :: 'a word) = b"
    using Cons.prems by (intro bit_word_eqI) (auto simp: bit_simps)
  moreover have "drop_bit 8 (ucast b OR push_bit 8 (le_word bs) :: 'a word) = le_word bs"
  proof (rule bit_word_eqI)
    fix n assume "n < LENGTH('a)"
    have "bit (le_word bs :: 'a word) n \<Longrightarrow> 8 + n < LENGTH('a)"
      using Cons.prems le_word_bits_high [of bs n] by force
    then show "bit (drop_bit 8 (ucast b OR push_bit 8 (le_word bs) :: 'a word)) n = bit (le_word bs :: 'a word) n"
      by (auto simp: bit_simps dest: bit_imp_le_length)
  qed
  ultimately show ?case using Cons by simp
qed

section \<open>Byte-addressed memory\<close>

type_synonym memory = "u64 \<Rightarrow> u8"

text \<open>
  \<open>store_bytes m a bs\<close> writes the bytes one after the other from address \<open>a\<close> on, and
  \<open>load_bytes m a n\<close> reads \<open>n\<close> of them. An \<open>n\<close>-byte integer access is the same on the
  little-endian bytes of the integer.
\<close>

fun store_bytes :: "memory \<Rightarrow> u64 \<Rightarrow> u8 list \<Rightarrow> memory" where
  "store_bytes m a [] = m"
| "store_bytes m a (b # bs) = store_bytes (m(a := b)) (a + 1) bs"

definition load_bytes :: "memory \<Rightarrow> u64 \<Rightarrow> nat \<Rightarrow> u8 list" where
  "load_bytes m a n = map (\<lambda>i. m (a + of_nat i)) [0..<n]"

definition load16 :: "memory \<Rightarrow> u64 \<Rightarrow> u16" where
  "load16 m a = le_word (load_bytes m a 2)"

definition load32 :: "memory \<Rightarrow> u64 \<Rightarrow> u32" where
  "load32 m a = le_word (load_bytes m a 4)"

definition load64 :: "memory \<Rightarrow> u64 \<Rightarrow> u64" where
  "load64 m a = le_word (load_bytes m a 8)"

definition store64 :: "memory \<Rightarrow> u64 \<Rightarrow> u64 \<Rightarrow> memory" where
  "store64 m a v = store_bytes m a (le_bytes 8 v)"

lemma length_load_bytes [simp]: "length (load_bytes m a n) = n"
  by (simp add: load_bytes_def)

lemma nth_load_bytes [simp]: "i < n \<Longrightarrow> load_bytes m a n ! i = m (a + of_nat i)"
  by (simp add: load_bytes_def)

lemma unat_minus_one_step:
  fixes x a :: u64
  assumes "x \<noteq> a"
  shows "unat (x - a) = Suc (unat (x - (a + 1)))"
proof -
  have "x - a = (x - (a + 1)) + 1" by simp
  moreover have "(x - (a + 1)) + 1 \<noteq> 0" using assms by simp
  ultimately show ?thesis by (metis add.commute unatSuc)
qed

text \<open>What memory holds after a run of byte stores, at every address.\<close>

lemma store_bytes_apply:
  "length bs \<le> 2 ^ 64 \<Longrightarrow>
     store_bytes m a bs x = (if unat (x - a) < length bs then bs ! unat (x - a) else m x)"
proof (induction bs arbitrary: m a)
  case Nil
  then show ?case by simp
next
  case (Cons b bs)
  then have IH: "store_bytes (m(a := b)) (a + 1) bs x =
      (if unat (x - (a + 1)) < length bs then bs ! unat (x - (a + 1)) else (m(a := b)) x)"
    by simp
  show ?case
  proof (cases "x = a")
    case True
    have "unat (x - (a + 1)) = 2 ^ 64 - 1"
      using True by (simp add: unsigned_minus_1_eq_mask mask_eq_exp_minus_1)
    with True IH Cons.prems show ?thesis by simp
  next
    case False
    with IH show ?thesis by (simp add: unat_minus_one_step)
  qed
qed

lemma load_store_bytes_same [mem_simps]:
  assumes "n = length bs" and "n \<le> 2 ^ 64"
  shows "load_bytes (store_bytes m a bs) a n = bs"
proof (rule nth_equalityI)
  show "length (load_bytes (store_bytes m a bs) a n) = length bs" using assms by simp
next
  fix i assume i: "i < length (load_bytes (store_bytes m a bs) a n)"
  then have "unat (of_nat i :: u64) = i" using assms by (simp add: unat_of_nat)
  with i assms show "load_bytes (store_bytes m a bs) a n ! i = bs ! i"
    by (simp add: store_bytes_apply)
qed

lemma load_bytes_cong:
  "(\<And>i. i < n \<Longrightarrow> m (a + of_nat i) = m' (a + of_nat i)) \<Longrightarrow> load_bytes m a n = load_bytes m' a n"
  by (simp add: load_bytes_def)

lemma load64_store64_same [mem_simps, simp]: "load64 (store64 m a v) a = v"
  by (simp add: load64_def store64_def load_store_bytes_same)

section \<open>Pages\<close>

abbreviation PAGE_SIZE :: u64 where
  "PAGE_SIZE \<equiv> 4096"

abbreviation page_of :: "u64 \<Rightarrow> nat" where
  "page_of a \<equiv> unat a div 4096"

abbreviation page_aligned :: "u64 \<Rightarrow> bool" where
  "page_aligned a \<equiv> 4096 dvd unat a"

definition align_down :: "u64 \<Rightarrow> u64" where
  "align_down value = value AND NOT (PAGE_SIZE - 1)"

definition align_up :: "u64 \<Rightarrow> u64" where
  "align_up value = (value + PAGE_SIZE - 1) AND NOT (PAGE_SIZE - 1)"

text \<open>The addresses \<open>for (a = lo; a < hi; a += PAGE_SIZE)\<close> visits.\<close>

definition page_range :: "u64 \<Rightarrow> u64 \<Rightarrow> u64 list" where
  "page_range lo hi = map (\<lambda>i. lo + of_nat i * PAGE_SIZE) [0..<(unat hi - unat lo + 4095) div 4096]"

lemma page_mask: "(4095 :: u64) = mask 12"
  by (simp add: mask_eq_exp_minus_1)

lemma page_offset_zero_iff [page_simps]: "(a :: u64) AND 4095 = 0 \<longleftrightarrow> page_aligned a"
  using and_mask_dvd_nat [of 12 a] by (simp add: page_mask)

lemma unat_align_down [page_simps]: "unat (align_down a) = page_of a * 4096"
proof -
  have "align_down a = push_bit 12 (drop_bit 12 a)"
    unfolding align_down_def by (simp add: page_mask) (rule bit_word_eqI, auto simp: bit_simps)
  moreover have "push_bit 12 (drop_bit 12 a) = a - take_bit 12 a"
    by (metis add_diff_cancel_right' bits_ident)
  moreover have tb: "unat (take_bit 12 a) = unat a mod 4096"
    by (simp only: unsigned_take_bit_eq) (simp add: take_bit_eq_mod)
  moreover have "take_bit 12 a \<le> a"
    unfolding word_le_nat_alt tb by simp
  ultimately show ?thesis
    by (simp add: unat_sub minus_mod_eq_div_mult)
qed

lemma align_down_le: "unat (align_down a) \<le> unat a"
  by (simp add: unat_align_down)

lemma page_aligned_align_down [page_simps, simp]: "page_aligned (align_down a)"
  by (simp add: unat_align_down)

lemma align_up_align_down: "align_up a = align_down (a + 4095)"
  by (simp add: align_up_def align_down_def add.commute)

lemma page_aligned_align_up [page_simps, simp]: "page_aligned (align_up a)"
  by (simp add: align_up_align_down)

lemma unat_align_up:
  "unat a + 4095 < 2 ^ 64 \<Longrightarrow> unat (align_up a) = (unat a + 4095) div 4096 * 4096"
  by (simp add: align_up_align_down unat_align_down unat_word_ariths)

lemma align_down_idem [simp]: "page_aligned a \<Longrightarrow> align_down a = a"
  by (simp add: word_unat_eq_iff unat_align_down)

lemma unat_less_u64: "unat (a :: u64) < 2 ^ 64"
  using unsigned_less [of a] by simp

lemma unat_less_u8: "unat (w :: u8) < 256"
  using unsigned_less [of w] by simp

lemma unat_less_step:
  assumes "(i :: u64) < n"
  shows "2 ^ 64 - unat (i + 1) < 2 ^ 64 - unat i"
proof -
  from assms have "i \<noteq> - 1" by (metis word_order.extremum_strict)
  then have "unat (i + 1) = Suc (unat i)"
    by (metis add.commute unatSuc add_eq_0_iff2)
  with unat_less_u64 [of "i + 1"] show ?thesis by linarith
qed

lemma unat_less_u32: "unat (x :: u32) < 2 ^ 32"
  using unsigned_less [of x] by simp

lemma unat_ucast_32_64 [simp]: "unat (ucast (x :: u32) :: u64) = unat x"
  using unat_less_u32 [of x] by (simp add: unsigned_ucast_eq take_bit_nat_eq_self_iff)

lemma unat_of_nat_u64: "n < 2 ^ 64 \<Longrightarrow> unat (of_nat n :: u64) = n"
  by (simp add: unat_of_nat)

lemma unat_page_range_elem:
  fixes lo hi :: u64
  assumes "i < (unat hi - unat lo + 4095) div 4096"
  shows "unat (lo + of_nat i * PAGE_SIZE :: u64) = unat lo + i * 4096" and "unat lo + i * 4096 < unat hi"
proof -
  from assms have "i * 4096 + 4096 \<le> unat hi - unat lo + 4095" by linarith
  then show lt: "unat lo + i * 4096 < unat hi" by linarith
  then have "unat lo + i * 4096 < 2 ^ 64"
    using unat_less_u64 [of hi] by linarith
  then show "unat (lo + of_nat i * PAGE_SIZE :: u64) = unat lo + i * 4096"
    by (simp add: unat_word_ariths unat_of_nat mod_simps)
qed

lemma set_page_range:
  "a \<in> set (page_range lo hi) \<longleftrightarrow> (\<exists>i. unat a = unat lo + i * 4096 \<and> unat a < unat hi)"
  (is "?L \<longleftrightarrow> ?R")
proof
  assume ?L
  then obtain i where "i < (unat hi - unat lo + 4095) div 4096" and "a = lo + of_nat i * PAGE_SIZE"
    unfolding page_range_def by (simp only: set_map set_upt atLeast0LessThan image_iff) blast
  with unat_page_range_elem [of i hi lo] show ?R by auto
next
  assume ?R
  then obtain i where i: "unat a = unat lo + i * 4096" "unat a < unat hi" by blast
  then have "i < (unat hi - unat lo + 4095) div 4096" by (simp add: less_eq_div_iff_mult_less_eq Suc_le_eq [symmetric])
  moreover from this have "a = lo + of_nat i * PAGE_SIZE"
    using i unat_page_range_elem(1) [of i hi lo] by (simp add: word_unat_eq_iff)
  ultimately show ?L by (auto simp: page_range_def)
qed

text \<open>
  The list is what the C loop visits: it obeys the loop's own unfolding, as long as the counter
  cannot wrap past \<open>hi\<close>.
\<close>

lemma div_step:
  fixes l h :: nat
  assumes "l < h"
  shows "(h - l + 4095) div 4096 = Suc ((h - (l + 4096) + 4095) div 4096)"
proof (cases "l + 4096 \<le> h")
  case True
  then have "h - l + 4095 = (h - (l + 4096) + 4095) + 4096" by linarith
  then show ?thesis by (simp only: div_add_self2)
next
  case False
  with assms have "(h - l + 4095) div 4096 = 1" by (intro div_nat_eqI) auto
  with False show ?thesis by simp
qed

lemma page_range_unfold:
  assumes "unat hi + 4096 \<le> 2 ^ 64"
  shows "page_range lo hi = (if lo < hi then lo # page_range (lo + PAGE_SIZE) hi else [])"
proof (cases "lo < hi")
  case False
  then have "unat hi - unat lo = 0" by (simp add: word_less_nat_alt)
  with False show ?thesis by (simp add: page_range_def)
next
  case True
  then have lt: "unat lo < unat hi" by (simp add: word_less_nat_alt)
  then have "unat lo + unat (4096 :: u64) < 2 ^ LENGTH(64)" using assms by simp
  then have "unat (lo + 4096) = unat lo + unat (4096 :: u64)"
    by (rule iffD1 [OF unat_add_lem])
  then have nx: "unat (lo + 4096) = unat lo + 4096" by simp
  define n where "n = (unat hi - unat (lo + 4096) + 4095) div 4096"
  have n: "(unat hi - unat lo + 4095) div 4096 = Suc n"
    unfolding n_def nx using lt by (rule div_step)
  have u: "[0..<Suc n] = 0 # map Suc [0..<n]"
    by (simp add: upt_conv_Cons map_Suc_upt del: upt_Suc)
  have "page_range lo hi = lo # map (\<lambda>i. lo + of_nat (Suc i) * PAGE_SIZE) [0..<n]"
    unfolding page_range_def n u by simp
  moreover have "map (\<lambda>i. lo + of_nat (Suc i) * PAGE_SIZE) [0..<n] = page_range (lo + PAGE_SIZE) hi"
    unfolding page_range_def n_def [symmetric] by (simp add: distrib_right add.assoc)
  ultimately show ?thesis using True by simp
qed

lemma page_range_aligned:
  "page_aligned lo \<Longrightarrow> a \<in> set (page_range lo hi) \<Longrightarrow> page_aligned a"
  by (auto simp: set_page_range)

end
