(* ===== verification/Console.thy ===== *)
theory Console
  imports Prelude
begin

text \<open>
  The kernel's diagnostic output and its number formatting. \<open>terminal_print\<close> and \<open>fb_present\<close>
  are recorded as a log of display calls: what the terminal and the framebuffer make of them is
  theirs, what a component asks for is part of its behaviour. The decimal and hexadecimal
  printers (\<open>print_decimal\<close> of memory.c and pmm.c, \<open>print_uint\<close> of shell.c, \<open>print_hex64\<close> of
  memory.c and acpi.c, \<open>vmm_print_hex\<close>, \<open>term_puthex64\<close> of idt.c) are shown to print the
  number they are given.
\<close>

datatype display_call = TerminalPrint string | TerminalPutchar char | FbPresent

record console =
  display :: "display_call list"

definition terminal_print :: "string \<Rightarrow> 'a console_scheme \<Rightarrow> 'a console_scheme" where
  "terminal_print s c = c\<lparr>display := display c @ [TerminalPrint s]\<rparr>"

definition terminal_putchar :: "char \<Rightarrow> 'a console_scheme \<Rightarrow> 'a console_scheme" where
  "terminal_putchar ch c = c\<lparr>display := display c @ [TerminalPutchar ch]\<rparr>"

definition fb_present :: "'a console_scheme \<Rightarrow> 'a console_scheme" where
  "fb_present c = c\<lparr>display := display c @ [FbPresent]\<rparr>"

section \<open>Decimal\<close>

definition digit_char :: "nat \<Rightarrow> char" where
  "digit_char d = char_of (48 + d)"

text \<open>
  \<open>while (value > 0) { buffer[--i] = '0' + value % 10; value /= 10; }\<close>: the digits are
  put in front of what the buffer holds already.
\<close>

fun decimal_loop :: "nat \<Rightarrow> string \<Rightarrow> string" where
  "decimal_loop value buffer =
     (if value = 0 then buffer
      else decimal_loop (value div 10) (digit_char (value mod 10) # buffer))"

declare decimal_loop.simps [simp del]

definition print_decimal :: "u64 \<Rightarrow> 'a console_scheme \<Rightarrow> 'a console_scheme" where
  "print_decimal value c =
     (if value = 0 then terminal_print ''0'' c
      else terminal_print (decimal_loop (unat value) []) c)"

text \<open>
  \<open>print_uint\<close> of shell.c stores the digits from the low end up (\<open>buf[i++]\<close>) and then puts
  them out from the top of the buffer down.
\<close>

fun print_uint_digits :: "nat \<Rightarrow> string \<Rightarrow> string" where
  "print_uint_digits value buf =
     (if value = 0 then buf
      else print_uint_digits (value div 10) (buf @ [digit_char (value mod 10)]))"

declare print_uint_digits.simps [simp del]

definition print_uint :: "u64 \<Rightarrow> 'a console_scheme \<Rightarrow> 'a console_scheme" where
  "print_uint value c =
     (if value = 0 then terminal_putchar (CHR ''0'') c
      else fold terminal_putchar (rev (print_uint_digits (unat value) [])) c)"

text \<open>Reading a decimal numeral back.\<close>

definition char_digit :: "char \<Rightarrow> nat" where
  "char_digit ch = of_char ch - 48"

definition decimal_value :: "string \<Rightarrow> nat" where
  "decimal_value s = foldl (\<lambda>v ch. 10 * v + char_digit ch) 0 s"

lemma char_digit_digit_char [simp]: "d < 10 \<Longrightarrow> char_digit (digit_char d) = d"
  by (simp add: char_digit_def digit_char_def)

lemma foldl_decimal_shift:
  "foldl (\<lambda>v ch. 10 * v + char_digit ch) a s =
     a * 10 ^ length s + foldl (\<lambda>v ch. 10 * v + char_digit ch) 0 s"
proof (induction s arbitrary: a)
  case Nil
  then show ?case by simp
next
  case (Cons ch s)
  show ?case
    using Cons.IH [of "10 * a + char_digit ch"] Cons.IH [of "char_digit ch"]
    by (simp add: algebra_simps)
qed

lemma decimal_value_Cons [simp]:
  "decimal_value (ch # s) = char_digit ch * 10 ^ length s + decimal_value s"
  unfolding decimal_value_def by (simp add: foldl_decimal_shift [of "char_digit ch"])

lemma decimal_loop_value:
  "decimal_value (decimal_loop v s) = v * 10 ^ length s + decimal_value s"
proof (induction v s rule: decimal_loop.induct)
  case (1 v s)
  show ?case
  proof (cases "v = 0")
    case True
    then show ?thesis by (simp add: decimal_loop.simps)
  next
    case False
    have "v * 10 ^ length s = (v div 10 * 10 + v mod 10) * 10 ^ length s"
      by (simp only: div_mult_mod_eq)
    also have "\<dots> = v mod 10 * 10 ^ length s + 10 * (v div 10 * 10 ^ length s)"
      by (simp only: distrib_right)
    finally show ?thesis
      using False 1 by (simp add: decimal_loop.simps [of v s])
  qed
qed

lemma decimal_loop_append: "decimal_loop v (s @ t) = decimal_loop v s @ t"
proof (induction v s rule: decimal_loop.induct)
  case (1 v s)
  then show ?case by (simp add: decimal_loop.simps [of v])
qed

lemma print_uint_digits_rev: "rev (print_uint_digits v s) = decimal_loop v (rev s)"
proof (induction v s rule: print_uint_digits.induct)
  case (1 v s)
  then show ?case
    by (simp add: print_uint_digits.simps [of v s] decimal_loop.simps [of v "rev s"])
qed

lemma decimal_loop_chars: "set (decimal_loop v s) \<subseteq> digit_char ` {0..<10} \<union> set s"
proof (induction v s rule: decimal_loop.induct)
  case (1 v s)
  show ?case
  proof (cases "v = 0")
    case True
    then show ?thesis by (simp add: decimal_loop.simps [of 0 s])
  next
    case False
    have "digit_char (v mod 10) \<in> digit_char ` {0..<10}" by simp
    with False 1 show ?thesis by (auto simp: decimal_loop.simps [of v s])
  qed
qed

section \<open>Hexadecimal\<close>

definition hex_char :: "nat \<Rightarrow> char" where
  "hex_char d = ''0123456789ABCDEF'' ! d"

text \<open>\<open>for (i = 0; i < 16; i++) { buffer[17 - i] = hex[value & 0xF]; value >>= 4; }\<close>\<close>

fun hex_loop :: "nat \<Rightarrow> u64 \<Rightarrow> string \<Rightarrow> string" where
  "hex_loop 0 value buffer = buffer"
| "hex_loop (Suc n) value buffer =
     hex_loop n (drop_bit 4 value) (hex_char (unat (value AND 0xF)) # buffer)"

definition print_hex64 :: "u64 \<Rightarrow> 'a console_scheme \<Rightarrow> 'a console_scheme" where
  "print_hex64 value c = terminal_print (''0x'' @ hex_loop 16 value []) c"

definition hex_digit :: "char \<Rightarrow> nat" where
  "hex_digit ch = (let n = of_char ch in if n < 58 then n - 48 else n - 55)"

definition hex_value :: "string \<Rightarrow> nat" where
  "hex_value s = foldl (\<lambda>v ch. 16 * v + hex_digit ch) 0 s"

lemma hex_digit_hex_char: "d < 16 \<Longrightarrow> hex_digit (hex_char d) = d"
proof -
  have "\<forall>d \<in> {0..<16}. hex_digit (hex_char d) = d" by code_simp
  then show "d < 16 \<Longrightarrow> hex_digit (hex_char d) = d" by simp
qed

lemma foldl_hex_shift:
  "foldl (\<lambda>v ch. 16 * v + hex_digit ch) a s =
     a * 16 ^ length s + foldl (\<lambda>v ch. 16 * v + hex_digit ch) 0 s"
proof (induction s arbitrary: a)
  case Nil
  then show ?case by simp
next
  case (Cons ch s)
  show ?case
    using Cons.IH [of "16 * a + hex_digit ch"] Cons.IH [of "hex_digit ch"]
    by (simp add: algebra_simps)
qed

lemma hex_value_Cons [simp]:
  "hex_value (ch # s) = hex_digit ch * 16 ^ length s + hex_value s"
  unfolding hex_value_def by (simp add: foldl_hex_shift [of "hex_digit ch"])

lemma unat_nibble: "unat (v AND 0xF :: u64) = unat v mod 16"
proof -
  have "(0xF :: u64) = mask 4" by (simp add: mask_eq_exp_minus_1)
  then have "v AND 0xF = take_bit 4 v" by (simp only: take_bit_eq_mask)
  then show ?thesis by (simp only: unsigned_take_bit_eq) (simp add: take_bit_eq_mod)
qed

lemma unat_drop_nibble: "unat (drop_bit 4 v :: u64) = unat v div 16"
  by (simp only: unat_drop_bit_eq) (simp add: drop_bit_eq_div)

lemma hex_loop_value:
  "hex_value (hex_loop n v s) = (unat v mod 16 ^ n) * 16 ^ length s + hex_value s"
proof (induction n arbitrary: v s)
  case 0
  then show ?case by simp
next
  case (Suc n)
  have "hex_digit (hex_char (unat v mod 16)) = unat v mod 16" by (simp add: hex_digit_hex_char)
  moreover have "unat v mod 16 ^ Suc n = unat v mod 16 + 16 * (unat v div 16 mod 16 ^ n)"
    by (simp add: mod_mult2_eq)
  ultimately show ?case
    by (simp only: hex_loop.simps Suc.IH unat_nibble unat_drop_nibble hex_value_Cons)
       (simp add: algebra_simps)
qed

section \<open>Properties\<close>

lemma decimal_loop_length: "v < 10 ^ n \<Longrightarrow> length (decimal_loop v s) \<le> n + length s"
proof (induction v s arbitrary: n rule: decimal_loop.induct)
  case (1 v s)
  show ?case
  proof (cases "v = 0")
    case True
    then show ?thesis by (simp add: decimal_loop.simps [of 0 s])
  next
    case False
    then obtain k where k: "n = Suc k" using "1.prems" by (cases n) auto
    then have "v div 10 < 10 ^ k" using "1.prems" by (simp add: div_less_iff_less_mult mult.commute)
    from "1.IH" [OF False this] k False show ?thesis by (simp add: decimal_loop.simps [of v s])
  qed
qed

lemma digit_char_inj: "d < 10 \<Longrightarrow> e < 10 \<Longrightarrow> digit_char d = digit_char e \<Longrightarrow> d = e"
  by (metis char_digit_digit_char)

lemma decimal_loop_head: "v \<noteq> 0 \<Longrightarrow> \<exists>d rest. decimal_loop v s = digit_char d # rest \<and> 0 < d \<and> d < 10"
proof (induction v s rule: decimal_loop.induct)
  case (1 v s)
  show ?case
  proof (cases "v div 10 = 0")
    case True
    with "1.prems" have "decimal_loop v s = digit_char (v mod 10) # s" "0 < v mod 10"
      by (simp_all add: decimal_loop.simps [of v s] decimal_loop.simps [of 0])
    then show ?thesis by auto
  next
    case False
    with 1 show ?thesis by (simp add: decimal_loop.simps [of v s])
  qed
qed

text \<open>The numeral of a 64-bit value, as the printers build it.\<close>

definition decimal_text :: "u64 \<Rightarrow> string" where
  "decimal_text v = (if v = 0 then ''0'' else decimal_loop (unat v) [])"

lemma print_decimal_text: "print_decimal v c = terminal_print (decimal_text v) c"
  by (simp add: print_decimal_def decimal_text_def)

lemma decimal_text_value: "decimal_value (decimal_text v) = unat v"
proof (cases "v = 0")
  case True
  have "decimal_value ''0'' = 0" by code_simp
  with True show ?thesis by (simp add: decimal_text_def)
next
  case False
  then show ?thesis by (simp add: decimal_text_def decimal_loop_value) (simp add: decimal_value_def)
qed

lemma decimal_text_length: "length (decimal_text v) \<le> 20"
proof -
  have "unat v < 10 ^ 20" using unat_less_u64 [of v] by simp
  from decimal_loop_length [OF this, of "[]"] show ?thesis by (simp add: decimal_text_def)
qed

lemma decimal_text_chars: "set (decimal_text v) \<subseteq> digit_char ` {0..<10}"
proof -
  have "digit_char 0 = CHR ''0''" by code_simp
  then have "CHR ''0'' \<in> digit_char ` {0..<10}" by (metis atLeastLessThan_iff image_eqI le0 zero_less_numeral)
  then show ?thesis using decimal_loop_chars [of "unat v" "[]"] by (simp add: decimal_text_def)
qed

lemma fold_putchar:
  "fold terminal_putchar s c = c\<lparr>display := display c @ map TerminalPutchar s\<rparr>"
  by (induction s arbitrary: c) (simp_all add: terminal_putchar_def)

text \<open>\<open>print_decimal\<close> prints, in one call, a string of decimal digits that denotes the 64-bit
  value it is given, without a leading zero unless the value is 0, and of at most 20 characters,
  so that filling the 21-byte buffer from its end never runs past its start; \<open>print_uint\<close> puts
  out the same characters one by one.\<close>

theorem print_decimal_correct:
  shows "\<exists>t. print_decimal v c = c\<lparr>display := display c @ [TerminalPrint t]\<rparr> \<and>
     print_uint v c = c\<lparr>display := display c @ map TerminalPutchar t\<rparr> \<and>
     decimal_value t = unat v \<and> set t \<subseteq> digit_char ` {0..<10} \<and> t \<noteq> [] \<and> length t \<le> 20 \<and>
     (hd t = CHR ''0'' \<longleftrightarrow> v = 0)"
proof (intro exI [of _ "decimal_text v"] conjI)
  show "print_decimal v c = c\<lparr>display := display c @ [TerminalPrint (decimal_text v)]\<rparr>"
    by (simp add: print_decimal_text terminal_print_def)
  show "print_uint v c = c\<lparr>display := display c @ map TerminalPutchar (decimal_text v)\<rparr>"
    by (simp add: print_uint_def decimal_text_def fold_putchar print_uint_digits_rev)
       (simp add: terminal_putchar_def)
  have z: "digit_char 0 = CHR ''0''" by code_simp
  have zi: "d < 10 \<Longrightarrow> digit_char d = CHR ''0'' \<Longrightarrow> d = 0" for d
    using digit_char_inj [of d 0] by (simp add: z)
  show "hd (decimal_text v) = CHR ''0'' \<longleftrightarrow> v = 0" and "decimal_text v \<noteq> []"
    using decimal_loop_head [of "unat v" "[]"] digit_char_inj [of _ 0]
    by (auto simp: decimal_text_def unat_eq_zero dest!: zi)
qed (rule decimal_text_value decimal_text_chars decimal_text_length)+

text \<open>\<open>print_hex64\<close> prints \<open>0x\<close> and sixteen hexadecimal digits whose value is the argument.\<close>

theorem print_hex64_correct:
  shows "\<exists>t. print_hex64 v c = c\<lparr>display := display c @ [TerminalPrint (''0x'' @ t)]\<rparr> \<and>
     length t = 16 \<and> hex_value t = unat v"
proof -
  have len: "length (hex_loop n w s) = n + length s" for n w s
    by (induction n arbitrary: w s) auto
  have "hex_value (hex_loop 16 v []) = unat v"
    using unat_less_u64 [of v] by (simp add: hex_loop_value) (simp add: hex_value_def)
  then show ?thesis by (intro exI [of _ "hex_loop 16 v []"]) (simp add: print_hex64_def terminal_print_def len)
qed

end
