(* ===== verification/Page_Allocator.thy ===== *)
theory Page_Allocator
  imports Prelude
begin

text \<open>
  The contract between the physical page allocator and its clients (the page-table code of
  \<open>src/memory/vmm.c\<close>, the heap of \<open>src/memory/kmalloc.c\<close>, the loaders): an operation that takes
  one page out of a pool, one that gives a page back, and the pool itself as a set of page
  numbers. Address 0 is the failure value, so page 0 is never in the pool.
\<close>

text \<open>Taking \<open>n\<close> pages one after the other.\<close>

fun alloc_many :: "('s \<Rightarrow> u64 \<times> 's) \<Rightarrow> nat \<Rightarrow> 's \<Rightarrow> u64 list \<times> 's" where
  "alloc_many alloc 0 s = ([], s)"
| "alloc_many alloc (Suc n) s =
     (let (a, s1) = alloc s; (as, s2) = alloc_many alloc n s1 in (a # as, s2))"

locale page_allocator =
  fixes alloc :: "'s \<Rightarrow> u64 \<times> 's"
    and release :: "u64 \<Rightarrow> 's \<Rightarrow> 's"
    and avail :: "'s \<Rightarrow> nat set"
    and inv :: "'s \<Rightarrow> bool"
    and limit :: nat
  assumes avail_bounds: "inv s \<Longrightarrow> p \<in> avail s \<Longrightarrow> 0 < p \<and> p < limit"
    and alloc_inv: "inv s \<Longrightarrow> inv (snd (alloc s))"
    and alloc_empty: "inv s \<Longrightarrow> avail s = {} \<Longrightarrow> alloc s = (0, s)"
    and alloc_takes: "inv s \<Longrightarrow> avail s \<noteq> {} \<Longrightarrow>
      page_aligned (fst (alloc s)) \<and> page_of (fst (alloc s)) \<in> avail s \<and>
      avail (snd (alloc s)) = avail s - {page_of (fst (alloc s))}"
    and release_inv: "inv s \<Longrightarrow> inv (release a s)"
    and release_avail: "inv s \<Longrightarrow> page_aligned a \<Longrightarrow> 0 < page_of a \<Longrightarrow> page_of a < limit \<Longrightarrow>
      avail (release a s) = insert (page_of a) (avail s)"
begin

lemma avail_finite: "inv s \<Longrightarrow> finite (avail s)"
  by (rule finite_subset [of _ "{..<limit}"]) (blast dest: avail_bounds, rule finite_lessThan)

lemma alloc_nonzero:
  assumes "inv s" and "avail s \<noteq> {}"
  shows "fst (alloc s) \<noteq> 0"
proof
  assume "fst (alloc s) = 0"
  then have "0 \<in> avail s" using alloc_takes [OF assms] by simp
  then show False using avail_bounds [OF assms(1), of 0] by simp
qed

lemma alloc_zero_iff: "inv s \<Longrightarrow> fst (alloc s) = 0 \<longleftrightarrow> avail s = {}"
  by (metis alloc_nonzero alloc_empty fst_conv)

lemma alloc_card:
  assumes "inv s" and "fst (alloc s) \<noteq> 0"
  shows "card (avail s) = Suc (card (avail (snd (alloc s))))"
proof -
  from assms have "avail s \<noteq> {}" by (simp add: alloc_zero_iff)
  then have "page_of (fst (alloc s)) \<in> avail s"
    and "avail (snd (alloc s)) = avail s - {page_of (fst (alloc s))}"
    using alloc_takes [OF assms(1)] by simp_all
  then show ?thesis using avail_finite [OF assms(1)] by (simp add: card_Suc_Diff1 del: card_Diff_insert)
qed

text \<open>Giving back what was just taken restores the pool.\<close>

lemma release_alloc:
  assumes "inv s"
  shows "avail s \<noteq> {} \<Longrightarrow> avail (release (fst (alloc s)) (snd (alloc s))) = avail s"
proof -
  assume ne: "avail s \<noteq> {}"
  note a = alloc_takes [OF assms ne]
  then have b: "0 < page_of (fst (alloc s))" "page_of (fst (alloc s)) < limit"
    using avail_bounds [OF assms, of "page_of (fst (alloc s))"] by simp_all
  have "avail (release (fst (alloc s)) (snd (alloc s))) =
      insert (page_of (fst (alloc s))) (avail (snd (alloc s)))"
    using a b by (intro release_avail alloc_inv assms) simp_all
  with a show ?thesis by auto
qed

text \<open>Allocations between which nothing is released never overlap.\<close>

lemma alloc_many_fresh:
  assumes "inv s" and "n \<le> card (avail s)" and "alloc_many alloc n s = (as, s')"
  shows "inv s' \<and> length as = n \<and> distinct (map page_of as) \<and> page_of ` set as \<subseteq> avail s \<and>
     0 \<notin> set as \<and> (\<forall>a\<in>set as. page_aligned a) \<and> avail s' = avail s - page_of ` set as"
  using assms
proof (induction n arbitrary: s as s')
  case 0
  then show ?case by auto
next
  case (Suc n)
  obtain a s1 where a: "alloc s = (a, s1)" by force
  obtain as' s2 where r: "alloc_many alloc n s1 = (as', s2)" by force
  have eq: "as = a # as'" "s' = s2" using Suc.prems(3) by (auto simp: a r)
  have ne: "avail s \<noteq> {}" using Suc.prems by auto
  note t = alloc_takes [OF Suc.prems(1) ne, unfolded a fst_conv snd_conv]
  have nz: "a \<noteq> 0" using alloc_nonzero [OF Suc.prems(1) ne] by (simp add: a)
  have "inv s1" using alloc_inv [OF Suc.prems(1)] by (simp add: a)
  moreover have "n \<le> card (avail s1)"
    using alloc_card [OF Suc.prems(1)] nz Suc.prems(2) by (simp add: a)
  ultimately have "inv s2 \<and> length as' = n \<and> distinct (map page_of as') \<and> page_of ` set as' \<subseteq> avail s1 \<and>
     0 \<notin> set as' \<and> (\<forall>a\<in>set as'. page_aligned a) \<and> avail s2 = avail s1 - page_of ` set as'"
    using r by (rule Suc.IH)
  with t nz show ?case unfolding eq by auto
qed

text \<open>The pool is exhausted after exactly as many allocations as it has pages.\<close>

lemma alloc_many_exhausts:
  assumes "inv s" and "alloc_many alloc (card (avail s)) s = (as, s')"
  shows "avail s' = {} \<and> fst (alloc s') = 0"
proof -
  have f: "inv s'" "length as = card (avail s)" "distinct (map page_of as)" "page_of ` set as \<subseteq> avail s"
    "avail s' = avail s - page_of ` set as"
    using alloc_many_fresh [OF assms(1) le_refl assms(2)] by auto
  have "card (page_of ` set as) = card (avail s)"
    using f(2) distinct_card [OF f(3)] by simp
  then have "page_of ` set as = avail s"
    using f(4) avail_finite [OF assms(1)] by (intro card_subset_eq)
  then show ?thesis using f alloc_zero_iff by auto
qed

text \<open>Releasing is idempotent on the pool.\<close>

lemma release_twice:
  assumes "inv s" and "page_aligned a" and "0 < page_of a" and "page_of a < limit"
  shows "avail (release a (release a s)) = avail (release a s)"
  using assms by (simp add: release_avail release_inv)

end

end
