(* ===== verification/Pmm.thy ===== *)
theory Pmm
  imports Console Page_Allocator
begin

text \<open>
  The physical page allocator, \<open>src/memory/pmm.c\<close>: one bit per 4 KiB page of the first 4 GiB
  (set = used), the counter \<open>free_pages\<close>, and the operations on them. Page numbers are
  \<open>nat\<close> (they stay below \<open>MAX_PAGES\<close>); addresses, lengths and the two counters keep their
  64-bit width. The static array is a function from indices below \<open>BITMAP_SIZE\<close>.
\<close>

section \<open>State and bit operations\<close>

definition MAX_PHYSICAL_MEMORY :: u64 where
  "MAX_PHYSICAL_MEMORY = 4 * 1024 * 1024 * 1024"

definition MAX_PAGES :: nat where
  "MAX_PAGES = 1048576"

definition BITMAP_SIZE :: nat where
  "BITMAP_SIZE = MAX_PAGES div 8"

record pmm_state = console +
  page_bitmap :: "nat \<Rightarrow> u8"
  total_pages :: u64
  free_pages :: u64

definition page_mark_used :: "nat \<Rightarrow> pmm_state \<Rightarrow> pmm_state" where
  "page_mark_used page s = s\<lparr>page_bitmap := (page_bitmap s)
     (page div 8 := page_bitmap s (page div 8) OR push_bit (page mod 8) 1)\<rparr>"

definition page_mark_free :: "nat \<Rightarrow> pmm_state \<Rightarrow> pmm_state" where
  "page_mark_free page s = s\<lparr>page_bitmap := (page_bitmap s)
     (page div 8 := page_bitmap s (page div 8) AND NOT (push_bit (page mod 8) 1))\<rparr>"

definition page_is_used :: "nat \<Rightarrow> pmm_state \<Rightarrow> bool" where
  "page_is_used page s \<longleftrightarrow> page_bitmap s (page div 8) AND push_bit (page mod 8) 1 \<noteq> 0"

section \<open>Marking ranges\<close>

text \<open>The bodies of the two loops, and the loops over the pages of the clipped range.\<close>

definition release_if_used :: "u64 \<Rightarrow> pmm_state \<Rightarrow> pmm_state" where
  "release_if_used address s =
     (let page = page_of address in
      if page_is_used page s
      then (page_mark_free page s)\<lparr>free_pages := free_pages s + 1\<rparr> else s)"

definition reserve_if_free :: "u64 \<Rightarrow> pmm_state \<Rightarrow> pmm_state" where
  "reserve_if_free address s =
     (let page = page_of address in
      if \<not> page_is_used page s
      then (page_mark_used page s)\<lparr>free_pages := free_pages s - 1\<rparr> else s)"

definition mark_range_free :: "u64 \<Rightarrow> u64 \<Rightarrow> pmm_state \<Rightarrow> pmm_state" where
  "mark_range_free base len s =
     (let start = align_up base;
          end0 = align_down (base + len) in
      if start \<ge> MAX_PHYSICAL_MEMORY then s
      else
        (let end1 = (if end0 > MAX_PHYSICAL_MEMORY then MAX_PHYSICAL_MEMORY else end0) in
         fold release_if_used (page_range start end1) s))"

definition mark_range_used :: "u64 \<Rightarrow> u64 \<Rightarrow> pmm_state \<Rightarrow> pmm_state" where
  "mark_range_used base len s =
     (let start = align_down base;
          end0 = align_up (base + len) in
      if start \<ge> MAX_PHYSICAL_MEMORY then s
      else
        (let end1 = (if end0 > MAX_PHYSICAL_MEMORY then MAX_PHYSICAL_MEMORY else end0) in
         fold reserve_if_free (page_range start end1) s))"

section \<open>Initialisation from the Multiboot2 memory map\<close>

text \<open>
  The two nested pointer walks of \<open>pmm_init\<close>. They advance by sizes read from the boot
  information, so they need not end: \<open>None\<close> is a walk that runs forever.
\<close>

partial_function (option) mmap_entries ::
  "memory \<Rightarrow> u32 \<Rightarrow> u64 \<Rightarrow> u64 \<Rightarrow> pmm_state \<Rightarrow> pmm_state option" where
  "mmap_entries m entry_size entry_end entry_ptr s =
     (if entry_ptr < entry_end then
        mmap_entries m entry_size entry_end (entry_ptr + ucast entry_size)
          (if load32 m (entry_ptr + 16) = 1
           then mark_range_free (load64 m entry_ptr) (load64 m (entry_ptr + 8)) s else s)
      else Some s)"

partial_function (option) mb_tags :: "memory \<Rightarrow> u64 \<Rightarrow> u64 \<Rightarrow> pmm_state \<Rightarrow> pmm_state option" where
  "mb_tags m end ptr s =
     (if ptr < end then
        (let type = load32 m ptr; size = load32 m (ptr + 4) in
         if type = 0 then Some s
         else Option.bind
           (if type = 6
            then mmap_entries m (load32 m (ptr + 8)) (ptr + ucast size) (ptr + 16) s
            else Some s)
           (\<lambda>s'. mb_tags m end (ptr + ucast ((size + 7) AND NOT 7)) s'))
      else Some s)"

definition pmm_init ::
  "memory \<Rightarrow> u64 \<Rightarrow> u64 \<Rightarrow> u64 \<Rightarrow> u64 \<Rightarrow> u64 \<Rightarrow> pmm_state \<Rightarrow> pmm_state option" where
  "pmm_init m mb2_info kernel_start kernel_end fb_address fb_size s =
     (let s1 = s\<lparr>page_bitmap := fold (\<lambda>i bm. bm(i := 0xFF)) [0..<BITMAP_SIZE] (page_bitmap s),
                 total_pages := of_nat MAX_PAGES, free_pages := 0\<rparr>;
          total_size = load32 m mb2_info in
      map_option
        (\<lambda>s2. terminal_print ''PMM initialized.\<newline>''
               (mark_range_used fb_address fb_size
                 (mark_range_used mb2_info (ucast (load32 m mb2_info))
                   (mark_range_used kernel_start (kernel_end - kernel_start)
                     (mark_range_used 0 0x100000 s2)))))
        (mb_tags m (mb2_info + ucast total_size) (mb2_info + 8) s1))"

section \<open>Allocation\<close>

definition pmm_alloc_page :: "pmm_state \<Rightarrow> u64 \<times> pmm_state" where
  "pmm_alloc_page s =
     (case first_index (\<lambda>page. \<not> page_is_used page s) 0 (unat (total_pages s)) of
        Some page \<Rightarrow>
          (of_nat page * PAGE_SIZE, (page_mark_used page s)\<lparr>free_pages := free_pages s - 1\<rparr>)
      | None \<Rightarrow> (0, s))"

definition pmm_free_page :: "u64 \<Rightarrow> pmm_state \<Rightarrow> pmm_state" where
  "pmm_free_page address s =
     (if address = 0 then s
      else if address \<ge> MAX_PHYSICAL_MEMORY then s
      else if address AND (PAGE_SIZE - 1) \<noteq> 0 then s
      else release_if_used address s)"

definition pmm_get_total_pages :: "pmm_state \<Rightarrow> u64" where
  "pmm_get_total_pages s = total_pages s"

definition pmm_get_free_pages :: "pmm_state \<Rightarrow> u64" where
  "pmm_get_free_pages s = free_pages s"

definition pmm_print_stats :: "pmm_state \<Rightarrow> pmm_state" where
  "pmm_print_stats s =
     (let s = terminal_print ''\<newline>PMM Statistics\<newline>'' s;
          s = terminal_print ''Total pages: '' s;
          s = print_decimal (total_pages s) s;
          s = terminal_print ''\<newline>'' s;
          s = terminal_print ''Free pages:  '' s;
          s = print_decimal (free_pages s) s;
          s = terminal_print ''\<newline>'' s;
          s = terminal_print ''Free RAM:    '' s;
          s = print_decimal (free_pages s * PAGE_SIZE div (1024 * 1024)) s
      in terminal_print '' MB\<newline>'' s)"

text \<open>
  The scan of \<open>pmm_alloc_pages\<close>: \<open>consecutive\<close> free pages end just before \<open>page\<close>, the
  first of them is \<open>start_page\<close>.
\<close>

function run_scan :: "(nat \<Rightarrow> bool) \<Rightarrow> nat \<Rightarrow> nat \<Rightarrow> nat \<Rightarrow> nat \<Rightarrow> nat \<Rightarrow> nat option" where
  "run_scan used count npages page consecutive start_page =
     (if page < npages then
        (if \<not> used page then
           (let start_page = (if consecutive = 0 then page else start_page);
                consecutive = consecutive + 1 in
            if consecutive = count then Some start_page
            else run_scan used count npages (page + 1) consecutive start_page)
         else run_scan used count npages (page + 1) 0 start_page)
      else None)"
  by pat_completeness auto
termination
  by (relation "measure (\<lambda>(used, count, npages, page, consecutive, start_page). npages - page)") auto

declare run_scan.simps [simp del]

definition say :: "string \<Rightarrow> pmm_state \<Rightarrow> pmm_state" where
  "say msg s = fb_present (terminal_print msg s)"

definition pmm_alloc_pages :: "u64 \<Rightarrow> pmm_state \<Rightarrow> u64 \<times> pmm_state" where
  "pmm_alloc_pages count s0 =
     (let s = say ''PMM: alloc_pages entered\<newline>'' s0 in
      if count = 0 then (0, s)
      else
        (let s = say ''PMM: count valid\<newline>'' s in
         if count > free_pages s then (0, say ''PMM: insufficient pages\<newline>'' s)
         else
           (let s = say ''PMM: scanning bitmap\<newline>'' s in
            case run_scan (\<lambda>page. page_is_used page s) (unat count) (unat (total_pages s)) 0 0 0 of
              Some start_page \<Rightarrow>
                (let s = say ''PMM: free page found\<newline>'' s;
                     s = fold (\<lambda>i. page_mark_used (start_page + i)) [0..<unat count] s;
                     s = s\<lparr>free_pages := free_pages s - count\<rparr>
                 in (of_nat start_page * PAGE_SIZE, say ''PMM: allocation complete\<newline>'' s))
            | None \<Rightarrow> (0, say ''PMM: no pages found\<newline>'' s))))"


section \<open>Bits of the bitmap as a set of pages\<close>

lemma page_is_used_bit: "page_is_used page s \<longleftrightarrow> bit (page_bitmap s (page div 8)) (page mod 8)"
proof -
  have "push_bit (page mod 8) (1 :: u8) = 2 ^ (page mod 8)" by (simp add: push_bit_eq_mult)
  moreover have "w AND 2 ^ n \<noteq> 0 \<longleftrightarrow> bit w n" if "n < 8" for w :: u8 and n
    using that by (auto simp: and_exp_eq_0_iff_not_bit)
  ultimately show ?thesis by (simp add: page_is_used_def)
qed

lemma same_page_iff: "p div 8 = q div 8 \<and> p mod 8 = q mod 8 \<longleftrightarrow> p = (q :: nat)"
  by (metis div_mult_mod_eq)

lemma page_is_used_mark_used [simp]:
  "page_is_used p (page_mark_used q s) \<longleftrightarrow> p = q \<or> page_is_used p s"
  by (auto simp: page_is_used_bit page_mark_used_def bit_simps same_page_iff [of p q, symmetric])

lemma page_is_used_mark_free [simp]:
  "page_is_used p (page_mark_free q s) \<longleftrightarrow> p \<noteq> q \<and> page_is_used p s"
  by (auto simp: page_is_used_bit page_mark_free_def bit_simps same_page_iff [of p q, symmetric])

lemma mark_selectors [frame_simps, simp]:
  "total_pages (page_mark_used p s) = total_pages s"
  "free_pages (page_mark_used p s) = free_pages s"
  "total_pages (page_mark_free p s) = total_pages s"
  "free_pages (page_mark_free p s) = free_pages s"
  by (simp_all add: page_mark_used_def page_mark_free_def)

lemma page_is_used_update [simp]:
  "page_is_used p (s\<lparr>free_pages := n\<rparr>) = page_is_used p s"
  "page_is_used p (s\<lparr>total_pages := n\<rparr>) = page_is_used p s"
  by (simp_all add: page_is_used_def)

lemma display_irrelevant [frame_simps, simp]:
  "page_is_used p (terminal_print msg s) = page_is_used p s"
  "total_pages (terminal_print msg s) = total_pages s"
  "free_pages (terminal_print msg s) = free_pages s"
  "page_is_used p (say msg s) = page_is_used p s"
  "total_pages (say msg s) = total_pages s"
  "free_pages (say msg s) = free_pages s"
  by (simp_all add: page_is_used_def terminal_print_def say_def fb_present_def)

text \<open>The abstract view: the set of free pages.\<close>

definition free_set :: "pmm_state \<Rightarrow> nat set" where
  "free_set s = {p. p < MAX_PAGES \<and> \<not> page_is_used p s}"

lemma finite_free_set [simp]: "finite (free_set s)"
  by (simp add: free_set_def)

lemma free_set_bound: "p \<in> free_set s \<Longrightarrow> p < MAX_PAGES"
  by (simp add: free_set_def)

lemma card_free_set_le: "card (free_set s) \<le> MAX_PAGES"
  using card_mono [of "{..<MAX_PAGES}" "free_set s"] by (auto simp: free_set_def)

lemma free_set_mark_used: "free_set (page_mark_used p s) = free_set s - {p}"
  by (auto simp: free_set_def)

lemma free_set_mark_free: "p < MAX_PAGES \<Longrightarrow> free_set (page_mark_free p s) = insert p (free_set s)"
  by (auto simp: free_set_def)

lemma free_set_update [simp]:
  "free_set (s\<lparr>free_pages := n\<rparr>) = free_set s"
  "free_set (terminal_print msg s) = free_set s"
  "free_set (say msg s) = free_set s"
  by (simp_all add: free_set_def)

text \<open>
  The counter invariant, kept by every operation, and the full invariant, which adds that page 0
  is never given out: \<open>0\<close> is the failure value of the allocators.
\<close>

definition pmm_count :: "pmm_state \<Rightarrow> bool" where
  "pmm_count s \<longleftrightarrow> total_pages s = of_nat MAX_PAGES \<and> unat (free_pages s) = card (free_set s)"

definition pmm_inv :: "pmm_state \<Rightarrow> bool" where
  "pmm_inv s \<longleftrightarrow> pmm_count s \<and> page_is_used 0 s"

lemma unat_total_pages: "pmm_count s \<Longrightarrow> unat (total_pages s) = MAX_PAGES"
  by (simp add: pmm_count_def MAX_PAGES_def)

lemma unat_decrement: "unat (x :: u64) = Suc n \<Longrightarrow> unat (x - 1) = n"
  by (metis diff_Suc_1 nat.distinct(1) unat_eq_zero unat_minus_one)

lemma unat_increment: "unat (x :: u64) < 2 ^ 32 \<Longrightarrow> unat (x + 1) = Suc (unat x)"
  by (simp add: unat_word_ariths)

section \<open>Every operation keeps the counter exact\<close>

lemma free_set_release:
  assumes "page_of a < MAX_PAGES"
  shows "free_set (release_if_used a s) = insert (page_of a) (free_set s)"
  using assms by (auto simp: release_if_used_def Let_def free_set_def)

lemma free_set_reserve: "free_set (reserve_if_free a s) = free_set s - {page_of a}"
  by (auto simp: reserve_if_free_def Let_def free_set_def)

lemma pmm_count_release:
  assumes "pmm_count s" and "page_of a < MAX_PAGES"
  shows "pmm_count (release_if_used a s)"
proof (cases "page_is_used (page_of a) s")
  case True
  then have "page_of a \<notin> free_set s" by (simp add: free_set_def)
  moreover have "unat (free_pages s) < 2 ^ 32"
    using assms(1) card_free_set_le [of s] by (simp add: pmm_count_def MAX_PAGES_def)
  ultimately show ?thesis
    using assms True
    by (simp add: release_if_used_def pmm_count_def free_set_mark_free unat_increment)
next
  case False
  with assms show ?thesis by (simp add: release_if_used_def)
qed

lemma pmm_count_take:
  assumes "pmm_count s" and "p \<in> free_set s"
  shows "pmm_count ((page_mark_used p s)\<lparr>free_pages := free_pages s - 1\<rparr>)"
proof -
  have "unat (free_pages s) = Suc (card (free_set s - {p}))"
    using assms card_Suc_Diff1 [of "free_set s" p] by (simp add: pmm_count_def)
  then have "unat (free_pages s - 1) = card (free_set s - {p})" by (rule unat_decrement)
  with assms(1) show ?thesis by (simp add: pmm_count_def free_set_mark_used)
qed

lemma pmm_count_reserve:
  assumes "pmm_count s" and "page_of a < MAX_PAGES"
  shows "pmm_count (reserve_if_free a s)"
  using pmm_count_take [OF assms(1), of "page_of a"] assms
  by (auto simp: reserve_if_free_def Let_def free_set_def)

text \<open>Pages the clipped loops visit.\<close>

lemma clip_le: "unat (if e > MAX_PHYSICAL_MEMORY then MAX_PHYSICAL_MEMORY else e) \<le> 4294967296"
  by (auto simp: MAX_PHYSICAL_MEMORY_def word_less_nat_alt)

lemma page_of_in_range:
  assumes "a \<in> set (page_range lo hi)" and "unat hi \<le> 4294967296"
  shows "page_of a < MAX_PAGES"
  using assms by (auto simp: set_page_range MAX_PAGES_def intro!: div_less_iff_less_mult [THEN iffD2])

lemma fold_release:
  assumes "\<And>a. a \<in> set as \<Longrightarrow> page_of a < MAX_PAGES"
  shows "free_set (fold release_if_used as s) = free_set s \<union> page_of ` set as"
    and "pmm_count s \<Longrightarrow> pmm_count (fold release_if_used as s)"
  using assms by (induction as arbitrary: s) (auto simp: free_set_release pmm_count_release)

lemma fold_reserve:
  assumes "\<And>a. a \<in> set as \<Longrightarrow> page_of a < MAX_PAGES"
  shows "free_set (fold reserve_if_free as s) = free_set s - page_of ` set as"
    and "pmm_count s \<Longrightarrow> pmm_count (fold reserve_if_free as s)"
  using assms by (induction as arbitrary: s) (auto simp: free_set_reserve pmm_count_reserve)

abbreviation clip :: "u64 \<Rightarrow> u64" where
  "clip e \<equiv> (if e > MAX_PHYSICAL_MEMORY then MAX_PHYSICAL_MEMORY else e)"

lemma in_clipped_range: "a \<in> set (page_range lo (clip e)) \<Longrightarrow> page_of a < MAX_PAGES"
  by (rule page_of_in_range [OF _ clip_le])

lemma pmm_count_mark_range_free: "pmm_count s \<Longrightarrow> pmm_count (mark_range_free base len s)"
  by (cases "MAX_PHYSICAL_MEMORY \<le> align_up base")
     (simp_all add: mark_range_free_def Let_def fold_release(2) in_clipped_range split del: if_split)

lemma pmm_count_mark_range_used: "pmm_count s \<Longrightarrow> pmm_count (mark_range_used base len s)"
  by (cases "MAX_PHYSICAL_MEMORY \<le> align_down base")
     (simp_all add: mark_range_used_def Let_def fold_reserve(2) in_clipped_range split del: if_split)

text \<open>Which pages the two range operations change.\<close>

lemma page_of_page_range:
  assumes "page_aligned lo" and "page_aligned hi"
  shows "page_of ` set (page_range lo hi) = {page_of lo..<page_of hi}" (is "?L = ?R")
proof
  from assms obtain l h where l: "unat lo = 4096 * l" and h: "unat hi = 4096 * h"
    by (auto elim!: dvdE)
  show "?L \<subseteq> ?R"
  proof
    fix p assume "p \<in> ?L"
    then obtain a i where "p = page_of a" "unat a = unat lo + i * 4096" "unat a < unat hi"
      by (auto simp: set_page_range)
    then have "unat a = 4096 * (l + i)" "l + i < h" by (simp_all add: l h)
    then show "p \<in> ?R" using \<open>p = page_of a\<close> by (simp add: l h)
  qed
  show "?R \<subseteq> ?L"
  proof
    fix p assume "p \<in> ?R"
    then have p: "l \<le> p" "p < h" by (simp_all add: l h)
    then have "4096 * p < unat hi" by (simp add: h)
    then have "4096 * p < 2 ^ 64" using unat_less_u64 [of hi] by linarith
    define a :: u64 where "a = of_nat (4096 * p)"
    have u: "unat a = 4096 * p"
      unfolding a_def using \<open>4096 * p < 2 ^ 64\<close> by (rule unat_of_nat_u64)
    have "unat a = unat lo + (p - l) * 4096" using p u l by simp
    moreover have "unat a < unat hi" using \<open>4096 * p < unat hi\<close> u by simp
    ultimately have "a \<in> set (page_range lo hi)" unfolding set_page_range by blast
    moreover have "p = page_of a" using u by simp
    ultimately show "p \<in> ?L" by (rule rev_image_eqI)
  qed
qed

lemma page_of_clip: "page_of (clip e) = min MAX_PAGES (page_of e)" if "page_aligned e"
  using that by (auto simp: MAX_PHYSICAL_MEMORY_def MAX_PAGES_def word_less_nat_alt min_def elim!: dvdE)

lemma page_aligned_clip: "page_aligned e \<Longrightarrow> page_aligned (clip e)"
  by (simp add: MAX_PHYSICAL_MEMORY_def)

lemma above_physical: "page_aligned a \<Longrightarrow> MAX_PHYSICAL_MEMORY \<le> a \<longleftrightarrow> MAX_PAGES \<le> page_of a"
  by (auto simp: MAX_PHYSICAL_MEMORY_def MAX_PAGES_def word_le_nat_alt elim!: dvdE)

lemma free_set_mark_range_used:
  "free_set (mark_range_used base len s) =
     free_set s - {page_of (align_down base)..<page_of (align_up (base + len))}"
proof (cases "MAX_PHYSICAL_MEMORY \<le> align_down base")
  case True
  then have "MAX_PAGES \<le> page_of (align_down base)" by (simp add: above_physical)
  with True show ?thesis by (auto simp: mark_range_used_def dest: free_set_bound)
next
  case False
  let ?e = "clip (align_up (base + len))"
  have "free_set (mark_range_used base len s) =
      free_set s - page_of ` set (page_range (align_down base) ?e)"
    using False in_clipped_range
    by (simp add: mark_range_used_def Let_def fold_reserve(1) split del: if_split)
  also have "page_of ` set (page_range (align_down base) ?e) =
      {page_of (align_down base)..<min MAX_PAGES (page_of (align_up (base + len)))}"
    by (simp only: page_of_page_range page_aligned_align_down page_aligned_align_up
        page_aligned_clip page_of_clip)
  also have "free_set s - \<dots> = free_set s - {page_of (align_down base)..<page_of (align_up (base + len))}"
    by (auto dest: free_set_bound)
  finally show ?thesis .
qed

lemma free_set_mark_range_free:
  "free_set (mark_range_free base len s) =
     free_set s \<union> ({page_of (align_up base)..<page_of (align_down (base + len))} \<inter> {..<MAX_PAGES})"
proof (cases "MAX_PHYSICAL_MEMORY \<le> align_up base")
  case True
  then have "MAX_PAGES \<le> page_of (align_up base)" by (simp add: above_physical)
  then have "{page_of (align_up base)..<page_of (align_down (base + len))} \<inter> {..<MAX_PAGES} = {}"
    by (simp only: ivl_disj_int disjoint_iff atLeastLessThan_iff lessThan_iff) linarith
  with True show ?thesis by (simp add: mark_range_free_def)
next
  case False
  let ?e = "clip (align_down (base + len))"
  have "free_set (mark_range_free base len s) =
      free_set s \<union> page_of ` set (page_range (align_up base) ?e)"
    using False in_clipped_range
    by (simp add: mark_range_free_def Let_def fold_release(1) split del: if_split)
  also have "page_of ` set (page_range (align_up base) ?e) =
      {page_of (align_up base)..<min MAX_PAGES (page_of (align_down (base + len)))}"
    by (simp only: page_of_page_range page_aligned_align_down page_aligned_align_up
        page_aligned_clip page_of_clip)
  also have "\<dots> = {page_of (align_up base)..<page_of (align_down (base + len))} \<inter> {..<MAX_PAGES}"
    by (simp only: set_eq_iff Int_iff atLeastLessThan_iff lessThan_iff min_less_iff_conj) blast
  finally show ?thesis .
qed

section \<open>Single pages\<close>

lemma page_of_page_address [page_simps]:
  "p < MAX_PAGES \<Longrightarrow> unat (of_nat p * PAGE_SIZE :: u64) = p * 4096"
  by (simp add: unat_word_ariths unat_of_nat MAX_PAGES_def)

lemma pmm_alloc_page_cases:
  assumes "pmm_count s"
  obtains (taken) p where "p \<in> free_set s" and "\<And>q. q \<in> free_set s \<Longrightarrow> p \<le> q"
      and "pmm_alloc_page s = (of_nat p * PAGE_SIZE, (page_mark_used p s)\<lparr>free_pages := free_pages s - 1\<rparr>)"
    | (full) "free_set s = {}" and "pmm_alloc_page s = (0, s)"
proof (cases "first_index (\<lambda>page. \<not> page_is_used page s) 0 (unat (total_pages s))")
  case None
  with assms have "free_set s = {}"
    by (auto simp: first_index_None unat_total_pages free_set_def)
  with None show ?thesis by (intro full) (simp_all add: pmm_alloc_page_def)
next
  case (Some p)
  then have "p \<in> free_set s" "\<And>q. q \<in> free_set s \<Longrightarrow> p \<le> q"
    using assms by (auto simp: first_index_Some unat_total_pages free_set_def not_less [symmetric])
  with Some show ?thesis by (intro taken) (simp_all add: pmm_alloc_page_def)
qed

lemma pmm_alloc_page_spec:
  assumes "pmm_inv s" and "pmm_alloc_page s = (a, s')"
  shows "pmm_inv s'"
    and "free_set s = {} \<Longrightarrow> a = 0 \<and> s' = s"
    and "free_set s \<noteq> {} \<Longrightarrow> a \<noteq> 0 \<and> page_aligned a \<and> page_of a = Min (free_set s) \<and>
           free_set s' = free_set s - {page_of a}"
proof -
  from assms(1) have c: "pmm_count s" and z: "page_is_used 0 s" by (auto simp: pmm_inv_def)
  from c show "pmm_inv s'"
  proof (cases rule: pmm_alloc_page_cases)
    case (taken p)
    with assms z c show ?thesis by (auto simp: pmm_inv_def pmm_count_take)
  next
    case full
    with assms show ?thesis by simp
  qed
  from c show "free_set s = {} \<Longrightarrow> a = 0 \<and> s' = s"
    using assms(2) by (cases rule: pmm_alloc_page_cases) auto
  assume ne: "free_set s \<noteq> {}"
  from c show "a \<noteq> 0 \<and> page_aligned a \<and> page_of a = Min (free_set s) \<and>
      free_set s' = free_set s - {page_of a}"
  proof (cases rule: pmm_alloc_page_cases)
    case (taken p)
    have p: "p < MAX_PAGES" "p \<noteq> 0" using taken(1) z by (auto simp: free_set_def intro: gr0I)
    have a: "a = of_nat p * PAGE_SIZE" and s': "s' = (page_mark_used p s)\<lparr>free_pages := free_pages s - 1\<rparr>"
      using taken(3) assms(2) by auto
    have u: "unat a = p * 4096" unfolding a by (rule page_of_page_address) (rule p(1))
    have "Min (free_set s) = p" using taken(1,2) by (auto intro: Min_eqI)
    moreover have "a \<noteq> 0" using u p(2) by (auto simp: unat_eq_zero [symmetric])
    ultimately show ?thesis using u by (simp add: s' free_set_mark_used)
  next
    case full
    with ne show ?thesis by simp
  qed
qed

lemma page_of_lt_MAX: "a < MAX_PHYSICAL_MEMORY \<Longrightarrow> page_of a < MAX_PAGES"
  by (simp add: MAX_PHYSICAL_MEMORY_def MAX_PAGES_def word_less_nat_alt div_less_iff_less_mult)

definition allocatable :: "u64 \<Rightarrow> bool" where
  "allocatable a \<longleftrightarrow> a \<noteq> 0 \<and> a < MAX_PHYSICAL_MEMORY \<and> page_aligned a"

lemma pmm_free_page_guard: "pmm_free_page a s = (if allocatable a then release_if_used a s else s)"
  by (auto simp: pmm_free_page_def allocatable_def page_offset_zero_iff not_less)

lemma page_of_allocatable: "allocatable a \<Longrightarrow> 0 < page_of a \<and> page_of a < MAX_PAGES"
  by (auto simp: allocatable_def page_of_lt_MAX unat_eq_zero [symmetric] elim!: dvdE)

lemma pmm_free_page_spec:
  assumes "pmm_inv s"
  shows "pmm_inv (pmm_free_page a s)"
    and "allocatable a \<Longrightarrow> free_set (pmm_free_page a s) = insert (page_of a) (free_set s)"
    and "\<not> allocatable a \<Longrightarrow> pmm_free_page a s = s"
proof -
  show "allocatable a \<Longrightarrow> free_set (pmm_free_page a s) = insert (page_of a) (free_set s)"
    by (simp add: pmm_free_page_guard free_set_release page_of_allocatable)
  show "\<not> allocatable a \<Longrightarrow> pmm_free_page a s = s"
    by (simp add: pmm_free_page_guard)
  show "pmm_inv (pmm_free_page a s)"
  proof (cases "allocatable a")
    case True
    then have "page_of a < MAX_PAGES" "page_of a \<noteq> 0" by (auto dest: page_of_allocatable)
    then show ?thesis
      using assms True pmm_count_release [of s a]
      by (simp add: pmm_inv_def pmm_free_page_guard release_if_used_def Let_def)
  next
    case False
    with assms show ?thesis by (simp add: pmm_free_page_guard)
  qed
qed

section \<open>Contiguous runs\<close>

lemma run_scan_spec:
  assumes "c < count" and "c \<le> page" and "page \<le> n" and "0 < c \<longrightarrow> start = page - c"
    and "\<forall>i<c. \<not> used (page - c + i)"
    and "\<forall>q<page - c. \<exists>i<count. used (q + i)"
  shows "case run_scan used count n page c start of
      Some r \<Rightarrow> r + count \<le> n \<and> (\<forall>i<count. \<not> used (r + i)) \<and> (\<forall>q<r. \<exists>i<count. used (q + i))
    | None \<Rightarrow> \<forall>q. q + count \<le> n \<longrightarrow> (\<exists>i<count. used (q + i))"
  using assms
proof (induction used count n page c start rule: run_scan.induct)
  case (1 used count n page c start)
  note prems = "1.prems"
  show ?case
  proof (cases "page < n")
    case False
    then have "run_scan used count n page c start = None"
      by (simp add: run_scan.simps [of used count n page])
    moreover have "\<exists>i<count. used (q + i)" if "q + count \<le> n" for q
      using that prems False by auto
    ultimately show ?thesis by simp
  next
    case lt: True
    show ?thesis
    proof (cases "used page")
      case True
      have "\<exists>i<count. used (q + i)" if "q < page + 1" for q
      proof (cases "q < page - c")
        case False
        then have "page - q < count" "q + (page - q) = page" using that prems by auto
        with True show ?thesis by metis
      qed (use prems in auto)
      then show ?thesis
        using lt True prems "1.IH"(2) by (simp add: run_scan.simps [of used count n page])
    next
      case False
      let ?st = "if c = 0 then page else start"
      have st: "?st = page - c" using prems by auto
      have free: "\<forall>i<c + 1. \<not> used (page - c + i)"
        using prems False by (auto simp: less_Suc_eq)
      show ?thesis
      proof (cases "c + 1 = count")
        case True
        with lt False st free prems show ?thesis
          by (auto simp: run_scan.simps [of used count n page])
      next
        case ne: False
        from lt False ne have "run_scan used count n page c start = run_scan used count n (page + 1) (c + 1) ?st"
          by (simp add: run_scan.simps [of used count n page] Let_def)
        moreover have "case run_scan used count n (page + 1) (c + 1) ?st of
            Some r \<Rightarrow> r + count \<le> n \<and> (\<forall>i<count. \<not> used (r + i)) \<and> (\<forall>q<r. \<exists>i<count. used (q + i))
          | None \<Rightarrow> \<forall>q. q + count \<le> n \<longrightarrow> (\<exists>i<count. used (q + i))"
          using lt False ne st free prems by (intro "1.IH"(1)) auto
        ultimately show ?thesis by simp
      qed
    qed
  qed
qed

text \<open>\<open>n\<close> contiguous free pages from page \<open>p\<close> on.\<close>

definition free_run :: "pmm_state \<Rightarrow> nat \<Rightarrow> nat \<Rightarrow> bool" where
  "free_run s p n \<longleftrightarrow> {p..<p + n} \<subseteq> free_set s"

lemma free_run_iff:
  "free_run s p n \<longleftrightarrow> n = 0 \<or> (p + n \<le> MAX_PAGES \<and> (\<forall>i<n. \<not> page_is_used (p + i) s))"
proof
  assume r: "free_run s p n"
  then have "p + i \<in> free_set s" if "i < n" for i
    using that by (auto simp: free_run_def)
  then have i: "p + i < MAX_PAGES \<and> \<not> page_is_used (p + i) s" if "i < n" for i
    using that by (simp add: free_set_def)
  have "p + n \<le> MAX_PAGES" if n: "n \<noteq> 0"
    using i [of "n - 1"] n by linarith
  with i show "n = 0 \<or> (p + n \<le> MAX_PAGES \<and> (\<forall>i<n. \<not> page_is_used (p + i) s))"
    by blast
next
  assume "n = 0 \<or> (p + n \<le> MAX_PAGES \<and> (\<forall>i<n. \<not> page_is_used (p + i) s))"
  then show "free_run s p n"
    unfolding free_run_def free_set_def
    by (elim disjE conjE, simp) (clarsimp, metis le_add_diff_inverse nat_add_left_cancel_less)
qed

lemma run_scan_free_run:
  assumes "pmm_count s" and "0 < n"
  shows "case run_scan (\<lambda>page. page_is_used page s) n MAX_PAGES 0 0 0 of
      Some r \<Rightarrow> free_run s r n \<and> (\<forall>q<r. \<not> free_run s q n)
    | None \<Rightarrow> \<forall>q. \<not> free_run s q n"
  using run_scan_spec [of 0 n 0 MAX_PAGES 0 "\<lambda>page. page_is_used page s"] assms(2)
  by (auto simp: free_run_iff split: option.splits)

lemma fold_mark_used_is_used:
  "page_is_used q (fold (\<lambda>i. page_mark_used (p + i)) [0..<n] s) \<longleftrightarrow>
     (\<exists>i<n. q = p + i) \<or> page_is_used q s"
  by (induction n) (auto simp: less_Suc_eq)

lemma fold_mark_used:
  "free_set (fold (\<lambda>i. page_mark_used (p + i)) [0..<n] s) = free_set s - {p..<p + n}"
  "total_pages (fold (\<lambda>i. page_mark_used (p + i)) [0..<n] s) = total_pages s"
  "free_pages (fold (\<lambda>i. page_mark_used (p + i)) [0..<n] s) = free_pages s"
proof -
  have "(\<exists>i<n. q = p + i) \<longleftrightarrow> q \<in> {p..<p + n}" for q
    by (auto simp: le_iff_add)
  then show "free_set (fold (\<lambda>i. page_mark_used (p + i)) [0..<n] s) = free_set s - {p..<p + n}"
    by (auto simp: free_set_def fold_mark_used_is_used)
qed (induction n; simp)+

lemma pmm_inv_say [simp]: "pmm_inv (say msg s) = pmm_inv s"
  by (simp add: pmm_inv_def pmm_count_def)

lemma free_run_say [simp]: "free_run (say msg s) p n = free_run s p n"
  by (simp add: free_run_def)

lemma too_many_pages:
  assumes "pmm_count s" and "count > free_pages s"
  shows "\<not> free_run s p (unat count)"
proof
  assume "free_run s p (unat count)"
  then have "card {p..<p + unat count} \<le> card (free_set s)"
    unfolding free_run_def by (rule card_mono [OF finite_free_set])
  with assms show False by (simp add: pmm_count_def word_less_nat_alt)
qed

text \<open>The three ways through \<open>pmm_alloc_pages\<close>.\<close>

definition alloc_scanning :: "pmm_state \<Rightarrow> pmm_state" where
  "alloc_scanning s = say ''PMM: scanning bitmap\<newline>''
     (say ''PMM: count valid\<newline>'' (say ''PMM: alloc_pages entered\<newline>'' s))"

lemma alloc_scanning_simps [simp]:
  "page_is_used p (alloc_scanning s) = page_is_used p s"
  "total_pages (alloc_scanning s) = total_pages s"
  "free_pages (alloc_scanning s) = free_pages s"
  "free_set (alloc_scanning s) = free_set s"
  by (simp_all add: alloc_scanning_def)

lemma pmm_alloc_pages_refused:
  "count = 0 \<or> count > free_pages s \<Longrightarrow> \<exists>s'. pmm_alloc_pages count s = (0, s') \<and>
     (\<exists>d. s' = s\<lparr>display := d\<rparr>)"
  by (cases "count = 0")
     (simp_all add: pmm_alloc_pages_def Let_def say_def terminal_print_def fb_present_def, blast+)

lemma pmm_alloc_pages_scans:
  assumes "count \<noteq> 0" and "\<not> count > free_pages s"
  shows "pmm_alloc_pages count s =
    (case run_scan (\<lambda>page. page_is_used page s) (unat count) (unat (total_pages s)) 0 0 0 of
       Some r \<Rightarrow> (of_nat r * PAGE_SIZE,
         say ''PMM: allocation complete\<newline>''
           ((fold (\<lambda>i. page_mark_used (r + i)) [0..<unat count]
              (say ''PMM: free page found\<newline>'' (alloc_scanning s)))\<lparr>free_pages := free_pages s - count\<rparr>))
     | None \<Rightarrow> (0, say ''PMM: no pages found\<newline>'' (alloc_scanning s)))"
  using assms
  by (simp add: pmm_alloc_pages_def Let_def fold_mark_used alloc_scanning_def split: option.split)

lemma free_set_display [simp]: "free_set (s\<lparr>display := d\<rparr>) = free_set s"
  by (simp add: free_set_def page_is_used_def)

lemma pmm_inv_display [simp]: "pmm_inv (s\<lparr>display := d\<rparr>) = pmm_inv s"
  by (simp add: pmm_inv_def pmm_count_def page_is_used_def)

lemma pmm_alloc_pages_success:
  assumes "pmm_inv s" and "pmm_alloc_pages count s = (a, s')" and "count \<noteq> 0" and "free_run s p (unat count)"
  shows "pmm_inv s'" and "a \<noteq> 0" and "page_aligned a" and "free_run s (page_of a) (unat count)"
    and "page_of a \<le> p" and "free_set s' = free_set s - {page_of a..<page_of a + unat count}"
proof -
  let ?n = "unat count"
  from assms(1) have c: "pmm_count s" and z: "page_is_used 0 s" by (auto simp: pmm_inv_def)
  have n0: "0 < ?n" using assms(3) by (simp add: unat_gt_0)
  have fits: "\<not> count > free_pages s" using too_many_pages [OF c] assms(4) by blast
  obtain r where r: "run_scan (\<lambda>page. page_is_used page s) ?n MAX_PAGES 0 0 0 = Some r"
      "free_run s r ?n" "\<forall>q<r. \<not> free_run s q ?n"
    using run_scan_free_run [OF c n0] assms(4)
    by (cases "run_scan (\<lambda>page. page_is_used page s) ?n MAX_PAGES 0 0 0") auto
  have rb: "r < MAX_PAGES" "r \<noteq> 0" using r(2) n0 z by (auto simp: free_run_iff intro: gr0I)
  have a: "a = of_nat r * PAGE_SIZE" and fs: "free_set s' = free_set s - {r..<r + ?n}"
    and tp: "total_pages s' = total_pages s" and fp: "free_pages s' = free_pages s - count"
    and u: "page_is_used 0 s'"
    using assms(2) pmm_alloc_pages_scans [OF assms(3) fits] r(1) z
    by (simp_all add: unat_total_pages [OF c] fold_mark_used fold_mark_used_is_used)
       (auto simp: fold_mark_used fold_mark_used_is_used)
  have ua: "unat a = r * 4096" unfolding a by (rule page_of_page_address) (rule rb(1))
  show "a \<noteq> 0" using ua rb(2) by (simp add: unat_eq_zero [symmetric])
  show "page_aligned a" "free_run s (page_of a) ?n" using ua r(2) by simp_all
  show "page_of a \<le> p" using ua r(3) assms(4) by (metis leI nonzero_mult_div_cancel_right zero_neq_numeral)
  show "free_set s' = free_set s - {page_of a..<page_of a + ?n}" using ua fs by simp
  have "card (free_set s') = card (free_set s) - ?n"
    using r(2) by (simp add: fs free_run_def card_Diff_subset)
  moreover have "unat (free_pages s') = unat (free_pages s) - ?n"
    using fits by (simp add: fp unat_sub not_less)
  ultimately show "pmm_inv s'" using c u tp by (simp add: pmm_inv_def pmm_count_def)
qed

lemma pmm_alloc_pages_failure:
  assumes "pmm_inv s" and "pmm_alloc_pages count s = (a, s')"
    and "count = 0 \<or> (\<forall>p. \<not> free_run s p (unat count))"
  shows "pmm_inv s' \<and> a = 0 \<and> free_set s' = free_set s \<and> free_pages s' = free_pages s"
proof -
  from assms(1) have c: "pmm_count s" by (simp add: pmm_inv_def)
  show ?thesis
  proof (cases "count = 0 \<or> count > free_pages s")
    case True
    from pmm_alloc_pages_refused [OF this] show ?thesis using assms(1,2) by auto
  next
    case False
    then have "0 < unat count" by (simp add: unat_gt_0)
    with False assms(3) have "run_scan (\<lambda>page. page_is_used page s) (unat count) MAX_PAGES 0 0 0 = None"
      using run_scan_free_run [OF c, of "unat count"]
      by (cases "run_scan (\<lambda>page. page_is_used page s) (unat count) MAX_PAGES 0 0 0") auto
    with False show ?thesis
      using assms(1,2) pmm_alloc_pages_scans [of count s]
      by (auto simp: unat_total_pages [OF c] alloc_scanning_def)
  qed
qed

section \<open>Initialisation\<close>

text \<open>Whatever the boot information holds, a walk that ends has kept the counter exact.\<close>

lemma mmap_entries_count:
  assumes "mmap_entries m es e p s = Some s'" and "pmm_count s"
  shows "pmm_count s'"
proof -
  have "pmm_count s \<longrightarrow> pmm_count s'"
  proof (rule mmap_entries.raw_induct [where P = "\<lambda>m es e p s s'. pmm_count s \<longrightarrow> pmm_count s'", OF _ assms(1)])
    fix f m es e p s s'
    assume IH: "\<And>m es e p s s'. f m es e p s = Some s' \<Longrightarrow> pmm_count s \<longrightarrow> pmm_count s'"
      and eq: "(if p < e then f m es e (p + ucast es)
          (if load32 m (p + 16) = 1 then mark_range_free (load64 m p) (load64 m (p + 8)) s else s)
        else Some s) = Some s'"
    show "pmm_count s \<longrightarrow> pmm_count s'"
    proof (cases "p < e")
      case True
      with eq have "f m es e (p + ucast es)
          (if load32 m (p + 16) = 1 then mark_range_free (load64 m p) (load64 m (p + 8)) s else s) = Some s'"
        by simp
      from IH [OF this] show ?thesis by (auto intro: pmm_count_mark_range_free split: if_splits)
    next
      case False
      with eq show ?thesis by simp
    qed
  qed
  with assms(2) show ?thesis by simp
qed

lemma mb_tags_count:
  assumes "mb_tags m e p s = Some s'" and "pmm_count s"
  shows "pmm_count s'"
proof -
  have "pmm_count s \<longrightarrow> pmm_count s'"
  proof (rule mb_tags.raw_induct [where P = "\<lambda>m e p s s'. pmm_count s \<longrightarrow> pmm_count s'", OF _ assms(1)])
    fix f m e p s s'
    assume IH: "\<And>m e p s s'. f m e p s = Some s' \<Longrightarrow> pmm_count s \<longrightarrow> pmm_count s'"
      and eq: "(if p < e then
          (let type = load32 m p; size = load32 m (p + 4) in
           if type = 0 then Some s
           else Option.bind
             (if type = 6 then mmap_entries m (load32 m (p + 8)) (p + ucast size) (p + 16) s else Some s)
             (\<lambda>s'. f m e (p + ucast ((size + 7) AND NOT 7)) s'))
        else Some s) = Some s'"
    show "pmm_count s \<longrightarrow> pmm_count s'"
      using eq by (auto simp: Let_def bind_eq_Some_conv split: if_splits dest!: IH dest: mmap_entries_count)
  qed
  with assms(2) show ?thesis by simp
qed

lemma all_ones_fold:
  "fold (\<lambda>i bm. bm(i := (0xFF :: u8))) [0..<n] bm = (\<lambda>i. if i < n then 0xFF else bm i)"
  by (induction n) (auto simp: less_Suc_eq)

definition pmm_cleared :: "pmm_state \<Rightarrow> pmm_state" where
  "pmm_cleared s = s\<lparr>page_bitmap := fold (\<lambda>i bm. bm(i := 0xFF)) [0..<BITMAP_SIZE] (page_bitmap s),
                 total_pages := of_nat MAX_PAGES, free_pages := 0\<rparr>"

lemma bit_all_ones: "n < 8 \<Longrightarrow> bit (0xFF :: u8) n"
proof -
  have "(0xFF :: u8) = mask 8" by (simp add: mask_eq_exp_minus_1)
  then show "n < 8 \<Longrightarrow> bit (0xFF :: u8) n" by (simp only: bit_mask_iff) simp
qed

lemma free_set_cleared: "free_set (pmm_cleared s) = {}"
proof -
  have "page_is_used p (pmm_cleared s)" if "p < MAX_PAGES" for p
  proof -
    have "p div 8 < BITMAP_SIZE" using that by (simp add: BITMAP_SIZE_def MAX_PAGES_def)
    then have "page_bitmap (pmm_cleared s) (p div 8) = 0xFF"
      by (simp add: pmm_cleared_def all_ones_fold)
    then show ?thesis
      by (simp only: page_is_used_bit) (rule bit_all_ones, simp)
  qed
  then show ?thesis by (auto simp: free_set_def)
qed

lemma pmm_count_cleared: "pmm_count (pmm_cleared s)"
  unfolding pmm_count_def free_set_cleared by (simp add: pmm_cleared_def)

lemma pmm_init_eq:
  "pmm_init m info ks ke fba fbs s =
     map_option (\<lambda>s2. terminal_print ''PMM initialized.\<newline>''
        (mark_range_used fba fbs (mark_range_used info (ucast (load32 m info))
          (mark_range_used ks (ke - ks) (mark_range_used 0 0x100000 s2)))))
      (mb_tags m (info + ucast (load32 m info)) (info + 8) (pmm_cleared s))"
  by (simp add: pmm_init_def pmm_cleared_def Let_def)

lemma pmm_inv_terminal_print [simp]: "pmm_inv (terminal_print msg s) = pmm_inv s"
  by (simp add: pmm_inv_def pmm_count_def)

text \<open>The pages that hold some byte of \<open>[base, base + len)\<close>.\<close>

definition pages_touched :: "u64 \<Rightarrow> u64 \<Rightarrow> nat set" where
  "pages_touched base len = {page_of (align_down base)..<page_of (align_up (base + len))}"

lemma free_set_mark_used_touched:
  "free_set (mark_range_used base len s) = free_set s - pages_touched base len"
  by (simp add: free_set_mark_range_used pages_touched_def)

lemma pages_touched_low: "{0..<256} \<subseteq> pages_touched 0 0x100000"
  by (simp add: pages_touched_def unat_align_down unat_align_up)

lemma pmm_init_result:
  assumes "pmm_init m info ks ke fba fbs s = Some s'"
  shows "pmm_inv s'"
    and "free_set s' \<inter> ({0..<256} \<union> pages_touched ks (ke - ks) \<union>
           pages_touched info (ucast (load32 m info)) \<union> pages_touched fba fbs) = {}"
proof -
  from assms obtain s2 where s2: "mb_tags m (info + ucast (load32 m info)) (info + 8) (pmm_cleared s) = Some s2"
    and s': "s' = terminal_print ''PMM initialized.\<newline>''
        (mark_range_used fba fbs (mark_range_used info (ucast (load32 m info))
          (mark_range_used ks (ke - ks) (mark_range_used 0 0x100000 s2))))"
    by (auto simp: pmm_init_eq)
  have "pmm_count s2" using s2 pmm_count_cleared by (rule mb_tags_count)
  then have c: "pmm_count s'"
    by (simp add: s' pmm_count_def [of "terminal_print _ _"])
       (simp only: pmm_count_def [symmetric] pmm_count_mark_range_used)
  have fs: "free_set s' = free_set s2 - pages_touched 0 0x100000 - pages_touched ks (ke - ks) -
      pages_touched info (ucast (load32 m info)) - pages_touched fba fbs"
    by (simp add: s' free_set_mark_used_touched)
  show "free_set s' \<inter> ({0..<256} \<union> pages_touched ks (ke - ks) \<union>
           pages_touched info (ucast (load32 m info)) \<union> pages_touched fba fbs) = {}"
    unfolding fs using pages_touched_low by blast
  then have "0 \<notin> free_set s'" by auto
  with c show "pmm_inv s'" by (simp add: pmm_inv_def free_set_def MAX_PAGES_def)
qed

subsection \<open>Termination of the memory-map walk\<close>

text \<open>The addresses at which the outer loop finds a tag.\<close>

inductive tag_at :: "memory \<Rightarrow> u64 \<Rightarrow> u64 \<Rightarrow> u64 \<Rightarrow> bool" for m e p0 where
  tag_first: "tag_at m e p0 p0"
| tag_next: "tag_at m e p0 p \<Longrightarrow> p < e \<Longrightarrow> load32 m p \<noteq> 0 \<Longrightarrow>
    tag_at m e p0 (p + ucast ((load32 m (p + 4) + 7) AND NOT 7))"

text \<open>
  Every tag reached before the end has a size that rounds to a nonzero number of bytes, and a
  memory-map tag has a nonzero entry size: what the Multiboot2 format guarantees and the code
  relies on.
\<close>

definition tags_advance :: "memory \<Rightarrow> u64 \<Rightarrow> u64 \<Rightarrow> bool" where
  "tags_advance m e p0 \<longleftrightarrow> (\<forall>p. tag_at m e p0 p \<longrightarrow> p < e \<longrightarrow> load32 m p \<noteq> 0 \<longrightarrow>
     (load32 m (p + 4) + 7) AND NOT 7 \<noteq> 0 \<and> (load32 m p = 6 \<longrightarrow> load32 m (p + 8) \<noteq> 0))"

lemma add_step32:
  assumes "unat (p :: u64) < 2 ^ 63" and "(x :: u32) \<noteq> 0"
  shows "unat (p + ucast x) = unat p + unat x" and "0 < unat x"
proof -
  have "unat p + unat (ucast x :: u64) < 2 ^ LENGTH(64)"
    using assms(1) unat_less_u32 [of x] by simp
  then have "unat (p + ucast x) = unat p + unat (ucast x :: u64)" by (rule iffD1 [OF unat_add_lem])
  then show "unat (p + ucast x) = unat p + unat x" by simp
  show "0 < unat x" using assms(2) by (simp add: unat_gt_0)
qed

lemma mmap_entries_terminates:
  assumes "es \<noteq> 0" and "unat e < 2 ^ 63"
  shows "\<exists>s'. mmap_entries m es e p s = Some s'"
proof (induction "unat e - unat p" arbitrary: p s rule: less_induct)
  case less
  show ?case
  proof (cases "p < e")
    case False
    then show ?thesis by (simp add: mmap_entries.simps [of m es e p])
  next
    case True
    then have "unat p < unat e" by (simp add: word_less_nat_alt)
    moreover from this have "unat (p + ucast es) = unat p + unat es" "0 < unat es"
      using assms add_step32 [of p es] by simp_all
    ultimately have "unat e - unat (p + ucast es) < unat e - unat p" by linarith
    from less [OF this] True show ?thesis by (simp add: mmap_entries.simps [of m es e p])
  qed
qed

lemma mb_tags_terminates:
  assumes "tags_advance m e p0" and "unat e < 2 ^ 62" and "tag_at m e p0 p"
  shows "\<exists>s'. mb_tags m e p s = Some s'"
  using assms(3)
proof (induction "unat e - unat p" arbitrary: p s rule: less_induct)
  case less
  show ?case
  proof (cases "p < e \<and> load32 m p \<noteq> 0")
    case False
    then show ?thesis by (auto simp: mb_tags.simps [of m e p] Let_def)
  next
    case True
    let ?x = "(load32 m (p + 4) + 7) AND NOT 7 :: u32"
    have adv: "?x \<noteq> 0" "load32 m p = 6 \<longrightarrow> load32 m (p + 8) \<noteq> 0"
      using assms(1) less(2) True by (auto simp: tags_advance_def)
    have lt: "unat p < unat e" using True by (simp add: word_less_nat_alt)
    then have "unat (p + ucast ?x) = unat p + unat ?x" "0 < unat ?x"
      using assms(2) adv(1) add_step32 [of p ?x] by simp_all
    then have "unat e - unat (p + ucast ?x) < unat e - unat p" using lt by linarith
    then have next_tag: "\<exists>s'. mb_tags m e (p + ucast ?x) t = Some s'" for t
      using less(1) less(2) True by (blast intro: tag_next)
    have "unat (p + ucast (load32 m (p + 4))) < 2 ^ 63"
      using lt assms(2) unat_less_u32 [of "load32 m (p + 4)"] by (simp add: unat_word_ariths)
    then have "\<exists>t. (if load32 m p = 6
          then mmap_entries m (load32 m (p + 8)) (p + ucast (load32 m (p + 4))) (p + 16) s
          else Some s) = Some t"
      using adv(2) mmap_entries_terminates by auto
    then show ?thesis using True next_tag by (auto simp: mb_tags.simps [of m e p s] Let_def)
  qed
qed

section \<open>The allocator as a page pool\<close>

interpretation pages: page_allocator pmm_alloc_page pmm_free_page free_set pmm_inv MAX_PAGES
proof unfold_locales
  fix s p assume "pmm_inv s" "p \<in> free_set s"
  then show "0 < p \<and> p < MAX_PAGES"
    by (auto simp: pmm_inv_def free_set_def intro: gr0I)
next
  fix s assume "pmm_inv s"
  then show "pmm_inv (snd (pmm_alloc_page s))"
    by (rule pmm_alloc_page_spec(1) [OF _ prod.collapse [symmetric]])
next
  fix s assume "pmm_inv s" "free_set s = {}"
  then show "pmm_alloc_page s = (0, s)"
    using pmm_alloc_page_spec(2) [of s "fst (pmm_alloc_page s)" "snd (pmm_alloc_page s)"]
    by (simp add: prod_eq_iff)
next
  fix s assume i: "pmm_inv s" and ne: "free_set s \<noteq> {}"
  have "page_aligned (fst (pmm_alloc_page s)) \<and> page_of (fst (pmm_alloc_page s)) = Min (free_set s) \<and>
      free_set (snd (pmm_alloc_page s)) = free_set s - {page_of (fst (pmm_alloc_page s))}"
    using pmm_alloc_page_spec(3) [OF i _ ne, of "fst (pmm_alloc_page s)" "snd (pmm_alloc_page s)"] by simp
  moreover have "Min (free_set s) \<in> free_set s" using ne by simp
  ultimately show "page_aligned (fst (pmm_alloc_page s)) \<and> page_of (fst (pmm_alloc_page s)) \<in> free_set s \<and>
      free_set (snd (pmm_alloc_page s)) = free_set s - {page_of (fst (pmm_alloc_page s))}"
    by simp
next
  fix s a assume "pmm_inv s"
  then show "pmm_inv (pmm_free_page a s)" by (rule pmm_free_page_spec(1))
next
  fix s and a :: u64
  assume "pmm_inv s" "page_aligned a" "0 < page_of a" "page_of a < MAX_PAGES"
  moreover from this have "allocatable a"
    by (auto simp: allocatable_def MAX_PHYSICAL_MEMORY_def MAX_PAGES_def word_less_nat_alt)
  ultimately show "free_set (pmm_free_page a s) = insert (page_of a) (free_set s)"
    by (simp add: pmm_free_page_spec(2))
qed

section \<open>Operation sequences\<close>

text \<open>The states the allocator can be in: those reached from a completed \<open>pmm_init\<close>.\<close>

inductive pmm_step :: "pmm_state \<Rightarrow> pmm_state \<Rightarrow> bool" where
  step_alloc: "pmm_step s (snd (pmm_alloc_page s))"
| step_alloc_run: "pmm_step s (snd (pmm_alloc_pages count s))"
| step_free: "pmm_step s (pmm_free_page address s)"
| step_stats: "pmm_step s (pmm_print_stats s)"

inductive pmm_reachable :: "pmm_state \<Rightarrow> bool" where
  reach_init: "pmm_init m info ks ke fba fbs s = Some s' \<Longrightarrow> pmm_reachable s'"
| reach_step: "pmm_reachable s \<Longrightarrow> pmm_step s s' \<Longrightarrow> pmm_reachable s'"

inductive_cases pmm_stepE: "pmm_step s s'"

lemma pmm_inv_print_decimal [simp]: "pmm_inv (print_decimal v s) = pmm_inv s"
  by (simp add: print_decimal_def)

lemma pmm_inv_print_stats [simp]: "pmm_inv (pmm_print_stats s) = pmm_inv s"
  by (simp add: pmm_print_stats_def Let_def)

lemma pmm_inv_alloc_pages:
  assumes "pmm_inv s"
  shows "pmm_inv (snd (pmm_alloc_pages count s))"
proof (cases "count = 0 \<or> (\<forall>p. \<not> free_run s p (unat count))")
  case True
  with pmm_alloc_pages_failure [OF assms prod.collapse [symmetric]] show ?thesis by blast
next
  case False
  with pmm_alloc_pages_success(1) [OF assms prod.collapse [symmetric]] show ?thesis by blast
qed

lemma pmm_step_inv: "pmm_step s s' \<Longrightarrow> pmm_inv s \<Longrightarrow> pmm_inv s'"
  by (auto elim!: pmm_stepE simp: pages.alloc_inv pages.release_inv pmm_inv_alloc_pages)

lemma pmm_reachable_inv: "pmm_reachable s \<Longrightarrow> pmm_inv s"
  by (induction rule: pmm_reachable.induct) (blast intro: pmm_init_result(1) pmm_step_inv)+

section \<open>A sample boot\<close>

text \<open>
  Boot information at 0x9000 with one memory map entry: 2 MiB available from 1 MiB on.
\<close>

definition boot_sample :: memory where
  "boot_sample = store_bytes (\<lambda>_. 0) 0x9000
     (concat (map (le_bytes 4) [56 :: u32, 0, 6, 40, 24, 0, 0x100000, 0, 0x200000, 0, 1, 0, 0, 8]))"

definition pmm_blank :: pmm_state where
  "pmm_blank = \<lparr>display = [], page_bitmap = \<lambda>_. 0, total_pages = 0, free_pages = 0\<rparr>"

lemma boot_sample_loads:
  "load32 boot_sample 0x9000 = 56" "load32 boot_sample 0x9008 = 6" "load32 boot_sample 0x900C = 40"
  "load32 boot_sample 0x9010 = 24" "load64 boot_sample 0x9018 = 0x100000"
  "load64 boot_sample 0x9020 = 0x200000" "load32 boot_sample 0x9028 = 1"
  "load32 boot_sample 0x9030 = 0"
  by code_simp+

lemma boot_sample_tags:
  "mb_tags boot_sample 0x9038 0x9008 s = Some (mark_range_free 0x100000 0x200000 s)"
proof -
  have e: "mmap_entries boot_sample 24 0x9030 0x9018 t = Some (mark_range_free 0x100000 0x200000 t)" for t
    by (subst mmap_entries.simps, subst mmap_entries.simps) (simp add: boot_sample_loads)
  have r: "(40 + 7 :: u32) AND NOT 7 = 40" by code_simp
  show ?thesis
    using r by (simp add: mb_tags.simps [of boot_sample "0x9038" "0x9008"]
        mb_tags.simps [of boot_sample "0x9038" "0x9030"] boot_sample_loads Let_def e)
qed

definition pmm_sample :: pmm_state where
  "pmm_sample = the (pmm_init boot_sample 0x9000 0x100000 0x180000 0x280000 0x1000 pmm_blank)"

lemma pmm_sample_init:
  "pmm_init boot_sample 0x9000 0x100000 0x180000 0x280000 0x1000 pmm_blank = Some pmm_sample"
  by (simp add: pmm_sample_def pmm_init_eq boot_sample_loads boot_sample_tags)

lemma pmm_sample_free_set: "free_set pmm_sample = {0x180..<0x280} \<union> {0x281..<0x300}"
proof -
  have "free_set pmm_sample = ((({} \<union> ({256..<768} \<inter> {..<MAX_PAGES})) - {0..<256}) - {256..<384}) - {9..<10} - {640..<641}"
    by (simp add: pmm_sample_def pmm_init_eq boot_sample_loads boot_sample_tags
        free_set_mark_range_used free_set_mark_range_free free_set_cleared
        unat_align_down align_up_align_down)
  also have "\<dots> = {0x180..<0x280} \<union> {0x281..<0x300}"
    by (auto simp: MAX_PAGES_def)
  finally show ?thesis .
qed

lemma pmm_sample_reachable: "pmm_reachable pmm_sample"
  by (rule reach_init [OF pmm_sample_init])

lemma pmm_sample_inv: "pmm_inv pmm_sample"
  by (rule pmm_reachable_inv [OF pmm_sample_reachable])

section \<open>Properties\<close>

lemma card_sample: "card (free_set pmm_sample) = 383"
  unfolding pmm_sample_free_set by (subst card_Un_disjoint) auto

text \<open>C2: in every state reachable from a completed \<open>pmm_init\<close> by any sequence of allocations,
  frees and statistics calls, the counter \<open>free_pages\<close> is exactly the number of clear bits in the
  bitmap, the page total is that of 4 GiB, and page 0 (whose address is the failure value) is
  never free.\<close>

theorem pmm_counter_exact:
  assumes "pmm_reachable s"
  shows "unat (pmm_get_free_pages s) = card {p. p < MAX_PAGES \<and> \<not> page_is_used p s} \<and>
     pmm_get_total_pages s = of_nat MAX_PAGES \<and> page_is_used 0 s"
  using pmm_reachable_inv [OF assms]
  by (simp add: pmm_inv_def pmm_count_def free_set_def pmm_get_free_pages_def pmm_get_total_pages_def)

theorem pmm_counter_exact_witness:
  "unat (pmm_get_free_pages pmm_sample) = 383 \<and> page_is_used 0 pmm_sample"
  using pmm_counter_exact [OF pmm_sample_reachable] card_sample by (simp add: free_set_def)

text \<open>\<open>pmm_alloc_page\<close> returns the address of the lowest free page, marks that page and no
  other, and takes one off the counter; with no free page it returns 0 and changes nothing.\<close>

theorem pmm_alloc_page_lowest:
  assumes "pmm_reachable s" and "pmm_alloc_page s = (a, s')"
  shows "if free_set s = {} then a = 0 \<and> s' = s
     else unat a = Min (free_set s) * 4096 \<and> a \<noteq> 0 \<and> free_set s' = free_set s - {Min (free_set s)} \<and>
       unat (free_pages s') = unat (free_pages s) - 1"
proof -
  note i = pmm_reachable_inv [OF assms(1)]
  show ?thesis
  proof (cases "free_set s = {}")
    case True
    then show ?thesis using pmm_alloc_page_spec(2) [OF i assms(2)] by simp
  next
    case False
    note sp = pmm_alloc_page_spec(3) [OF i assms(2) False]
    then have "Min (free_set s) \<in> free_set s" using False by simp
    then have "unat (free_pages s') = unat (free_pages s) - 1"
      using i pmm_alloc_page_spec(1) [OF i assms(2)] sp
      by (simp add: pmm_inv_def pmm_count_def card_Diff_singleton)
    moreover have "page_aligned a" using sp by simp
    then have "unat a = page_of a * 4096" by simp
    ultimately show ?thesis using sp False by simp
  qed
qed

theorem pmm_alloc_page_lowest_witness:
  "\<exists>s'. pmm_alloc_page pmm_sample = (0x180000, s') \<and> unat (free_pages s') = unat (free_pages pmm_sample) - 1"
proof -
  have m: "Min (free_set pmm_sample) = 0x180"
    unfolding pmm_sample_free_set by (rule Min_eqI) auto
  have ne: "free_set pmm_sample \<noteq> {}" by (simp add: pmm_sample_free_set)
  have "unat (fst (pmm_alloc_page pmm_sample)) = unat (0x180000 :: u64)"
    and "unat (free_pages (snd (pmm_alloc_page pmm_sample))) = unat (free_pages pmm_sample) - 1"
    using pmm_alloc_page_lowest [OF pmm_sample_reachable prod.collapse [symmetric]] ne m by simp_all
  then show ?thesis
    by (intro exI [of _ "snd (pmm_alloc_page pmm_sample)"]) (simp add: prod_eq_iff word_unat_eq_iff)
qed

text \<open>C12: \<open>pmm_alloc_pages\<close> is first fit and complete: when some run of \<open>count\<close> contiguous free
  pages exists it returns the start of the lowest one and takes exactly those pages; otherwise
  (and for \<open>count = 0\<close>) it returns 0 and leaves bitmap and counter as they were.\<close>

theorem pmm_alloc_pages_first_fit:
  assumes "pmm_reachable s" and "pmm_alloc_pages count s = (a, s')"
  shows "if count \<noteq> 0 \<and> (\<exists>p. {p..<p + unat count} \<subseteq> free_set s)
     then a \<noteq> 0 \<and> page_aligned a \<and> page_of a = (LEAST p. {p..<p + unat count} \<subseteq> free_set s) \<and>
       free_set s' = free_set s - {page_of a..<page_of a + unat count} \<and>
       unat (free_pages s') = unat (free_pages s) - unat count
     else a = 0 \<and> free_set s' = free_set s \<and> free_pages s' = free_pages s"
proof (cases "count \<noteq> 0 \<and> (\<exists>p. {p..<p + unat count} \<subseteq> free_set s)")
  case False
  then have "count = 0 \<or> (\<forall>p. \<not> free_run s p (unat count))" by (auto simp: free_run_def)
  from pmm_alloc_pages_failure [OF pmm_reachable_inv [OF assms(1)] assms(2) this] False
  show ?thesis by simp
next
  case True
  note i = pmm_reachable_inv [OF assms(1)]
  obtain p where p: "free_run s p (unat count)" using True by (auto simp: free_run_def)
  note ok = pmm_alloc_pages_success [OF i assms(2) conjunct1 [OF True]]
  have run: "free_run s (page_of a) (unat count)" by (rule ok(4) [OF p])
  have least: "(LEAST p. {p..<p + unat count} \<subseteq> free_set s) = page_of a"
    using run ok(5) by (intro Least_equality) (auto simp: free_run_def)
  have "card (free_set s') = card (free_set s) - unat count"
    using run ok(6) [OF p] by (simp add: free_run_def card_Diff_subset)
  then have "unat (free_pages s') = unat (free_pages s) - unat count"
    using i ok(1) [OF p] by (simp add: pmm_inv_def pmm_count_def)
  then show ?thesis using True least ok(2,3,6) [OF p] by simp
qed

theorem pmm_alloc_pages_first_fit_witness:
  "fst (pmm_alloc_pages 200 pmm_sample) = 0x180000 \<and> fst (pmm_alloc_pages 300 pmm_sample) = 0"
proof
  note t = pmm_alloc_pages_first_fit [OF pmm_sample_reachable prod.collapse [symmetric]]
  have l: "(LEAST p. {p..<p + 200} \<subseteq> free_set pmm_sample) = 0x180"
  proof (rule Least_equality)
    show "{0x180..<0x180 + 200} \<subseteq> free_set pmm_sample" unfolding pmm_sample_free_set by auto
    fix q assume "{q..<q + 200} \<subseteq> free_set pmm_sample"
    then have "q \<in> free_set pmm_sample" by auto
    then show "0x180 \<le> q" by (auto simp: pmm_sample_free_set)
  qed
  have "{0x180..<0x180 + 200} \<subseteq> free_set pmm_sample" unfolding pmm_sample_free_set by auto
  then have ex: "\<exists>p. {p..<p + 200} \<subseteq> free_set pmm_sample" by blast
  have "page_of (fst (pmm_alloc_pages 200 pmm_sample)) = 0x180"
    and "page_aligned (fst (pmm_alloc_pages 200 pmm_sample))"
    using t [of 200] ex l by simp_all
  then have "unat (fst (pmm_alloc_pages 200 pmm_sample)) = unat (0x180000 :: u64)" by auto
  then show "fst (pmm_alloc_pages 200 pmm_sample) = 0x180000" by (simp only: word_unat_eq_iff)
  have "\<not> {p..<p + 300} \<subseteq> free_set pmm_sample" for p
  proof
    assume s: "{p..<p + 300} \<subseteq> free_set pmm_sample"
    then have "p \<in> free_set pmm_sample" by auto
    moreover have "\<not> (p \<le> 0x280 \<and> 0x280 < p + 300)" "\<not> (p \<le> 0x300 \<and> 0x300 < p + 300)"
      using subsetD [OF s, of "0x280"] subsetD [OF s, of "0x300"] by (auto simp: pmm_sample_free_set)
    ultimately show False by (auto simp: pmm_sample_free_set)
  qed
  then show "fst (pmm_alloc_pages 300 pmm_sample) = 0" using t [of 300] by simp
qed

text \<open>C36: whatever memory map the boot loader passes, once \<open>pmm_init\<close> has finished no page of the
  first MiB, of the kernel image, of the boot information or of the framebuffer is free.\<close>

theorem pmm_init_reserves:
  assumes "pmm_init m info kernel_start kernel_end fb fb_size s = Some s'"
  shows "free_set s' \<inter> ({0..<256} \<union> pages_touched kernel_start (kernel_end - kernel_start) \<union>
     pages_touched info (ucast (load32 m info)) \<union> pages_touched fb fb_size) = {}"
  by (rule pmm_init_result(2) [OF assms])

theorem pmm_init_reserves_witness:
  "free_set pmm_sample \<inter> pages_touched 0x280000 0x1000 = {}"
  using pmm_init_reserves [OF pmm_sample_init] by blast

text \<open>\<open>pmm_init\<close> returns, for every boot information below 4 EiB whose tags have a nonzero
  size and whose memory-map tags have a nonzero entry size, both of which the boot protocol
  promises and the code does not check.\<close>

theorem pmm_init_returns:
  assumes "unat info < 2 ^ 61"
    and "tags_advance m (info + ucast (load32 m info)) (info + 8)"
  shows "\<exists>s'. pmm_init m info kernel_start kernel_end fb fb_size s = Some s'"
proof -
  have "unat (info + ucast (load32 m info)) < 2 ^ 62"
    using assms(1) unat_less_u32 [of "load32 m info"] by (simp add: unat_word_ariths)
  from mb_tags_terminates [OF assms(2) this tag_first] show ?thesis
    by (fastforce simp: pmm_init_eq)
qed

lemma boot_sample_advance: "tags_advance boot_sample 0x9038 0x9008"
proof -
  have r: "(40 + 7 :: u32) AND NOT 7 = 40" by code_simp
  have at: "p = 0x9008 \<or> p = 0x9030" if "tag_at boot_sample 0x9038 0x9008 p" for p
    using that by induction (use r in \<open>auto simp: boot_sample_loads\<close>)
  show ?thesis using r by (auto dest!: at simp: tags_advance_def boot_sample_loads)
qed

theorem pmm_init_returns_witness:
  "\<exists>s'. pmm_init boot_sample 0x9000 0 0 0 0 pmm_blank = Some s'"
  by (rule pmm_init_returns) (simp_all add: boot_sample_loads boot_sample_advance)

text \<open>single-page allocations with no free in between never overlap: \<open>n\<close> calls, for \<open>n\<close> up to
  the number of free pages, return \<open>n\<close> distinct nonzero page-aligned frames that were free, and
  after as many calls as there were free pages the next one returns 0.\<close>

theorem pmm_allocations_disjoint:
  assumes "pmm_reachable s" and "n \<le> card (free_set s)"
    and "alloc_many pmm_alloc_page n s = (as, s')"
  shows "length as = n \<and> distinct (map page_of as) \<and> page_of ` set as \<subseteq> free_set s \<and> 0 \<notin> set as \<and>
     (\<forall>a\<in>set as. page_aligned a) \<and> free_set s' = free_set s - page_of ` set as \<and>
     (n = card (free_set s) \<longrightarrow> fst (pmm_alloc_page s') = 0)"
  using pages.alloc_many_fresh [OF pmm_reachable_inv [OF assms(1)] assms(2,3)]
    pages.alloc_many_exhausts [OF pmm_reachable_inv [OF assms(1)], of as s'] assms(3)
  by blast

theorem pmm_allocations_disjoint_witness:
  "\<exists>as s'. alloc_many pmm_alloc_page 383 pmm_sample = (as, s') \<and> distinct (map page_of as) \<and>
     fst (pmm_alloc_page s') = 0"
  using pmm_allocations_disjoint [OF pmm_sample_reachable, of 383] card_sample
  by (metis le_refl surj_pair)

text \<open>\<open>pmm_free_page\<close> frees exactly the page of a nonzero page-aligned address below 4 GiB and
  ignores every other address; freeing the page just allocated restores the free set, and freeing
  twice is freeing once, counter included.\<close>

theorem pmm_free_page_correct:
  assumes "pmm_reachable s"
  shows "free_set (pmm_free_page address s) =
       (if allocatable address then insert (page_of address) (free_set s) else free_set s) \<and>
     pmm_free_page address (pmm_free_page address s) = pmm_free_page address s \<and>
     (free_set s \<noteq> {} \<longrightarrow>
       free_set (pmm_free_page (fst (pmm_alloc_page s)) (snd (pmm_alloc_page s))) = free_set s)"
proof (intro conjI impI)
  note i = pmm_reachable_inv [OF assms]
  show "free_set (pmm_free_page address s) =
       (if allocatable address then insert (page_of address) (free_set s) else free_set s)"
    using pmm_free_page_spec(2,3) [OF i] by simp
  show "pmm_free_page address (pmm_free_page address s) = pmm_free_page address s"
    by (simp add: pmm_free_page_guard release_if_used_def Let_def)
  assume "free_set s \<noteq> {}"
  with i show "free_set (pmm_free_page (fst (pmm_alloc_page s)) (snd (pmm_alloc_page s))) = free_set s"
    by (rule pages.release_alloc)
qed

theorem pmm_free_page_correct_witness:
  "free_set (pmm_free_page 0x100000 pmm_sample) = insert 0x100 (free_set pmm_sample) \<and>
   free_set (pmm_free_page 0x100001 pmm_sample) = free_set pmm_sample"
  using pmm_free_page_correct [OF pmm_sample_reachable, of "0x100000"]
    pmm_free_page_correct [OF pmm_sample_reachable, of "0x100001"]
  by (simp add: allocatable_def MAX_PHYSICAL_MEMORY_def)

end
