(* ===== verification/Machine.thy ===== *)
theory Machine
  imports Pmm
begin

text \<open>
  The state the memory components share: the page allocator, physical memory as the kernel reads
  and writes it (the identity map makes a physical address its own pointer), the counters of
  \<open>src/memory/kmalloc.c\<close>, the variables of \<open>src/memory/vmm.c\<close> with the CR3 register and the
  log of \<open>invlpg\<close> instructions, and the variables of \<open>src/framebuffer.c\<close>.
  The 64-bit slots of a page (\<open>table[i]\<close>) are read and written through \<open>slot\<close> and
  \<open>set_slot\<close>.
\<close>

record machine =
  pmm :: pmm_state
  mem :: memory
  heap_used :: u64
  heap_total :: u64
  current_pml4 :: u64
  kernel_pml4 :: u64
  kernel_cr3 :: u64
  cr3 :: u64
  invalidated :: "u64 list"
  fb_addr :: u64
  fb_pitch :: u32
  fb_w :: u32
  fb_h :: u32
  fb_bpp :: u8
  r_pos :: u8
  g_pos :: u8
  b_pos :: u8
  draw_buf :: u64
  display_buf :: u64
  fb_force_full :: bool

definition on_pmm :: "(pmm_state \<Rightarrow> pmm_state) \<Rightarrow> machine \<Rightarrow> machine" where
  "on_pmm f m = m\<lparr>pmm := f (pmm m)\<rparr>"

definition of_pmm :: "(pmm_state \<Rightarrow> 'a \<times> pmm_state) \<Rightarrow> machine \<Rightarrow> 'a \<times> machine" where
  "of_pmm f m = (let (x, p) = f (pmm m) in (x, m\<lparr>pmm := p\<rparr>))"

definition print_m :: "string \<Rightarrow> machine \<Rightarrow> machine" where
  "print_m msg m = on_pmm (terminal_print msg) m"

definition present_m :: "machine \<Rightarrow> machine" where
  "present_m m = on_pmm fb_present m"

definition poke64 :: "u64 \<Rightarrow> u64 \<Rightarrow> machine \<Rightarrow> machine" where
  "poke64 a v m = m\<lparr>mem := store64 (mem m) a v\<rparr>"

text \<open>\<open>table[i]\<close> for a pointer to 64-bit integers.\<close>

definition slot :: "machine \<Rightarrow> u64 \<Rightarrow> nat \<Rightarrow> u64" where
  "slot m t i = load64 (mem m) (t + 8 * of_nat i)"

definition set_slot :: "u64 \<Rightarrow> nat \<Rightarrow> u64 \<Rightarrow> machine \<Rightarrow> machine" where
  "set_slot t i v m = poke64 (t + 8 * of_nat i) v m"

text \<open>The accessors of \<open>src/framebuffer.c\<close> the page-table code asks for its ranges.\<close>

definition fb_physical_address :: "machine \<Rightarrow> u64" where
  "fb_physical_address m = fb_addr m"

definition fb_memory_size :: "machine \<Rightarrow> u64" where
  "fb_memory_size m = ucast (fb_pitch m) * ucast (fb_h m)"

definition fb_draw_buffer_address :: "machine \<Rightarrow> u64" where
  "fb_draw_buffer_address m = draw_buf m"

definition fb_display_buffer_address :: "machine \<Rightarrow> u64" where
  "fb_display_buffer_address m = display_buf m"

definition fb_buffer_size :: "machine \<Rightarrow> u64" where
  "fb_buffer_size m = ucast (fb_w m) * ucast (fb_h m) * 4"

section \<open>Reads after writes\<close>

lemma unat_diff_both:
  fixes a b :: u64
  assumes "a \<noteq> b"
  shows "unat (a - b) + unat (b - a) = 2 ^ 64"
  using assms unat_less_u64 [of a] unat_less_u64 [of b]
  by (auto simp: unat_sub_if' word_unat_eq_iff)

lemma page_aligned_room: "page_aligned t \<Longrightarrow> unat t + 4096 \<le> 2 ^ 64"
  using unat_less_u64 [of t] by (auto elim!: dvdE)

lemma bytes_apart:
  fixes a b :: u64
  assumes "n \<le> unat (b - a)" and "k \<le> unat (a - b)" and "i < k" and "k \<le> 2 ^ 63"
  shows "n \<le> unat (b + of_nat i - a)"
proof (cases "b = a")
  case True
  with assms show ?thesis by simp
next
  case False
  have i: "unat (of_nat i :: u64) = i" using assms by (simp add: unat_of_nat)
  have ab: "unat (a - b) + unat (b - a) = 2 ^ 64"
    using False unat_diff_both [of a b] by simp
  then have "unat (b - a) + unat (of_nat i :: u64) < 2 ^ LENGTH(64)"
    using assms(2,3) i by simp
  then have "unat (b - a + of_nat i) = unat (b - a) + i"
    using i iffD1 [OF unat_add_lem] by metis
  moreover have "b + of_nat i - a = b - a + of_nat i" by simp
  ultimately show ?thesis using assms(1) by (simp only:)
qed

lemma load_store_bytes_apart [mem_simps]:
  assumes "length bs \<le> unat (b - a)" and "n \<le> unat (a - b)" and "n \<le> 2 ^ 63"
  shows "load_bytes (store_bytes m a bs) b n = load_bytes m b n"
proof (rule load_bytes_cong)
  fix i assume "i < n"
  then have "length bs \<le> unat (b + of_nat i - a)" using bytes_apart assms by blast
  moreover have "length bs \<le> 2 ^ 64" using assms(1) unat_less_u64 [of "b - a"] by simp
  ultimately show "store_bytes m a bs (b + of_nat i) = m (b + of_nat i)"
    by (simp add: store_bytes_apply)
qed

lemma load64_store64_apart [mem_simps]:
  "8 \<le> unat (b - a) \<Longrightarrow> 8 \<le> unat (a - b) \<Longrightarrow> load64 (store64 m a v) b = load64 m b"
  by (simp add: load64_def store64_def load_store_bytes_apart)

lemma unat_diff_ge:
  fixes a b :: u64
  assumes "unat a + 8 \<le> unat b"
  shows "8 \<le> unat (b - a)" and "unat b + 8 \<le> 2 ^ 64 \<Longrightarrow> 8 \<le> unat (a - b)"
proof -
  have le: "a \<le> b" using assms by (simp add: word_le_nat_alt)
  then have d: "unat (b - a) = unat b - unat a" by (simp add: unat_sub)
  then show "8 \<le> unat (b - a)" using assms by simp
  have e: "unat (a - b) + unat (b - a) = 2 ^ 64"
    using assms by (intro unat_diff_both) auto
  assume "unat b + 8 \<le> 2 ^ 64"
  then show "8 \<le> unat (a - b)" using d e by simp
qed

lemma unat_slot_address:
  assumes "page_aligned t" and "i < 512"
  shows "unat (t + 8 * of_nat i) = unat t + 8 * i"
proof -
  have "unat t + 4096 \<le> 2 ^ 64"
    using assms(1) by (rule page_aligned_room)
  then have "unat t + 8 * i < 2 ^ 64" using assms(2) by linarith
  then show ?thesis by (simp add: unat_word_ariths unat_of_nat mod_simps)
qed

lemma slot_set_slot:
  assumes "page_aligned t" and "page_aligned t'" and "i < 512" and "j < 512"
  shows "slot (set_slot t i v m) t' j = (if t = t' \<and> i = j then v else slot m t' j)"
proof (cases "t = t' \<and> i = j")
  case True
  then show ?thesis by (simp add: slot_def set_slot_def poke64_def)
next
  case False
  let ?a = "t + 8 * of_nat i :: u64" and ?b = "t' + 8 * of_nat j :: u64"
  note ua = unat_slot_address [OF assms(1,3)] and ub = unat_slot_address [OF assms(2,4)]
  obtain k l where k: "unat t = 4096 * k" and l: "unat t' = 4096 * l"
    using assms(1,2) by (auto elim!: dvdE)
  have hi: "unat ?a + 8 \<le> 2 ^ 64" "unat ?b + 8 \<le> 2 ^ 64"
    using ua ub assms(3,4) page_aligned_room [OF assms(1)] page_aligned_room [OF assms(2)] by linarith+
  have "unat ?a + 8 \<le> unat ?b \<or> unat ?b + 8 \<le> unat ?a"
  proof (cases "t = t'")
    case True
    with False have "i < j \<or> j < i" by auto
    then show ?thesis unfolding ua ub using True by auto
  next
    case False
    then have "unat t \<noteq> unat t'" by (simp add: word_unat_eq_iff)
    then have "k < l \<or> l < k" unfolding k l by auto
    then show ?thesis unfolding ua ub k l using assms(3,4) by linarith
  qed
  then have "8 \<le> unat (?b - ?a) \<and> 8 \<le> unat (?a - ?b)"
    using unat_diff_ge hi by blast
  with False show ?thesis
    unfolding slot_def set_slot_def poke64_def by (auto simp: load64_store64_apart)
qed

lemma slot_cong: "mem m = mem m' \<Longrightarrow> slot m t i = slot m' t i"
  by (simp add: slot_def)

text \<open>What each primitive leaves alone.\<close>

lemma machine_frames [frame_simps, simp]:
  "mem (on_pmm f m) = mem m" "pmm (on_pmm f m) = f (pmm m)" "heap_used (on_pmm f m) = heap_used m"
  "heap_total (on_pmm f m) = heap_total m" "current_pml4 (on_pmm f m) = current_pml4 m"
  "kernel_pml4 (on_pmm f m) = kernel_pml4 m" "kernel_cr3 (on_pmm f m) = kernel_cr3 m"
  "cr3 (on_pmm f m) = cr3 m" "invalidated (on_pmm f m) = invalidated m"
  "fb_physical_address (on_pmm f m) = fb_physical_address m"
  "fb_memory_size (on_pmm f m) = fb_memory_size m"
  "fb_draw_buffer_address (on_pmm f m) = fb_draw_buffer_address m"
  "fb_display_buffer_address (on_pmm f m) = fb_display_buffer_address m"
  "fb_buffer_size (on_pmm f m) = fb_buffer_size m" "pmm (poke64 a v m) = pmm m"
  "mem (poke64 a v m) = store64 (mem m) a v" "heap_used (poke64 a v m) = heap_used m"
  "heap_total (poke64 a v m) = heap_total m" "current_pml4 (poke64 a v m) = current_pml4 m"
  "kernel_pml4 (poke64 a v m) = kernel_pml4 m" "kernel_cr3 (poke64 a v m) = kernel_cr3 m"
  "cr3 (poke64 a v m) = cr3 m" "invalidated (poke64 a v m) = invalidated m"
  "fb_physical_address (poke64 a v m) = fb_physical_address m"
  "fb_memory_size (poke64 a v m) = fb_memory_size m"
  "fb_draw_buffer_address (poke64 a v m) = fb_draw_buffer_address m"
  "fb_display_buffer_address (poke64 a v m) = fb_display_buffer_address m"
  "fb_buffer_size (poke64 a v m) = fb_buffer_size m"
  by (simp_all add: on_pmm_def poke64_def fb_physical_address_def fb_memory_size_def
      fb_draw_buffer_address_def fb_display_buffer_address_def fb_buffer_size_def)

lemma slot_frames [frame_simps, simp]:
  "slot (on_pmm f m) t i = slot m t i" "slot (m\<lparr>pmm := p\<rparr>) t i = slot m t i"
  "pmm (set_slot t i v m) = pmm m" "heap_used (set_slot t i v m) = heap_used m"
  "heap_total (set_slot t i v m) = heap_total m"
  "current_pml4 (set_slot t i v m) = current_pml4 m"
  "kernel_pml4 (set_slot t i v m) = kernel_pml4 m" "kernel_cr3 (set_slot t i v m) = kernel_cr3 m"
  "cr3 (set_slot t i v m) = cr3 m" "invalidated (set_slot t i v m) = invalidated m"
  "fb_physical_address (set_slot t i v m) = fb_physical_address m"
  "fb_memory_size (set_slot t i v m) = fb_memory_size m"
  "fb_draw_buffer_address (set_slot t i v m) = fb_draw_buffer_address m"
  "fb_display_buffer_address (set_slot t i v m) = fb_display_buffer_address m"
  "fb_buffer_size (set_slot t i v m) = fb_buffer_size m"
  "fb_physical_address (m\<lparr>pmm := p\<rparr>) = fb_physical_address m"
  "fb_memory_size (m\<lparr>pmm := p\<rparr>) = fb_memory_size m"
  "fb_draw_buffer_address (m\<lparr>pmm := p\<rparr>) = fb_draw_buffer_address m"
  "fb_display_buffer_address (m\<lparr>pmm := p\<rparr>) = fb_display_buffer_address m"
  "fb_buffer_size (m\<lparr>pmm := p\<rparr>) = fb_buffer_size m"
  by (simp_all add: slot_def set_slot_def poke64_def fb_physical_address_def fb_memory_size_def
      fb_draw_buffer_address_def fb_display_buffer_address_def fb_buffer_size_def)

lemma print_frames [frame_simps, simp]:
  "mem (print_m msg m) = mem m" "pmm (print_m msg m) = terminal_print msg (pmm m)"
  "slot (print_m msg m) t i = slot m t i" "heap_used (print_m msg m) = heap_used m"
  "heap_total (print_m msg m) = heap_total m" "current_pml4 (print_m msg m) = current_pml4 m"
  "kernel_pml4 (print_m msg m) = kernel_pml4 m" "kernel_cr3 (print_m msg m) = kernel_cr3 m"
  "cr3 (print_m msg m) = cr3 m" "invalidated (print_m msg m) = invalidated m"
  "fb_physical_address (print_m msg m) = fb_physical_address m"
  "fb_memory_size (print_m msg m) = fb_memory_size m"
  "fb_draw_buffer_address (print_m msg m) = fb_draw_buffer_address m"
  "fb_display_buffer_address (print_m msg m) = fb_display_buffer_address m"
  "fb_buffer_size (print_m msg m) = fb_buffer_size m" "mem (present_m m) = mem m"
  "pmm (present_m m) = fb_present (pmm m)" "slot (present_m m) t i = slot m t i"
  "heap_used (present_m m) = heap_used m" "heap_total (present_m m) = heap_total m"
  "current_pml4 (present_m m) = current_pml4 m" "kernel_pml4 (present_m m) = kernel_pml4 m"
  "kernel_cr3 (present_m m) = kernel_cr3 m" "cr3 (present_m m) = cr3 m"
  "invalidated (present_m m) = invalidated m"
  "fb_physical_address (present_m m) = fb_physical_address m"
  "fb_memory_size (present_m m) = fb_memory_size m"
  "fb_draw_buffer_address (present_m m) = fb_draw_buffer_address m"
  "fb_display_buffer_address (present_m m) = fb_display_buffer_address m"
  "fb_buffer_size (present_m m) = fb_buffer_size m"
  by (simp_all add: print_m_def present_m_def)

lemma fb_present_frames [frame_simps, simp]:
  "free_set (fb_present s) = free_set s" "pmm_inv (fb_present s) = pmm_inv s"
  "free_pages (fb_present s) = free_pages s" "total_pages (fb_present s) = total_pages s"
  "page_is_used p (fb_present s) = page_is_used p s"
  by (simp_all add: fb_present_def pmm_inv_def pmm_count_def page_is_used_def free_set_def)

end
