(* ===== verification/Vmm.thy ===== *)
theory Vmm
  imports Machine
begin

text \<open>
  Four-level page tables, \<open>src/memory/vmm.c\<close>. A table is a page of 512 little-endian 64-bit
  entries in physical memory, which the kernel reaches through its identity map; \<open>slot\<close> and
  \<open>set_slot\<close> read and write them. The C code writes the descent from one level to the next out
  three times; here it is \<open>enter_table\<close>. A call that halts the machine is \<open>None\<close>.
\<close>

unbundle bit_operations_syntax

section \<open>Constants and indices\<close>

definition ENTRIES :: nat where "ENTRIES = 512"

definition PAGE_MASK :: u64 where "PAGE_MASK = 0x000FFFFFFFFFF000"

definition HUGE_PAGE :: u64 where "HUGE_PAGE = push_bit 7 1"

definition PAGE_PRESENT :: u64 where "PAGE_PRESENT = push_bit 0 1"

definition PAGE_WRITABLE :: u64 where "PAGE_WRITABLE = push_bit 1 1"

definition PAGE_USER :: u64 where "PAGE_USER = push_bit 2 1"

definition PAGE_NX :: u64 where "PAGE_NX = push_bit 63 1"

definition pml4_index :: "u64 \<Rightarrow> nat" where "pml4_index va = unat (drop_bit 39 va AND 0x1FF)"

definition pdpt_index :: "u64 \<Rightarrow> nat" where "pdpt_index va = unat (drop_bit 30 va AND 0x1FF)"

definition pd_index :: "u64 \<Rightarrow> nat" where "pd_index va = unat (drop_bit 21 va AND 0x1FF)"

definition pt_index :: "u64 \<Rightarrow> nat" where "pt_index va = unat (drop_bit 12 va AND 0x1FF)"

definition physical_to_table :: "u64 \<Rightarrow> u64" where
  "physical_to_table address = address AND PAGE_MASK"

section \<open>Tables and mappings\<close>

definition invalidate_page :: "u64 \<Rightarrow> machine \<Rightarrow> machine" where
  "invalidate_page address m = m\<lparr>invalidated := invalidated m @ [address]\<rparr>"

definition allocate_table :: "machine \<Rightarrow> u64 \<times> machine" where
  "allocate_table m =
     (let (physical, m) = of_pmm pmm_alloc_page m in
      if physical = 0 then (0, m)
      else (physical, fold (\<lambda>i. set_slot physical i 0) [0..<ENTRIES] m))"

text \<open>
  One level down: entry \<open>i\<close> of \<open>table\<close> is made to point to a new empty table when it is not
  present, otherwise the user bit is merged into it. \<open>None\<close> is the failed table allocation.
\<close>

definition enter_table :: "u64 \<Rightarrow> nat \<Rightarrow> u64 \<Rightarrow> machine \<Rightarrow> u64 option \<times> machine" where
  "enter_table table i flags m =
     (if slot m table i AND PAGE_PRESENT = 0 then
        (let (child, m) = allocate_table m in
         if child = 0 then (None, m)
         else (Some child,
               set_slot table i (child OR PAGE_PRESENT OR PAGE_WRITABLE OR (flags AND PAGE_USER)) m))
      else
        (let child = physical_to_table (slot m table i) in
         (Some child, set_slot table i (slot m table i OR (flags AND PAGE_USER)) m)))"

text \<open>The last level: the page-table entry itself.\<close>

definition set_leaf :: "u64 \<Rightarrow> nat \<Rightarrow> u64 \<Rightarrow> u64 \<Rightarrow> machine \<Rightarrow> int \<times> machine" where
  "set_leaf pt i physical_address flags m =
     (if slot m pt i AND PAGE_PRESENT \<noteq> 0 then
        (let existing = slot m pt i AND PAGE_MASK;
             requested = physical_address AND PAGE_MASK in
         if existing = requested
         then (0, set_slot pt i (slot m pt i OR (flags AND (PAGE_USER OR PAGE_WRITABLE))) m)
         else (-6, m))
      else (0, set_slot pt i ((physical_address AND PAGE_MASK) OR flags OR PAGE_PRESENT) m))"

definition map_page_in :: "u64 \<Rightarrow> u64 \<Rightarrow> u64 \<Rightarrow> u64 \<Rightarrow> machine \<Rightarrow> int \<times> machine" where
  "map_page_in pml4 virtual_address physical_address flags m =
     (if virtual_address AND (PAGE_SIZE - 1) \<noteq> 0 then (-1, m)
      else if physical_address AND (PAGE_SIZE - 1) \<noteq> 0 then (-1, m)
      else
        (case enter_table pml4 (pml4_index virtual_address) flags m of
           (None, m) \<Rightarrow> (-2, m)
         | (Some pdpt, m) \<Rightarrow>
             (case enter_table pdpt (pdpt_index virtual_address) flags m of
                (None, m) \<Rightarrow> (-3, m)
              | (Some pd, m) \<Rightarrow>
                  if slot m pd (pd_index virtual_address) AND HUGE_PAGE \<noteq> 0 then (-4, m)
                  else
                    (case enter_table pd (pd_index virtual_address) flags m of
                       (None, m) \<Rightarrow> (-5, m)
                     | (Some pt, m) \<Rightarrow>
                         set_leaf pt (pt_index virtual_address) physical_address flags m))))"

definition get_physical_from :: "machine \<Rightarrow> u64 \<Rightarrow> u64 \<Rightarrow> u64" where
  "get_physical_from m pml4 virtual_address =
     (let offset = virtual_address AND 0xFFF;
          pml4e = slot m pml4 (pml4_index virtual_address) in
      if pml4e AND PAGE_PRESENT = 0 then 0
      else
        (let pdpte = slot m (physical_to_table pml4e) (pdpt_index virtual_address) in
         if pdpte AND PAGE_PRESENT = 0 then 0
         else
           (let pde = slot m (physical_to_table pdpte) (pd_index virtual_address) in
            if pde AND PAGE_PRESENT = 0 then 0
            else if pde AND HUGE_PAGE \<noteq> 0
            then (pde AND 0x000FFFFFFFE00000) + (virtual_address AND 0x1FFFFF)
            else
              (let pte = slot m (physical_to_table pde) (pt_index virtual_address) in
               if pte AND PAGE_PRESENT = 0 then 0
               else (pte AND PAGE_MASK) + offset))))"

definition vmm_init :: "machine \<Rightarrow> machine" where
  "vmm_init m = print_m ''VMM initialized.\<newline>'' (m\<lparr>current_pml4 := physical_to_table (cr3 m)\<rparr>)"

definition vmm_map_page :: "u64 \<Rightarrow> u64 \<Rightarrow> u64 \<Rightarrow> machine \<Rightarrow> int \<times> machine" where
  "vmm_map_page virtual_address physical_address flags m =
     (let (result, m) = map_page_in (current_pml4 m) virtual_address physical_address flags m in
      if result = 0 then (result, invalidate_page virtual_address m) else (result, m))"

text \<open>\<open>for (i = ...) { result = map(i); if (result != 0) return result; } return 0;\<close>\<close>

fun map_each :: "(nat \<Rightarrow> machine \<Rightarrow> int \<times> machine) \<Rightarrow> nat list \<Rightarrow> machine \<Rightarrow> int \<times> machine" where
  "map_each f [] m = (0, m)"
| "map_each f (i # is) m =
     (let (result, m) = f i m in if result \<noteq> 0 then (result, m) else map_each f is m)"

definition page_span :: "u64 \<Rightarrow> u64 \<Rightarrow> u64" where
  "page_span virtual_address sz =
     (let offset = virtual_address AND (PAGE_SIZE - 1);
          total_bytes = sz + offset
      in (total_bytes + PAGE_SIZE - 1) div PAGE_SIZE)"

definition vmm_map_range :: "u64 \<Rightarrow> u64 \<Rightarrow> u64 \<Rightarrow> u64 \<Rightarrow> machine \<Rightarrow> int \<times> machine" where
  "vmm_map_range virtual_address physical_address sz flags m =
     (if sz = 0 then (0, m)
      else
        (let v_start = align_down virtual_address;
             p_start = align_down physical_address in
         map_each (\<lambda>i. vmm_map_page (v_start + of_nat i * PAGE_SIZE) (p_start + of_nat i * PAGE_SIZE) flags)
           [0..<unat (page_span virtual_address sz)] m))"

definition vmm_unmap_page :: "u64 \<Rightarrow> machine \<Rightarrow> machine" where
  "vmm_unmap_page virtual_address m =
     (let pml4e = slot m (current_pml4 m) (pml4_index virtual_address) in
      if pml4e AND PAGE_PRESENT = 0 then m
      else
        (let pdpte = slot m (physical_to_table pml4e) (pdpt_index virtual_address) in
         if pdpte AND PAGE_PRESENT = 0 then m
         else
           (let pde = slot m (physical_to_table pdpte) (pd_index virtual_address) in
            if pde AND PAGE_PRESENT = 0 then m
            else if pde AND HUGE_PAGE \<noteq> 0 then m
            else invalidate_page virtual_address
                   (set_slot (physical_to_table pde) (pt_index virtual_address) 0 m))))"

definition vmm_get_physical :: "u64 \<Rightarrow> machine \<Rightarrow> u64" where
  "vmm_get_physical virtual_address m = get_physical_from m (current_pml4 m) virtual_address"

section \<open>The kernel address space\<close>

text \<open>\<open>for (address = start; address < end; address += PAGE_SIZE)\<close> identity-mapping each page.\<close>

definition map_identity :: "u64 \<Rightarrow> u64 list \<Rightarrow> machine \<Rightarrow> int \<times> machine" where
  "map_identity pml4 addresses m =
     map_each (\<lambda>i. map_page_in pml4 (addresses ! i) (addresses ! i) PAGE_WRITABLE)
       [0..<length addresses] m"

definition vmm_identity_map_physical_memory :: "machine \<Rightarrow> int \<times> machine" where
  "vmm_identity_map_physical_memory m =
     map_identity (kernel_pml4 m) (page_range 0 (4 * 1024 * 1024 * 1024)) m"

definition map_framebuffer :: "u64 \<Rightarrow> machine \<Rightarrow> int \<times> machine" where
  "map_framebuffer pml4 m =
     (let framebuffer_address = fb_physical_address m;
          framebuffer_size = fb_memory_size m in
      if framebuffer_address \<noteq> 0 \<and> framebuffer_size \<noteq> 0
      then map_identity pml4 (page_range (align_down framebuffer_address)
             (align_up (framebuffer_address + framebuffer_size))) m
      else (0, m))"

definition vmm_prepare_kernel_space :: "u64 \<Rightarrow> u64 \<Rightarrow> machine \<Rightarrow> machine option" where
  "vmm_prepare_kernel_space kernel_start kernel_end m =
     (let (root, m) = allocate_table m;
          m = m\<lparr>kernel_pml4 := root\<rparr> in
      if root = 0 then None
      else
        (let (result, m) = map_identity root
               (page_range (align_down kernel_start) (align_up kernel_end)) m in
         if result \<noteq> 0 then None
         else
           (let (result, m) = map_framebuffer root m in
            if result \<noteq> 0 then None
            else
              (let (vga_result, m) = map_page_in root 0xB8000 0xB8000 PAGE_WRITABLE m;
                   m = print_m ''VMM: mapping physical memory...\<newline>'' m;
                   (identity_result, m) = vmm_identity_map_physical_memory m in
               if identity_result \<noteq> 0 then None
               else
                 (let m = print_m ''VMM: physical memory mapped\<newline>'' m in
                  if vga_result \<noteq> 0 then None
                  else Some (print_m ''Kernel address space prepared.\<newline>''
                               (m\<lparr>kernel_cr3 := root\<rparr>)))))))"

definition vmm_switch_kernel_space :: "machine \<Rightarrow> machine" where
  "vmm_switch_kernel_space m = m\<lparr>current_pml4 := kernel_pml4 m, cr3 := kernel_cr3 m\<rparr>"

definition vmm_map_kernel_range :: "u64 \<Rightarrow> u64 \<Rightarrow> u64 \<Rightarrow> u64 \<Rightarrow> machine \<Rightarrow> int \<times> machine" where
  "vmm_map_kernel_range virtual_address physical_address sz flags m =
     (if sz = 0 then (0, m)
      else
        (let v_start = align_down virtual_address;
             p_start = align_down physical_address in
         map_each (\<lambda>i m. map_page_in (kernel_pml4 m) (v_start + of_nat i * PAGE_SIZE)
                           (p_start + of_nat i * PAGE_SIZE) flags m)
           [0..<unat (page_span virtual_address sz)] m))"

definition vmm_map_kernel_memory :: "machine \<Rightarrow> int \<times> machine" where
  "vmm_map_kernel_memory m =
     (let draw = fb_draw_buffer_address m;
          disp = fb_display_buffer_address m;
          fb_phys = fb_physical_address m;
          fb_size = fb_memory_size m;
          buffer_size = fb_buffer_size m in
      if draw = 0 \<or> disp = 0 then (-1, m)
      else if fb_phys = 0 \<or> fb_size = 0 then (-2, m)
      else
        (let (result, m) = vmm_map_kernel_range draw draw buffer_size PAGE_WRITABLE m in
         if result \<noteq> 0 then (result, m)
         else
           (let (result, m) = vmm_map_kernel_range disp disp buffer_size PAGE_WRITABLE m in
            if result \<noteq> 0 then (result, m)
            else vmm_map_kernel_range fb_phys fb_phys fb_size PAGE_WRITABLE m)))"

section \<open>User address spaces\<close>

definition vmm_create_user_space :: "machine \<Rightarrow> u64 \<times> machine" where
  "vmm_create_user_space m =
     (let (user_pml4, m) = allocate_table m in
      if user_pml4 = 0 then (0, m)
      else
        (let m = set_slot user_pml4 0 (slot m (kernel_pml4 m) 0) m;
             m = fold (\<lambda>i m. set_slot user_pml4 i (slot m (kernel_pml4 m) i) m) [256..<ENTRIES] m;
             (result, m) = map_page_in user_pml4 0xB8000 0xB8000 PAGE_WRITABLE m in
         if result \<noteq> 0 then (0, m)
         else
           (let (result, m) = map_framebuffer user_pml4 m in
            if result \<noteq> 0 then (0, m) else (user_pml4, m))))"

definition vmm_map_user_page :: "u64 \<Rightarrow> u64 \<Rightarrow> u64 \<Rightarrow> u64 \<Rightarrow> machine \<Rightarrow> int \<times> machine" where
  "vmm_map_user_page c virtual_address physical_address flags m =
     (if c = 0 then (-1, m)
      else if virtual_address \<ge> 0x0000800000000000 then (-2, m)
      else map_page_in (c AND PAGE_MASK) virtual_address physical_address (flags OR PAGE_USER) m)"

definition vmm_get_physical_in :: "u64 \<Rightarrow> u64 \<Rightarrow> machine \<Rightarrow> u64" where
  "vmm_get_physical_in c virtual_address m =
     (if c = 0 then 0 else get_physical_from m (c AND PAGE_MASK) virtual_address)"

definition vmm_switch_address_space :: "u64 \<Rightarrow> machine \<Rightarrow> machine" where
  "vmm_switch_address_space c m =
     (if c = 0 then m else m\<lparr>current_pml4 := c AND PAGE_MASK, cr3 := c AND PAGE_MASK\<rparr>)"

text \<open>The loop body of \<open>vmm_destroy_user_space\<close>.\<close>

definition release_user_page :: "u64 \<Rightarrow> u64 \<Rightarrow> machine \<Rightarrow> machine" where
  "release_user_page pml4 va m =
     (let physical = get_physical_from m pml4 va in
      if physical \<noteq> 0 then on_pmm (pmm_free_page (physical AND PAGE_MASK)) m else m)"

definition vmm_destroy_user_space :: "u64 \<Rightarrow> machine \<Rightarrow> int \<times> machine" where
  "vmm_destroy_user_space c m =
     (if c = 0 then (-1, m)
      else
        (let m = vmm_switch_kernel_space m;
             pml4 = c AND PAGE_MASK;
             m = fold (release_user_page pml4) (page_range 0x00400000 0x40000000) m
         in (0, on_pmm (pmm_free_page pml4) m)))"

definition vmm_print_hex :: "u64 \<Rightarrow> machine \<Rightarrow> machine" where
  "vmm_print_hex value m = on_pmm (print_hex64 value) m"

definition debug_entry :: "string \<Rightarrow> u64 \<Rightarrow> machine \<Rightarrow> machine" where
  "debug_entry label e m = print_m ''\<newline>'' (vmm_print_hex e (print_m label m))"

definition vmm_debug_user_page :: "u64 \<Rightarrow> u64 \<Rightarrow> machine \<Rightarrow> machine" where
  "vmm_debug_user_page c virtual_address m =
     (let pml4e = slot m (c AND PAGE_MASK) (pml4_index virtual_address);
          m = debug_entry ''PML4E='' pml4e (print_m ''VMM DEBUG USER PAGE\<newline>'' m) in
      if pml4e AND PAGE_PRESENT = 0 then m
      else
        (let pdpte = slot m (physical_to_table pml4e) (pdpt_index virtual_address);
             m = debug_entry ''PDPTE='' pdpte m in
         if pdpte AND PAGE_PRESENT = 0 then m
         else
           (let pde = slot m (physical_to_table pdpte) (pd_index virtual_address);
                m = debug_entry ''PDE='' pde m in
            if pde AND PAGE_PRESENT = 0 then m
            else if pde AND HUGE_PAGE \<noteq> 0 then print_m ''HUGE PAGE\<newline>'' m
            else
              (let pte = slot m (physical_to_table pde) (pt_index virtual_address);
                   m = print_m ''FLAGS: '' (debug_entry ''PTE='' pte m);
                   m = (if pte AND PAGE_PRESENT \<noteq> 0 then print_m ''P '' m else m);
                   m = (if pte AND PAGE_WRITABLE \<noteq> 0 then print_m ''W '' m else m);
                   m = (if pte AND PAGE_USER \<noteq> 0 then print_m ''U '' m else m)
               in print_m ''\<newline>'' m))))"

end
