(* ===== verification/Vmm_Tree.thy ===== *)
theory Vmm_Tree
  imports Vmm
begin

text \<open>
  What the page-table operations mean. The tables below a root form a tree; \<open>table_at\<close> finds the
  one at a path of entry indices (innermost index first), \<open>space_ok\<close> says that they are
  page-aligned frames the allocator does not own and that no two paths lead to the same frame.
  Under that invariant each step of a mapping changes what it should and nothing else.
\<close>

unbundle bit_operations_syntax

section \<open>Entry bits\<close>

declare bit_0 [simp del]

lemma flag_exp:
  "PAGE_PRESENT = 2 ^ 0" "PAGE_WRITABLE = 2 ^ 1" "PAGE_USER = 2 ^ 2" "HUGE_PAGE = 2 ^ 7"
  by code_simp+

lemma flag_and [page_simps, simp]:
  "e AND PAGE_PRESENT = 0 \<longleftrightarrow> \<not> bit e 0" "e AND PAGE_WRITABLE = 0 \<longleftrightarrow> \<not> bit e 1"
  "e AND PAGE_USER = 0 \<longleftrightarrow> \<not> bit e 2" "e AND HUGE_PAGE = 0 \<longleftrightarrow> \<not> bit e 7"
  by (simp_all only: flag_exp and_exp_eq_0_iff_not_bit)

lemma bit_flags [simp]:
  "bit PAGE_PRESENT n \<longleftrightarrow> n = 0" "bit PAGE_WRITABLE n \<longleftrightarrow> n = 1"
  "bit PAGE_USER n \<longleftrightarrow> n = 2" "bit HUGE_PAGE n \<longleftrightarrow> n = 7"
  unfolding flag_exp bit_exp_iff by auto

lemma PAGE_MASK_bits: "PAGE_MASK = push_bit 12 (mask 40)"
  by code_simp

lemma bit_PAGE_MASK [simp]: "bit PAGE_MASK n \<longleftrightarrow> 12 \<le> n \<and> n < 52"
  unfolding PAGE_MASK_bits by (auto simp: bit_simps)

lemma bit_low_page_aligned: "page_aligned a \<Longrightarrow> n < 12 \<Longrightarrow> \<not> bit (a :: u64) n"
proof -
  assume "page_aligned a" "n < 12"
  then have "\<not> bit (a AND mask 12) n" by (simp add: page_offset_zero_iff [symmetric] page_mask)
  with \<open>n < 12\<close> show ?thesis by (simp add: bit_simps)
qed

lemma bit_high_small: "unat a < 2 ^ k \<Longrightarrow> bit (a :: u64) n \<Longrightarrow> n < k"
proof -
  assume a: "unat a < 2 ^ k" "bit a n"
  then have "take_bit k a = a"
    by (simp add: word_unat_eq_iff unsigned_take_bit_eq take_bit_nat_eq_self)
  with a(2) show "n < k" by (metis bit_take_bit_iff)
qed

lemma PAGE_MASK_frame:
  assumes "page_aligned a" and "unat a < 2 ^ 52"
  shows "a AND PAGE_MASK = a"
proof (rule bit_word_eqI)
  fix n assume "n < LENGTH(64)"
  have "12 \<le> n \<and> n < 52" if "bit a n"
    using that bit_high_small [OF assms(2)] bit_low_page_aligned [OF assms(1), of n] by force
  then show "bit (a AND PAGE_MASK) n = bit a n" by (auto simp: bit_simps)
qed

lemma physical_to_table_new:
  assumes "page_aligned c" and "unat c < 2 ^ 52"
  shows "physical_to_table (c OR PAGE_PRESENT OR PAGE_WRITABLE OR (f AND PAGE_USER)) = c"
proof -
  have "physical_to_table (c OR PAGE_PRESENT OR PAGE_WRITABLE OR (f AND PAGE_USER)) = c AND PAGE_MASK"
    unfolding physical_to_table_def by (rule bit_word_eqI) (auto simp: bit_simps)
  with PAGE_MASK_frame [OF assms] show ?thesis by simp
qed

lemma physical_to_table_user [simp]:
  "physical_to_table (e OR (f AND PAGE_USER)) = physical_to_table e"
  unfolding physical_to_table_def by (rule bit_word_eqI) (auto simp: bit_simps)

lemma page_aligned_physical_to_table [simp]: "page_aligned (physical_to_table e)"
proof -
  have "physical_to_table e AND 4095 = 0"
    unfolding physical_to_table_def page_mask by (rule bit_word_eqI) (auto simp: bit_simps)
  then show ?thesis by (simp add: page_offset_zero_iff)
qed

lemma index_bounds [simp]:
  "pml4_index va < 512" "pdpt_index va < 512" "pd_index va < 512" "pt_index va < 512"
proof -
  have "unat (x AND 0x1FF :: u64) < 512" for x
  proof -
    have "x AND 0x1FF \<le> 0x1FF" by (rule word_and_le1)
    then show ?thesis by (simp add: word_le_nat_alt)
  qed
  then show "pml4_index va < 512" "pdpt_index va < 512" "pd_index va < 512" "pt_index va < 512"
    by (simp_all add: pml4_index_def pdpt_index_def pd_index_def pt_index_def)
qed

section \<open>The tree of tables\<close>

definition next_table :: "nat \<Rightarrow> u64 \<Rightarrow> u64 option" where
  "next_table level e =
     (if bit e 0 \<and> (level = 2 \<longrightarrow> \<not> bit e 7) then Some (physical_to_table e) else None)"

fun table_at :: "machine \<Rightarrow> u64 \<Rightarrow> nat list \<Rightarrow> u64 option" where
  "table_at m root [] = Some root"
| "table_at m root (i # path) =
     (case table_at m root path of None \<Rightarrow> None | Some t \<Rightarrow> next_table (length path) (slot m t i))"

definition path_ok :: "nat list \<Rightarrow> bool" where
  "path_ok path \<longleftrightarrow> length path \<le> 3 \<and> (\<forall>i\<in>set path. i < 512)"

lemma path_ok_Cons: "path_ok (i # path) \<longleftrightarrow> i < 512 \<and> length path \<le> 2 \<and> path_ok path"
  by (auto simp: path_ok_def)

lemma path_ok_Nil [simp]: "path_ok []"
  by (simp add: path_ok_def)

text \<open>A frame that holds a table: page aligned, and in the allocator's hands as used.\<close>

definition table_frame :: "machine \<Rightarrow> u64 \<Rightarrow> bool" where
  "table_frame m t \<longleftrightarrow> page_aligned t \<and> page_of t < MAX_PAGES \<and> page_of t \<notin> free_set (pmm m)"

definition space_ok :: "machine \<Rightarrow> u64 \<Rightarrow> bool" where
  "space_ok m root \<longleftrightarrow> pmm_inv (pmm m) \<and>
     (\<forall>path t. path_ok path \<longrightarrow> table_at m root path = Some t \<longrightarrow> table_frame m t) \<and>
     (\<forall>p q t. path_ok p \<longrightarrow> path_ok q \<longrightarrow> table_at m root p = Some t \<longrightarrow> table_at m root q = Some t \<longrightarrow> p = q)"

lemma space_ok_frame: "space_ok m root \<Longrightarrow> path_ok p \<Longrightarrow> table_at m root p = Some t \<Longrightarrow> table_frame m t"
  by (simp add: space_ok_def)

lemma space_ok_inj:
  "space_ok m root \<Longrightarrow> path_ok p \<Longrightarrow> path_ok q \<Longrightarrow> table_at m root p = Some t \<Longrightarrow>
     table_at m root q = Some t \<Longrightarrow> p = q"
  by (simp add: space_ok_def)

lemma space_ok_pmm: "space_ok m root \<Longrightarrow> pmm_inv (pmm m)"
  by (simp add: space_ok_def)

text \<open>Translation, read off the tree.\<close>

definition pt_path :: "u64 \<Rightarrow> nat list" where
  "pt_path va = [pd_index va, pdpt_index va, pml4_index va]"

lemma path_ok_pt_path [simp]: "path_ok (pt_path va)" "path_ok [pdpt_index va, pml4_index va]"
  "path_ok [pml4_index va]" "path_ok [pd_index va, pdpt_index va, pml4_index va]"
  by (simp_all add: path_ok_def pt_path_def)

text \<open>The entry that decides a translation: a present page-table entry, or a present huge
  directory entry (flagged \<open>True\<close>).\<close>

definition leaf_view :: "machine \<Rightarrow> u64 \<Rightarrow> u64 \<Rightarrow> (u64 \<times> bool) option" where
  "leaf_view m root va =
     (case table_at m root (pt_path va) of
        Some pt \<Rightarrow> (let pte = slot m pt (pt_index va) in if bit pte 0 then Some (pte, False) else None)
      | None \<Rightarrow>
          (case table_at m root [pdpt_index va, pml4_index va] of
             Some pd \<Rightarrow> (let pde = slot m pd (pd_index va) in
               if bit pde 0 \<and> bit pde 7 then Some (pde, True) else None)
           | None \<Rightarrow> None))"

lemma get_physical_from_leaf:
  "get_physical_from m root va =
     (case leaf_view m root va of
        None \<Rightarrow> 0
      | Some (pte, False) \<Rightarrow> (pte AND PAGE_MASK) + (va AND 0xFFF)
      | Some (pde, True) \<Rightarrow> (pde AND 0x000FFFFFFFE00000) + (va AND 0x1FFFFF))"
  by (auto simp: get_physical_from_def leaf_view_def pt_path_def next_table_def Let_def split: option.split)

section \<open>Changing one entry\<close>

text \<open>
  \<open>entry_changed m m' t i\<close>: in every table frame of \<open>m\<close>, all entries but \<open>t[i]\<close> are as they
  were, and no frame that was in use has been given back.
\<close>

definition entry_changed :: "machine \<Rightarrow> machine \<Rightarrow> u64 \<Rightarrow> nat \<Rightarrow> bool" where
  "entry_changed m m' t i \<longleftrightarrow>
     (\<forall>t' j. table_frame m t' \<longrightarrow> j < 512 \<longrightarrow> (t', j) \<noteq> (t, i) \<longrightarrow> slot m' t' j = slot m t' j)"

lemma table_at_changed:
  assumes ok: "space_ok m root" and p: "path_ok (i # p)" "table_at m root p = Some t"
    and ch: "entry_changed m m' t i"
    and new: "next_table (length p) (slot m' t i) = Some c"
    and old: "next_table (length p) (slot m t i) = Some c \<or>
      (next_table (length p) (slot m t i) = None \<and> (\<forall>j<512. slot m' c j = 0))"
    and q: "path_ok q"
  shows "table_at m' root q = (if q = i # p then Some c else table_at m root q)"
  using q
proof (induction q)
  case Nil
  then show ?case by simp
next
  case (Cons j q)
  then have j: "j < 512" and pq: "path_ok q" and IH: "table_at m' root q = (if q = i # p then Some c else table_at m root q)"
    by (simp_all add: path_ok_Cons)
  have pp: "path_ok p" using p(1) by (simp add: path_ok_Cons)
  show ?case
  proof (cases "q = i # p")
    case True
    have ne: "j # q \<noteq> i # p" using True by auto
    show ?thesis
    proof (cases "next_table (length p) (slot m t i)")
      case None
      then have "slot m' c j = 0" using old j by simp
      with None True IH ne p(2) show ?thesis by (simp add: next_table_def)
    next
      case (Some d)
      then have d: "table_at m root q = Some c" using True p(2) old by simp
      then have "c \<noteq> t" using space_ok_inj [OF ok pq pp] p(2) True by auto
      then have "slot m' c j = slot m c j"
        using ch space_ok_frame [OF ok pq d] j by (auto simp: entry_changed_def)
      with IH True d ne show ?thesis by simp
    qed
  next
    case False
    show ?thesis
    proof (cases "table_at m root q")
      case None
      have "q \<noteq> p" using None p(2) by auto
      with None False IH show ?thesis by simp
    next
      case (Some t')
      show ?thesis
      proof (cases "t' = t \<and> j = i")
        case True
        then have "q = p" using Some p(2) space_ok_inj [OF ok pq pp] by blast
        with True False IH new p(2) show ?thesis by simp
      next
        case ne: False
        have "slot m' t' j = slot m t' j"
          using ch space_ok_frame [OF ok pq Some] j ne by (auto simp: entry_changed_def)
        moreover have "j # q \<noteq> i # p" using ne Some p(2) by auto
        ultimately show ?thesis using False IH Some by (auto simp del: list.inject)
      qed
    qed
  qed
qed

lemmas table_at_Cons = table_at.simps(2)

declare table_at_Cons [simp del]

text \<open>Such a change keeps the leaf entry of every address.\<close>

lemma leaf_view_changed:
  assumes ok: "space_ok m root" and p: "path_ok (i # p)" "table_at m root p = Some t"
    and ch: "entry_changed m m' t i"
    and new: "next_table (length p) (slot m' t i) = Some c"
    and old: "next_table (length p) (slot m t i) = Some c \<or>
      (\<not> bit (slot m t i) 0 \<and> (\<forall>j<512. slot m' c j = 0))"
  shows "leaf_view m' root va = leaf_view m root va"
proof -
  have old': "next_table (length p) (slot m t i) = Some c \<or>
      (next_table (length p) (slot m t i) = None \<and> (\<forall>j<512. slot m' c j = 0))"
    using old by (auto simp: next_table_def)
  note ta = table_at_changed [OF ok p ch new old']
  have pp: "path_ok p" "length p \<le> 2" using p(1) by (auto simp: path_ok_Cons)
  have same: "slot m' u j = slot m u j" if "path_ok q" "table_at m root q = Some u" "j < 512" "j # q \<noteq> i # p" for q u j
  proof -
    have "(u, j) \<noteq> (t, i)" using that space_ok_inj [OF ok that(1) pp(1)] p(2) by auto
    then show ?thesis using ch space_ok_frame [OF ok that(1,2)] that(3) by (simp add: entry_changed_def)
  qed
  have at_p: "table_at m root (i # p) = next_table (length p) (slot m t i)"
    using p(2) by (simp add: table_at_Cons)
  consider (pt) "pt_path va = i # p" | (pd) "[pdpt_index va, pml4_index va] = i # p"
    | (other) "pt_path va \<noteq> i # p" "[pdpt_index va, pml4_index va] \<noteq> i # p" by blast
  then show ?thesis
  proof cases
    case pt
    then have pde: "p = [pdpt_index va, pml4_index va]" "i = pd_index va" by (simp_all add: pt_path_def)
    show ?thesis
    proof (cases "bit (slot m t i) 0")
      case False
      with old have "\<forall>j<512. slot m' c j = 0" "next_table (length p) (slot m t i) = None"
        by (auto simp: next_table_def)
      then show ?thesis
        using False pt pde p(2) at_p by (simp add: leaf_view_def ta)
    next
      case True
      then have c: "table_at m root (i # p) = Some c" using old at_p by auto
      have "slot m' c (pt_index va) = slot m c (pt_index va)"
        by (rule same [OF p(1) c]) (auto simp: pt)
      then show ?thesis using pt c p(1) by (simp add: leaf_view_def ta)
    qed
  next
    case pd
    have len: "length p = 1" using pd by (auto simp: Cons_eq_append_conv)
    have ne: "pt_path va \<noteq> i # p" using len by (auto simp: pt_path_def)
    show ?thesis
    proof (cases "bit (slot m t i) 0")
      case False
      with old have "\<forall>j<512. slot m' c j = 0" and n: "next_table (length p) (slot m t i) = None"
        by (auto simp: next_table_def)
      moreover have "table_at m root [pdpt_index va, pml4_index va] = None" using pd n at_p by simp
      moreover from this have "table_at m root (pt_path va) = None"
        by (simp add: pt_path_def table_at_Cons [of _ _ "pd_index va"])
      ultimately show ?thesis using pd ne p(1) by (simp add: leaf_view_def ta)
    next
      case True
      then have c: "table_at m root (i # p) = Some c" using old at_p by auto
      have "slot m' c (pd_index va) = slot m c (pd_index va)"
        by (rule same [OF p(1) c]) (auto simp: pd)
      moreover have "slot m' u (pt_index va) = slot m u (pt_index va)" if "table_at m root (pt_path va) = Some u" for u
        using that by (rule same [rotated]) (use len in \<open>auto simp: pt_path_def\<close>)
      ultimately show ?thesis using pd c ne
        by (auto simp: leaf_view_def ta p(1) split: option.split)
    qed
  next
    case other
    have a: "slot m' u (pt_index va) = slot m u (pt_index va)" if "table_at m root (pt_path va) = Some u" for u
      using that by (rule same [rotated]) (use pp in \<open>auto simp: pt_path_def\<close>)
    have b: "slot m' u (pd_index va) = slot m u (pd_index va)" if "table_at m root [pdpt_index va, pml4_index va] = Some u" for u
      using that by (rule same [rotated]) (use other in \<open>auto simp: pt_path_def\<close>)
    show ?thesis using other a b by (auto simp: leaf_view_def ta p(1) split: option.split)
  qed
qed

section \<open>One level of the descent\<close>

text \<open>Everything but memory, allocator and the \<open>invlpg\<close> log is left alone.\<close>

definition same_regs :: "machine \<Rightarrow> machine \<Rightarrow> bool" where
  "same_regs m m' \<longleftrightarrow> m' = m\<lparr>pmm := pmm m', mem := mem m', invalidated := invalidated m'\<rparr>"

lemma same_regs_refl [simp]: "same_regs m m"
  by (simp add: same_regs_def)

lemma same_regs_trans: "same_regs m m1 \<Longrightarrow> same_regs m1 m2 \<Longrightarrow> same_regs m m2"
  unfolding same_regs_def by (cases m; cases m1; cases m2) simp

lemma same_regs_set_slot [simp]: "same_regs m (set_slot t i v m)"
  by (simp add: same_regs_def set_slot_def poke64_def)

lemma same_regs_fields:
  assumes "same_regs m m'"
  shows "current_pml4 m' = current_pml4 m" "kernel_pml4 m' = kernel_pml4 m" "kernel_cr3 m' = kernel_cr3 m"
    "cr3 m' = cr3 m" "heap_used m' = heap_used m" "heap_total m' = heap_total m"
    "fb_physical_address m' = fb_physical_address m" "fb_memory_size m' = fb_memory_size m"
proof -
  obtain p b l where m': "m' = m\<lparr>pmm := p, mem := b, invalidated := l\<rparr>"
    using assms unfolding same_regs_def by blast
  show "current_pml4 m' = current_pml4 m" "kernel_pml4 m' = kernel_pml4 m" "kernel_cr3 m' = kernel_cr3 m"
    "cr3 m' = cr3 m" "heap_used m' = heap_used m" "heap_total m' = heap_total m"
    "fb_physical_address m' = fb_physical_address m" "fb_memory_size m' = fb_memory_size m"
    unfolding m' by (simp_all add: fb_physical_address_def fb_memory_size_def)
qed

lemma fold_set_slot:
  assumes "page_aligned c" and "page_aligned t" and "j < 512" and "n \<le> 512"
  shows "slot (fold (\<lambda>i. set_slot c i (v i)) [0..<n] m) t j = (if t = c \<and> j < n then v j else slot m t j)"
  using assms(4)
proof (induction n)
  case 0
  then show ?case by simp
next
  case (Suc n)
  then show ?case using assms(1-3) by (auto simp: slot_set_slot less_Suc_eq)
qed

lemma pmm_fold_set_slot [simp]: "pmm (fold (\<lambda>i. set_slot c i (v i)) ns m) = pmm m"
  by (induction ns arbitrary: m) auto

lemma same_regs_fold_set_slot: "same_regs m (fold (\<lambda>i. set_slot c i (v i)) ns m)"
proof (induction ns arbitrary: m)
  case (Cons i ns)
  show ?case using same_regs_trans [OF same_regs_set_slot Cons] by simp
qed simp

lemma allocate_table_fail:
  assumes "pmm_inv (pmm m)" and "allocate_table m = (0, m')"
  shows "m' = m \<and> free_set (pmm m) = {}"
proof -
  obtain a p where a: "pmm_alloc_page (pmm m) = (a, p)" by force
  then have "a = 0" using assms(2) by (auto simp: allocate_table_def of_pmm_def split: if_splits)
  then have "free_set (pmm m) = {}" using pages.alloc_zero_iff [OF assms(1)] a by simp
  moreover from this have "p = pmm m" using pages.alloc_empty [OF assms(1)] a by simp
  ultimately show ?thesis using assms(2) a \<open>a = 0\<close> by (simp add: allocate_table_def of_pmm_def)
qed

lemma allocate_table_new:
  assumes "pmm_inv (pmm m)" and "allocate_table m = (c, m')" and "c \<noteq> 0"
  shows "page_of c \<in> free_set (pmm m)" "page_aligned c" "page_of c < MAX_PAGES" "pmm_inv (pmm m')"
    "free_set (pmm m') = free_set (pmm m) - {page_of c}" "\<forall>j<512. slot m' c j = 0"
    "page_aligned t \<Longrightarrow> t \<noteq> c \<Longrightarrow> j < 512 \<Longrightarrow> slot m' t j = slot m t j" "same_regs m m'"
proof -
  obtain a p where a: "pmm_alloc_page (pmm m) = (a, p)" by force
  have ac: "a = c" using assms(2,3) a
    by (auto simp: allocate_table_def of_pmm_def split: if_splits)
  have m': "m' = fold (\<lambda>i. set_slot c i 0) [0..<512] (m\<lparr>pmm := p\<rparr>)"
    using assms(2,3) a ac by (simp add: allocate_table_def of_pmm_def ENTRIES_def)
  have ne: "free_set (pmm m) \<noteq> {}"
    using pages.alloc_zero_iff [OF assms(1)] a ac assms(3) by simp
  note t = pages.alloc_takes [OF assms(1) ne, unfolded a ac fst_conv snd_conv]
  show "page_of c \<in> free_set (pmm m)" "page_aligned c" using t by auto
  then show "page_of c < MAX_PAGES" by (simp add: free_set_bound)
  show "pmm_inv (pmm m')" using pages.alloc_inv [OF assms(1)] a by (simp add: m')
  show "free_set (pmm m') = free_set (pmm m) - {page_of c}" using t by (simp add: m')
  show "\<forall>j<512. slot m' c j = 0" using t by (simp add: m' fold_set_slot)
  show "page_aligned t \<Longrightarrow> t \<noteq> c \<Longrightarrow> j < 512 \<Longrightarrow> slot m' t j = slot m t j"
    using t by (simp add: m' fold_set_slot)
  have "same_regs m (m\<lparr>pmm := p\<rparr>)" by (simp add: same_regs_def)
  then show "same_regs m m'" unfolding m' using same_regs_fold_set_slot by (rule same_regs_trans)
qed

lemma page_frame_small: "page_of c < MAX_PAGES \<Longrightarrow> unat c < 2 ^ 52"
  by (simp add: MAX_PAGES_def div_less_iff_less_mult)

text \<open>What a successful step of the descent establishes.\<close>

definition entered :: "machine \<Rightarrow> machine \<Rightarrow> u64 \<Rightarrow> u64 \<Rightarrow> nat \<Rightarrow> nat list \<Rightarrow> u64 \<Rightarrow> u64 \<Rightarrow> bool" where
  "entered m m' root t i p c flags \<longleftrightarrow>
     space_ok m' root \<and> same_regs m m' \<and> entry_changed m m' t i \<and>
     (\<forall>q. path_ok q \<longrightarrow> table_at m' root q = (if q = i # p then Some c else table_at m root q)) \<and>
     (\<forall>va. leaf_view m' root va = leaf_view m root va) \<and>
     bit (slot m' t i) 0 \<and> (bit flags 2 \<longrightarrow> bit (slot m' t i) 2) \<and>
     (bit (slot m t i) 0 \<longrightarrow> table_at m root (i # p) = Some c \<and> pmm m' = pmm m \<and> (bit (slot m t i) 2 \<longrightarrow> bit (slot m' t i) 2)) \<and>
     (\<not> bit (slot m t i) 0 \<longrightarrow> (\<forall>j<512. slot m' c j = 0) \<and> page_of c \<in> free_set (pmm m) \<and>
        free_set (pmm m') = free_set (pmm m) - {page_of c})"

lemma enter_table_present:
  assumes ok: "space_ok m root" and p: "path_ok (i # p)" "table_at m root p = Some t"
    and b: "bit (slot m t i) 0" and h: "length p = 2 \<longrightarrow> \<not> bit (slot m t i) 7"
    and e: "enter_table t i flags m = (r, m')"
  shows "\<exists>c. r = Some c \<and> entered m m' root t i p c flags"
proof -
  define c where "c = physical_to_table (slot m t i)"
  have pp: "path_ok p" "i < 512" using p(1) by (auto simp: path_ok_Cons)
  have t: "page_aligned t" using space_ok_frame [OF ok pp(1) p(2)] by (simp add: table_frame_def)
  have m': "m' = set_slot t i (slot m t i OR (flags AND PAGE_USER)) m" and r: "r = Some c"
    using e b by (simp_all add: enter_table_def c_def Let_def)
  have old: "next_table (length p) (slot m t i) = Some c"
    using b h by (simp add: next_table_def c_def)
  have s: "slot m' t i = slot m t i OR (flags AND PAGE_USER)"
    using t pp by (simp add: m' slot_set_slot)
  have new: "next_table (length p) (slot m' t i) = Some c"
    using b h by (simp add: s next_table_def c_def bit_simps)
  have ch: "entry_changed m m' t i"
    using t pp by (auto simp: m' entry_changed_def table_frame_def slot_set_slot)
  note ta = table_at_changed [OF ok p ch new disjI1 [OF old]]
  have at: "table_at m root (i # p) = Some c" using old p(2) by (simp add: table_at_Cons)
  have "table_at m' root q = table_at m root q" if "path_ok q" for q
    using ta [OF that] at by auto
  moreover have "pmm m' = pmm m" by (simp add: m')
  ultimately have "space_ok m' root"
    using ok unfolding space_ok_def table_frame_def by simp
  then show ?thesis
    unfolding entered_def using r ta at b s ch \<open>pmm m' = pmm m\<close> leaf_view_changed [OF ok p ch new disjI1 [OF old]]
    by (auto simp: m' bit_simps)
qed

lemma enter_table_fresh:
  assumes ok: "space_ok m root" and p: "path_ok (i # p)" "table_at m root p = Some t"
    and b: "\<not> bit (slot m t i) 0" and e: "enter_table t i flags m = (Some c, m')"
  shows "entered m m' root t i p c flags"
proof -
  have pp: "path_ok p" "i < 512" using p(1) by (auto simp: path_ok_Cons)
  have tf: "page_aligned t" "page_of t \<notin> free_set (pmm m)"
    using space_ok_frame [OF ok pp(1) p(2)] by (auto simp: table_frame_def)
  obtain c' m1 where a: "allocate_table m = (c', m1)" by force
  have cc: "c' = c" "c \<noteq> 0" using e b a by (auto simp: enter_table_def split: if_splits)
  let ?e = "c OR PAGE_PRESENT OR PAGE_WRITABLE OR (flags AND PAGE_USER)"
  have m': "m' = set_slot t i ?e m1" using e b a cc by (simp add: enter_table_def)
  note n = allocate_table_new [OF space_ok_pmm [OF ok] a [unfolded cc(1)] cc(2)]
  have tc: "t \<noteq> c" using tf n(1) by auto
  have s: "slot m' t i = ?e" using tf pp by (simp add: m' slot_set_slot)
  have z: "\<forall>j<512. slot m' c j = 0" using n(2,6) tf pp tc by (simp add: m' slot_set_slot)
  have ch: "entry_changed m m' t i"
    using tf pp n(1,2,7) unfolding entry_changed_def table_frame_def m'
    by (auto simp: slot_set_slot)
  have new: "next_table (length p) (slot m' t i) = Some c"
    using bit_low_page_aligned [OF n(2), of 7] physical_to_table_new [OF n(2) page_frame_small [OF n(3)]]
    by (simp add: s next_table_def bit_simps)
  have old: "next_table (length p) (slot m t i) = None" using b by (simp add: next_table_def)
  have zo: "next_table (length p) (slot m t i) = None \<and> (\<forall>j<512. slot m' c j = 0)" using old z by simp
  note ta = table_at_changed [OF ok p ch new disjI2 [OF zo]]
  have fs: "free_set (pmm m') = free_set (pmm m) - {page_of c}" using n(5) by (simp add: m')
  have dist: "u \<noteq> c" if "path_ok q" "table_at m root q = Some u" for q u
    using space_ok_frame [OF ok that] n(1) by (auto simp: table_frame_def)
  have "space_ok m' root"
    unfolding space_ok_def
  proof (intro conjI allI impI)
    show "pmm_inv (pmm m')" using n(4) by (simp add: m')
    fix q u assume "path_ok q" "table_at m' root q = Some u"
    then show "table_frame m' u"
      using space_ok_frame [OF ok, of q u] n(2,3) fs by (auto simp: ta table_frame_def split: if_splits)
  next
    fix q q' u assume q: "path_ok q" "path_ok q'" "table_at m' root q = Some u" "table_at m' root q' = Some u"
    then show "q = q'"
      using dist [of q u] dist [of q' u] space_ok_inj [OF ok q(1,2), of u] by (auto simp: ta split: if_splits)
  qed
  moreover have "same_regs m m'" unfolding m' using n(8) same_regs_set_slot by (rule same_regs_trans)
  moreover have "leaf_view m' root va = leaf_view m root va" for va
    using ok p ch new by (rule leaf_view_changed) (use b z in simp)
  ultimately show ?thesis
    unfolding entered_def using ch ta s z fs n(1) b by (simp add: bit_simps)
qed

lemma enter_table_fails:
  assumes "space_ok m root" and "enter_table t i flags m = (None, m')"
  shows "m' = m \<and> \<not> bit (slot m t i) 0 \<and> free_set (pmm m) = {}"
proof -
  obtain c m1 where a: "allocate_table m = (c, m1)" by force
  have b: "\<not> bit (slot m t i) 0" and c: "c = 0" and m': "m' = m1"
    using assms(2) a by (auto simp: enter_table_def Let_def split: if_splits)
  show ?thesis
    using allocate_table_fail [OF space_ok_pmm [OF assms(1)] a [unfolded c]] b m' by simp
qed

lemma enter_table_entered:
  assumes "space_ok m root" and "path_ok (i # p)" and "table_at m root p = Some t"
    and "length p = 2 \<longrightarrow> \<not> bit (slot m t i) 7" and "enter_table t i flags m = (Some c, m')"
  shows "entered m m' root t i p c flags"
proof (cases "bit (slot m t i) 0")
  case True
  from enter_table_present [OF assms(1-3) True assms(4,5)] show ?thesis by simp
next
  case False
  from enter_table_fresh [OF assms(1-3) False assms(5)] show ?thesis .
qed

section \<open>The frame of a change\<close>

text \<open>
  What a change below \<open>root\<close> may touch: the tables it had it keeps at their paths, the ones it
  gains were free frames, and entries of table frames outside the tree stay.
\<close>

definition tree_frame :: "machine \<Rightarrow> machine \<Rightarrow> u64 \<Rightarrow> bool" where
  "tree_frame m m' root \<longleftrightarrow> free_set (pmm m') \<subseteq> free_set (pmm m) \<and>
     (\<forall>q t. path_ok q \<longrightarrow> table_at m root q = Some t \<longrightarrow> table_at m' root q = Some t) \<and>
     (\<forall>q t. path_ok q \<longrightarrow> table_at m' root q = Some t \<longrightarrow> table_at m root q = Some t \<or> page_of t \<in> free_set (pmm m)) \<and>
     (\<forall>t j. table_frame m t \<longrightarrow> (\<forall>q. path_ok q \<longrightarrow> table_at m root q \<noteq> Some t) \<longrightarrow> j < 512 \<longrightarrow> slot m' t j = slot m t j)"

lemma tree_frame_refl [simp]: "tree_frame m m root"
  by (simp add: tree_frame_def)

lemma tree_frame_free: "tree_frame m m' root \<Longrightarrow> free_set (pmm m') \<subseteq> free_set (pmm m)"
  by (simp add: tree_frame_def)

lemma tree_frame_keep:
  "tree_frame m m' root \<Longrightarrow> path_ok q \<Longrightarrow> table_at m root q = Some t \<Longrightarrow> table_at m' root q = Some t"
  by (simp add: tree_frame_def)

lemma tree_frame_gain:
  "tree_frame m m' root \<Longrightarrow> path_ok q \<Longrightarrow> table_at m' root q = Some t \<Longrightarrow>
     page_of t \<notin> free_set (pmm m) \<Longrightarrow> table_at m root q = Some t"
  unfolding tree_frame_def by metis

lemma tree_frame_slot:
  "tree_frame m m' root \<Longrightarrow> table_frame m t \<Longrightarrow> (\<And>q. path_ok q \<Longrightarrow> table_at m root q \<noteq> Some t) \<Longrightarrow>
     j < 512 \<Longrightarrow> slot m' t j = slot m t j"
  by (simp add: tree_frame_def)

lemma table_frame_kept: "table_frame m t \<Longrightarrow> tree_frame m m' root \<Longrightarrow> table_frame m' t"
  by (auto simp: table_frame_def dest: tree_frame_free)

lemma tree_frame_trans:
  assumes 1: "tree_frame m m1 root" and 2: "tree_frame m1 m2 root"
  shows "tree_frame m m2 root"
  unfolding tree_frame_def
proof (intro conjI allI impI)
  note f = tree_frame_free [OF 1]
  show "free_set (pmm m2) \<subseteq> free_set (pmm m)" using f tree_frame_free [OF 2] by simp
  fix q t assume q: "path_ok q"
  show "table_at m root q = Some t \<Longrightarrow> table_at m2 root q = Some t"
    using tree_frame_keep [OF 2 q tree_frame_keep [OF 1 q]] .
  assume "table_at m2 root q = Some t"
  with f show "table_at m root q = Some t \<or> page_of t \<in> free_set (pmm m)"
    using tree_frame_gain [OF 1 q, of t] tree_frame_gain [OF 2 q, of t] by auto
next
  fix t and j :: nat assume t: "table_frame m t" "\<forall>q. path_ok q \<longrightarrow> table_at m root q \<noteq> Some t" and j: "j < 512"
  have "page_of t \<notin> free_set (pmm m)" using t(1) by (simp add: table_frame_def)
  then have "table_at m1 root q \<noteq> Some t" if "path_ok q" for q
    using tree_frame_gain [OF 1 that] t(2) that by blast
  from tree_frame_slot [OF 2 table_frame_kept [OF t(1) 1] this j]
  show "slot m2 t j = slot m t j" using tree_frame_slot [OF 1 t(1) _ j] t(2) by simp
qed

lemma tree_frame_entry:
  assumes "entry_changed m m' t i" and "path_ok p" and "table_at m root p = Some t"
    and "\<And>q. path_ok q \<Longrightarrow> table_at m' root q = table_at m root q" and "pmm m' = pmm m"
  shows "tree_frame m m' root"
  using assms unfolding tree_frame_def entry_changed_def by auto

lemma entered_tree_frame:
  assumes "entered m m' root t i p c flags" and "path_ok p" and "table_at m root p = Some t"
    and "table_at m root (i # p) = next_table (length p) (slot m t i)"
  shows "tree_frame m m' root"
proof -
  have at: "table_at m' root q = (if q = i # p then Some c else table_at m root q)" if "path_ok q" for q
    using assms(1) that by (simp add: entered_def)
  have ch: "entry_changed m m' t i" using assms(1) by (simp add: entered_def)
  have s: "slot m' u j = slot m u j"
    if "table_frame m u" "\<forall>q. path_ok q \<longrightarrow> table_at m root q \<noteq> Some u" "j < 512" for u j
    using ch that assms(2,3) unfolding entry_changed_def by auto
  show ?thesis
  proof (cases "bit (slot m t i) 0")
    case True
    then have "table_at m root (i # p) = Some c" "pmm m' = pmm m" using assms(1) by (auto simp: entered_def)
    then show ?thesis using at s unfolding tree_frame_def by auto
  next
    case False
    then have "page_of c \<in> free_set (pmm m)" "free_set (pmm m') = free_set (pmm m) - {page_of c}"
      using assms(1) by (auto simp: entered_def)
    moreover have "table_at m root (i # p) = None" using False assms(4) by (simp add: next_table_def)
    ultimately show ?thesis using at s unfolding tree_frame_def by auto
  qed
qed

section \<open>Changing a leaf\<close>

lemma leaf_changed:
  assumes ok: "space_ok m root" and p: "path_ok p" "length p = 3" "table_at m root p = Some t" and i: "i < 512"
    and ch: "entry_changed m m' t i" and pm: "pmm m' = pmm m"
  shows "path_ok q \<Longrightarrow> table_at m' root q = table_at m root q" and "space_ok m' root"
    and "leaf_view m' root va = (if pt_path va = p \<and> pt_index va = i
       then (if bit (slot m' t i) 0 then Some (slot m' t i, False) else None) else leaf_view m root va)"
proof -
  have ne: "(u, j) \<noteq> (t, i)" if "path_ok q" "table_at m root q = Some u" "q \<noteq> p \<or> j \<noteq> i" for q u j
    using space_ok_inj [OF ok that(1) p(1), of t] that p(3) by auto
  have same: "slot m' u j = slot m u j"
    if "path_ok q" "table_at m root q = Some u" "j < 512" "q \<noteq> p \<or> j \<noteq> i" for q u j
    using ch space_ok_frame [OF ok that(1,2)] ne [OF that(1,2,4)] that(3) by (simp add: entry_changed_def)
  show ta: "table_at m' root q = table_at m root q" if "path_ok q" for q
    using that
  proof (induction q)
    case (Cons j q)
    then have q: "path_ok q" "j < 512" "length q \<le> 2" by (simp_all add: path_ok_Cons)
    have "slot m' u j = slot m u j" if "table_at m root q = Some u" for u
      by (rule same [OF q(1) that q(2)]) (use q(3) p(2) in auto)
    with Cons.IH [OF q(1)] show ?case by (simp add: table_at_Cons split: option.split)
  qed simp
  show "space_ok m' root"
    using ok unfolding space_ok_def table_frame_def pm by (simp add: ta)
  have a: "slot m' u (pt_index va) = slot m u (pt_index va)"
    if "table_at m root (pt_path va) = Some u" "\<not> (pt_path va = p \<and> pt_index va = i)" for u
    using that by (intro same [of "pt_path va"]) auto
  have b: "slot m' u (pd_index va) = slot m u (pd_index va)"
    if "table_at m root [pdpt_index va, pml4_index va] = Some u" for u
    using that p(2) by (intro same [of "[pdpt_index va, pml4_index va]"]) auto
  show "leaf_view m' root va = (if pt_path va = p \<and> pt_index va = i
       then (if bit (slot m' t i) 0 then Some (slot m' t i, False) else None) else leaf_view m root va)"
    using a b p(3) by (auto simp: leaf_view_def ta Let_def split: option.split)
qed

text \<open>The leaf entry a mapping leaves behind, from the one that was there.\<close>

definition new_leaf :: "(u64 \<times> bool) option \<Rightarrow> u64 \<Rightarrow> u64 \<Rightarrow> u64" where
  "new_leaf old pa flags =
     (case old of Some (e, _) \<Rightarrow> e OR (flags AND (PAGE_USER OR PAGE_WRITABLE))
      | None \<Rightarrow> (pa AND PAGE_MASK) OR flags OR PAGE_PRESENT)"

definition same_page :: "u64 \<Rightarrow> u64 \<Rightarrow> bool" where
  "same_page va va' \<longleftrightarrow> pt_path va = pt_path va' \<and> pt_index va = pt_index va'"

lemma leaf_view_at_table:
  "table_at m root (pt_path va) = Some pt \<Longrightarrow>
     leaf_view m root va = (if bit (slot m pt (pt_index va)) 0 then Some (slot m pt (pt_index va), False) else None)"
  by (simp add: leaf_view_def Let_def)

lemma entry_changed_set_slot:
  "page_aligned t \<Longrightarrow> i < 512 \<Longrightarrow> entry_changed m (set_slot t i v m) t i"
  by (auto simp: entry_changed_def table_frame_def slot_set_slot)

lemma set_leaf_spec:
  assumes ok: "space_ok m root" and t: "table_at m root (pt_path va) = Some pt"
    and e: "set_leaf pt (pt_index va) pa flags m = (r, m')"
  shows "r = 0 \<or> r = -6 \<and> m' = m \<and> (\<exists>e. leaf_view m root va = Some (e, False) \<and> e AND PAGE_MASK \<noteq> pa AND PAGE_MASK)"
    and "r = 0 \<Longrightarrow> space_ok m' root \<and> same_regs m m' \<and> pmm m' = pmm m \<and>
      entry_changed m m' pt (pt_index va) \<and> tree_frame m m' root \<and> table_at m' root (pt_path va) = Some pt \<and>
      slot m' pt (pt_index va) = new_leaf (leaf_view m root va) pa flags \<and>
      (\<forall>va'. leaf_view m' root va' = (if same_page va' va then Some (new_leaf (leaf_view m root va) pa flags, False) else leaf_view m root va')) \<and>
      (\<forall>e h. leaf_view m root va = Some (e, h) \<longrightarrow> \<not> h \<and> e AND PAGE_MASK = pa AND PAGE_MASK)"
proof -
  let ?i = "pt_index va"
  note lv = leaf_view_at_table [OF t]
  have pt: "page_aligned pt" using space_ok_frame [OF ok _ t] by (simp add: table_frame_def)
  show "r = 0 \<or> r = -6 \<and> m' = m \<and> (\<exists>e. leaf_view m root va = Some (e, False) \<and> e AND PAGE_MASK \<noteq> pa AND PAGE_MASK)"
    using e lv by (auto simp: set_leaf_def Let_def split: if_splits)
  assume r: "r = 0"
  have m': "m' = set_slot pt ?i (new_leaf (leaf_view m root va) pa flags) m"
    and agree: "\<forall>e h. leaf_view m root va = Some (e, h) \<longrightarrow> \<not> h \<and> e AND PAGE_MASK = pa AND PAGE_MASK"
    using e r by (auto simp: set_leaf_def lv new_leaf_def Let_def split: if_splits)
  let ?n = "new_leaf (leaf_view m root va) pa flags"
  have s: "slot m' pt ?i = ?n" using pt by (simp add: m' slot_set_slot)
  have n0: "bit ?n 0" using lv by (auto simp: new_leaf_def bit_simps split: if_splits)
  have ch: "entry_changed m m' pt ?i" unfolding m' by (rule entry_changed_set_slot) (simp_all add: pt)
  have pm: "pmm m' = pmm m" by (simp add: m')
  have len: "length (pt_path va) = 3" by (simp add: pt_path_def)
  note lc = leaf_changed [OF ok path_ok_pt_path(1) len t index_bounds(4) ch pm]
  have tf: "tree_frame m m' root" by (rule tree_frame_entry [OF ch path_ok_pt_path(1) t lc(1) pm])
  show "space_ok m' root \<and> same_regs m m' \<and> pmm m' = pmm m \<and>
      entry_changed m m' pt ?i \<and> tree_frame m m' root \<and> table_at m' root (pt_path va) = Some pt \<and> slot m' pt ?i = ?n \<and>
      (\<forall>va'. leaf_view m' root va' = (if same_page va' va then Some (?n, False) else leaf_view m root va')) \<and>
      (\<forall>e h. leaf_view m root va = Some (e, h) \<longrightarrow> \<not> h \<and> e AND PAGE_MASK = pa AND PAGE_MASK)"
    using lc s n0 ch pm t agree tf by (auto simp: m' same_page_def)
qed

section \<open>Mapping a page\<close>

text \<open>The user bit at every level of the walk, which ring 3 needs.\<close>

definition user_walk :: "machine \<Rightarrow> u64 \<Rightarrow> u64 \<Rightarrow> bool" where
  "user_walk m root va \<longleftrightarrow> (\<exists>pdpt pd pt.
     table_at m root [pml4_index va] = Some pdpt \<and> table_at m root [pdpt_index va, pml4_index va] = Some pd \<and>
     table_at m root (pt_path va) = Some pt \<and> bit (slot m root (pml4_index va)) 2 \<and>
     bit (slot m pdpt (pdpt_index va)) 2 \<and> bit (slot m pd (pd_index va)) 2 \<and> bit (slot m pt (pt_index va)) 2)"

definition huge_mapped :: "machine \<Rightarrow> u64 \<Rightarrow> u64 \<Rightarrow> bool" where
  "huge_mapped m root va \<longleftrightarrow> (\<exists>pd. table_at m root [pdpt_index va, pml4_index va] = Some pd \<and> bit (slot m pd (pd_index va)) 7)"

text \<open>What every return of \<open>map_page_in\<close> keeps: the tree, the registers and, when it failed, every
  leaf entry; it takes at most \<open>n\<close> frames.\<close>

definition space_kept_n :: "nat \<Rightarrow> machine \<Rightarrow> machine \<Rightarrow> u64 \<Rightarrow> bool" where
  "space_kept_n n m m' root \<longleftrightarrow> space_ok m' root \<and> same_regs m m' \<and> tree_frame m m' root \<and>
     (\<forall>va. leaf_view m' root va = leaf_view m root va) \<and>
     free_set (pmm m') \<subseteq> free_set (pmm m) \<and> card (free_set (pmm m)) \<le> card (free_set (pmm m')) + n"

abbreviation space_kept :: "machine \<Rightarrow> machine \<Rightarrow> u64 \<Rightarrow> bool" where
  "space_kept \<equiv> space_kept_n 3"

lemma space_kept_n_refl: "space_ok m root \<Longrightarrow> space_kept_n n m m root"
  by (simp add: space_kept_n_def)

lemma space_kept_n_step:
  assumes "space_kept_n n m m1 root" and "entered m1 m2 root t i p c flags"
    and "path_ok p" and "table_at m1 root p = Some t"
  shows "space_kept_n (Suc n) m m2 root"
proof -
  have "free_set (pmm m2) \<subseteq> free_set (pmm m1) \<and> card (free_set (pmm m1)) \<le> Suc (card (free_set (pmm m2)))"
    using assms(2) card_Suc_Diff1 [of "free_set (pmm m1)" "page_of c"]
    by (cases "bit (slot m1 t i) 0") (auto simp: entered_def)
  moreover have "tree_frame m m2 root"
    using assms entered_tree_frame [OF assms(2-4)]
    by (auto simp: space_kept_n_def table_at_Cons intro: tree_frame_trans)
  ultimately show ?thesis
    using assms unfolding space_kept_n_def entered_def by (auto intro: same_regs_trans)
qed

lemma space_kept_n_kept: "space_kept_n n m m' root \<Longrightarrow> n \<le> 3 \<Longrightarrow> space_kept m m' root"
  by (simp add: space_kept_n_def)

text \<open>A nonzero entry other than the one just written was there before.\<close>

lemma entered_slot_back:
  assumes ok: "space_ok m root" and e: "entered m m' root t i p c flags"
    and q: "path_ok q" "table_at m' root q = Some u" "j < 512" "slot m' u j \<noteq> 0" "(u, j) \<noteq> (t, i)"
  shows "table_at m root q = Some u \<and> slot m u j = slot m' u j"
proof -
  have at: "table_at m root q = Some u"
  proof (cases "q = i # p")
    case True
    then have "c = u" using e q(1,2) by (simp add: entered_def)
    then have "bit (slot m t i) 0" using e q(3,4) by (auto simp: entered_def)
    then show ?thesis using e True \<open>c = u\<close> by (simp add: entered_def)
  next
    case False
    then show ?thesis using e q(1,2) by (simp add: entered_def)
  qed
  moreover have "slot m' u j = slot m u j"
    using e space_ok_frame [OF ok q(1) at] q(3,5) by (auto simp: entered_def entry_changed_def)
  ultimately show ?thesis by simp
qed

text \<open>The three levels in one go.\<close>

lemma descend_cases:
  assumes ok: "space_ok m root" and al: "page_aligned va" "page_aligned pa"
    and e: "map_page_in root va pa flags m = (r, m')"
  obtains (full) "r \<in> {-2, -3, -5}" and "space_kept m m' root" and "free_set (pmm m') = {}"
      and "card (free_set (pmm m)) \<le> 2"
  | (huge) "r = -4" and "space_kept m m' root" and "huge_mapped m root va"
  | (leaf) m3 pt where "space_kept m m3 root" and "table_at m3 root (pt_path va) = Some pt"
      and "set_leaf pt (pt_index va) pa flags m3 = (r, m')"
      and "\<And>m4. space_ok m4 root \<Longrightarrow> entry_changed m3 m4 pt (pt_index va) \<Longrightarrow>
        (\<And>q. path_ok q \<Longrightarrow> table_at m4 root q = table_at m3 root q) \<Longrightarrow>
        bit flags 2 \<Longrightarrow> bit (slot m4 pt (pt_index va)) 2 \<Longrightarrow> user_walk m4 root va"
proof -
  have al': "va AND (PAGE_SIZE - 1) = 0" "pa AND (PAGE_SIZE - 1) = 0"
    using al by (simp_all add: page_offset_zero_iff)
  let ?a = "pml4_index va" and ?b = "pdpt_index va" and ?c = "pd_index va"
  obtain r1 m1 where 1: "enter_table root ?a flags m = (r1, m1)" by force
  have k0: "space_kept_n 0 m m root" using ok by (rule space_kept_n_refl)
  show thesis
  proof (cases r1)
    case None
    then have "m1 = m" "free_set (pmm m) = {}" using enter_table_fails [OF ok] 1 by auto
    then show ?thesis using None 1 e al' k0
      by (intro full) (auto simp: map_page_in_def intro: space_kept_n_kept)
  next
    case (Some pdpt)
    then have e1: "entered m m1 root root ?a [] pdpt flags"
      using 1 by (intro enter_table_entered [OF ok]) (simp_all add: path_ok_def)
    then have k1: "space_kept_n 1 m m1 root" using space_kept_n_step [OF k0 e1 path_ok_Nil] by simp
    then have ok1: "space_ok m1 root" by (simp add: space_kept_n_def)
    have t1: "table_at m1 root [?a] = Some pdpt" using e1 by (simp add: entered_def)
    obtain r2 m2 where 2: "enter_table pdpt ?b flags m1 = (r2, m2)" by force
    show ?thesis
    proof (cases r2)
      case None
      then have "m2 = m1" "free_set (pmm m1) = {}" using enter_table_fails [OF ok1] 2 by auto
      then show ?thesis using 1 2 None Some e al' k1
        by (intro full) (auto simp: map_page_in_def space_kept_n_def)
    next
      case (Some pd)
      then have e2: "entered m1 m2 root pdpt ?b [?a] pd flags"
        using 2 t1 by (intro enter_table_entered [OF ok1]) (simp_all add: path_ok_def)
      then have k2: "space_kept_n 2 m m2 root" using space_kept_n_step [OF k1 e2 _ t1] by (simp add: numeral_2_eq_2)
      then have ok2: "space_ok m2 root" by (simp add: space_kept_n_def)
      have t2: "table_at m2 root [?b, ?a] = Some pd" "table_at m2 root [?a] = Some pdpt"
        using e2 t1 by (simp_all add: entered_def)
      have at2: "map_page_in root va pa flags m =
          (if bit (slot m2 pd ?c) 7 then (-4, m2)
           else (case enter_table pd ?c flags m2 of (None, m) \<Rightarrow> (-5, m)
                 | (Some pt, m) \<Rightarrow> set_leaf pt (pt_index va) pa flags m))"
        using al' 1 2 \<open>r1 = Some pdpt\<close> Some by (simp add: map_page_in_def)
      show ?thesis
      proof (cases "bit (slot m2 pd ?c) 7")
        case True
        then have nz: "slot m2 pd ?c \<noteq> 0" by auto
        have d: "pd \<noteq> pdpt" "pd \<noteq> root"
          using space_ok_inj [OF ok2, of "[?b, ?a]" "[?a]"] space_ok_inj [OF ok2, of "[?b, ?a]" "[]"] t2 by auto
        have b1: "table_at m1 root [?b, ?a] = Some pd \<and> slot m1 pd ?c = slot m2 pd ?c"
          by (rule entered_slot_back [OF ok1 e2 _ t2(1)]) (use nz d in auto)
        have "table_at m root [?b, ?a] = Some pd \<and> slot m pd ?c = slot m1 pd ?c"
          by (rule entered_slot_back [OF ok e1 _ conjunct1 [OF b1]]) (use b1 nz d in auto)
        then have "huge_mapped m root va" using True b1 by (auto simp: huge_mapped_def)
        then show ?thesis using e at2 k2 True by (intro huge) (auto intro: space_kept_n_kept)
      next
        case nh: False
        obtain r3 m3 where 3: "enter_table pd ?c flags m2 = (r3, m3)" by force
        show ?thesis
        proof (cases r3)
          case None
          then have "m3 = m2" "free_set (pmm m2) = {}" using enter_table_fails [OF ok2] 3 by auto
          then show ?thesis using None 3 nh e at2 k2
            by (intro full) (auto simp: space_kept_n_def)
        next
          case (Some pt)
          then have e3: "entered m2 m3 root pd ?c [?b, ?a] pt flags"
            using 3 t2 nh by (intro enter_table_entered [OF ok2]) (simp_all add: path_ok_def)
          then have k3: "space_kept_n 3 m m3 root"
            using space_kept_n_step [OF k2 e3 _ t2(1)] by (simp add: numeral_3_eq_3 numeral_2_eq_2)
          have ok3: "space_ok m3 root" using k3 by (simp add: space_kept_n_def)
          have t3: "table_at m3 root (pt_path va) = Some pt" "table_at m3 root [?b, ?a] = Some pd"
            "table_at m3 root [?a] = Some pdpt"
            using e3 t2 by (simp_all add: entered_def pt_path_def)
          have d: "root \<noteq> pdpt" "root \<noteq> pd" "root \<noteq> pt" "pdpt \<noteq> pd" "pdpt \<noteq> pt" "pd \<noteq> pt"
            using space_ok_inj [OF ok3, of "[]" "[?a]"] space_ok_inj [OF ok3, of "[]" "[?b, ?a]"]
              space_ok_inj [OF ok3, of "[]" "pt_path va"] space_ok_inj [OF ok3, of "[?a]" "[?b, ?a]"]
              space_ok_inj [OF ok3, of "[?a]" "pt_path va"] space_ok_inj [OF ok3, of "[?b, ?a]" "pt_path va"] t3
            by (auto simp: pt_path_def)
          have f1: "table_frame m1 root" "table_frame m2 root" "table_frame m3 root"
            using space_ok_frame [OF ok1, of "[]"] space_ok_frame [OF ok2, of "[]"] space_ok_frame [OF ok3, of "[]"] by simp_all
          have f2: "table_frame m2 pdpt" "table_frame m3 pdpt" "table_frame m3 pd"
            using space_ok_frame [OF ok2 _ t2(2)] space_ok_frame [OF ok3 _ t3(3)] space_ok_frame [OF ok3 _ t3(2)] by simp_all
          show ?thesis
          proof (rule leaf [OF space_kept_n_kept [OF k3] t3(1)])
            show "set_leaf pt (pt_index va) pa flags m3 = (r, m')" using e at2 nh 3 Some by simp
            fix m4 assume m4: "entry_changed m3 m4 pt (pt_index va)" "bit flags 2"
              "\<And>q. path_ok q \<Longrightarrow> table_at m4 root q = table_at m3 root q" "bit (slot m4 pt (pt_index va)) 2"
            have "slot m4 root ?a = slot m1 root ?a"
              using m4(1) e2 e3 d f1 by (simp add: entered_def entry_changed_def)
            moreover have "slot m4 pdpt ?b = slot m2 pdpt ?b"
              using m4(1) e3 d f2 by (simp add: entered_def entry_changed_def)
            moreover have "slot m4 pd ?c = slot m3 pd ?c"
              using m4(1) d f2 by (simp add: entry_changed_def)
            ultimately show "user_walk m4 root va"
              using m4 t3 e1 e2 e3 by (auto simp: user_walk_def entered_def)
          qed simp
        qed
      qed
    qed
  qed
qed

end
