(* ===== verification/Vmm_Spaces.thy ===== *)
theory Vmm_Spaces
  imports Vmm_Tree
begin

text \<open>
  Properties of the operations of \<open>src/memory/vmm.c\<close> on address spaces: what a mapping, a failed
  mapping, an unmapping, a range mapping, and the creation and destruction of a user space do to
  the translation of every address.
\<close>

unbundle bit_operations_syntax

section \<open>One mapping\<close>

lemma new_leaf_frame:
  assumes "flags AND PAGE_MASK = 0"
    and "\<forall>e h. old = Some (e, h) \<longrightarrow> \<not> h \<and> e AND PAGE_MASK = pa AND PAGE_MASK"
  shows "new_leaf old pa flags AND PAGE_MASK = pa AND PAGE_MASK"
proof (cases old)
  case None
  have f: "\<not> (bit flags n \<and> 12 \<le> n \<and> n < 52)" for n
    using arg_cong [OF assms(1), of "\<lambda>w. bit w n"] by (simp add: bit_simps)
  then have "((pa AND PAGE_MASK) OR flags OR PAGE_PRESENT) AND PAGE_MASK = pa AND PAGE_MASK"
    by (intro bit_word_eqI) (auto simp: bit_simps)
  with None show ?thesis by (simp add: new_leaf_def)
next
  case (Some eh)
  then obtain e h where eh: "old = Some (e, h)" by (cases eh) simp
  then have "e AND PAGE_MASK = pa AND PAGE_MASK" using assms(2) by blast
  moreover have "(e OR (flags AND (PAGE_USER OR PAGE_WRITABLE))) AND PAGE_MASK = e AND PAGE_MASK"
    by (intro bit_word_eqI) (auto simp: bit_simps)
  ultimately show ?thesis by (simp add: eh new_leaf_def)
qed

lemma map_page_in_misaligned:
  "\<not> (page_aligned va \<and> page_aligned pa) \<Longrightarrow> map_page_in root va pa flags m = (-1, m)"
  using page_offset_zero_iff [of va] page_offset_zero_iff [of pa] by (auto simp: map_page_in_def)

text \<open>A mapping that succeeded.\<close>

definition mapped_page :: "machine \<Rightarrow> machine \<Rightarrow> u64 \<Rightarrow> u64 \<Rightarrow> u64 \<Rightarrow> u64 \<Rightarrow> bool" where
  "mapped_page m m' root va pa flags \<longleftrightarrow>
     space_ok m' root \<and> same_regs m m' \<and> tree_frame m m' root \<and> free_set (pmm m') \<subseteq> free_set (pmm m) \<and>
     card (free_set (pmm m)) \<le> card (free_set (pmm m')) + 3 \<and>
     (\<forall>va'. leaf_view m' root va' = (if same_page va' va
        then Some (new_leaf (leaf_view m root va) pa flags, False) else leaf_view m root va')) \<and>
     (\<forall>e h. leaf_view m root va = Some (e, h) \<longrightarrow> \<not> h \<and> e AND PAGE_MASK = pa AND PAGE_MASK) \<and>
     (bit flags 2 \<longrightarrow> user_walk m' root va)"

lemma map_page_in_ok:
  assumes ok: "space_ok m root" and e: "map_page_in root va pa flags m = (0, m')"
  shows "page_aligned va \<and> page_aligned pa \<and> mapped_page m m' root va pa flags"
proof -
  have al: "page_aligned va" "page_aligned pa"
    using map_page_in_misaligned [of va pa root flags m] e by auto
  show ?thesis
    using ok al e
  proof (cases rule: descend_cases)
    case (leaf m3 pt)
    then have ok3: "space_ok m3 root" by (simp add: space_kept_n_def)
    note sl = set_leaf_spec(2) [OF ok3 leaf(2,3) refl]
    have pm: "pmm m' = pmm m3" and ch: "entry_changed m3 m' pt (pt_index va)" and okm: "space_ok m' root"
      using sl by auto
    have "user_walk m' root va" if b: "bit flags 2"
    proof (rule leaf(4) [OF okm ch _ b])
      have "length (pt_path va) = 3" by (simp add: pt_path_def)
      then show "table_at m' root q = table_at m3 root q" if "path_ok q" for q
        using leaf_changed(1) [OF ok3 path_ok_pt_path(1) _ leaf(2) index_bounds(4) ch pm that] by simp
      show "bit (slot m' pt (pt_index va)) 2"
        using sl b by (auto simp: new_leaf_def bit_simps split: option.split)
    qed
    then show ?thesis
      using al sl leaf(1) unfolding mapped_page_def space_kept_n_def
      by (auto intro: same_regs_trans tree_frame_trans)
  qed auto
qed

lemma map_page_in_fail:
  assumes ok: "space_ok m root" and e: "map_page_in root va pa flags m = (r, m')" and "r \<noteq> 0"
  shows "space_kept m m' root \<and>
    ((r = -1 \<and> m' = m \<and> \<not> (page_aligned va \<and> page_aligned pa)) \<or>
     (page_aligned va \<and> page_aligned pa \<and>
      ((r \<in> {-2, -3, -5} \<and> free_set (pmm m') = {} \<and> card (free_set (pmm m)) \<le> 2) \<or> (r = -4 \<and> huge_mapped m root va) \<or>
       (r = -6 \<and> (\<exists>e. leaf_view m root va = Some (e, False) \<and> e AND PAGE_MASK \<noteq> pa AND PAGE_MASK)))))"
proof (cases "page_aligned va \<and> page_aligned pa")
  case False
  then show ?thesis using map_page_in_misaligned [OF False] e space_kept_n_refl [OF ok] by auto
next
  case True
  then have al: "page_aligned va" "page_aligned pa" by auto
  show ?thesis
    using ok al e
  proof (cases rule: descend_cases)
    case (leaf m3 pt)
    then have ok3: "space_ok m3 root" by (simp add: space_kept_n_def)
    from set_leaf_spec(1) [OF ok3 leaf(2,3)] assms(3) leaf(1) al show ?thesis
      by (auto simp: space_kept_n_def)
  qed (use al in auto)
qed

text \<open>The virtual addresses \<open>same_page\<close> relates: those that agree in bits 12 to 47.\<close>

lemma index_arith:
  "pml4_index va = unat va div 4096 div 134217728 mod 512"
  "pdpt_index va = unat va div 4096 div 262144 mod 512"
  "pd_index va = unat va div 4096 div 512 mod 512"
  "pt_index va = unat va div 4096 mod 512"
proof -
  have m9: "(0x1FF :: u64) = mask 9" by (simp add: mask_eq_exp_minus_1)
  have "unat (drop_bit k va AND 0x1FF) = unat va div 2 ^ k mod 512" for k
  proof -
    have "drop_bit k va AND mask 9 = take_bit 9 (drop_bit k va)" by (simp only: take_bit_eq_mask)
    then have "unat (drop_bit k va AND mask 9) = take_bit 9 (drop_bit k (unat va))"
      by (simp only: unsigned_take_bit_eq unat_drop_bit_eq)
    moreover have "take_bit 9 (drop_bit k (unat va)) = unat va div 2 ^ k mod 512"
      by (simp add: drop_bit_eq_div take_bit_eq_mod)
    ultimately show ?thesis unfolding m9 by (simp only:)
  qed
  then show "pml4_index va = unat va div 4096 div 134217728 mod 512"
    "pdpt_index va = unat va div 4096 div 262144 mod 512"
    "pd_index va = unat va div 4096 div 512 mod 512" "pt_index va = unat va div 4096 mod 512"
    by (simp_all add: pml4_index_def pdpt_index_def pd_index_def pt_index_def div_mult2_eq [symmetric])
qed

lemma same_page_page_of:
  assumes "unat va < 2 ^ 48" and "unat va' < 2 ^ 48"
  shows "same_page va va' \<longleftrightarrow> page_of va = page_of va'"
proof
  assume "page_of va = page_of va'"
  then show "same_page va va'" by (simp add: same_page_def pt_path_def index_arith)
next
  assume s: "same_page va va'"
  have d: "q = ((q div 134217728 mod 512 * 512 + q div 262144 mod 512) * 512 + q div 512 mod 512) * 512 + q mod 512"
    if "q < 68719476736" for q :: nat
  proof -
    have "q div 134217728 < 512" using that by (simp add: div_less_iff_less_mult)
    moreover have "q div 512 div 512 = q div 262144" "q div 512 div 512 div 512 = q div 134217728"
      by (simp_all add: div_mult2_eq [symmetric])
    ultimately show ?thesis
      using div_mult_mod_eq [of q 512] div_mult_mod_eq [of "q div 512" 512]
        div_mult_mod_eq [of "q div 512 div 512" 512] by simp
  qed
  have "page_of va < 68719476736" "page_of va' < 68719476736"
    using assms by (simp_all add: div_less_iff_less_mult)
  then show "page_of va = page_of va'"
    using d [of "page_of va"] d [of "page_of va'"] s
    by (simp add: same_page_def pt_path_def index_arith)
qed

lemma same_page_refl [simp]: "same_page va va"
  by (simp add: same_page_def)

lemma same_page_sym: "same_page va va' \<longleftrightarrow> same_page va' va"
  by (auto simp: same_page_def)

lemma mapped_page_translate:
  assumes "mapped_page m m' root va pa flags" and "flags AND PAGE_MASK = 0"
  shows "get_physical_from m' root va' = (if same_page va' va then (pa AND PAGE_MASK) + (va' AND 0xFFF)
     else get_physical_from m root va')"
proof -
  have "new_leaf (leaf_view m root va) pa flags AND PAGE_MASK = pa AND PAGE_MASK"
    by (rule new_leaf_frame [OF assms(2)]) (use assms(1) in \<open>unfold mapped_page_def, blast\<close>)
  then show ?thesis
    using assms(1) by (simp add: mapped_page_def get_physical_from_leaf)
qed

section \<open>Ranges of pages\<close>

lemma leaf_view_same_page: "same_page va' va \<Longrightarrow> leaf_view m root va' = leaf_view m root va"
  by (simp add: same_page_def leaf_view_def pt_path_def cong: option.case_cong)

lemma mapped_page_keeps:
  assumes "mapped_page m m' root va pa flags" and "flags AND PAGE_MASK = 0" and "leaf_view m root va' \<noteq> None"
  shows "leaf_view m' root va' \<noteq> None \<and> get_physical_from m' root va' = get_physical_from m root va'"
proof (cases "same_page va' va")
  case True
  obtain e h where eh: "leaf_view m root va' = Some (e, h)" using assms(3) by auto
  then have "\<not> h \<and> e AND PAGE_MASK = pa AND PAGE_MASK"
    using assms(1) leaf_view_same_page [OF True] unfolding mapped_page_def by metis
  then have "get_physical_from m root va' = (pa AND PAGE_MASK) + (va' AND 0xFFF)"
    using eh by (simp add: get_physical_from_leaf)
  moreover have "leaf_view m' root va' \<noteq> None" using assms(1) True by (simp add: mapped_page_def)
  ultimately show ?thesis using True mapped_page_translate [OF assms(1,2)] by simp
next
  case False
  with assms mapped_page_translate [OF assms(1,2)] show ?thesis
    by (simp add: mapped_page_def)
qed

text \<open>The pages a range covers.\<close>

lemma page_span_count:
  assumes "unat va + unat sz + 8192 \<le> 2 ^ 64"
  shows "unat (page_span va sz) = (unat va mod 4096 + unat sz + 4095) div 4096"
proof -
  have o: "unat (va AND 4095) = unat va mod 4096"
  proof -
    have "va AND 4095 = take_bit 12 va" by (simp only: page_mask take_bit_eq_mask)
    then show ?thesis by (simp only: unsigned_take_bit_eq) (simp add: take_bit_eq_mod)
  qed
  have le: "unat va mod 4096 \<le> unat va" by simp
  have "unat (sz + (va AND 4095)) = unat sz + unat va mod 4096"
    using assms le o by (intro trans [OF iffD1 [OF unat_add_lem]]) simp_all
  moreover have "unat (sz + (va AND 4095) + 4095) = unat (sz + (va AND 4095)) + 4095"
    using assms le calculation by (intro trans [OF iffD1 [OF unat_add_lem]]) simp_all
  moreover have "sz + (va AND 4095) + PAGE_SIZE - 1 = sz + (va AND 4095) + 4095" by simp
  ultimately show ?thesis by (simp add: page_span_def unat_div Let_def add.commute [of 4095])
qed

text \<open>The \<open>i\<close>-th page of a range, and the page an address of the range is on.\<close>

lemma range_page_address:
  assumes "unat va + i * 4096 < 2 ^ 52"
  shows "unat (align_down va + of_nat i * PAGE_SIZE) = page_of va * 4096 + i * 4096"
proof -
  have "page_of va * 4096 \<le> unat va" by simp
  then have lt: "page_of va * 4096 + i * 4096 < 2 ^ 52" using assms by linarith
  then have "unat (of_nat i * PAGE_SIZE :: u64) = i * 4096" "i < 2 ^ 64"
    by (simp_all add: unat_word_ariths unat_of_nat mod_simps)
  then show ?thesis
    using lt by (subst iffD1 [OF unat_add_lem]) (simp_all add: unat_align_down)
qed

lemma page_offset_mod: "unat (va AND 0xFFF :: u64) = unat va mod 4096"
proof -
  have "va AND 4095 = take_bit 12 va" by (simp only: page_mask take_bit_eq_mask)
  then show ?thesis by (simp only: unsigned_take_bit_eq) (simp add: take_bit_eq_mod)
qed

lemma frame_plus_offset:
  assumes "unat pa + k < 2 ^ 52" and "unat va + k < 2 ^ 48" and "unat va mod 4096 = unat pa mod 4096"
    and "i = page_of (va + of_nat k) - page_of va"
  shows "((align_down pa + of_nat i * PAGE_SIZE) AND PAGE_MASK) + ((va + of_nat k) AND 0xFFF) = pa + of_nat k"
    and "page_of (va + of_nat k) * 4096 = page_of va * 4096 + i * 4096"
proof -
  have k: "k < 2 ^ 48" using assms(2) by linarith
  then have kn: "unat (of_nat k :: u64) = k" by (simp add: unat_of_nat)
  have vk: "unat (va + of_nat k) = unat va + k"
    by (subst iffD1 [OF unat_add_lem]) (use assms(2) kn in simp_all)
  have pk: "unat (pa + of_nat k) = unat pa + k"
    by (subst iffD1 [OF unat_add_lem]) (use assms(1) kn in simp_all)
  have i: "i = (unat va + k) div 4096 - unat va div 4096" using assms(4) by (simp add: vk)
  have le: "unat va div 4096 \<le> (unat va + k) div 4096" by (intro div_le_mono) simp
  then show "page_of (va + of_nat k) * 4096 = page_of va * 4096 + i * 4096"
    by (simp add: vk i diff_mult_distrib)
  have im: "i * 4096 + page_of va * 4096 = (unat va + k) div 4096 * 4096"
    using le by (simp add: i diff_mult_distrib)
  have sum: "page_of pa * 4096 + i * 4096 + (unat va + k) mod 4096 = unat pa + k"
    using im assms(3) div_mult_mod_eq [of "unat va" 4096] div_mult_mod_eq [of "unat va + k" 4096]
      div_mult_mod_eq [of "unat pa" 4096] by linarith
  have ik: "unat pa + i * 4096 < 2 ^ 52 + 4096"
    using sum assms(1) by linarith
  have f: "unat (align_down pa + of_nat i * PAGE_SIZE) = page_of pa * 4096 + i * 4096"
  proof -
    have "page_of pa * 4096 + i * 4096 < 2 ^ 52" using sum assms(1) by linarith
    moreover from this have "unat (of_nat i * PAGE_SIZE :: u64) = i * 4096"
      by (simp add: unat_word_ariths unat_of_nat mod_simps)
    ultimately show ?thesis by (subst iffD1 [OF unat_add_lem]) (simp_all add: unat_align_down)
  qed
  have m: "(align_down pa + of_nat i * PAGE_SIZE) AND PAGE_MASK = align_down pa + of_nat i * PAGE_SIZE"
    by (rule PAGE_MASK_frame) (use f sum assms(1) in simp_all)
  have "unat (align_down pa + of_nat i * PAGE_SIZE + ((va + of_nat k) AND 0xFFF)) = unat (pa + of_nat k)"
    using f sum assms(1) by (subst iffD1 [OF unat_add_lem]) (simp_all add: page_offset_mod vk pk)
  then show "((align_down pa + of_nat i * PAGE_SIZE) AND PAGE_MASK) + ((va + of_nat k) AND 0xFFF) = pa + of_nat k"
    unfolding m by (simp add: word_unat_eq_iff)
qed

text \<open>
  The interface the range loops rely on: an operation that maps one page in the tree under
  \<open>root_of m\<close>. The loops themselves are verified once, over the interface.
\<close>

locale page_mapper =
  fixes map1 :: "u64 \<Rightarrow> u64 \<Rightarrow> u64 \<Rightarrow> machine \<Rightarrow> int \<times> machine"
    and root_of :: "machine \<Rightarrow> u64"
  assumes map1_ok: "space_ok m (root_of m) \<Longrightarrow> map1 va pa flags m = (0, m') \<Longrightarrow>
      root_of m' = root_of m \<and> mapped_page m m' (root_of m) va pa flags"
    and map1_fail: "space_ok m (root_of m) \<Longrightarrow> map1 va pa flags m = (r, m') \<Longrightarrow> r \<noteq> 0 \<Longrightarrow>
      root_of m' = root_of m \<and> space_kept m m' (root_of m)"
begin

lemma map_each_ok:
  assumes "space_ok m (root_of m)" and "map_each (\<lambda>i. map1 (v i) (p i) flags) is m = (0, m')"
    and "flags AND PAGE_MASK = 0" and "distinct is" and "\<And>i j. i \<in> set is \<Longrightarrow> j \<in> set is \<Longrightarrow> same_page (v i) (v j) \<Longrightarrow> i = j"
  shows "root_of m' = root_of m \<and> space_ok m' (root_of m) \<and> same_regs m m' \<and>
    (\<forall>va. (\<forall>i\<in>set is. \<not> same_page va (v i)) \<longrightarrow>
       get_physical_from m' (root_of m) va = get_physical_from m (root_of m) va) \<and>
    (\<forall>va. \<forall>i\<in>set is. same_page va (v i) \<longrightarrow>
       get_physical_from m' (root_of m) va = (p i AND PAGE_MASK) + (va AND 0xFFF))"
  using assms(1,2,4,5)
proof (induction "is" arbitrary: m)
  case Nil
  then show ?case by simp
next
  case (Cons i "is")
  obtain r m1 where 1: "map1 (v i) (p i) flags m = (r, m1)" by force
  with Cons.prems(2) have r: "r = 0" and rest: "map_each (\<lambda>i. map1 (v i) (p i) flags) is m1 = (0, m')"
    by (auto split: if_splits)
  note ok1 = map1_ok [OF Cons.prems(1) 1 [unfolded r]]
  then have rt: "root_of m1 = root_of m" and mp: "mapped_page m m1 (root_of m) (v i) (p i) flags" by auto
  then have sp: "space_ok m1 (root_of m1)" by (simp add: mapped_page_def)
  have IH: "root_of m' = root_of m1 \<and> space_ok m' (root_of m1) \<and> same_regs m1 m' \<and>
    (\<forall>va. (\<forall>i\<in>set is. \<not> same_page va (v i)) \<longrightarrow>
       get_physical_from m' (root_of m1) va = get_physical_from m1 (root_of m1) va) \<and>
    (\<forall>va. \<forall>i\<in>set is. same_page va (v i) \<longrightarrow>
       get_physical_from m' (root_of m1) va = (p i AND PAGE_MASK) + (va AND 0xFFF))"
    by (rule Cons.IH [OF sp rest]) (use Cons.prems in auto)
  note tr = mapped_page_translate [OF mp assms(3)]
  have apart: "\<not> same_page va (v j)" if "same_page va (v i)" "j \<in> set is" for va j
  proof
    assume "same_page va (v j)"
    then have "same_page (v i) (v j)" using that(1) by (simp add: same_page_def)
    then have "i = j" using Cons.prems(4) that(2) by simp
    then show False using Cons.prems(3) that(2) by simp
  qed
  have "same_regs m m'" using mp IH by (auto simp: mapped_page_def intro: same_regs_trans)
  moreover have "get_physical_from m' (root_of m) va = (p j AND PAGE_MASK) + (va AND 0xFFF)"
    if "j \<in> set (i # is)" "same_page va (v j)" for va j
  proof (cases "j = i")
    case True
    then have "get_physical_from m' (root_of m) va = get_physical_from m1 (root_of m) va"
      using IH rt apart that(2) by simp
    with True that(2) tr show ?thesis by simp
  next
    case False
    then show ?thesis using IH rt that by simp
  qed
  ultimately show ?case using IH rt tr by simp
qed

text \<open>Whatever the loop returns, the tree stays well formed and mapped addresses keep their
  translation.\<close>

lemma map_each_keeps:
  assumes "space_ok m (root_of m)" and "map_each (\<lambda>i. map1 (v i) (p i) flags) is m = (r, m')"
    and "flags AND PAGE_MASK = 0"
  shows "root_of m' = root_of m \<and> space_ok m' (root_of m) \<and> same_regs m m' \<and> tree_frame m m' (root_of m) \<and>
    (\<forall>va. leaf_view m (root_of m) va \<noteq> None \<longrightarrow> leaf_view m' (root_of m) va \<noteq> None \<and>
      get_physical_from m' (root_of m) va = get_physical_from m (root_of m) va)"
  using assms(1,2)
proof (induction "is" arbitrary: m)
  case (Cons i "is")
  obtain r1 m1 where 1: "map1 (v i) (p i) flags m = (r1, m1)" by force
  have k: "root_of m1 = root_of m \<and> space_ok m1 (root_of m) \<and> same_regs m m1 \<and> tree_frame m m1 (root_of m) \<and>
    (\<forall>va. leaf_view m (root_of m) va \<noteq> None \<longrightarrow> leaf_view m1 (root_of m) va \<noteq> None \<and>
      get_physical_from m1 (root_of m) va = get_physical_from m (root_of m) va)"
  proof (cases "r1 = 0")
    case True
    note ok = map1_ok [OF Cons.prems(1) 1 [unfolded True]]
    then have mp: "mapped_page m m1 (root_of m) (v i) (p i) flags" by simp
    from ok mapped_page_keeps [OF mp assms(3)] show ?thesis by (simp add: mapped_page_def)
  next
    case False
    from map1_fail [OF Cons.prems(1) 1 False] show ?thesis
      by (simp add: space_kept_n_def get_physical_from_leaf)
  qed
  show ?case
  proof (cases "r1 = 0")
    case True
    then have "map_each (\<lambda>i. map1 (v i) (p i) flags) is m1 = (r, m')" using Cons.prems(2) 1 by simp
    from Cons.IH [OF _ this] k show ?thesis by (auto intro: same_regs_trans tree_frame_trans)
  next
    case False
    then have "m1 = m'" using Cons.prems(2) 1 by simp
    with k show ?thesis by simp
  qed
qed simp

lemma range_translates:
  assumes "space_ok m (root_of m)" and "flags AND PAGE_MASK = 0"
    and "map_each (\<lambda>i. map1 (align_down va + of_nat i * PAGE_SIZE) (align_down pa + of_nat i * PAGE_SIZE) flags)
           [0..<unat (page_span va sz)] m = (0, m')"
    and va: "unat va + unat sz < 2 ^ 47" and pa: "unat pa + unat sz < 2 ^ 52" and off: "unat va mod 4096 = unat pa mod 4096"
  shows "root_of m' = root_of m \<and> space_ok m' (root_of m) \<and> same_regs m m' \<and>
    (\<forall>k < unat sz. get_physical_from m' (root_of m) (va + of_nat k) = pa + of_nat k) \<and>
    (\<forall>va'. unat va' < 2 ^ 48 \<longrightarrow> page_of va' \<notin> {page_of va..<page_of va + unat (page_span va sz)} \<longrightarrow>
       get_physical_from m' (root_of m) va' = get_physical_from m (root_of m) va')"
proof -
  let ?n = "unat (page_span va sz)" and ?v = "\<lambda>i. align_down va + of_nat i * PAGE_SIZE"
  have n: "?n = (unat va mod 4096 + unat sz + 4095) div 4096" using va by (intro page_span_count) simp
  have iv: "unat (?v i) = page_of va * 4096 + i * 4096" "unat (?v i) < 2 ^ 48" if "i < ?n" for i
  proof -
    have "i * 4096 + 4096 \<le> unat va mod 4096 + unat sz + 4095" using that n by linarith
    then have *: "i * 4096 < 4096 + unat sz" using mod_less_divisor [of 4096 "unat va"] by linarith
    then have "unat va + i * 4096 < 2 ^ 52" using va by simp
    then show e: "unat (?v i) = page_of va * 4096 + i * 4096" by (rule range_page_address)
    have "page_of va * 4096 \<le> unat va" by simp
    moreover have "unat va + unat sz < 140737488355328" using va by simp
    ultimately have "unat (?v i) < 281474976710656" using e * by linarith
    then show "unat (?v i) < 2 ^ 48" by simp
  qed
  have pg: "page_of (?v i) = page_of va + i" if "i < ?n" for i
    using iv(1) [OF that] by simp
  have inj: "i = j" if "i \<in> set [0..<?n]" "j \<in> set [0..<?n]" "same_page (?v i) (?v j)" for i j
  proof -
    have "i < ?n" "j < ?n" using that by simp_all
    then have "page_of (?v i) = page_of (?v j)"
      using same_page_page_of [OF iv(2) iv(2)] that(3) by blast
    with pg [OF \<open>i < ?n\<close>] pg [OF \<open>j < ?n\<close>] show ?thesis by linarith
  qed
  have me: "root_of m' = root_of m \<and> space_ok m' (root_of m) \<and> same_regs m m' \<and>
    (\<forall>x. (\<forall>i\<in>set [0..<?n]. \<not> same_page x (?v i)) \<longrightarrow>
       get_physical_from m' (root_of m) x = get_physical_from m (root_of m) x) \<and>
    (\<forall>x. \<forall>i\<in>set [0..<?n]. same_page x (?v i) \<longrightarrow> get_physical_from m' (root_of m) x =
       ((align_down pa + of_nat i * PAGE_SIZE) AND PAGE_MASK) + (x AND 0xFFF))"
    by (rule map_each_ok [OF assms(1,3,2) distinct_upt]) (rule inj)
  have "get_physical_from m' (root_of m) (va + of_nat k) = pa + of_nat k" if k: "k < unat sz" for k
  proof -
    define i where "i = page_of (va + of_nat k) - page_of va"
    have b: "unat pa + k < 2 ^ 52" "unat va + k < 2 ^ 48" using k va pa by simp_all
    note fo = frame_plus_offset [OF b off i_def]
    have vk: "unat (va + of_nat k) = unat va + k"
    proof -
      have "unat (of_nat k :: u64) = k" using b by (simp add: unat_of_nat)
      then show ?thesis by (subst iffD1 [OF unat_add_lem]) (use b in simp_all)
    qed
    have "i * 4096 + unat va div 4096 * 4096 \<le> unat va + k"
      using fo(2) by (simp add: vk)
    then have "i * 4096 + 4096 \<le> unat va mod 4096 + unat sz + 4095"
      using k div_mult_mod_eq [of "unat va" 4096] by linarith
    then have i: "i < ?n" unfolding n by (simp add: less_eq_div_iff_mult_less_eq Suc_le_eq [symmetric])
    have "page_of (va + of_nat k) = page_of (?v i)" using fo(2) pg [OF i] by simp
    then have "same_page (va + of_nat k) (?v i)"
      using same_page_page_of [OF _ iv(2) [OF i], of "va + of_nat k"] b(2) vk by simp
    then have "get_physical_from m' (root_of m) (va + of_nat k) =
        ((align_down pa + of_nat i * PAGE_SIZE) AND PAGE_MASK) + ((va + of_nat k) AND 0xFFF)"
      using me i by simp
    then show ?thesis unfolding fo(1) .
  qed
  moreover have "get_physical_from m' (root_of m) va' = get_physical_from m (root_of m) va'"
    if "unat va' < 2 ^ 48" "page_of va' \<notin> {page_of va..<page_of va + ?n}" for va'
  proof -
    have "\<not> same_page va' (?v i)" if "i < ?n" for i
      using same_page_page_of [OF \<open>unat va' < 2 ^ 48\<close> iv(2) [OF that]] pg [OF that]
        \<open>page_of va' \<notin> _\<close> that by auto
    then show ?thesis using me by simp
  qed
  ultimately show ?thesis using me by blast
qed

end

lemma table_at_invalidated [simp]: "table_at (m\<lparr>invalidated := l\<rparr>) root p = table_at m root p"
  by (induction p) (simp_all add: table_at_Cons slot_def split: option.split)

lemma invalidate_irrelevant [simp]:
  "table_at (invalidate_page a m) root p = table_at m root p"
  "slot (invalidate_page a m) t i = slot m t i" "pmm (invalidate_page a m) = pmm m"
  "current_pml4 (invalidate_page a m) = current_pml4 m"
  by (simp_all add: invalidate_page_def slot_def)

lemma invalidate_spaces [simp]:
  "leaf_view (invalidate_page a m) root va = leaf_view m root va"
  "get_physical_from (invalidate_page a m) root va = get_physical_from m root va"
  "user_walk (invalidate_page a m) root va = user_walk m root va"
  "space_ok (invalidate_page a m) root = space_ok m root"
  "tree_frame m1 (invalidate_page a m) root = tree_frame m1 m root"
  by (simp_all only: leaf_view_def get_physical_from_leaf user_walk_def space_ok_def table_frame_def
      tree_frame_def invalidate_irrelevant)

lemma same_regs_invalidate: "same_regs m1 m \<Longrightarrow> same_regs m1 (invalidate_page a m)"
  by (erule same_regs_trans) (simp add: same_regs_def invalidate_page_def)

lemma mapped_page_invalidate:
  "mapped_page m m' root va pa flags \<Longrightarrow> mapped_page m (invalidate_page a m') root va pa flags"
  unfolding mapped_page_def by (simp only: invalidate_spaces invalidate_irrelevant) (blast intro: same_regs_invalidate)

lemma mapped_page_regs: "mapped_page m m' root va pa flags \<Longrightarrow> same_regs m m'"
  by (simp add: mapped_page_def)

interpretation current: page_mapper vmm_map_page current_pml4
proof unfold_locales
  fix m va pa flags m'
  assume ok: "space_ok m (current_pml4 m)" and e: "vmm_map_page va pa flags m = (0, m')"
  then obtain m1 where m1: "map_page_in (current_pml4 m) va pa flags m = (0, m1)" "m' = invalidate_page va m1"
    by (auto simp: vmm_map_page_def split: prod.splits if_splits)
  have "mapped_page m m' (current_pml4 m) va pa flags"
    using map_page_in_ok [OF ok m1(1)] unfolding m1(2) by (blast intro: mapped_page_invalidate)
  with mapped_page_regs [OF this]
  show "current_pml4 m' = current_pml4 m \<and> mapped_page m m' (current_pml4 m) va pa flags"
    by (blast intro: same_regs_fields(1))
next
  fix m va pa flags r m'
  assume ok: "space_ok m (current_pml4 m)" and e: "vmm_map_page va pa flags m = (r, m')" and r: "r \<noteq> 0"
  then have "map_page_in (current_pml4 m) va pa flags m = (r, m')"
    by (auto simp: vmm_map_page_def split: prod.splits if_splits)
  from map_page_in_fail [OF ok this r] have "space_kept m m' (current_pml4 m)" by blast
  then show "current_pml4 m' = current_pml4 m \<and> space_kept m m' (current_pml4 m)"
    by (simp add: space_kept_n_def same_regs_fields)
qed

interpretation kernel: page_mapper "\<lambda>va pa flags m. map_page_in (kernel_pml4 m) va pa flags m" kernel_pml4
proof unfold_locales
  fix m va pa flags m'
  assume ok: "space_ok m (kernel_pml4 m)" and e: "map_page_in (kernel_pml4 m) va pa flags m = (0, m')"
  from map_page_in_ok [OF this]
  show "kernel_pml4 m' = kernel_pml4 m \<and> mapped_page m m' (kernel_pml4 m) va pa flags"
    by (blast intro: same_regs_fields(2) mapped_page_regs)
next
  fix m va pa flags r m'
  assume ok: "space_ok m (kernel_pml4 m)" and e: "map_page_in (kernel_pml4 m) va pa flags m = (r, m')" and r: "r \<noteq> 0"
  from map_page_in_fail [OF this] have "space_kept m m' (kernel_pml4 m)" by blast
  then show "kernel_pml4 m' = kernel_pml4 m \<and> space_kept m m' (kernel_pml4 m)"
    by (simp add: space_kept_n_def same_regs_fields)
qed

interpretation fixed: page_mapper "map_page_in root" "\<lambda>_. root" for root
proof unfold_locales
  fix m va pa flags m'
  assume ok: "space_ok m root" and e: "map_page_in root va pa flags m = (0, m')"
  from map_page_in_ok [OF this]
  show "root = root \<and> mapped_page m m' root va pa flags" by blast
next
  fix m va pa flags r m'
  assume ok: "space_ok m root" and e: "map_page_in root va pa flags m = (r, m')" and r: "r \<noteq> 0"
  from map_page_in_fail [OF this] show "root = root \<and> space_kept m m' root" by blast
qed

section \<open>Fresh and sample spaces\<close>

lemma table_at_empty:
  assumes "\<forall>j<512. slot m c j = 0" and "path_ok (j # q)"
  shows "table_at m c (j # q) = None"
  using assms(2)
proof (induction q arbitrary: j)
  case Nil
  then show ?case using assms(1) by (simp add: table_at_Cons next_table_def path_ok_Cons)
next
  case (Cons i q)
  then have "table_at m c (i # q) = None" by (simp add: path_ok_Cons)
  then show ?case by (simp add: table_at_Cons [of _ _ j])
qed

lemma space_ok_fresh:
  assumes "pmm_inv (pmm m)" and "allocate_table m = (c, m')" and "c \<noteq> 0"
  shows "space_ok m' c" and "leaf_view m' c va = None"
proof -
  note n = allocate_table_new [OF assms]
  have e: "table_at m' c q = (if q = [] then Some c else None)" if "path_ok q" for q
    using table_at_empty [OF n(6)] that by (cases q) simp_all
  show "space_ok m' c" unfolding space_ok_def
    using e n(2-5) by (auto simp: table_frame_def)
  show "leaf_view m' c va = None" by (simp add: leaf_view_def e pt_path_def)
qed

text \<open>A machine after the sample boot, with an empty root table in the first free frame.\<close>

definition machine_blank :: machine where
  "machine_blank = \<lparr>pmm = pmm_sample, mem = \<lambda>_. 0, heap_used = 0, heap_total = 0, current_pml4 = 0,
     kernel_pml4 = 0, kernel_cr3 = 0, cr3 = 0, invalidated = [], fb_addr = 0, fb_pitch = 0, fb_w = 0,
     fb_h = 0, fb_bpp = 0, r_pos = 0, g_pos = 0, b_pos = 0, draw_buf = 0, display_buf = 0,
     fb_force_full = False\<rparr>"

definition sample_root :: u64 where "sample_root = fst (allocate_table machine_blank)"

definition machine_sample :: machine where
  "machine_sample = (snd (allocate_table machine_blank))\<lparr>current_pml4 := sample_root, kernel_pml4 := sample_root\<rparr>"

lemma space_ok_cong:
  assumes "pmm m' = pmm m" and "mem m' = mem m"
  shows "space_ok m' root = space_ok m root" and "leaf_view m' root va = leaf_view m root va"
    and "table_at m' root q = table_at m root q"
proof -
  have s: "slot m' = slot m" by (simp add: fun_eq_iff slot_def assms)
  then have t: "table_at m' root q = table_at m root q" for q
    by (induction q) (simp_all add: table_at_Cons cong: option.case_cong)
  then show "table_at m' root q = table_at m root q" .
  show "space_ok m' root = space_ok m root" by (simp add: space_ok_def t table_frame_def assms)
  show "leaf_view m' root va = leaf_view m root va"
    by (simp add: leaf_view_def t s cong: option.case_cong)
qed

lemma sample_nonempty: "free_set (pmm machine_blank) \<noteq> {}"
  by (simp add: machine_blank_def pmm_sample_free_set)

lemma sample_root_new: "allocate_table machine_blank = (sample_root, snd (allocate_table machine_blank))"
  "sample_root \<noteq> 0" "pmm_inv (pmm machine_blank)"
proof -
  show i: "pmm_inv (pmm machine_blank)" by (simp add: machine_blank_def pmm_sample_inv)
  show a: "allocate_table machine_blank = (sample_root, snd (allocate_table machine_blank))"
    by (simp add: sample_root_def)
  show "sample_root \<noteq> 0"
    using allocate_table_fail [OF i] a sample_nonempty by metis
qed

lemma machine_sample_ok:
  "space_ok machine_sample sample_root" "leaf_view machine_sample sample_root va = None"
  "card (free_set (pmm machine_sample)) = 382" "current_pml4 machine_sample = sample_root"
  "kernel_pml4 machine_sample = sample_root" "fb_physical_address machine_sample = 0"
proof -
  note f = space_ok_fresh [OF sample_root_new(3,1,2)] and n = allocate_table_new [OF sample_root_new(3,1,2)]
  let ?m = "snd (allocate_table machine_blank)"
  have c: "pmm machine_sample = pmm ?m" "mem machine_sample = mem ?m" by (simp_all add: machine_sample_def)
  show "space_ok machine_sample sample_root" "leaf_view machine_sample sample_root va = None"
    using f by (simp_all add: space_ok_cong [OF c])
  show "current_pml4 machine_sample = sample_root" "kernel_pml4 machine_sample = sample_root"
    by (simp_all add: machine_sample_def)
  have "pmm machine_blank = pmm_sample" by (simp add: machine_blank_def)
  then have "card (free_set (pmm machine_sample)) = card (free_set pmm_sample) - 1"
    using n(1,5) by (simp add: c(1) card_Diff_singleton)
  then show "card (free_set (pmm machine_sample)) = 382" by (simp add: card_sample)
  have "fb_physical_address ?m = fb_physical_address machine_blank" by (rule same_regs_fields(7) [OF n(8)])
  then show "fb_physical_address machine_sample = 0"
    by (simp add: machine_sample_def fb_physical_address_def machine_blank_def)
qed

lemma not_huge_sample: "\<not> huge_mapped machine_sample sample_root va"
proof -
  note n = allocate_table_new [OF sample_root_new(3,1,2)]
  have "\<forall>j<512. slot machine_sample sample_root j = 0"
    using n(6) by (simp add: machine_sample_def slot_def)
  from table_at_empty [OF this, of "pdpt_index va" "[pml4_index va]"] show ?thesis
    by (simp add: huge_mapped_def)
qed

section \<open>Properties of mappings\<close>

lemma map_page_in_complete:
  assumes "space_ok m root" and "page_aligned va" and "page_aligned pa" and "\<not> huge_mapped m root va"
    and "\<And>e h. leaf_view m root va = Some (e, h) \<Longrightarrow> e AND PAGE_MASK = pa AND PAGE_MASK"
    and "3 \<le> card (free_set (pmm m))"
  shows "fst (map_page_in root va pa flags m) = 0"
proof (rule ccontr)
  assume "fst (map_page_in root va pa flags m) \<noteq> 0"
  from map_page_in_fail [OF assms(1) prod.collapse [symmetric] this] assms(2-) show False by auto
qed

text \<open>C3: a successful \<open>map_page_in\<close> makes every address of the virtual page translate to the same
  offset of the physical page, leaves the translation of every other address alone, keeps the
  tables a tree of frames in use, and for a user mapping sets the user bit at all four levels.\<close>

theorem map_page_translates:
  assumes "space_ok m root" and "flags AND PAGE_MASK = 0" and "unat pa < 2 ^ 52"
    and "map_page_in root va pa flags m = (0, m')"
  shows "space_ok m' root \<and> page_aligned va \<and> page_aligned pa \<and>
     (\<forall>va'. get_physical_from m' root va' =
        (if same_page va' va then pa + (va' AND 0xFFF) else get_physical_from m root va')) \<and>
     (bit flags 2 \<longrightarrow> user_walk m' root va)"
proof -
  from map_page_in_ok [OF assms(1,4)] have al: "page_aligned va" "page_aligned pa"
    and mp: "mapped_page m m' root va pa flags" by auto
  have "pa AND PAGE_MASK = pa" using al(2) assms(3) by (rule PAGE_MASK_frame)
  with mapped_page_translate [OF mp assms(2)] mp al show ?thesis by (simp add: mapped_page_def)
qed

lemma sample_maps: "\<exists>m'. map_page_in sample_root 0x400000 0x500000 7 machine_sample = (0, m')"
  using map_page_in_complete [OF machine_sample_ok(1) _ _ not_huge_sample, of "0x400000" "0x500000" 7]
  by (simp add: machine_sample_ok prod_eq_iff)

lemma flags_seven: "(7 :: u64) AND PAGE_MASK = 0" "bit (7 :: u64) 2"
  by code_simp+

lemma same_page_examples:
  "same_page 0x400123 0x400000" "\<not> same_page 0x401000 0x400000"
  by (simp_all add: same_page_page_of)

theorem map_page_translates_witness:
  "\<exists>m'. map_page_in sample_root 0x400000 0x500000 7 machine_sample = (0, m') \<and>
     get_physical_from m' sample_root 0x400123 = 0x500123 \<and> get_physical_from m' sample_root 0x401000 = 0 \<and>
     user_walk m' sample_root 0x400000"
proof -
  obtain m' where m': "map_page_in sample_root 0x400000 0x500000 7 machine_sample = (0, m')"
    using sample_maps by blast
  have "(0x500000 :: u64) + (0x400123 AND 0xFFF) = 0x500123" by code_simp
  with map_page_translates [OF machine_sample_ok(1) flags_seven(1) _ m'] m' show ?thesis
    using flags_seven(2) same_page_examples
    by (intro exI [of _ m']) (simp add: get_physical_from_leaf [of machine_sample] machine_sample_ok)
qed

text \<open>C14: a failing \<open>map_page_in\<close> changes no translation and keeps the tables a tree, and each
  return code means what it says: -1 a misaligned address, -2, -3 or -5 that the allocator ran out
  of frames, -4 a directory entry with the huge bit, -6 that the page is mapped to another frame.
  With three free frames and none of these, it succeeds.\<close>

theorem map_page_errors:
  assumes "space_ok m root" and "map_page_in root va pa flags m = (r, m')"
  shows "(r = -1 \<longleftrightarrow> \<not> (page_aligned va \<and> page_aligned pa)) \<and>
     (r \<noteq> 0 \<longrightarrow> space_ok m' root \<and> (\<forall>va'. get_physical_from m' root va' = get_physical_from m root va') \<and>
        r \<in> {-1, -2, -3, -4, -5, -6}) \<and>
     (r \<in> {-2, -3, -5} \<longrightarrow> free_set (pmm m') = {}) \<and> (r = -4 \<longrightarrow> huge_mapped m root va) \<and>
     (r = -6 \<longrightarrow> get_physical_from m root va \<noteq> pa AND PAGE_MASK) \<and>
     (page_aligned va \<and> page_aligned pa \<and> 3 \<le> card (free_set (pmm m)) \<and> \<not> huge_mapped m root va \<and>
        leaf_view m root va = None \<longrightarrow> r = 0)"
proof -
  have z: "va AND 0xFFF = 0" if "page_aligned va" using that by (simp add: page_offset_zero_iff)
  show ?thesis
  proof (cases "r = 0")
    case True
    with map_page_in_ok [OF assms(1)] assms(2) show ?thesis by simp
  next
    case False
    note f = map_page_in_fail [OF assms False]
    then have k: "space_ok m' root" "\<And>va. leaf_view m' root va = leaf_view m root va"
      by (simp_all add: space_kept_n_def)
    then have t: "get_physical_from m' root va' = get_physical_from m root va'" for va'
      by (simp add: get_physical_from_leaf)
    show ?thesis
      using f False k t z
      by (elim conjE disjE) (auto simp: get_physical_from_leaf [of m])
  qed
qed

theorem map_page_errors_witness:
  "fst (map_page_in sample_root 0x400001 0x500000 7 machine_sample) = -1 \<and>
   fst (map_page_in sample_root 0x400000 0x500000 7 machine_sample) = 0"
  using map_page_errors [OF machine_sample_ok(1) prod.collapse [symmetric], of "0x400001" "0x500000" 7]
    map_page_errors [OF machine_sample_ok(1) prod.collapse [symmetric], of "0x400000" "0x500000" 7]
  by (simp add: machine_sample_ok not_huge_sample)

text \<open>C16: when \<open>vmm_map_range\<close> reports success, every byte of the virtual range translates to the
  byte at the same distance in the physical range, and addresses on other pages translate as before.\<close>

theorem vmm_map_range_translates:
  assumes "space_ok m (current_pml4 m)" and "vmm_map_range va pa sz flags m = (0, m')"
    and "flags AND PAGE_MASK = 0" and "unat va mod 4096 = unat pa mod 4096"
    and "unat va + unat sz < 2 ^ 47" and "unat pa + unat sz < 2 ^ 52"
  shows "space_ok m' (current_pml4 m') \<and>
    (\<forall>k < unat sz. vmm_get_physical (va + of_nat k) m' = pa + of_nat k) \<and>
    (\<forall>va'. unat va' < 2 ^ 48 \<longrightarrow> page_of va' \<notin> {page_of va..<page_of va + unat (page_span va sz)} \<longrightarrow>
       vmm_get_physical va' m' = vmm_get_physical va' m)"
proof (cases "sz = 0")
  case True
  then show ?thesis using assms by (simp add: vmm_map_range_def)
next
  case False
  then have "map_each (\<lambda>i. vmm_map_page (align_down va + of_nat i * PAGE_SIZE) (align_down pa + of_nat i * PAGE_SIZE) flags)
      [0..<unat (page_span va sz)] m = (0, m')"
    using assms(2) by (simp add: vmm_map_range_def Let_def)
  from current.range_translates [OF assms(1,3) this assms(5,6,4)] show ?thesis
    by (simp add: vmm_get_physical_def)
qed

lemma map_each_one: "map_each f [0..<Suc 0] m = f 0 m"
  by (cases "f 0 m") simp

lemma sample_maps_current:
  "\<exists>m'. vmm_map_range 0x400010 0x500010 0x20 3 machine_sample = (0, m')"
proof -
  have "fst (map_page_in sample_root 0x400000 0x500000 3 machine_sample) = 0"
    by (rule map_page_in_complete [OF machine_sample_ok(1) _ _ not_huge_sample]) (simp_all add: machine_sample_ok)
  then obtain m1 where "map_page_in sample_root 0x400000 0x500000 3 machine_sample = (0, m1)"
    by (metis prod.collapse)
  then have "\<exists>m'. vmm_map_page 0x400000 0x500000 3 machine_sample = (0, m')"
    by (simp add: vmm_map_page_def machine_sample_ok)
  moreover have "page_span 0x400010 0x20 = 1" by code_simp
  moreover have "align_down 0x400010 = 0x400000" "align_down 0x500010 = 0x500000" by code_simp+
  ultimately show ?thesis by (simp add: vmm_map_range_def Let_def map_each_one del: upt_Suc)
qed

theorem vmm_map_range_translates_witness:
  "\<exists>m'. vmm_map_range 0x400010 0x500010 0x20 3 machine_sample = (0, m') \<and> vmm_get_physical 0x400018 m' = 0x500018"
proof -
  obtain m' where m': "vmm_map_range 0x400010 0x500010 0x20 3 machine_sample = (0, m')"
    using sample_maps_current by blast
  have ok: "space_ok machine_sample (current_pml4 machine_sample)" by (simp add: machine_sample_ok)
  have f: "(3 :: u64) AND PAGE_MASK = 0" by code_simp
  from vmm_map_range_translates [OF ok m' f] have "\<forall>k<32. vmm_get_physical (0x400010 + of_nat k) m' = 0x500010 + of_nat k"
    by simp
  from spec [OF this, of 8] m' show ?thesis by auto
qed

text \<open>after \<open>vmm_unmap_page\<close> no address of the page translates (unless a huge directory entry
  covers it, which the call leaves alone), every other translation is as before, and no frame
  has been given back to the allocator.\<close>

theorem vmm_unmap_page_correct:
  assumes "space_ok m (current_pml4 m)" and "\<not> (\<exists>e. leaf_view m (current_pml4 m) va = Some (e, True))"
  shows "space_ok (vmm_unmap_page va m) (current_pml4 m) \<and> pmm (vmm_unmap_page va m) = pmm m \<and>
     (\<forall>va'. get_physical_from (vmm_unmap_page va m) (current_pml4 m) va' =
        (if same_page va' va then 0 else get_physical_from m (current_pml4 m) va'))"
proof (cases "table_at m (current_pml4 m) (pt_path va)")
  case None
  then have "leaf_view m (current_pml4 m) va = None"
    using assms(2) by (auto simp: leaf_view_def Let_def split: option.splits if_splits)
  moreover have "vmm_unmap_page va m = m"
    using None by (auto simp: vmm_unmap_page_def pt_path_def table_at_Cons next_table_def Let_def split: if_splits)
  ultimately show ?thesis using assms(1) leaf_view_same_page by (simp add: get_physical_from_leaf)
next
  case (Some pt)
  let ?r = "current_pml4 m" and ?i = "pt_index va"
  let ?m = "set_slot pt ?i 0 m"
  have pt: "page_aligned pt" using space_ok_frame [OF assms(1) _ Some] by (simp add: table_frame_def)
  have u: "vmm_unmap_page va m = invalidate_page va ?m"
    using Some by (auto simp: vmm_unmap_page_def pt_path_def table_at_Cons next_table_def Let_def
        split: if_splits option.splits)
  have ch: "entry_changed m ?m pt ?i" by (rule entry_changed_set_slot) (simp_all add: pt)
  have len: "length (pt_path va) = 3" by (simp add: pt_path_def)
  have s: "slot ?m pt ?i = 0" using pt by (simp add: slot_set_slot)
  note lc = leaf_changed [OF assms(1) path_ok_pt_path(1) len Some index_bounds(4) ch, simplified s]
  have "leaf_view ?m ?r va' = (if same_page va' va then None else leaf_view m ?r va')" for va'
    using lc(3) [of va'] by (auto simp: same_page_def)
  then show ?thesis using lc(2) by (simp add: u get_physical_from_leaf)
qed

theorem vmm_unmap_page_correct_witness:
  "\<exists>m. vmm_get_physical 0x400018 m = 0x500018 \<and> vmm_get_physical 0x400018 (vmm_unmap_page 0x400000 m) = 0"
proof -
  obtain m' where m': "map_page_in sample_root 0x400000 0x500000 7 machine_sample = (0, m')"
    using sample_maps by blast
  note mp = map_page_in_ok [OF machine_sample_ok(1) m']
  then have ok: "space_ok m' (current_pml4 m')" and cur: "current_pml4 m' = sample_root"
    by (auto simp: mapped_page_def same_regs_fields machine_sample_ok)
  have lv: "leaf_view m' sample_root 0x400000 \<noteq> Some (e, True)" for e
    using mp by (auto simp: mapped_page_def)
  have p: "(0x500000 :: u64) AND PAGE_MASK = 0x500000" "(0x500000 :: u64) + (0x400018 AND 0xFFF) = 0x500018"
    by code_simp+
  have sp: "same_page 0x400018 0x400000" by (simp add: same_page_page_of)
  have t: "get_physical_from m' sample_root 0x400018 = 0x500018"
    using mapped_page_translate [of machine_sample m' sample_root "0x400000" "0x500000" 7 "0x400018"] mp flags_seven(1) sp p
    by simp
  have "current_pml4 (vmm_unmap_page 0x400000 m') = sample_root"
    using cur by (auto simp: vmm_unmap_page_def Let_def)
  then show ?thesis
    using vmm_unmap_page_correct [OF ok, of "0x400000"] lv cur t sp
    by (intro exI [of _ m']) (simp add: vmm_get_physical_def)
qed

text \<open>\<open>vmm_map_user_page\<close> refuses the null address space and addresses of the kernel half
  without any effect; when it succeeds the page translates to the requested frame for ring 3 (the
  user bit is set at every level of the walk) and no other translation of that space changes.\<close>

theorem vmm_map_user_page_correct:
  assumes "space_ok m (c AND PAGE_MASK)" and "flags AND PAGE_MASK = 0" and "unat pa < 2 ^ 52"
    and "vmm_map_user_page c va pa flags m = (r, m')"
  shows "(c = 0 \<or> 0x800000000000 \<le> va \<longrightarrow> r < 0 \<and> m' = m) \<and>
     (r = 0 \<longrightarrow> space_ok m' (c AND PAGE_MASK) \<and> user_walk m' (c AND PAGE_MASK) va \<and>
        (\<forall>va'. vmm_get_physical_in c va' m' =
           (if same_page va' va then pa + (va' AND 0xFFF) else vmm_get_physical_in c va' m)))"
proof (intro conjI impI)
  assume "c = 0 \<or> 0x800000000000 \<le> va"
  then show "r < 0" "m' = m"
    using assms(4) by (auto simp: vmm_map_user_page_def split: if_splits)
next
  assume r: "r = 0"
  then have c: "c \<noteq> 0" and e: "map_page_in (c AND PAGE_MASK) va pa (flags OR PAGE_USER) m = (0, m')"
    using assms(4) by (auto simp: vmm_map_user_page_def split: if_splits)
  have "PAGE_USER AND PAGE_MASK = 0" by code_simp
  then have f: "(flags OR PAGE_USER) AND PAGE_MASK = 0"
    using assms(2) by (simp add: bit.conj_disj_distrib2)
  from map_page_translates [OF assms(1) f assms(3) e]
  show "space_ok m' (c AND PAGE_MASK)" "user_walk m' (c AND PAGE_MASK) va"
    "\<forall>va'. vmm_get_physical_in c va' m' =
           (if same_page va' va then pa + (va' AND 0xFFF) else vmm_get_physical_in c va' m)"
    using c by (simp_all add: vmm_get_physical_in_def bit_simps)
qed

lemma sample_root_mask: "sample_root AND PAGE_MASK = sample_root"
  using allocate_table_new [OF sample_root_new(3,1,2)] by (intro PAGE_MASK_frame page_frame_small) simp_all

theorem vmm_map_user_page_correct_witness:
  "\<exists>m'. vmm_map_user_page sample_root 0x400000 0x500000 3 machine_sample = (0, m') \<and>
     user_walk m' sample_root 0x400000 \<and> vmm_get_physical_in sample_root 0x400123 m' = 0x500123"
proof -
  have or7: "(3 :: u64) OR PAGE_USER = 7" and f: "(3 :: u64) AND PAGE_MASK = 0"
    and p: "(0x500000 :: u64) + (0x400123 AND 0xFFF) = 0x500123" by code_simp+
  obtain m' where m': "map_page_in sample_root 0x400000 0x500000 7 machine_sample = (0, m')"
    using sample_maps by blast
  then have u: "vmm_map_user_page sample_root 0x400000 0x500000 3 machine_sample = (0, m')"
    using sample_root_new(2) by (simp add: vmm_map_user_page_def or7 sample_root_mask)
  have ok: "space_ok machine_sample (sample_root AND PAGE_MASK)" by (simp add: sample_root_mask machine_sample_ok)
  from vmm_map_user_page_correct [OF ok f _ u] u p same_page_examples(1) show ?thesis
    by (intro exI [of _ m']) (simp add: sample_root_mask)
qed

end
