(* ===== verification/Libc.thy ===== *)
theory Libc
  imports Prelude
begin

text \<open>
  The freestanding C library, \<open>src/libc/string.c\<close>. The block functions work on byte-addressed
  memory exactly as the C loops do, byte by byte. The string functions are given on strings as
  lists of bytes: the character at an index past the list is the terminating zero (\<open>cchar\<close>), so a
  list that contains a zero is a longer array whose string ends there.
\<close>

section \<open>Blocks of memory\<close>

fun memset_loop :: "nat \<Rightarrow> u64 \<Rightarrow> u8 \<Rightarrow> memory \<Rightarrow> memory" where
  "memset_loop 0 d c m = m"
| "memset_loop (Suc n) d c m = memset_loop n (d + 1) c (m(d := c))"

definition memset :: "u64 \<Rightarrow> u32 \<Rightarrow> u64 \<Rightarrow> memory \<Rightarrow> u64 \<times> memory" where
  "memset dest c n m = (dest, memset_loop (unat n) dest (ucast c) m)"

fun copy_up :: "nat \<Rightarrow> u64 \<Rightarrow> u64 \<Rightarrow> memory \<Rightarrow> memory" where
  "copy_up 0 d s m = m"
| "copy_up (Suc n) d s m = copy_up n (d + 1) (s + 1) (m(d := m s))"

fun copy_down :: "nat \<Rightarrow> u64 \<Rightarrow> u64 \<Rightarrow> memory \<Rightarrow> memory" where
  "copy_down 0 d s m = m"
| "copy_down (Suc n) d s m = copy_down n (d - 1) (s - 1) (m(d - 1 := m (s - 1)))"

definition memcpy :: "u64 \<Rightarrow> u64 \<Rightarrow> u64 \<Rightarrow> memory \<Rightarrow> u64 \<times> memory" where
  "memcpy dest src n m = (dest, copy_up (unat n) dest src m)"

definition memmove :: "u64 \<Rightarrow> u64 \<Rightarrow> u64 \<Rightarrow> memory \<Rightarrow> u64 \<times> memory" where
  "memmove dest src n m =
     (if dest < src then (dest, copy_up (unat n) dest src m)
      else (dest, copy_down (unat n) (dest + n) (src + n) m))"

fun memcmp_loop :: "nat \<Rightarrow> u64 \<Rightarrow> u64 \<Rightarrow> memory \<Rightarrow> int" where
  "memcmp_loop 0 p1 p2 m = 0"
| "memcmp_loop (Suc n) p1 p2 m =
     (if m p1 \<noteq> m p2 then uint (m p1) - uint (m p2) else memcmp_loop n (p1 + 1) (p2 + 1) m)"

definition memcmp :: "u64 \<Rightarrow> u64 \<Rightarrow> u64 \<Rightarrow> memory \<Rightarrow> int" where
  "memcmp a b n m = memcmp_loop (unat n) a b m"

section \<open>Strings\<close>

definition cchar :: "u8 list \<Rightarrow> nat \<Rightarrow> u8" where
  "cchar s i = (if i < length s then s ! i else 0)"

fun strlen :: "u8 list \<Rightarrow> nat" where
  "strlen [] = 0"
| "strlen (c # s) = (if c = 0 then 0 else Suc (strlen s))"

fun strcmp :: "u8 list \<Rightarrow> u8 list \<Rightarrow> int" where
  "strcmp [] b = - uint (cchar b 0)"
| "strcmp (x # a) b =
     (if x \<noteq> 0 \<and> x = cchar b 0 then strcmp a (tl b) else uint x - uint (cchar b 0))"

fun strncmp :: "u8 list \<Rightarrow> u8 list \<Rightarrow> nat \<Rightarrow> int" where
  "strncmp a b 0 = 0"
| "strncmp a b (Suc n) =
     (if cchar a 0 \<noteq> 0 \<and> cchar a 0 = cchar b 0 then strncmp (tl a) (tl b) n
      else uint (cchar a 0) - uint (cchar b 0))"

text \<open>The bytes \<open>strncpy\<close> writes at the first \<open>n\<close> places of its destination.\<close>

fun strncpy :: "u8 list \<Rightarrow> nat \<Rightarrow> u8 list" where
  "strncpy src 0 = []"
| "strncpy src (Suc n) =
     (if cchar src 0 \<noteq> 0 then cchar src 0 # strncpy (tl src) n else 0 # strncpy [] n)"

fun strcpy :: "u8 list \<Rightarrow> u8 list" where
  "strcpy [] = [0]"
| "strcpy (c # src) = (if c = 0 then [0] else c # strcpy src)"

fun strcat :: "u8 list \<Rightarrow> u8 list \<Rightarrow> u8 list" where
  "strcat [] src = strcpy src"
| "strcat (c # dest) src = (if c = 0 then strcpy src else c # strcat dest src)"

fun strncat_copy :: "u8 list \<Rightarrow> nat \<Rightarrow> u8 list" where
  "strncat_copy src 0 = [0]"
| "strncat_copy src (Suc n) =
     (if cchar src 0 \<noteq> 0 then cchar src 0 # strncat_copy (tl src) n else [0])"

fun strncat :: "u8 list \<Rightarrow> u8 list \<Rightarrow> nat \<Rightarrow> u8 list" where
  "strncat [] src n = strncat_copy src n"
| "strncat (c # dest) src n = (if c = 0 then strncat_copy src n else c # strncat dest src n)"

text \<open>The index \<open>strchr\<close> points at.\<close>

fun strchr :: "u8 list \<Rightarrow> u8 \<Rightarrow> nat option" where
  "strchr [] c = (if c = 0 then Some 0 else None)"
| "strchr (x # s) c =
     (if x = 0 then (if c = 0 then Some 0 else None)
      else if x = c then Some 0 else map_option Suc (strchr s c))"

section \<open>Strings as the characters before the zero\<close>

definition cstr :: "u8 list \<Rightarrow> u8 list" where
  "cstr s = takeWhile (\<lambda>c. c \<noteq> 0) s"

lemma cchar_Cons [simp]: "cchar (c # s) 0 = c" "cchar [] i = 0" "cchar (c # s) (Suc i) = cchar s i"
  by (simp_all add: cchar_def)

lemma cstr_simps [simp]: "cstr [] = []" "cstr (c # s) = (if c = 0 then [] else c # cstr s)"
  by (simp_all add: cstr_def)

lemma zero_notin_cstr [simp]: "0 \<notin> set (cstr s)"
  by (induction s) auto

lemma cstr_idem [simp]: "0 \<notin> set s \<Longrightarrow> cstr s = s"
  by (induction s) auto

lemma strlen_cstr: "strlen s = length (cstr s)"
  by (induction s) auto

lemma take_strlen [simp]: "take (strlen s) s = cstr s"
  by (induction s) auto

lemma strcmp_zero_iff: "strcmp a b = 0 \<longleftrightarrow> cstr a = cstr b"
proof (induction a b rule: strcmp.induct)
  case (1 b)
  then show ?case by (cases b) (auto simp: word_uint_eq_iff)
next
  case (2 x a b)
  then show ?case by (cases b) (auto simp: word_uint_eq_iff)
qed

lemma length_strncpy [simp]: "length (strncpy s n) = n"
  by (induction s n rule: strncpy.induct) auto

lemma strncpy_nil [simp]: "strncpy [] n = replicate n 0"
  by (induction n) auto

lemma strncpy_eq: "strncpy s n = take n (cstr s) @ replicate (n - length (cstr s)) 0"
proof (induction s n rule: strncpy.induct)
  case (2 s n)
  then show ?case by (cases s) auto
qed simp

lemma cstr_append_zero: "0 \<notin> set a \<Longrightarrow> cstr (a @ 0 # b) = a"
  by (induction a) auto

lemma cstr_replicate [simp]: "cstr (replicate n 0) = []"
  by (cases n) auto

lemma cstr_append_zeros: "0 \<notin> set a \<Longrightarrow> cstr (a @ replicate n 0) = a"
  by (cases n) (auto simp: cstr_append_zero)

text \<open>What the copying functions leave as a string.\<close>

lemma cstr_strncpy: "length (cstr s) < n \<Longrightarrow> cstr (strncpy s n) = cstr s"
  by (simp add: strncpy_eq cstr_append_zeros)

lemma cstr_strcpy: "cstr (strcpy s) = cstr s"
  by (induction s) auto

lemma cstr_strcat: "cstr (strcat d s) = cstr d @ cstr s"
  by (induction d) (auto simp: cstr_strcpy)

lemma cstr_strncat_copy: "cstr (strncat_copy s n) = take n (cstr s)"
proof (induction s n rule: strncat_copy.induct)
  case (2 s n)
  then show ?case by (cases s) auto
qed simp

lemma cstr_strncat: "cstr (strncat d s n) = cstr d @ take n (cstr s)"
  by (induction d) (auto simp: cstr_strncat_copy)

lemma strncmp_zero_iff: "strncmp a b n = 0 \<longleftrightarrow> take n (cstr a) = take n (cstr b)"
proof (induction a b n rule: strncmp.induct)
  case (2 a b n)
  then show ?case by (cases a; cases b) (auto simp: word_uint_eq_iff)
qed simp

lemma strchr_found: "c \<noteq> 0 \<Longrightarrow> strchr s c = Some i \<longleftrightarrow>
    i < length (cstr s) \<and> cstr s ! i = c \<and> c \<notin> set (take i (cstr s))"
proof (induction s arbitrary: i)
  case (Cons x s)
  then show ?case by (cases i) auto
qed simp

section \<open>What the block functions do to memory\<close>

lemma memset_loop_apply:
  "n \<le> 2 ^ 64 \<Longrightarrow> memset_loop n d c m x = (if unat (x - d) < n then c else m x)"
proof -
  have "memset_loop n d c m = store_bytes m d (replicate n c)" for m
    by (induction n arbitrary: d m) auto
  then show "n \<le> 2 ^ 64 \<Longrightarrow> memset_loop n d c m x = (if unat (x - d) < n then c else m x)"
    by (simp add: store_bytes_apply)
qed

lemma unat_offset:
  fixes d :: u64
  assumes "k < 2 ^ 64"
  shows "unat (d + of_nat k - d) = k"
  using assms by (simp add: unat_of_nat)

lemma offset_split:
  fixes d x :: u64
  shows "unat (x - d) < Suc n \<Longrightarrow> x \<noteq> d + of_nat n \<Longrightarrow> unat (x - d) < n"
proof (rule ccontr)
  assume "unat (x - d) < Suc n" "x \<noteq> d + of_nat n" "\<not> unat (x - d) < n"
  then have "unat (x - d) = n" by simp
  then have "x - d = of_nat n" using unat_less_u64 [of "x - d"] by (auto simp: word_unat_eq_iff unat_of_nat)
  then have "x = d + of_nat n" by (simp only: diff_eq_eq add.commute)
  then show False using \<open>x \<noteq> d + of_nat n\<close> by simp
qed

lemma copy_up_apply:
  assumes "n \<le> 2 ^ 64" and "\<And>k. 0 < k \<Longrightarrow> k < n \<Longrightarrow> s + of_nat k \<noteq> d"
  shows "copy_up n d s m x = (if unat (x - d) < n then m (s + (x - d)) else m x)"
  using assms
proof (induction n arbitrary: d s m)
  case (Suc n)
  let ?m = "m(d := m s)"
  have IH: "copy_up n (d + 1) (s + 1) ?m x =
      (if unat (x - (d + 1)) < n then ?m (s + 1 + (x - (d + 1))) else ?m x)"
  proof (rule Suc.IH)
    show "n \<le> 2 ^ 64" using Suc.prems(1) by simp
    show "s + 1 + of_nat k \<noteq> d + 1" if "0 < k" "k < n" for k
    proof -
      have "s + of_nat k \<noteq> d" using Suc.prems(2) [of k] that by simp
      moreover have "s + 1 + of_nat k = s + of_nat k + 1" by simp
      ultimately show ?thesis by (simp only: add_right_cancel) simp
    qed
  qed
  show ?case
  proof (cases "x = d")
    case True
    have "unat (x - (d + 1)) = 2 ^ 64 - 1"
      using True by (simp add: unsigned_minus_1_eq_mask mask_eq_exp_minus_1)
    with True IH Suc.prems(1) show ?thesis by simp
  next
    case False
    then have u: "unat (x - d) = Suc (unat (x - (d + 1)))" by (rule unat_minus_one_step)
    have "s + (x - d) \<noteq> d" if "unat (x - d) < Suc n"
      using Suc.prems(2) [of "unat (x - d)"] that u by simp
    moreover have "s + 1 + (x - (d + 1)) = s + (x - d)" by simp
    ultimately show ?thesis using IH False u by simp
  qed
qed simp

lemma copy_down_apply:
  assumes "n \<le> 2 ^ 64" and "\<And>i j. j < i \<Longrightarrow> i < n \<Longrightarrow> s + of_nat j \<noteq> d + of_nat i"
  shows "copy_down n (d + of_nat n) (s + of_nat n) m x = (if unat (x - d) < n then m (s + (x - d)) else m x)"
  using assms
proof (induction n arbitrary: m)
  case (Suc n)
  let ?m = "m(d + of_nat n := m (s + of_nat n))"
  have IH: "copy_down n (d + of_nat n) (s + of_nat n) ?m x =
      (if unat (x - d) < n then ?m (s + (x - d)) else ?m x)"
    by (rule Suc.IH) (use Suc.prems in auto)
  have st: "copy_down (Suc n) (d + of_nat (Suc n)) (s + of_nat (Suc n)) m x =
      copy_down n (d + of_nat n) (s + of_nat n) ?m x" by (simp add: algebra_simps)
  have un: "unat (d + of_nat n - d) = n" using Suc.prems(1) by (intro unat_offset) simp
  show ?case
  proof (cases "x = d + of_nat n")
    case True
    with st IH un show ?thesis by simp
  next
    case False
    have ne: "s + (x - d) \<noteq> d + of_nat n" if "unat (x - d) < n"
      using Suc.prems(2) [of "unat (x - d)" n] that by simp
    show ?thesis
      using st IH False ne offset_split [of x d n] by (auto simp: less_Suc_eq)
  qed
qed simp

section \<open>Properties\<close>

text \<open>\<open>memmove\<close> copies correctly however source and destination overlap: afterwards the
  destination block holds the bytes the source block held before, and no other byte has changed.\<close>

theorem memmove_correct:
  assumes "unat dest + unat n \<le> 2 ^ 64" and "unat src + unat n \<le> 2 ^ 64"
  shows "snd (memmove dest src n m) x =
     (if unat (x - dest) < unat n then m (src + (x - dest)) else m x)"
proof -
  have n: "unat n \<le> 2 ^ 64" using unat_less_u64 [of n] by simp
  have uk: "unat (a + of_nat k) = unat a + k" if "unat a + unat n \<le> 2 ^ 64" "k < unat n" for a :: u64 and k
  proof -
    have "unat (of_nat k :: u64) = k" using that unat_less_u64 [of n] by (simp add: unat_of_nat)
    then show ?thesis using that by (subst iffD1 [OF unat_add_lem]) simp_all
  qed
  show ?thesis
  proof (cases "dest < src")
    case True
    have "src + of_nat k \<noteq> dest" if "0 < k" "k < unat n" for k
      using uk [OF assms(2) that(2)] True by (auto simp: word_less_nat_alt)
    with True show ?thesis using n by (simp add: memmove_def copy_up_apply)
  next
    case False
    have "src + of_nat j \<noteq> dest + of_nat i" if "j < i" "i < unat n" for i j
    proof -
      have "unat src \<le> unat dest" using False by (simp add: word_le_nat_alt not_less)
      then have "unat (src + of_nat j) < unat (dest + of_nat i)"
        using uk [OF assms(2), of j] uk [OF assms(1), of i] that by simp
      then show ?thesis by auto
    qed
    from copy_down_apply [OF n this, of m x] False show ?thesis by (simp add: memmove_def)
  qed
qed

theorem memmove_correct_witness:
  "snd (memmove 0x1002 0x1000 4 ((\<lambda>_. 0)(0x1000 := 7, 0x1003 := 9))) 0x1005 = 9"
  using memmove_correct [of "0x1002" 4 "0x1000" "(\<lambda>_. 0)(0x1000 := 7, 0x1003 := 9)" "0x1005"] by simp

text \<open>the string functions agree with their meaning on strings as the characters before the
  terminating zero: \<open>strcmp\<close> and \<open>strncmp\<close> return 0 exactly on equal strings (or equal prefixes),
  \<open>strcat\<close> and \<open>strncat\<close> append, \<open>strncpy\<close> fills exactly \<open>n\<close> places and keeps a string that fits,
  \<open>strchr\<close> finds the first occurrence.\<close>

theorem string_functions_correct:
  shows "(strcmp a b = 0 \<longleftrightarrow> cstr a = cstr b) \<and> (strncmp a b n = 0 \<longleftrightarrow> take n (cstr a) = take n (cstr b)) \<and>
     cstr (strcpy a) = cstr a \<and> cstr (strcat a b) = cstr a @ cstr b \<and>
     cstr (strncat a b n) = cstr a @ take n (cstr b) \<and>
     strncpy a n = take n (cstr a) @ replicate (n - strlen a) 0 \<and>
     (\<forall>c i. strchr a c = Some i \<and> c \<noteq> 0 \<longleftrightarrow>
        i < strlen a \<and> cstr a ! i = c \<and> c \<notin> set (take i (cstr a)) \<and> c \<noteq> 0)"
  by (auto simp: strcmp_zero_iff strncmp_zero_iff cstr_strcpy cstr_strcat cstr_strncat strncpy_eq
      strlen_cstr strchr_found)

theorem string_functions_correct_witness:
  "strcmp [72, 105] [72, 105, 0, 7] = 0 \<and> strchr [72, 105] 105 = Some 1"
  using string_functions_correct [of "[72, 105]" "[72, 105, 0, 7]" 0] by auto

end
