(* ===== verification/Ata.thy ===== *)
theory Ata
  imports Prelude
begin

text \<open>
  The PIO disk driver, \<open>src/drivers/ata/ata.c\<close>, as the port accesses it makes. What the controller
  answers is not the driver's to define: the bytes successive reads of the status port return and
  the words successive reads of the data port return are parameters (\<open>status\<close>, \<open>words\<close>, indexed by
  the number of reads so far). The state is the log of port writes and the two read counters.
\<close>

unbundle bit_operations_syntax

datatype port_write = Outb u16 u8 | Outw u16 u16

record ata_io =
  writes :: "port_write list"
  status_reads :: nat
  data_reads :: nat

definition ATA_DATA :: u16 where "ATA_DATA = 0x1F0"
definition ATA_SECCOUNT0 :: u16 where "ATA_SECCOUNT0 = 0x1F2"
definition ATA_LBA0 :: u16 where "ATA_LBA0 = 0x1F3"
definition ATA_LBA1 :: u16 where "ATA_LBA1 = 0x1F4"
definition ATA_LBA2 :: u16 where "ATA_LBA2 = 0x1F5"
definition ATA_HDDEVSEL :: u16 where "ATA_HDDEVSEL = 0x1F6"
definition ATA_COMMAND :: u16 where "ATA_COMMAND = 0x1F7"
definition ATA_CMD_READ :: u8 where "ATA_CMD_READ = 0x20"
definition ATA_CMD_WRITE :: u8 where "ATA_CMD_WRITE = 0x30"
definition ATA_CMD_FLUSH :: u8 where "ATA_CMD_FLUSH = 0xE7"
definition ATA_SR_ERR :: u8 where "ATA_SR_ERR = 0x01"
definition ATA_SR_DRQ :: u8 where "ATA_SR_DRQ = 0x08"
definition ATA_SR_DF :: u8 where "ATA_SR_DF = 0x20"
definition ATA_SR_BSY :: u8 where "ATA_SR_BSY = 0x80"
definition ATA_TIMEOUT :: nat where "ATA_TIMEOUT = 1000000"

definition ata_outb :: "u16 \<Rightarrow> u8 \<Rightarrow> ata_io \<Rightarrow> ata_io" where
  "ata_outb port v io = io\<lparr>writes := writes io @ [Outb port v]\<rparr>"

definition ata_outw :: "u16 \<Rightarrow> u16 \<Rightarrow> ata_io \<Rightarrow> ata_io" where
  "ata_outw port v io = io\<lparr>writes := writes io @ [Outw port v]\<rparr>"

definition ata_400ns_delay :: "ata_io \<Rightarrow> ata_io" where
  "ata_400ns_delay io = io\<lparr>status_reads := status_reads io + 4\<rparr>"

text \<open>The polling loops, counting down the \<open>ATA_TIMEOUT\<close> rounds.\<close>

fun ata_poll_bsy :: "(nat \<Rightarrow> u8) \<Rightarrow> nat \<Rightarrow> ata_io \<Rightarrow> int \<times> ata_io" where
  "ata_poll_bsy status 0 io = (-1, io)"
| "ata_poll_bsy status (Suc n) io =
     (let s = status (status_reads io); io = io\<lparr>status_reads := status_reads io + 1\<rparr> in
      if s AND ATA_SR_ERR \<noteq> 0 then (-2, io)
      else if s AND ATA_SR_DF \<noteq> 0 then (-3, io)
      else if s AND ATA_SR_BSY = 0 then (0, io)
      else ata_poll_bsy status n io)"

fun ata_poll_drq :: "(nat \<Rightarrow> u8) \<Rightarrow> nat \<Rightarrow> ata_io \<Rightarrow> int \<times> ata_io" where
  "ata_poll_drq status 0 io = (-1, io)"
| "ata_poll_drq status (Suc n) io =
     (let s = status (status_reads io); io = io\<lparr>status_reads := status_reads io + 1\<rparr> in
      if s AND ATA_SR_ERR \<noteq> 0 then (-2, io)
      else if s AND ATA_SR_DF \<noteq> 0 then (-3, io)
      else if s AND ATA_SR_DRQ \<noteq> 0 then (0, io)
      else ata_poll_drq status n io)"

definition ata_wait_bsy :: "(nat \<Rightarrow> u8) \<Rightarrow> ata_io \<Rightarrow> int \<times> ata_io" where
  "ata_wait_bsy status io = ata_poll_bsy status ATA_TIMEOUT io"

definition ata_wait_drq :: "(nat \<Rightarrow> u8) \<Rightarrow> ata_io \<Rightarrow> int \<times> ata_io" where
  "ata_wait_drq status io = ata_poll_drq status ATA_TIMEOUT io"

definition ata_flush :: "(nat \<Rightarrow> u8) \<Rightarrow> ata_io \<Rightarrow> int \<times> ata_io" where
  "ata_flush status io = ata_wait_bsy status (ata_outb ATA_COMMAND ATA_CMD_FLUSH io)"

text \<open>The register writes both transfers begin with.\<close>

definition ata_command :: "u32 \<Rightarrow> u8 \<Rightarrow> ata_io \<Rightarrow> ata_io" where
  "ata_command lba command io =
     (let io = ata_outb ATA_HDDEVSEL (ucast (0xE0 OR (drop_bit 24 lba AND 0x0F))) io;
          io = ata_400ns_delay io;
          io = ata_outb ATA_SECCOUNT0 1 io;
          io = ata_outb ATA_LBA0 (ucast (lba AND 0xFF)) io;
          io = ata_outb ATA_LBA1 (ucast (drop_bit 8 lba AND 0xFF)) io;
          io = ata_outb ATA_LBA2 (ucast (drop_bit 16 lba AND 0xFF)) io
      in ata_outb ATA_COMMAND command io)"

definition read_words :: "(nat \<Rightarrow> u16) \<Rightarrow> ata_io \<Rightarrow> u16 list \<times> ata_io" where
  "read_words words io =
     (map (\<lambda>i. words (data_reads io + i)) [0..<256], io\<lparr>data_reads := data_reads io + 256\<rparr>)"

text \<open>
  The buffer is 256 little-endian words. A read that fails has not touched it (\<open>None\<close>).
\<close>

definition ata_read_sector ::
  "(nat \<Rightarrow> u8) \<Rightarrow> (nat \<Rightarrow> u16) \<Rightarrow> u32 \<Rightarrow> ata_io \<Rightarrow> int \<times> u16 list option \<times> ata_io" where
  "ata_read_sector status words lba io =
     (let io = ata_command lba ATA_CMD_READ io;
          (result, io) = ata_wait_bsy status io in
      if result \<noteq> 0 then (result, None, io)
      else
        (let (result, io) = ata_wait_drq status io in
         if result \<noteq> 0 then (result, None, io)
         else (let (buf, io) = read_words words io in (0, Some buf, io))))"

definition ata_write_sector :: "(nat \<Rightarrow> u8) \<Rightarrow> u32 \<Rightarrow> u16 list \<Rightarrow> ata_io \<Rightarrow> int \<times> ata_io" where
  "ata_write_sector status lba buf io =
     (let io = ata_command lba ATA_CMD_WRITE io;
          (result, io) = ata_wait_bsy status io in
      if result \<noteq> 0 then (result, io)
      else
        (let (result, io) = ata_wait_drq status io in
         if result \<noteq> 0 then (result, io)
         else
           (let io = fold (\<lambda>i. ata_outw ATA_DATA (buf ! i)) [0..<256] io;
                (result, io) = ata_flush status io in
            if result \<noteq> 0 then (result, io) else (0, io))))"

section \<open>Polling\<close>

text \<open>The verdict of one status byte, and what a polling loop returns: that of the first byte that
  has one, or -1 when the rounds are used up.\<close>

definition verdict :: "u8 \<Rightarrow> bool \<Rightarrow> int option" where
  "verdict s ready =
     (if s AND ATA_SR_ERR \<noteq> 0 then Some (-2) else if s AND ATA_SR_DF \<noteq> 0 then Some (-3)
      else if ready then Some 0 else None)"

fun first_verdict :: "(nat \<Rightarrow> int option) \<Rightarrow> nat \<Rightarrow> nat \<Rightarrow> int \<times> nat" where
  "first_verdict v k 0 = (-1, k)"
| "first_verdict v k (Suc n) = (case v k of Some r \<Rightarrow> (r, k + 1) | None \<Rightarrow> first_verdict v (k + 1) n)"

lemma ata_poll_bsy_verdict:
  "ata_poll_bsy status n io =
     (let (r, k) = first_verdict (\<lambda>i. verdict (status i) (status i AND ATA_SR_BSY = 0)) (status_reads io) n
      in (r, io\<lparr>status_reads := k\<rparr>))"
  by (induction n arbitrary: io) (auto simp: verdict_def Let_def split: prod.splits)

lemma ata_poll_drq_verdict:
  "ata_poll_drq status n io =
     (let (r, k) = first_verdict (\<lambda>i. verdict (status i) (status i AND ATA_SR_DRQ \<noteq> 0)) (status_reads io) n
      in (r, io\<lparr>status_reads := k\<rparr>))"
  by (induction n arbitrary: io) (auto simp: verdict_def Let_def split: prod.splits)

lemma first_verdict_bounds: "first_verdict v k n = (r, k') \<Longrightarrow> k \<le> k' \<and> k' \<le> k + n"
  by (induction v k n rule: first_verdict.induct) (auto split: option.splits)

lemma first_verdict_values:
  "first_verdict v k n = (r, k') \<Longrightarrow> (\<And>i x. v i = Some x \<Longrightarrow> x \<in> {0, -2, -3}) \<Longrightarrow> r \<in> {0, -1, -2, -3}"
  by (induction v k n rule: first_verdict.induct) (auto split: option.splits)

lemma wait_frames:
  assumes "ata_wait_bsy status io = (r, io') \<or> ata_wait_drq status io = (r, io')"
  shows "writes io' = writes io \<and> data_reads io' = data_reads io \<and> status_reads io \<le> status_reads io' \<and>
     status_reads io' \<le> status_reads io + ATA_TIMEOUT \<and> r \<in> {0, -1, -2, -3}"
proof -
  have v: "verdict s b = Some x \<Longrightarrow> x \<in> {0, -2, -3}" for s b x
    by (auto simp: verdict_def split: if_splits)
  show ?thesis
    using assms
    by (auto simp: ata_wait_bsy_def ata_wait_drq_def ata_poll_bsy_verdict ata_poll_drq_verdict Let_def
        split: prod.splits dest: first_verdict_bounds first_verdict_values [OF _ v])
qed

lemma ata_frames [simp]:
  "status_reads (ata_outb p v io) = status_reads io" "data_reads (ata_outb p v io) = data_reads io"
  "status_reads (ata_outw p w io) = status_reads io" "data_reads (ata_outw p w io) = data_reads io"
  "writes (ata_outb p v io) = writes io @ [Outb p v]" "writes (ata_outw p w io) = writes io @ [Outw p w]"
  "writes (ata_400ns_delay io) = writes io" "data_reads (ata_400ns_delay io) = data_reads io"
  "status_reads (ata_400ns_delay io) = status_reads io + 4"
  by (simp_all add: ata_outb_def ata_outw_def ata_400ns_delay_def)

lemma fold_outw:
  "fold (\<lambda>i. ata_outw p (f i)) ns io = io\<lparr>writes := writes io @ map (\<lambda>i. Outw p (f i)) ns\<rparr>"
  by (induction ns arbitrary: io) (simp_all add: ata_outw_def)

section \<open>Properties\<close>

text \<open>The sector a command block selects: the controller's 28-bit LBA registers.\<close>

fun selected_lba :: "port_write list \<Rightarrow> nat option" where
  "selected_lba [Outb p0 d, Outb p1 n, Outb p2 b0, Outb p3 b1, Outb p4 b2, Outb p5 c] =
     (if p0 = ATA_HDDEVSEL \<and> p1 = ATA_SECCOUNT0 \<and> p2 = ATA_LBA0 \<and> p3 = ATA_LBA1 \<and> p4 = ATA_LBA2 \<and>
         p5 = ATA_COMMAND \<and> n = 1 \<and> drop_bit 4 d = 0xE
      then Some (unat b0 + 256 * unat b1 + 65536 * unat b2 + 16777216 * (unat d mod 16)) else None)"
| "selected_lba _ = None"

definition command_block :: "u32 \<Rightarrow> u8 \<Rightarrow> port_write list" where
  "command_block lba command =
     [Outb ATA_HDDEVSEL (ucast (0xE0 OR (drop_bit 24 lba AND 0x0F))), Outb ATA_SECCOUNT0 1,
      Outb ATA_LBA0 (ucast (lba AND 0xFF)), Outb ATA_LBA1 (ucast (drop_bit 8 lba AND 0xFF)),
      Outb ATA_LBA2 (ucast (drop_bit 16 lba AND 0xFF)), Outb ATA_COMMAND command]"

lemma ata_command_writes:
  "writes (ata_command lba c io) = writes io @ command_block lba c"
  "status_reads (ata_command lba c io) = status_reads io + 4" "data_reads (ata_command lba c io) = data_reads io"
  by (simp_all add: ata_command_def command_block_def Let_def)

lemma unat_byte_of: "unat (ucast (drop_bit k lba AND 0xFF :: u32) :: u8) = unat lba div 2 ^ k mod 256"
proof -
  have m: "(0xFF :: u32) = mask 8" by code_simp
  have "ucast (drop_bit k lba AND 0xFF) = (ucast (drop_bit k lba) :: u8)"
    unfolding m by (rule bit_word_eqI) (auto simp: bit_simps)
  moreover have "unat (ucast (drop_bit k lba) :: u8) = unat lba div 2 ^ k mod 256"
    by (simp only: unsigned_ucast_eq unat_drop_bit_eq) (simp add: drop_bit_eq_div take_bit_eq_mod)
  ultimately show ?thesis by (simp only:)
qed

lemma device_select:
  "drop_bit 4 (ucast (0xE0 OR (x AND 0x0F) :: u32) :: u8) = 0xE"
  "unat (ucast (0xE0 OR (x AND 0x0F) :: u32) :: u8) mod 16 = unat x mod 16"
proof -
  have e: "(0xE0 :: u32) = push_bit 5 (mask 3)" "(0x0F :: u32) = mask 4"
    by code_simp+
  have e4: "(0xE :: u8) = push_bit 1 (mask 3)" by code_simp
  have b: "bit (0xE :: u8) n \<longleftrightarrow> 1 \<le> n \<and> n < 4" for n
    unfolding e4 bit_push_bit_iff bit_mask_iff by auto
  show "drop_bit 4 (ucast (0xE0 OR (x AND 0x0F) :: u32) :: u8) = 0xE"
    unfolding e by (rule bit_word_eqI, unfold b) (auto simp: bit_simps)
  have "take_bit 4 (ucast (0xE0 OR (x AND 0x0F) :: u32) :: u8) = take_bit 4 (ucast x)"
    unfolding e by (rule bit_word_eqI) (auto simp: bit_simps)
  from arg_cong [OF this, of unat]
  have "take_bit 4 (unat (ucast (0xE0 OR (x AND 0x0F) :: u32) :: u8)) = take_bit 4 (unat (ucast x :: u8))"
    by (simp only: unsigned_take_bit_eq)
  moreover have "take_bit 4 (unat (ucast x :: u8)) = unat x mod 16"
    by (simp only: unsigned_ucast_eq take_bit_take_bit) (simp add: take_bit_eq_mod)
  ultimately show "unat (ucast (0xE0 OR (x AND 0x0F) :: u32) :: u8) mod 16 = unat x mod 16"
    by (simp only: take_bit_eq_mod) simp
qed

lemma selected_command_block: "selected_lba (command_block lba c) = Some (unat lba mod 2 ^ 28)"
proof -
  have d: "unat (drop_bit 24 lba) = unat lba div 16777216" by (simp only: unat_drop_bit_eq) (simp add: drop_bit_eq_div)
  have b0: "unat (ucast (lba AND 0xFF) :: u8) = unat lba mod 256" using unat_byte_of [of 0 lba] by simp
  have "unat lba mod 256 + 256 * (unat lba div 256 mod 256) + 65536 * (unat lba div 65536 mod 256) +
      16777216 * (unat lba div 16777216 mod 16) = unat lba mod 268435456"
  proof -
    have "n mod 268435456 = n mod 256 + 256 * (n div 256 mod 256) + 65536 * (n div 65536 mod 256) +
      16777216 * (n div 16777216 mod 16)" for n :: nat
      using mod_mult2_eq [of n 256 1048576] mod_mult2_eq [of "n div 256" 256 4096]
        mod_mult2_eq [of "n div 65536" 256 16] by (simp add: div_mult2_eq [symmetric])
    then show ?thesis by simp
  qed
  then show ?thesis
    unfolding command_block_def selected_lba.simps
    using unat_byte_of [of 8 lba] unat_byte_of [of 16 lba] b0 device_select [of "drop_bit 24 lba"] d
    by simp
qed

text \<open>
  Polling the status port from its read number \<open>k\<close> on, in terms of the bits of the bytes read: bit 0 reports an error and
  bit 5 a device fault. The first byte with one of them, or ready, decides; after a million that do not, time is up. \<open>r\<close> is
  the result and \<open>k'\<close> the number of the next read.
\<close>

definition polled :: "(nat \<Rightarrow> u8) \<Rightarrow> (u8 \<Rightarrow> bool) \<Rightarrow> nat \<Rightarrow> int \<Rightarrow> nat \<Rightarrow> bool" where
  "polled status ready k r k' \<longleftrightarrow>
     (let decides = (\<lambda>s. bit s 0 \<or> bit s 5 \<or> ready s) in
      (\<exists>n < 1000000. (\<forall>i < n. \<not> decides (status (k + i))) \<and> decides (status (k + n)) \<and> k' = k + n + 1 \<and>
         r = (if bit (status (k + n)) 0 then -2 else if bit (status (k + n)) 5 then -3 else 0)) \<or>
      (\<forall>i < 1000000. \<not> decides (status (k + i))) \<and> r = -1 \<and> k' = k + 1000000)"

lemma first_verdict_cases:
  assumes "first_verdict v k n = (r, k')"
  shows "(\<exists>j < n. (\<forall>i < j. v (k + i) = None) \<and> v (k + j) = Some r \<and> k' = k + j + 1) \<or>
     (\<forall>i < n. v (k + i) = None) \<and> r = -1 \<and> k' = k + n"
  using assms
proof (induction n arbitrary: k)
  case (Suc n)
  show ?case
  proof (cases "v k")
    case None
    then have "first_verdict v (k + 1) n = (r, k')" using Suc.prems by simp
    from Suc.IH [OF this] show ?thesis
    proof
      assume "\<exists>j < n. (\<forall>i < j. v (k + 1 + i) = None) \<and> v (k + 1 + j) = Some r \<and> k' = k + 1 + j + 1"
      then obtain j where "j < n" "\<forall>i < j. v (k + 1 + i) = None" "v (k + 1 + j) = Some r" "k' = k + 1 + j + 1" by blast
      then show ?thesis using None by (intro disjI1 exI [of _ "Suc j"]) (auto simp: less_Suc_eq_0_disj)
    qed (use None in \<open>auto simp: less_Suc_eq_0_disj\<close>)
  next
    case (Some x)
    then show ?thesis using Suc.prems by (intro disjI1 exI [of _ 0]) simp
  qed
qed simp

lemma status_bits:
  "s AND ATA_SR_ERR \<noteq> 0 \<longleftrightarrow> bit s 0" "s AND ATA_SR_DF \<noteq> 0 \<longleftrightarrow> bit s 5"
  "s AND ATA_SR_DRQ \<noteq> 0 \<longleftrightarrow> bit s 3" "s AND ATA_SR_BSY = 0 \<longleftrightarrow> \<not> bit s 7"
  using and_exp_eq_0_iff_not_bit [of s 0] and_exp_eq_0_iff_not_bit [of s 5] and_exp_eq_0_iff_not_bit [of s 3]
    and_exp_eq_0_iff_not_bit [of s 7]
  by (simp_all add: ATA_SR_ERR_def ATA_SR_DF_def ATA_SR_DRQ_def ATA_SR_BSY_def)

lemma polled_verdict:
  assumes "first_verdict (\<lambda>i. verdict (status i) (ready (status i))) k 1000000 = (r, k')"
  shows "polled status ready k r k'"
proof -
  have v: "verdict s (ready s) = None \<longleftrightarrow> \<not> (bit s 0 \<or> bit s 5 \<or> ready s)"
    "verdict s (ready s) = Some x \<longleftrightarrow> (bit s 0 \<or> bit s 5 \<or> ready s) \<and> x = (if bit s 0 then -2 else if bit s 5 then -3 else 0)" for s x
    by (auto simp: verdict_def status_bits)
  show ?thesis using first_verdict_cases [OF assms] unfolding v polled_def Let_def by blast
qed

lemma waits_polled:
  "ata_wait_bsy status io = (r, io') \<Longrightarrow> polled status (\<lambda>s. \<not> bit s 7) (status_reads io) r (status_reads io')"
  "ata_wait_drq status io = (r, io') \<Longrightarrow> polled status (\<lambda>s. bit s 3) (status_reads io) r (status_reads io')"
  by (auto simp: ata_wait_bsy_def ata_wait_drq_def ATA_TIMEOUT_def ata_poll_bsy_verdict ata_poll_drq_verdict
      status_bits Let_def split: prod.splits intro!: polled_verdict)

text \<open>C40: A disk read programs the controller for one sector at the block address modulo 2^28 and, after four reads that
  give the controller time, polls the status port until it is not busy and then until it has data. The result is that of the
  byte that ends the polling: -2 when it reports an error, -3 when it reports a device fault, -1 when a million
  bytes did neither and none was ready. Only if both waits succeed is the result 0, with the 256
  words the data port delivered, in order; otherwise no word is read and the buffer is untouched.\<close>

theorem ata_read_sector_correct:
  assumes "ata_read_sector status words lba io = (r, buf, io')"
  shows "writes io' = writes io @ command_block lba ATA_CMD_READ \<and>
     selected_lba (command_block lba ATA_CMD_READ) = Some (unat lba mod 2 ^ 28) \<and>
     (\<exists>r1 k1. polled status (\<lambda>s. \<not> bit s 7) (status_reads io + 4) r1 k1 \<and>
        (if r1 = 0 then polled status (\<lambda>s. bit s 3) k1 r (status_reads io') else r = r1 \<and> status_reads io' = k1)) \<and>
     (if r = 0 then buf = Some (map (\<lambda>i. words (data_reads io + i)) [0..<256]) \<and> data_reads io' = data_reads io + 256
      else buf = None \<and> data_reads io' = data_reads io)"
proof -
  let ?io = "ata_command lba ATA_CMD_READ io"
  obtain r1 io1 where 1: "ata_wait_bsy status ?io = (r1, io1)" by force
  obtain r2 io2 where 2: "ata_wait_drq status io1 = (r2, io2)" by force
  note f1 = wait_frames [OF disjI1 [OF 1]] and f2 = wait_frames [OF disjI2 [OF 2]]
  have p1: "polled status (\<lambda>s. \<not> bit s 7) (status_reads io + 4) r1 (status_reads io1)"
    using waits_polled(1) [OF 1] by (simp add: ata_command_writes)
  note p2 = waits_polled(2) [OF 2]
  show ?thesis
  proof (cases "r1 = 0 \<and> r2 = 0")
    case True
    then have r: "r = 0" "buf = Some (map (\<lambda>i. words (data_reads io2 + i)) [0..<256])"
      "io' = io2\<lparr>data_reads := data_reads io2 + 256\<rparr>"
      using assms 1 2 by (simp_all add: ata_read_sector_def read_words_def Let_def del: upt_Suc)
    have "\<exists>r1 k1. polled status (\<lambda>s. \<not> bit s 7) (status_reads io + 4) r1 k1 \<and>
        (if r1 = 0 then polled status (\<lambda>s. bit s 3) k1 r (status_reads io') else r = r1 \<and> status_reads io' = k1)"
      using p1 p2 True r by (intro exI [of _ r1] exI [of _ "status_reads io1"]) simp
    then show ?thesis using f1 f2 r by (simp add: ata_command_writes selected_command_block)
  next
    case False
    then have r: "(r1 \<noteq> 0 \<and> r = r1 \<and> buf = None \<and> io' = io1) \<or> (r1 = 0 \<and> r2 \<noteq> 0 \<and> r = r2 \<and> buf = None \<and> io' = io2)"
      using assms 1 2 by (cases "r1 = 0") (auto simp: ata_read_sector_def)
    have "\<exists>r1 k1. polled status (\<lambda>s. \<not> bit s 7) (status_reads io + 4) r1 k1 \<and>
        (if r1 = 0 then polled status (\<lambda>s. bit s 3) k1 r (status_reads io') else r = r1 \<and> status_reads io' = k1)"
      using p1 p2 r by (intro exI [of _ r1] exI [of _ "status_reads io1"]) auto
    then show ?thesis using f1 f2 r by (auto simp: ata_command_writes selected_command_block)
  qed
qed

theorem ata_read_sector_correct_witness:
  "selected_lba (command_block 0x12345678 ATA_CMD_READ) = Some 0x2345678 \<and>
   fst (ata_read_sector (\<lambda>_. 0x08) (\<lambda>i. of_nat i) 0x12345678 \<lparr>writes = [], status_reads = 0, data_reads = 0\<rparr>) = 0"
proof -
  let ?io = "\<lparr>writes = [], status_reads = 0, data_reads = 0\<rparr> :: ata_io"
  have p: "ata_poll_bsy (\<lambda>_. 0x08) n io = (0, io\<lparr>status_reads := status_reads io + 1\<rparr>)"
    "ata_poll_drq (\<lambda>_. 0x08) n io = (0, io\<lparr>status_reads := status_reads io + 1\<rparr>)" if "0 < n" for n io
    using that by (cases n; simp add: Let_def ATA_SR_ERR_def ATA_SR_DF_def ATA_SR_BSY_def ATA_SR_DRQ_def)+
  have w: "ata_wait_bsy (\<lambda>_. 0x08) io = (0, io\<lparr>status_reads := status_reads io + 1\<rparr>)"
    "ata_wait_drq (\<lambda>_. 0x08) io = (0, io\<lparr>status_reads := status_reads io + 1\<rparr>)" for io
    by (simp_all add: ata_wait_bsy_def ata_wait_drq_def p ATA_TIMEOUT_def)
  obtain r buf io' where e: "ata_read_sector (\<lambda>_. 0x08) (\<lambda>i. of_nat i) 0x12345678 ?io = (r, buf, io')"
    by (metis prod_cases3)
  then have "r = 0" by (simp add: ata_read_sector_def w Let_def read_words_def del: upt_Suc)
  with ata_read_sector_correct [OF e] e show ?thesis by simp
qed

text \<open>a disk write programs the same block address, and when it returns 0 the controller has
  received exactly the 256 words of the buffer in order, followed by a cache flush; when it fails
  before the transfer no data word has been written.\<close>

theorem ata_write_sector_correct:
  assumes "ata_write_sector status lba buf io = (r, io')"
  shows "\<exists>data. writes io' = writes io @ command_block lba ATA_CMD_WRITE @ data \<and>
     data \<in> {[], map (\<lambda>i. Outw ATA_DATA (buf ! i)) [0..<256] @ [Outb ATA_COMMAND ATA_CMD_FLUSH]} \<and>
     (r = 0 \<longrightarrow> data \<noteq> []) \<and> r \<in> {0, -1, -2, -3} \<and> data_reads io' = data_reads io"
proof -
  let ?io = "ata_command lba ATA_CMD_WRITE io"
  let ?d = "map (\<lambda>i. Outw ATA_DATA (buf ! i)) [0..<256] @ [Outb ATA_COMMAND ATA_CMD_FLUSH]"
  obtain r1 io1 where 1: "ata_wait_bsy status ?io = (r1, io1)" by force
  obtain r2 io2 where 2: "ata_wait_drq status io1 = (r2, io2)" by force
  let ?io2 = "fold (\<lambda>i. ata_outw ATA_DATA (buf ! i)) [0..<256] io2"
  obtain r3 io3 where 3: "ata_flush status ?io2 = (r3, io3)" by force
  note f1 = wait_frames [OF disjI1 [OF 1]] and f2 = wait_frames [OF disjI2 [OF 2]]
    and f3 = wait_frames [OF disjI1 [OF 3 [unfolded ata_flush_def]]]
  have w2: "writes ?io2 = writes io2 @ map (\<lambda>i. Outw ATA_DATA (buf ! i)) [0..<256]" "data_reads ?io2 = data_reads io2"
    by (simp_all only: fold_outw) simp_all
  show ?thesis
  proof (cases "r1 = 0 \<and> r2 = 0")
    case True
    then have "r = r3" "io' = io3"
      using assms 1 2 3 by (auto simp: ata_write_sector_def simp del: upt_Suc split: if_splits)
    then show ?thesis using f1 f2 f3 w2
      by (intro exI [of _ ?d]) (auto simp: ata_command_writes simp del: upt_Suc)
  next
    case False
    then have "(r1 \<noteq> 0 \<and> r = r1 \<and> io' = io1) \<or> (r1 = 0 \<and> r2 \<noteq> 0 \<and> r = r2 \<and> io' = io2)"
      using assms 1 2 by (cases "r1 = 0") (auto simp: ata_write_sector_def simp del: upt_Suc)
    then show ?thesis using f1 f2 by (intro exI [of _ "[]"]) (auto simp: ata_command_writes)
  qed
qed

theorem ata_write_sector_correct_witness:
  "\<exists>r io'. ata_write_sector (\<lambda>_. 0x01) 5 [] \<lparr>writes = [], status_reads = 0, data_reads = 0\<rparr> = (r, io') \<and> r \<in> {0, -1, -2, -3}"
proof -
  obtain r io' where e: "ata_write_sector (\<lambda>_. 0x01) 5 [] \<lparr>writes = [], status_reads = 0, data_reads = 0\<rparr> = (r, io')"
    by force
  from ata_write_sector_correct [OF e] e show ?thesis by blast
qed

end
