(* ===== verification/Memory.thy ===== *)
theory Memory
  imports Console
begin

text \<open>
  The memory map report, \<open>memory_detect\<close> of \<open>src/memory/memory.c\<close>: a walk over the tags of the
  Multiboot2 information that prints every region and adds up the usable ones. The walk advances by
  sizes it reads, so it may run for ever (\<open>None\<close>).
\<close>

unbundle bit_operations_syntax

record memory_report =
  report :: console
  total_usable :: u64
  region_count :: u32

definition say_r :: "string \<Rightarrow> memory_report \<Rightarrow> memory_report" where
  "say_r s r = r\<lparr>report := terminal_print s (report r)\<rparr>"

definition report_region :: "memory \<Rightarrow> u64 \<Rightarrow> memory_report \<Rightarrow> memory_report" where
  "report_region m entry_ptr r =
     (let base = load64 m entry_ptr; len = load64 m (entry_ptr + 8); type = load32 m (entry_ptr + 16);
          r = say_r ''\<newline>Region '' r;
          r = r\<lparr>report := print_decimal (ucast (region_count r)) (report r), region_count := region_count r + 1\<rparr>;
          r = say_r ''  Base:   '' (say_r ''\<newline>'' r);
          r = r\<lparr>report := print_hex64 base (report r)\<rparr>;
          r = say_r ''\<newline>  Length: '' r;
          r = r\<lparr>report := print_hex64 len (report r)\<rparr>;
          r = say_r ''\<newline>  Type:   '' r;
          r = (if type = 1 then (say_r ''AVAILABLE'' r)\<lparr>total_usable := total_usable r + len\<rparr>
               else say_r ''RESERVED'' r)
      in say_r ''\<newline>'' r)"

partial_function (option) report_entries ::
  "memory \<Rightarrow> u64 \<Rightarrow> u64 \<Rightarrow> u64 \<Rightarrow> memory_report \<Rightarrow> memory_report option" where
  "report_entries m tag entry_end entry_ptr r =
     (if entry_ptr < entry_end
      then report_entries m tag entry_end (entry_ptr + ucast (load32 m (tag + 8))) (report_region m entry_ptr r)
      else Some r)"

partial_function (option) report_tags :: "memory \<Rightarrow> u64 \<Rightarrow> u64 \<Rightarrow> memory_report \<Rightarrow> memory_report option" where
  "report_tags m iend ptr r =
     (if ptr < iend then
        (let type = load32 m ptr; sz = load32 m (ptr + 4) in
         if type = 0 then Some r
         else Option.bind
           (if type = 6 then report_entries m ptr (ptr + ucast sz) (ptr + 16) r else Some r)
           (\<lambda>r. report_tags m iend (ptr + ucast ((sz + 7) AND NOT 7)) r))
      else Some r)"

definition memory_detect :: "memory \<Rightarrow> u64 \<Rightarrow> console \<Rightarrow> console option" where
  "memory_detect m mb2_info c =
     (let r = \<lparr>report = c, total_usable = 0, region_count = 0\<rparr>;
          r = say_r ''##TinyOS Memory Map\<newline>'' (say_r ''\<newline>'' r) in
      map_option
        (\<lambda>r. report (say_r '' MB\<newline>''
               (let r = say_r ''Usable RAM: '' r in
                r\<lparr>report := print_decimal (total_usable r div (1024 * 1024)) (report r)\<rparr>)))
        (report_tags m (mb2_info + ucast (load32 m mb2_info)) (mb2_info + 8) r))"

text \<open>The linker's symbols are arguments.\<close>

definition memory_kernel_start :: "u64 \<Rightarrow> u64" where
  "memory_kernel_start kernel_start = kernel_start"

definition memory_kernel_end :: "u64 \<Rightarrow> u64" where
  "memory_kernel_end kernel_end = kernel_end"

end
