(* ===== verification/Kmalloc.thy ===== *)
theory Kmalloc
  imports Machine
begin

text \<open>
  The kernel heap, \<open>src/memory/kmalloc.c\<close>: whole runs of pages from the page allocator with a
  24-byte header (magic, page count, size) in front of the block. All arithmetic is 64-bit.
\<close>

unbundle bit_operations_syntax

definition KMALLOC_MAGIC :: u64 where
  "KMALLOC_MAGIC = 0x4B4D414C4C4F43"

text \<open>\<open>sizeof(allocation_header_t)\<close>, and the offsets of its fields.\<close>

definition HEADER_BYTES :: u64 where
  "HEADER_BYTES = 24"

definition kmalloc_init :: "machine \<Rightarrow> machine" where
  "kmalloc_init m = m\<lparr>heap_used := 0, heap_total := 0\<rparr>"

definition kmalloc_pages :: "u64 \<Rightarrow> u64" where
  "kmalloc_pages sz = (HEADER_BYTES + sz + PAGE_SIZE - 1) div PAGE_SIZE"

definition kmalloc :: "u64 \<Rightarrow> machine \<Rightarrow> u64 \<times> machine" where
  "kmalloc sz m =
     (if sz = 0 then (0, m)
      else
        (let m = present_m m;
             pages = kmalloc_pages sz;
             m = present_m m;
             (address, m) = of_pmm (pmm_alloc_pages pages) m;
             m = present_m m in
         if address = 0 then (0, present_m (print_m ''KMALLOC: PMM returned 0\<newline>'' m))
         else
           (let m = present_m (present_m m);
                m = poke64 address KMALLOC_MAGIC m;
                m = present_m m;
                m = poke64 (address + 8) pages m;
                m = poke64 (address + 16) sz m;
                m = m\<lparr>heap_used := heap_used m + pages * PAGE_SIZE, heap_total := heap_total m + pages * PAGE_SIZE\<rparr>
            in (address + HEADER_BYTES, m))))"

definition kfree :: "u64 \<Rightarrow> machine \<Rightarrow> machine" where
  "kfree ptr m =
     (if ptr = 0 then m
      else
        (let header = ptr - HEADER_BYTES in
         if load64 (mem m) header \<noteq> KMALLOC_MAGIC then m
         else
           (let pages = load64 (mem m) (header + 8);
                m = on_pmm (fold (\<lambda>i. pmm_free_page (header + of_nat i * PAGE_SIZE)) [0..<unat pages]) m;
                m = (if heap_used m \<ge> pages * PAGE_SIZE then m\<lparr>heap_used := heap_used m - pages * PAGE_SIZE\<rparr>
                     else m\<lparr>heap_used := 0\<rparr>)
            in poke64 header 0 m)))"

definition kmalloc_used :: "machine \<Rightarrow> u64" where
  "kmalloc_used m = heap_used m"

definition kmalloc_total :: "machine \<Rightarrow> u64" where
  "kmalloc_total m = heap_total m"

end
