(* ===== verification/Heap.thy ===== *)
theory Heap
  imports Kmalloc
begin

text \<open>
  The kernel heap: what \<open>kmalloc\<close> takes from the page allocator and writes to memory, and that
  \<open>kfree\<close> gives it all back.
\<close>

unbundle bit_operations_syntax

section \<open>Sizes\<close>

lemma unat_kmalloc_pages:
  assumes "unat sz < 2 ^ 63"
  shows "unat (kmalloc_pages sz) = (unat sz + 24 + 4095) div 4096"
proof -
  have "kmalloc_pages sz = (sz + 4119) div PAGE_SIZE" by (simp add: kmalloc_pages_def HEADER_BYTES_def add.commute)
  moreover have "unat (sz + 4119) = unat sz + 4119" using assms by (simp add: unat_word_ariths)
  ultimately show ?thesis by (simp add: unat_div)
qed

section \<open>Freeing a run\<close>

lemma free_run_pages:
  assumes "pmm_inv s" "1 \<le> q" "q + n \<le> MAX_PAGES"
  shows "pmm_inv (fold (\<lambda>i. pmm_free_page (of_nat q * PAGE_SIZE + of_nat i * PAGE_SIZE)) [0..<n] s) \<and>
    free_set (fold (\<lambda>i. pmm_free_page (of_nat q * PAGE_SIZE + of_nat i * PAGE_SIZE)) [0..<n] s) = free_set s \<union> {q..<q + n}"
  using assms(3)
proof (induction n)
  case 0
  then show ?case using assms(1) by simp
next
  case (Suc n)
  let ?a = "of_nat q * PAGE_SIZE + of_nat n * PAGE_SIZE :: u64"
  have "?a = of_nat (q + n) * PAGE_SIZE" by (simp add: distrib_right)
  moreover have "unat (of_nat (q + n) * PAGE_SIZE :: u64) = (q + n) * 4096"
    using Suc.prems by (intro page_of_page_address) simp
  ultimately have u: "unat ?a = (q + n) * 4096" by simp
  have page: "page_of ?a = q + n" using u by simp
  have "?a \<noteq> 0" using u assms(2) by auto
  moreover have "?a < MAX_PHYSICAL_MEMORY"
    using u Suc.prems by (simp add: word_less_nat_alt MAX_PHYSICAL_MEMORY_def MAX_PAGES_def)
  moreover have "page_aligned ?a" using u by simp
  ultimately have "allocatable ?a" by (simp add: allocatable_def)
  then show ?case
    using Suc pmm_free_page_spec [of "fold (\<lambda>i. pmm_free_page (of_nat q * PAGE_SIZE + of_nat i * PAGE_SIZE)) [0..<n] s" ?a] page
    by auto
qed

section \<open>Allocating\<close>

definition block_header :: "machine \<Rightarrow> u64 \<Rightarrow> u64 \<times> u64 \<times> u64" where
  "block_header m p = (load64 (mem m) (p - 24), load64 (mem m) (p - 16), load64 (mem m) (p - 8))"

lemma kmalloc_cases:
  assumes "pmm_inv (pmm m)" "0 < unat sz" "unat sz < 2 ^ 63" "kmalloc sz m = (p, m')"
  shows "if \<exists>q. free_run (pmm m) q (unat (kmalloc_pages sz))
    then \<exists>a. a \<noteq> 0 \<and> page_aligned a \<and> p = a + 24 \<and> pmm_inv (pmm m') \<and> free_run (pmm m) (page_of a) (unat (kmalloc_pages sz)) \<and>
      free_set (pmm m') = free_set (pmm m) - {page_of a..<page_of a + unat (kmalloc_pages sz)} \<and>
      mem m' = store64 (store64 (store64 (mem m) a KMALLOC_MAGIC) (a + 8) (kmalloc_pages sz)) (a + 16) sz \<and>
      heap_used m' = heap_used m + kmalloc_pages sz * PAGE_SIZE
    else p = 0 \<and> pmm_inv (pmm m') \<and> free_set (pmm m') = free_set (pmm m) \<and> mem m' = mem m \<and> heap_used m' = heap_used m"
proof -
  let ?s = "fb_present (fb_present (pmm m))" and ?n = "kmalloc_pages sz"
  have i: "pmm_inv ?s" using assms(1) by simp
  have run: "free_run ?s q k \<longleftrightarrow> free_run (pmm m) q k" for q k by (simp add: free_run_def)
  have nz: "sz \<noteq> 0" using assms(2) by auto
  have n: "?n \<noteq> 0" using unat_kmalloc_pages [OF assms(3)] assms(2) by auto
  obtain a s' where al: "pmm_alloc_pages ?n ?s = (a, s')" by force
  then have op: "of_pmm (pmm_alloc_pages ?n) (present_m (present_m m)) = (a, (present_m (present_m m))\<lparr>pmm := s'\<rparr>)"
    by (simp add: of_pmm_def)
  let ?m = "present_m ((present_m (present_m m))\<lparr>pmm := s'\<rparr>)"
  have k: "(p, m') = (if a = 0 then (0, present_m (print_m ''KMALLOC: PMM returned 0\<newline>'' ?m))
      else (a + HEADER_BYTES,
        (let m = poke64 (a + 16) sz (poke64 (a + 8) ?n (present_m (poke64 a KMALLOC_MAGIC (present_m (present_m ?m)))))
         in m\<lparr>heap_used := heap_used m + ?n * PAGE_SIZE, heap_total := heap_total m + ?n * PAGE_SIZE\<rparr>)))"
    using assms(4) nz unfolding kmalloc_def by (simp only: Let_def op prod.case if_False split: if_split)
  show ?thesis
  proof (cases "\<exists>q. free_run (pmm m) q (unat ?n)")
    case True
    then obtain q where "free_run ?s q (unat ?n)" using run by blast
    note ok = pmm_alloc_pages_success [OF i al n this]
    have "p = a + 24" "pmm_inv (pmm m')" "free_set (pmm m') = free_set s'"
      "mem m' = store64 (store64 (store64 (mem m) a KMALLOC_MAGIC) (a + 8) ?n) (a + 16) sz"
      "heap_used m' = heap_used m + ?n * PAGE_SIZE"
      using k ok(1,2) by (simp_all add: Let_def poke64_def HEADER_BYTES_def)
    then show ?thesis using True ok run by auto
  next
    case False
    then have "?n = 0 \<or> (\<forall>q. \<not> free_run ?s q (unat ?n))" using run by blast
    note no = pmm_alloc_pages_failure [OF i al this]
    have "p = 0 \<and> pmm_inv (pmm m') \<and> free_set (pmm m') = free_set (pmm m) \<and> mem m' = mem m \<and> heap_used m' = heap_used m"
      using k no by (simp add: terminal_print_def)
    then show ?thesis using False by auto
  qed
qed

lemma header_loads:
  "load64 (store64 (store64 (store64 mm a x) (a + 8) y) (a + 16) z) a = x"
  "load64 (store64 (store64 (store64 mm a x) (a + 8) y) (a + 16) z) (a + 8) = y"
  by (simp_all add: load64_store64_apart load64_store64_same)

text \<open>C28: The heap takes and returns whole runs of pages. A request of less than 2^63 bytes succeeds exactly
  when the allocator has a run of pages for the bytes and the 24 bytes of the header; the block then lies
  inside pages that were free, behind a header, and no other byte of memory changes. Otherwise the result
  is 0 and nothing is taken. Freeing the block gives back exactly its pages and its share of the used
  bytes.\<close>

theorem kmalloc_kfree:
  assumes "pmm_inv (pmm m)" and "0 < unat sz" and "unat sz < 2 ^ 63" and "kmalloc sz m = (p, m')"
    and "unat (heap_used m) + unat sz < 2 ^ 63"
  shows "let n = (unat sz + 24 + 4095) div 4096; first = page_of (p - 24) in
    (p = 0 \<longleftrightarrow> \<not> (\<exists>q. {q..<q + n} \<subseteq> free_set (pmm m))) \<and>
    (p = 0 \<longrightarrow> free_set (pmm m') = free_set (pmm m) \<and> mem m' = mem m \<and> heap_used m' = heap_used m) \<and>
    (p \<noteq> 0 \<longrightarrow> page_aligned (p - 24) \<and> {first..<first + n} \<subseteq> free_set (pmm m) \<and>
       free_set (pmm m') = free_set (pmm m) - {first..<first + n} \<and>
       unat p + unat sz \<le> (first + n) * 4096 \<and>
       (\<forall>x. 24 \<le> unat (x - (p - 24)) \<longrightarrow> mem m' x = mem m x) \<and>
       free_set (pmm (kfree p m')) = free_set (pmm m) \<and> heap_used (kfree p m') = heap_used m)"
proof (cases "\<exists>q. free_run (pmm m) q (unat (kmalloc_pages sz))")
  case False
  then show ?thesis
    using kmalloc_cases [OF assms(1-4)] unat_kmalloc_pages [OF assms(3)] by (simp add: free_run_def Let_def)
next
  case True
  let ?n = "unat (kmalloc_pages sz)"
  note n = unat_kmalloc_pages [OF assms(3)]
  obtain a where a: "a \<noteq> 0" "page_aligned a" "p = a + 24" "pmm_inv (pmm m')" "free_run (pmm m) (page_of a) ?n"
    "free_set (pmm m') = free_set (pmm m) - {page_of a..<page_of a + ?n}"
    "mem m' = store64 (store64 (store64 (mem m) a KMALLOC_MAGIC) (a + 8) (kmalloc_pages sz)) (a + 16) sz"
    "heap_used m' = heap_used m + kmalloc_pages sz * PAGE_SIZE"
    using kmalloc_cases [OF assms(1-4)] True by auto
  have n1: "1 \<le> ?n" "?n * 4096 < unat sz + 24 + 4096" "unat sz + 24 \<le> ?n * 4096" using n by auto
  have last: "page_of a + ?n \<le> MAX_PAGES" using a(5) n1(1) by (simp add: free_run_iff)
  have ua: "unat a = page_of a * 4096" using a(2) by simp
  have pos: "1 \<le> page_of a" using a(1) ua by (metis One_nat_def Suc_leI gr0I mult_zero_left unat_eq_zero)
  have aq: "of_nat (page_of a) * PAGE_SIZE = a"
    using page_of_page_address [of "page_of a"] last n1(1) ua by (simp add: word_unat_eq_iff)
  have up: "unat p = unat a + 24"
    using ua last n1(1) unfolding a(3) by (subst unat_add_lem [THEN iffD1]) (simp_all add: MAX_PAGES_def)
  have pages: "unat (kmalloc_pages sz * PAGE_SIZE) = ?n * 4096"
    using n1(2) assms(3) by (simp add: unat_word_ariths)
  have used: "kmalloc_pages sz * PAGE_SIZE \<le> heap_used m'"
    using assms(5) n1(2) pages unfolding a(8) by (simp add: word_le_nat_alt unat_word_ariths(1))
  have free: "pmm_inv (fold (\<lambda>i. pmm_free_page (a + of_nat i * PAGE_SIZE)) [0..<?n] (pmm m')) \<and>
      free_set (fold (\<lambda>i. pmm_free_page (a + of_nat i * PAGE_SIZE)) [0..<?n] (pmm m')) =
      free_set (pmm m') \<union> {page_of a..<page_of a + ?n}"
    using free_run_pages [OF a(4) pos last] unfolding aq .
  have pa: "p - HEADER_BYTES = a" "p - 24 = a" using a(3) by (simp_all add: HEADER_BYTES_def)
  have nzp: "p \<noteq> 0" using up by auto
  have kf: "free_set (pmm (kfree p m')) = free_set (pmm m') \<union> {page_of a..<page_of a + ?n}"
    "heap_used (kfree p m') = heap_used m"
    using nzp pa free used a(7,8)
    by (simp_all add: kfree_def Let_def header_loads on_pmm_def poke64_def)
  have kept: "mem m' x = mem m x" if "24 \<le> unat (x - a)" for x
  proof -
    have "unat (x - (a + k)) = unat (x - a) - unat k" if "unat k \<le> 24" for k
    proof -
      have "x - (a + k) = (x - a) - k" by simp
      then show ?thesis using that \<open>24 \<le> unat (x - a)\<close> by (simp only: unat_sub word_le_nat_alt)
    qed
    moreover have "\<not> unat (x - a) < 8" "\<not> unat (x - a) - 8 < 8" "\<not> unat (x - a) - 16 < 8" using that by linarith+
    ultimately show ?thesis by (simp add: a(7) store64_def store_bytes_apply)
  qed
  show ?thesis
    using a kf kept n n1 up ua nzp pa True by (simp add: free_run_def Let_def Un_absorb2) 
qed

definition heap_sample :: machine where
  "heap_sample = \<lparr>pmm = pmm_sample, mem = \<lambda>_. 0, heap_used = 0, heap_total = 0, current_pml4 = 0,
     kernel_pml4 = 0, kernel_cr3 = 0, cr3 = 0, invalidated = [], fb_addr = 0, fb_pitch = 0, fb_w = 0,
     fb_h = 0, fb_bpp = 0, r_pos = 0, g_pos = 0, b_pos = 0, draw_buf = 0, display_buf = 0,
     fb_force_full = False\<rparr>"

theorem kmalloc_kfree_witness:
  "fst (kmalloc 100 heap_sample) \<noteq> 0 \<and>
    free_set (pmm (kfree (fst (kmalloc 100 heap_sample)) (snd (kmalloc 100 heap_sample)))) = free_set pmm_sample"
proof -
  have s: "pmm heap_sample = pmm_sample" "heap_used heap_sample = 0" by (simp_all add: heap_sample_def)
  have "free_set pmm_sample \<noteq> {}" by (simp add: pmm_sample_free_set)
  then obtain q where "q \<in> free_set pmm_sample" by blast
  then have "{q..<q + 1} \<subseteq> free_set pmm_sample" by auto
  then have "\<exists>q. {q..<q + (unat (100 :: u64) + 24 + 4095) div 4096} \<subseteq> free_set pmm_sample" by auto
  then show ?thesis
    using kmalloc_kfree [of heap_sample 100 "fst (kmalloc 100 heap_sample)" "snd (kmalloc 100 heap_sample)"] s pmm_sample_inv
    by (auto simp: Let_def)
qed

text \<open>The size computation wraps. A request within 4119 bytes of 2^64 asks the allocator for one page
  at most, so when a page is free it succeeds although the block is far smaller than the request.\<close>

theorem kmalloc_huge_request_wraps:
  assumes "2 ^ 64 - 4119 \<le> unat sz"
  shows "unat (kmalloc_pages sz) \<le> 1"
proof -
  have "kmalloc_pages sz = (sz + 4119) div PAGE_SIZE" by (simp add: kmalloc_pages_def HEADER_BYTES_def add.commute)
  moreover have "unat (sz + 4119) < 4119"
  proof -
    have "unat (sz + 4119) = (unat sz + 4119) mod 2 ^ 64" by (simp add: unat_word_ariths)
    also have "\<dots> = unat sz + 4119 - 2 ^ 64"
      using assms unat_less_u64 [of sz] by (subst mod_if) (simp add: le_mod_geq)
    finally show ?thesis using unat_less_u64 [of sz] by linarith
  qed
  ultimately show ?thesis by (simp add: unat_div)
qed

theorem kmalloc_huge_request_wraps_witness: "unat (kmalloc_pages (- 1)) \<le> 1"
  by (rule kmalloc_huge_request_wraps) (simp add: unsigned_minus_1_eq_mask mask_eq_exp_minus_1)

end
