(* ===== verification/Fs.thy ===== *)
theory Fs
  imports Libc
begin

text \<open>
  NanoFS, \<open>src/fs/fs.c\<close>: a superblock in sector 0, 72 inodes of 54 bytes, nine to a sector, in
  sectors 1 to 8, and data sectors from 9 on, 511 bytes of a file to a sector. The disk is what
  the driver offers (\<open>ata_read_sector\<close>, \<open>ata_write_sector\<close>): 512-byte sectors under 28-bit block
  addresses, each access with a status code; a read that fails leaves the caller's buffer as it
  was, which for the stack buffers of this file is whatever the stack held (\<open>stale\<close>). Pointer
  arguments the code checks for null are options. Strings are lists of bytes (theory \<open>Libc\<close>).
\<close>

unbundle bit_operations_syntax

section \<open>The disk\<close>

record disk =
  sectors :: "u32 \<Rightarrow> u8 list"
  read_status :: "u32 \<Rightarrow> int"
  write_status :: "u32 \<Rightarrow> int"
  stale :: "u8 list"

definition lba28 :: "u32 \<Rightarrow> u32" where
  "lba28 lba = lba AND 0x0FFFFFFF"

definition disk_read :: "u32 \<Rightarrow> disk \<Rightarrow> int \<times> u8 list" where
  "disk_read lba d =
     (if read_status d (lba28 lba) \<noteq> 0 then (read_status d (lba28 lba), stale d)
      else (0, sectors d (lba28 lba)))"

definition disk_write :: "u32 \<Rightarrow> u8 list \<Rightarrow> disk \<Rightarrow> int \<times> disk" where
  "disk_write lba buffer d =
     (if write_status d (lba28 lba) \<noteq> 0 then (write_status d (lba28 lba), d)
      else (0, d\<lparr>sectors := (sectors d)(lba28 lba := buffer)\<rparr>))"

section \<open>On-disk structures\<close>

definition FS_MAGIC :: "u8 list" where "FS_MAGIC = [78, 65, 78, 79, 70, 83, 50]"
definition FS_VERSION :: u32 where "FS_VERSION = 2"
definition FS_MAX_INODES :: nat where "FS_MAX_INODES = 72"
definition FS_INODE_TABLE_START :: u32 where "FS_INODE_TABLE_START = 1"
definition FS_INODE_TABLE_SECTORS :: nat where "FS_INODE_TABLE_SECTORS = 8"
definition FS_DATA_START :: u32 where "FS_DATA_START = 9"
definition FS_MAX_BLOCKS :: nat where "FS_MAX_BLOCKS = 4"
definition FS_NAME_MAX :: nat where "FS_NAME_MAX = 28"

record fs_inode =
  node_name :: "u8 list"
  node_parent :: u32
  node_blocks :: "u32 list"
  node_size :: u32
  node_is_directory :: u8
  node_pad :: u8

definition INODE_BYTES :: nat where "INODE_BYTES = 54"

definition INODES_PER_SECTOR :: nat where "INODES_PER_SECTOR = 512 div INODE_BYTES"

text \<open>The packed layout of \<open>fs_inode_t\<close>.\<close>

definition encode_inode :: "fs_inode \<Rightarrow> u8 list" where
  "encode_inode node =
     node_name node @ le_bytes 4 (node_parent node) @ concat (map (le_bytes 4) (node_blocks node)) @
     le_bytes 4 (node_size node) @ [node_is_directory node, node_pad node]"

definition decode_inode :: "u8 list \<Rightarrow> fs_inode" where
  "decode_inode bs =
     \<lparr>node_name = take 28 bs, node_parent = le_word (take 4 (drop 28 bs)),
      node_blocks = map (\<lambda>i. le_word (take 4 (drop (32 + 4 * i) bs))) [0..<4],
      node_size = le_word (take 4 (drop 48 bs)), node_is_directory = bs ! 52, node_pad = bs ! 53\<rparr>"

record fs_superblock =
  sb_magic :: "u8 list"
  sb_version :: u32
  sb_total_sectors :: u32
  sb_inode_count :: u32

definition encode_superblock :: "fs_superblock \<Rightarrow> u8 list" where
  "encode_superblock sb =
     sb_magic sb @ le_bytes 4 (sb_version sb) @ le_bytes 4 (sb_total_sectors sb) @ le_bytes 4 (sb_inode_count sb)"

definition decode_superblock :: "u8 list \<Rightarrow> fs_superblock" where
  "decode_superblock bs =
     \<lparr>sb_magic = take 8 bs, sb_version = le_word (take 4 (drop 8 bs)),
      sb_total_sectors = le_word (take 4 (drop 12 bs)), sb_inode_count = le_word (take 4 (drop 16 bs))\<rparr>"

section \<open>State\<close>

record nanofs =
  disk :: disk
  current_dir :: u32
  mounted_total_sectors :: u32

definition fs_initial :: "disk \<Rightarrow> nanofs" where
  "fs_initial d = \<lparr>disk = d, current_dir = 0, mounted_total_sectors = 131072\<rparr>"

section \<open>The inode table\<close>

definition inode_sector :: "u32 \<Rightarrow> u32" where
  "inode_sector ino = FS_INODE_TABLE_START + (ino - 1) div of_nat INODES_PER_SECTOR"

definition inode_slot :: "u32 \<Rightarrow> nat" where
  "inode_slot ino = unat ((ino - 1) mod of_nat INODES_PER_SECTOR)"

definition inode_read :: "u32 \<Rightarrow> nanofs \<Rightarrow> fs_inode" where
  "inode_read ino s =
     (if ino = 0 \<or> ino > of_nat FS_MAX_INODES then decode_inode (replicate INODE_BYTES 0)
      else
        (let buffer = snd (disk_read (inode_sector ino) (disk s)) in
         decode_inode (take INODE_BYTES (drop (inode_slot ino * INODE_BYTES) buffer))))"

definition inode_write :: "u32 \<Rightarrow> fs_inode \<Rightarrow> nanofs \<Rightarrow> nanofs" where
  "inode_write ino node s =
     (if ino = 0 \<or> ino > of_nat FS_MAX_INODES then s
      else
        (let buffer = snd (disk_read (inode_sector ino) (disk s));
             offset = inode_slot ino * INODE_BYTES;
             buffer = take offset buffer @ encode_inode node @ drop (offset + INODE_BYTES) buffer
         in s\<lparr>disk := snd (disk_write (inode_sector ino) buffer (disk s))\<rparr>))"

definition name_free :: "fs_inode \<Rightarrow> bool" where
  "name_free node \<longleftrightarrow> node_name node ! 0 = 0"

definition found :: "nat option \<Rightarrow> u32" where
  "found r = (case r of Some ino \<Rightarrow> of_nat ino | None \<Rightarrow> 0)"

definition inode_alloc :: "nanofs \<Rightarrow> u32" where
  "inode_alloc s =
     found (first_index (\<lambda>ino. name_free (inode_read (of_nat ino) s)) 1 (FS_MAX_INODES + 1))"

definition block_alloc :: "nanofs \<Rightarrow> u32" where
  "block_alloc s =
     fold (\<lambda>ino highest.
       let node = inode_read (of_nat ino) s in
       if name_free node then highest
       else fold (\<lambda>b highest. if node_blocks node ! b > highest then node_blocks node ! b else highest)
              [0..<FS_MAX_BLOCKS] highest)
       [1..<FS_MAX_INODES + 1] (FS_DATA_START - 1) + 1"

definition lookup :: "u8 list \<Rightarrow> u32 \<Rightarrow> nanofs \<Rightarrow> u32" where
  "lookup name parent_dir s =
     found (first_index (\<lambda>ino.
       let node = inode_read (of_nat ino) s in
       \<not> name_free node \<and> node_parent node = parent_dir \<and> strcmp (node_name node) name = 0)
       1 (FS_MAX_INODES + 1))"

section \<open>Formatting and mounting\<close>

definition fs_format :: "nanofs \<Rightarrow> nanofs" where
  "fs_format s =
     (let sb = \<lparr>sb_magic = (strncpy FS_MAGIC 8)[7 := 0], sb_version = FS_VERSION,
                sb_total_sectors = 131072, sb_inode_count = 0\<rparr>;
          d = snd (disk_write 0 (encode_superblock sb @ replicate 492 0) (disk s));
          d = fold (\<lambda>i d. snd (disk_write (FS_INODE_TABLE_START + of_nat i) (replicate 512 0) d))
                [0..<FS_INODE_TABLE_SECTORS] d
      in s\<lparr>disk := d, current_dir := 0, mounted_total_sectors := sb_total_sectors sb\<rparr>)"

definition fs_mount :: "nanofs \<Rightarrow> int \<times> nanofs" where
  "fs_mount s =
     (let (rc, sector) = disk_read 0 (disk s) in
      if rc \<noteq> 0 then (0, s)
      else
        (let sb = decode_superblock sector in
         if strcmp (sb_magic sb) FS_MAGIC \<noteq> 0 then (0, s)
         else if sb_version sb \<noteq> FS_VERSION then (0, s)
         else (1, s\<lparr>current_dir := 0, mounted_total_sectors := sb_total_sectors sb\<rparr>)))"

section \<open>Files\<close>

definition zero_inode :: fs_inode where
  "zero_inode = decode_inode (replicate INODE_BYTES 0)"

text \<open>\<open>strncpy(node.name, name, FS_NAME_MAX); node.name[FS_NAME_MAX - 1] = 0\<close>\<close>

definition set_name :: "u8 list \<Rightarrow> fs_inode \<Rightarrow> fs_inode" where
  "set_name name node = node\<lparr>node_name := (strncpy name FS_NAME_MAX)[FS_NAME_MAX - 1 := 0]\<rparr>"

definition fs_create :: "u8 list option \<Rightarrow> nanofs \<Rightarrow> int \<times> nanofs" where
  "fs_create name s =
     (case name of None \<Rightarrow> (-1, s)
      | Some name \<Rightarrow>
          if lookup name (current_dir s) s \<noteq> 0 then (-1, s)
          else
            (let ino = inode_alloc s in
             if ino = 0 then (-2, s)
             else
               (let node = (set_name name zero_inode)\<lparr>node_parent := current_dir s, node_is_directory := 0, node_size := 0\<rparr>;
                    node = node\<lparr>node_blocks := (node_blocks node)[0 := block_alloc s]\<rparr>
                in (0, inode_write ino node s))))"

text \<open>
  The allocation loop: every block index below \<open>needed\<close> that is still 0 gets a block. It sees the
  inodes on the disk, not the one it is filling.
\<close>

definition fill_blocks :: "nat \<Rightarrow> nanofs \<Rightarrow> fs_inode \<Rightarrow> fs_inode" where
  "fill_blocks needed s node =
     fold (\<lambda>b node. if node_blocks node ! b = 0
             then node\<lparr>node_blocks := (node_blocks node)[b := block_alloc s]\<rparr> else node)
       [0..<needed] node"

definition sector_chunk :: "u8 list \<Rightarrow> nat \<Rightarrow> nat \<Rightarrow> u8 list" where
  "sector_chunk data written chunk =
     map (\<lambda>j. cchar data (written + j)) [0..<chunk] @ replicate (512 - chunk) 0"

fun write_text_loop :: "u32 list \<Rightarrow> u8 list \<Rightarrow> nat \<Rightarrow> nat \<Rightarrow> disk \<Rightarrow> disk" where
  "write_text_loop [] data len written d = d"
| "write_text_loop (blk # blks) data len written d =
     (if written < len then
        (let chunk = min (len - written) 511;
             d = snd (disk_write blk (sector_chunk data written chunk) d)
         in write_text_loop blks data len (written + chunk) d)
      else d)"

fun write_binary_loop :: "u32 list \<Rightarrow> u8 list \<Rightarrow> nat \<Rightarrow> nat \<Rightarrow> disk \<Rightarrow> disk" where
  "write_binary_loop [] data sz written d = d"
| "write_binary_loop (blk # blks) data sz written d =
     (let chunk = min (sz - written) 511;
          d = snd (disk_write blk (sector_chunk data written chunk) d);
          written = written + chunk
      in if written \<ge> sz then d else write_binary_loop blks data sz written d)"

definition max_size :: u32 where
  "max_size = of_nat FS_MAX_BLOCKS * 511"

definition fs_write :: "u8 list option \<Rightarrow> u8 list option \<Rightarrow> nanofs \<Rightarrow> int \<times> nanofs" where
  "fs_write name data s =
     (case (name, data) of
        (Some name, Some text) \<Rightarrow>
          (let ino = lookup name (current_dir s) s in
           if ino = 0 then (-1, s)
           else
             (let node = inode_read ino s in
              if node_is_directory node \<noteq> 0 then (-2, s)
              else
                (let len = of_nat (strlen text) :: u32;
                     len = (if len > max_size then max_size else len);
                     blocks_needed = (len + 510) div 511;
                     blocks_needed = unat (if blocks_needed < 1 then 1 else blocks_needed);
                     node = fill_blocks blocks_needed s node;
                     d = write_text_loop (take blocks_needed (node_blocks node)) text (unat len) 0 (disk s)
                 in (0, inode_write ino (node\<lparr>node_size := len\<rparr>) (s\<lparr>disk := d\<rparr>)))))
      | _ \<Rightarrow> (-1, s))"

definition fs_write_binary :: "u8 list option \<Rightarrow> u8 list option \<Rightarrow> u32 \<Rightarrow> nanofs \<Rightarrow> int \<times> nanofs" where
  "fs_write_binary name data sz s =
     (case (name, data) of
        (Some name, Some data) \<Rightarrow>
          (let ino = lookup name (current_dir s) s in
           if ino = 0 then (-1, s)
           else
             (let node = inode_read ino s in
              if node_is_directory node \<noteq> 0 then (-2, s)
              else if sz > max_size then (-3, s)
              else
                (let blocks_needed = (sz + 510) div 511;
                     blocks_needed = unat (if blocks_needed = 0 then 1 else blocks_needed);
                     node = fill_blocks blocks_needed s node;
                     d = write_binary_loop (take blocks_needed (node_blocks node)) data (unat sz) 0 (disk s)
                 in (0, inode_write ino (node\<lparr>node_size := sz\<rparr>) (s\<lparr>disk := d\<rparr>)))))
      | _ \<Rightarrow> (-1, s))"

fun read_loop :: "u32 list \<Rightarrow> nat \<Rightarrow> nat \<Rightarrow> disk \<Rightarrow> u8 list \<Rightarrow> nat \<times> u8 list" where
  "read_loop [] pos to_read d buffer = (pos, buffer)"
| "read_loop (blk # blks) pos to_read d buffer =
     (if pos < to_read then
        (if blk = 0 then (pos, buffer)
         else
           (let sector = snd (disk_read blk d);
                chunk = min (to_read - pos) 511;
                buffer = fold (\<lambda>j buffer. buffer[pos + j := sector ! j]) [0..<chunk] buffer
            in read_loop blks (pos + chunk) to_read d buffer))
      else (pos, buffer))"

definition fs_read :: "u8 list option \<Rightarrow> u8 list option \<Rightarrow> u32 \<Rightarrow> nanofs \<Rightarrow> int \<times> u8 list option" where
  "fs_read name buffer buf_size s =
     (case (name, buffer) of
        (Some name, Some buf) \<Rightarrow>
          (let ino = lookup name (current_dir s) s in
           if ino = 0 then (-1, buffer)
           else
             (let node = inode_read ino s in
              if node_is_directory node \<noteq> 0 then (-2, buffer)
              else
                (let to_read = (if node_size node > buf_size then buf_size else node_size node);
                     (pos, buf) = read_loop (node_blocks node) 0 (unat to_read) (disk s) buf
                 in (int pos, Some buf))))
      | _ \<Rightarrow> (-1, buffer))"

text \<open>\<open>scratch\<close> is what the uninitialised 2048-byte stack array holds on entry.\<close>

definition fs_append :: "u8 list \<Rightarrow> u8 list option \<Rightarrow> u8 list option \<Rightarrow> nanofs \<Rightarrow> int \<times> nanofs" where
  "fs_append scratch name data s =
     (case (name, data) of
        (Some nm, Some text) \<Rightarrow>
          (let ino = lookup nm (current_dir s) s in
           if ino = 0 then (-1, s)
           else
             (let node = inode_read ino s in
              if node_is_directory node \<noteq> 0 then (-2, s)
              else
                (let extra = of_nat (strlen text);
                     new_size = node_size node + extra;
                     new_size = (if new_size > max_size then max_size else new_size);
                     extra = new_size - node_size node in
                 if extra = 0 then (0, s)
                 else
                   (let scratch = snd (read_loop (node_blocks node) 0 (unat (node_size node)) (disk s) scratch);
                        scratch = fold (\<lambda>i scratch. scratch[unat (node_size node) + i := cchar text i])
                                    [0..<unat extra] scratch
                    in fs_write_binary name (Some scratch) new_size s))))
      | _ \<Rightarrow> (-1, s))"

section \<open>Directory entries\<close>

definition fs_delete :: "u8 list \<Rightarrow> nanofs \<Rightarrow> int \<times> nanofs" where
  "fs_delete name s =
     (let ino = lookup name (current_dir s) s in
      if ino = 0 then (-1, s) else (0, inode_write ino zero_inode s))"

definition fs_rename :: "u8 list \<Rightarrow> u8 list \<Rightarrow> nanofs \<Rightarrow> int \<times> nanofs" where
  "fs_rename old_name new_name s =
     (let ino = lookup old_name (current_dir s) s in
      if ino = 0 then (-1, s)
      else if lookup new_name (current_dir s) s \<noteq> 0 then (-2, s)
      else (0, inode_write ino (set_name new_name (inode_read ino s)) s))"

definition fs_mkdir :: "u8 list \<Rightarrow> nanofs \<Rightarrow> int \<times> nanofs" where
  "fs_mkdir name s =
     (if lookup name (current_dir s) s \<noteq> 0 then (-1, s)
      else
        (let ino = inode_alloc s in
         if ino = 0 then (-2, s)
         else
           (let node = (set_name name zero_inode)\<lparr>node_parent := current_dir s, node_is_directory := 1, node_size := 0\<rparr>
            in (0, inode_write ino node s))))"

definition fs_change_dir :: "u8 list \<Rightarrow> nanofs \<Rightarrow> int \<times> nanofs" where
  "fs_change_dir name s =
     (if cchar name 0 = 47 \<and> cchar name 1 = 0 then (0, s\<lparr>current_dir := 0\<rparr>)
      else if cchar name 0 = 46 \<and> cchar name 1 = 46 \<and> cchar name 2 = 0 then
        (if current_dir s \<noteq> 0 then (0, s\<lparr>current_dir := node_parent (inode_read (current_dir s) s)\<rparr>) else (0, s))
      else if cchar name 0 = 46 \<and> cchar name 1 = 0 then (0, s)
      else
        (let ino = lookup name (current_dir s) s in
         if ino = 0 then (-1, s)
         else if node_is_directory (inode_read ino s) = 0 then (-2, s)
         else (0, s\<lparr>current_dir := ino\<rparr>)))"

text \<open>The entries \<open>fs_list\<close> stores in \<open>out\<close>; it returns how many there are.\<close>

fun list_loop :: "nat list \<Rightarrow> int \<Rightarrow> nanofs \<Rightarrow> fs_inode list \<Rightarrow> fs_inode list" where
  "list_loop [] max_out s out = out"
| "list_loop (ino # ids) max_out s out =
     (if int (length out) < max_out then
        (let node = inode_read (of_nat ino) s in
         if name_free node then list_loop ids max_out s out
         else if node_parent node \<noteq> current_dir s then list_loop ids max_out s out
         else list_loop ids max_out s (out @ [node]))
      else out)"

definition fs_list :: "int \<Rightarrow> nanofs \<Rightarrow> fs_inode list" where
  "fs_list max_out s = list_loop [1..<FS_MAX_INODES + 1] max_out s []"

definition fs_stat :: "u8 list \<Rightarrow> fs_inode option \<Rightarrow> nanofs \<Rightarrow> int \<times> fs_inode option" where
  "fs_stat name out s =
     (if out = None then (-1, None)
      else
        (let ino = lookup name (current_dir s) s in
         if ino = 0 then (-1, out) else (0, Some (inode_read ino s))))"

text \<open>
  The walk up to the root. \<open>None\<close> is a walk that never ends (a cycle of parents); \<open>Some None\<close> is
  a path of more than 255 bytes, for which the code writes in front of its buffer.
\<close>

partial_function (option) pwd_loop :: "nanofs \<Rightarrow> u32 \<Rightarrow> u8 list \<Rightarrow> u8 list option option" where
  "pwd_loop s dir path =
     (if dir \<noteq> 0 then
        (let node = inode_read dir s;
             name = take (strlen (node_name node)) (node_name node) in
         if length path + length name + 1 > 255 then Some None
         else pwd_loop s (node_parent node) (47 # name @ path))
      else Some (Some path))"

definition fs_get_pwd :: "nanofs \<Rightarrow> u8 list option option" where
  "fs_get_pwd s =
     (if current_dir s = 0 then Some (Some [47])
      else map_option (map_option (\<lambda>path. (strncpy path 256)[255 := 0])) (pwd_loop s (current_dir s) []))"

definition fs_disk_stats :: "nanofs \<Rightarrow> u32 \<times> u32" where
  "fs_disk_stats s =
     (fold (\<lambda>ino used.
        let node = inode_read (of_nat ino) s in
        if name_free node then used
        else fold (\<lambda>b used. if node_blocks node ! b \<ge> used then node_blocks node ! b + 1 else used)
               [0..<FS_MAX_BLOCKS] used)
        [1..<FS_MAX_INODES + 1] FS_DATA_START,
      mounted_total_sectors s)"

end
