(* ===== verification/Fs_Table.thy ===== *)
theory Fs_Table
  imports Fs
begin

text \<open>
  The inode table of NanoFS as an array: the contract of a store of inodes (locale \<open>inode_store\<close>),
  its interpretation on \<open>inode_read\<close> and \<open>inode_write\<close>, and what \<open>lookup\<close>, \<open>inode_alloc\<close> and
  \<open>block_alloc\<close> compute on it.
\<close>

unbundle bit_operations_syntax

section \<open>A store of inodes\<close>

locale inode_store =
  fixes rd :: "'i \<Rightarrow> 's \<Rightarrow> 'n"
    and wr :: "'i \<Rightarrow> 'n \<Rightarrow> 's \<Rightarrow> 's"
    and ok :: "'s \<Rightarrow> bool"
    and valid :: "'n \<Rightarrow> bool"
    and ids :: "'i set"
  assumes wr_ok: "ok s \<Longrightarrow> valid n \<Longrightarrow> i \<in> ids \<Longrightarrow> ok (wr i n s)"
    and rd_wr: "ok s \<Longrightarrow> valid n \<Longrightarrow> i \<in> ids \<Longrightarrow> j \<in> ids \<Longrightarrow> rd j (wr i n s) = (if j = i then n else rd j s)"
    and rd_valid: "ok s \<Longrightarrow> i \<in> ids \<Longrightarrow> valid (rd i s)"
begin

definition every :: "('n \<Rightarrow> bool) \<Rightarrow> 's \<Rightarrow> bool" where
  "every P s \<longleftrightarrow> (\<forall>i\<in>ids. P (rd i s))"

definition pairwise_rel :: "('n \<Rightarrow> 'n \<Rightarrow> bool) \<Rightarrow> 's \<Rightarrow> bool" where
  "pairwise_rel R s \<longleftrightarrow> (\<forall>i\<in>ids. \<forall>j\<in>ids. i \<noteq> j \<longrightarrow> R (rd i s) (rd j s))"

lemma every_wr:
  "ok s \<Longrightarrow> valid n \<Longrightarrow> i \<in> ids \<Longrightarrow> every P s \<Longrightarrow> P n \<Longrightarrow> every P (wr i n s)"
  by (simp add: every_def rd_wr)

lemma pairwise_wr:
  assumes "ok s" "valid n" "i \<in> ids" "pairwise_rel R s"
    and "\<And>j. j \<in> ids \<Longrightarrow> j \<noteq> i \<Longrightarrow> R n (rd j s) \<and> R (rd j s) n"
  shows "pairwise_rel R (wr i n s)"
  using assms unfolding pairwise_rel_def by (simp add: rd_wr)

lemma wr_wr:
  "ok s \<Longrightarrow> valid n \<Longrightarrow> valid n' \<Longrightarrow> i \<in> ids \<Longrightarrow> j \<in> ids \<Longrightarrow>
    rd j (wr i n' (wr i n s)) = rd j (wr i n' s)"
  by (simp add: rd_wr wr_ok)

end

section \<open>Inodes and their bytes\<close>

definition inode_ok :: "fs_inode \<Rightarrow> bool" where
  "inode_ok node \<longleftrightarrow> length (node_name node) = 28 \<and> length (node_blocks node) = 4"

lemma list_of_4: "length xs = 4 \<longleftrightarrow> (\<exists>a b c d. xs = [a, b, c, d])"
  by (auto simp: length_Suc_conv eval_nat_numeral)

lemma length_encode_inode: "inode_ok node \<Longrightarrow> length (encode_inode node) = 54"
  by (auto simp: encode_inode_def inode_ok_def list_of_4)

lemma upt_4: "[0..<4] = [0, 1, 2, 3 :: nat]"
  by (simp add: upt_rec)

lemma decode_encode_inode: "inode_ok node \<Longrightarrow> decode_inode (encode_inode node) = node"
  by (cases node) (auto simp: encode_inode_def decode_inode_def inode_ok_def list_of_4 upt_4 nth_append)

lemma inode_ok_decode: "28 \<le> length bs \<Longrightarrow> inode_ok (decode_inode bs)"
  by (simp add: inode_ok_def decode_inode_def)

lemma le_bytes_le_word_u32: "length bs = 4 \<Longrightarrow> le_bytes 4 (le_word bs :: u32) = bs"
  using le_bytes_le_word [of bs, where 'a = 32] by simp

lemma take_split: "take n (drop k xs) @ drop (n + k) xs = drop k xs"
  by (metis append_take_drop_id drop_drop)

lemma encode_decode_inode:
  assumes "length bs = 54"
  shows "encode_inode (decode_inode bs) = bs"
proof -
  have 1: "le_bytes 4 (le_word (take 4 (drop k bs)) :: u32) = take 4 (drop k bs)" if "k \<le> 50" for k
    by (rule le_bytes_le_word_u32) (use assms that in simp)
  have 2: "[bs ! 52, bs ! 53] = drop 52 bs"
    using assms by (simp add: list_eq_iff_nth_eq less_Suc_eq eval_nat_numeral nth_Cons split: nat.splits)
  show ?thesis
    unfolding encode_inode_def decode_inode_def
    by (simp add: upt_4 1 2 take_split [of 4 48, simplified] take_split [of 4 44, simplified]
        take_split [of 4 40, simplified] take_split [of 4 36, simplified] take_split [of 4 32, simplified]
        take_split [of 4 28, simplified])
qed

section \<open>The table on the disk\<close>

definition disk_ok :: "disk \<Rightarrow> bool" where
  "disk_ok d \<longleftrightarrow> (\<forall>lba. read_status d lba = 0 \<and> write_status d lba = 0 \<and> length (sectors d lba) = 512)"

definition inode_ids :: "u32 set" where
  "inode_ids = {i. 0 < i \<and> i \<le> 72}"

lemma inode_ids_iff: "i \<in> inode_ids \<longleftrightarrow> 1 \<le> unat i \<and> unat i \<le> 72"
  by (auto simp: inode_ids_def word_less_nat_alt word_le_nat_alt)

lemma INODES_PER_SECTOR_9: "INODES_PER_SECTOR = 9"
  by (simp add: INODES_PER_SECTOR_def INODE_BYTES_def)

lemma lba28_small: "unat b < 2 ^ 28 \<Longrightarrow> lba28 b = b"
proof -
  assume small: "unat b < 2 ^ 28"
  have "lba28 b = take_bit 28 b" by (simp add: lba28_def take_bit_eq_mask mask_eq_exp_minus_1)
  then show ?thesis using small by (simp add: word_unat_eq_iff unsigned_take_bit_eq take_bit_nat_eq_self)
qed

lemma unat_minus_1: "i \<in> inode_ids \<Longrightarrow> unat (i - 1) = unat i - 1"
  by (simp add: inode_ids_iff unat_sub word_le_nat_alt)

lemma unat_inode_sector: "i \<in> inode_ids \<Longrightarrow> unat (inode_sector i) = 1 + (unat i - 1) div 9"
proof -
  assume i: "i \<in> inode_ids"
  then have "unat ((i - 1) div 9) = (unat i - 1) div 9"
    by (simp add: unat_div unat_minus_1)
  moreover have "(unat i - 1) div 9 < 8" using i unfolding inode_ids_iff by linarith
  ultimately show ?thesis
    unfolding inode_sector_def FS_INODE_TABLE_START_def INODES_PER_SECTOR_9
    by (simp add: unat_word_ariths)
qed

lemma inode_slot_eq: "i \<in> inode_ids \<Longrightarrow> inode_slot i = (unat i - 1) mod 9"
  by (simp add: inode_slot_def INODES_PER_SECTOR_9 unat_mod unat_minus_1)

lemma inode_sector_bounds: "i \<in> inode_ids \<Longrightarrow> 1 \<le> unat (inode_sector i) \<and> unat (inode_sector i) \<le> 8"
  unfolding unat_inode_sector unfolding inode_ids_iff by linarith

lemma lba28_inode_sector: "i \<in> inode_ids \<Longrightarrow> lba28 (inode_sector i) = inode_sector i"
  using inode_sector_bounds [of i] by (intro lba28_small) simp

lemma inode_place_inj:
  assumes "i \<in> inode_ids" "j \<in> inode_ids" "inode_sector i = inode_sector j" "inode_slot i = inode_slot j"
  shows "i = j"
proof -
  have "(unat i - 1) div 9 = (unat j - 1) div 9" "(unat i - 1) mod 9 = (unat j - 1) mod 9"
    using assms by (simp_all add: word_unat_eq_iff unat_inode_sector inode_slot_eq)
  then have "unat i - 1 = unat j - 1" by (metis div_mult_mod_eq)
  then show ?thesis using assms(1,2) unfolding inode_ids_iff word_unat_eq_iff by linarith
qed

lemma not_id_guard: "i \<in> inode_ids \<Longrightarrow> \<not> (i = 0 \<or> i > of_nat FS_MAX_INODES)"
  by (auto simp: inode_ids_def FS_MAX_INODES_def)

lemma inode_read_ok:
  assumes "disk_ok (disk s)" "i \<in> inode_ids"
  shows "inode_read i s = decode_inode (take 54 (drop (inode_slot i * 54) (sectors (disk s) (inode_sector i))))"
  using assms not_id_guard [OF assms(2)]
  by (simp add: inode_read_def disk_read_def disk_ok_def lba28_inode_sector INODE_BYTES_def)

lemma slot_fits: "i \<in> inode_ids \<Longrightarrow> inode_slot i * 54 + 54 \<le> 512"
proof -
  assume "i \<in> inode_ids"
  then have "inode_slot i \<le> 8" using inode_slot_eq [of i] by simp
  then show ?thesis by simp
qed

lemma inode_read_valid: "disk_ok (disk s) \<Longrightarrow> i \<in> inode_ids \<Longrightarrow> inode_ok (inode_read i s)"
  using slot_fits [of i] by (auto simp: inode_read_ok disk_ok_def intro!: inode_ok_decode)

lemma inode_write_sector:
  assumes "disk_ok (disk s)" "i \<in> inode_ids" "inode_ok node"
  shows "inode_write i node s =
    s\<lparr>disk := (disk s)\<lparr>sectors := (sectors (disk s))(inode_sector i :=
       (let buffer = sectors (disk s) (inode_sector i) in
        take (inode_slot i * 54) buffer @ encode_inode node @ drop (inode_slot i * 54 + 54) buffer))\<rparr>\<rparr>"
  using assms not_id_guard [OF assms(2)]
  by (simp add: inode_write_def disk_read_def disk_write_def disk_ok_def lba28_inode_sector INODE_BYTES_def Let_def)

lemma disk_ok_upd: "disk_ok d \<Longrightarrow> length bs = 512 \<Longrightarrow> disk_ok (d\<lparr>sectors := (sectors d)(a := bs)\<rparr>)"
  by (simp add: disk_ok_def)

lemma inode_write_ok:
  "disk_ok (disk s) \<Longrightarrow> inode_ok node \<Longrightarrow> i \<in> inode_ids \<Longrightarrow> disk_ok (disk (inode_write i node s))"
  using slot_fits [of i]
  by (auto simp: inode_write_sector Let_def length_encode_inode disk_ok_def)

lemma take_drop_replaced:
  assumes "length e = n" "k * n + n \<le> length xs" "l * n + n \<le> length xs"
  shows "take n (drop (l * n) (take (k * n) xs @ e @ drop (k * n + n) xs)) =
    (if l = k then e else take n (drop (l * n) xs))"
proof (cases l k rule: linorder_cases)
  case less
  then have "Suc l * n \<le> k * n" by (intro mult_le_mono1) simp
  then have "l * n + n \<le> k * n" by simp
  then have "n \<le> length (drop (l * n) (take (k * n) xs))" using assms by simp
  then have "take n (drop (l * n) (take (k * n) xs @ e @ drop (k * n + n) xs)) =
      take n (drop (l * n) (take (k * n) xs))"
    by simp
  also have "\<dots> = take n (drop (l * n) xs)"
    using \<open>l * n + n \<le> k * n\<close> by (simp add: drop_take min_def)
  finally show ?thesis using less by simp
next
  case equal
  then show ?thesis using assms by simp
next
  case greater
  then have "Suc k * n \<le> l * n" by (intro mult_le_mono1) simp
  then obtain r where "l * n = k * n + n + r" by (metis le_iff_add mult_Suc add.commute)
  then show ?thesis using greater assms by (simp add: ac_simps)
qed

lemma inode_read_write:
  assumes "disk_ok (disk s)" "inode_ok node" "i \<in> inode_ids" "j \<in> inode_ids"
  shows "inode_read j (inode_write i node s) = (if j = i then node else inode_read j s)"
proof -
  have len: "length (sectors (disk s) (inode_sector i)) = 512" using assms(1) by (simp add: disk_ok_def)
  note r = inode_read_ok [OF inode_write_ok [OF assms(1-3)] assms(4)]
  show ?thesis
  proof (cases "inode_sector j = inode_sector i")
    case True
    then have same: "inode_slot j = inode_slot i \<longleftrightarrow> j = i" using inode_place_inj [OF assms(4,3)] by auto
    have "sectors (disk (inode_write i node s)) (inode_sector j) =
        take (inode_slot i * 54) (sectors (disk s) (inode_sector i)) @ encode_inode node @
        drop (inode_slot i * 54 + 54) (sectors (disk s) (inode_sector i))"
      using True assms by (simp add: inode_write_sector Let_def)
    then have "inode_read j (inode_write i node s) =
        decode_inode (if inode_slot j = inode_slot i then encode_inode node
          else take 54 (drop (inode_slot j * 54) (sectors (disk s) (inode_sector j))))"
      unfolding r using take_drop_replaced [of "encode_inode node" 54 "inode_slot i"
          "sectors (disk s) (inode_sector i)" "inode_slot j"] slot_fits [of i] slot_fits [of j] assms True
      by (simp only: length_encode_inode len)
    then show ?thesis
      using assms True by (simp add: same decode_encode_inode inode_read_ok)
  next
    case False
    then show ?thesis
      unfolding r using assms by (auto simp: inode_write_sector inode_read_ok)
  qed
qed

interpretation itab: inode_store inode_read inode_write "\<lambda>s. disk_ok (disk s)" inode_ok inode_ids
  by unfold_locales (auto simp: inode_write_ok inode_read_write inode_read_valid)

section \<open>The searches\<close>

abbreviation live :: "fs_inode \<Rightarrow> bool" where
  "live node \<equiv> \<not> name_free node"

definition matches :: "u8 list \<Rightarrow> u32 \<Rightarrow> fs_inode \<Rightarrow> bool" where
  "matches name dir node \<longleftrightarrow> live node \<and> node_parent node = dir \<and> cstr (node_name node) = cstr name"

lemma id_of_nat: "1 \<le> k \<Longrightarrow> k < 73 \<Longrightarrow> (of_nat k :: u32) \<in> inode_ids \<and> unat (of_nat k :: u32) = k"
  by (simp add: inode_ids_iff unat_of_nat)

lemma found_none:
  "found (first_index (\<lambda>k. P (of_nat k :: u32)) 1 (FS_MAX_INODES + 1)) = 0 \<longleftrightarrow> (\<forall>i\<in>inode_ids. \<not> P i)"
proof (cases "first_index (\<lambda>k. P (of_nat k :: u32)) 1 (FS_MAX_INODES + 1)")
  case None
  then have none: "\<not> P (of_nat k)" if "1 \<le> k" "k < 73" for k
    using that by (simp add: first_index_None FS_MAX_INODES_def)
  have "\<not> P i" if "i \<in> inode_ids" for i
    using none [of "unat i"] that by (simp add: inode_ids_iff)
  with None show ?thesis by (simp add: found_def)
next
  case (Some k)
  then have k: "1 \<le> k" "k < 73" "P (of_nat k)" by (auto simp: first_index_Some FS_MAX_INODES_def)
  then have "(of_nat k :: u32) \<noteq> 0" using id_of_nat [of k] by (auto simp: inode_ids_def)
  with Some k id_of_nat [of k] show ?thesis by (auto simp: found_def)
qed

lemma found_some:
  assumes "found (first_index (\<lambda>k. P (of_nat k :: u32)) 1 (FS_MAX_INODES + 1)) = i" and "i \<noteq> 0"
  shows "i \<in> inode_ids \<and> P i \<and> (\<forall>j\<in>inode_ids. j < i \<longrightarrow> \<not> P j)"
proof -
  from assms obtain k where s: "first_index (\<lambda>k. P (of_nat k :: u32)) 1 (FS_MAX_INODES + 1) = Some k" and i: "i = of_nat k"
    by (auto simp: found_def split: option.splits)
  then have k: "1 \<le> k" "k < 73" "P (of_nat k)" and least: "\<And>j. 1 \<le> j \<Longrightarrow> j < k \<Longrightarrow> \<not> P (of_nat j)"
    by (auto simp: first_index_Some FS_MAX_INODES_def)
  have "\<not> P j" if "j \<in> inode_ids" "j < i" for j
    using least [of "unat j"] that id_of_nat [OF k(1,2)] i by (simp add: inode_ids_iff word_less_nat_alt)
  then show ?thesis using k i id_of_nat [OF k(1,2)] by blast
qed

lemma lookup_as_search:
  "lookup name dir s =
    found (first_index (\<lambda>k. (\<lambda>i. matches name dir (inode_read i s)) (of_nat k)) 1 (FS_MAX_INODES + 1))"
  by (simp add: lookup_def matches_def strcmp_zero_iff Let_def)

lemma lookup_zero: "lookup name dir s = 0 \<longleftrightarrow> (\<forall>i\<in>inode_ids. \<not> matches name dir (inode_read i s))"
  unfolding lookup_as_search by (rule found_none)

lemma lookup_found:
  "lookup name dir s = i \<Longrightarrow> i \<noteq> 0 \<Longrightarrow>
    i \<in> inode_ids \<and> matches name dir (inode_read i s) \<and>
    (\<forall>j\<in>inode_ids. j < i \<longrightarrow> \<not> matches name dir (inode_read j s))"
  unfolding lookup_as_search by (rule found_some)

lemma inode_alloc_zero: "inode_alloc s = 0 \<longleftrightarrow> (\<forall>i\<in>inode_ids. live (inode_read i s))"
  unfolding inode_alloc_def using found_none [of "\<lambda>i. name_free (inode_read i s)"] by simp

lemma inode_alloc_found:
  "inode_alloc s = i \<Longrightarrow> i \<noteq> 0 \<Longrightarrow>
    i \<in> inode_ids \<and> name_free (inode_read i s) \<and> (\<forall>j\<in>inode_ids. j < i \<longrightarrow> live (inode_read j s))"
  unfolding inode_alloc_def by (rule found_some [of "\<lambda>i. name_free (inode_read i s)"])

section \<open>The block allocator\<close>

definition blocks_below :: "nat \<Rightarrow> nanofs \<Rightarrow> bool" where
  "blocks_below B s \<longleftrightarrow> (\<forall>i\<in>inode_ids. live (inode_read i s) \<longrightarrow> (\<forall>b\<in>set (node_blocks (inode_read i s)). unat b \<le> B))"

lemma fold_max_ge:
  fixes f :: "'a \<Rightarrow> u32"
  shows "x \<le> fold (\<lambda>b h. if f b > h then f b else h) bs x \<and>
    (\<forall>b\<in>set bs. f b \<le> fold (\<lambda>b h. if f b > h then f b else h) bs x) \<and>
    (fold (\<lambda>b h. if f b > h then f b else h) bs x = x \<or>
     (\<exists>b\<in>set bs. fold (\<lambda>b h. if f b > h then f b else h) bs x = f b))"
proof (induction bs arbitrary: x)
  case (Cons b bs)
  show ?case using Cons.IH [of "if f b > x then f b else x"]
    by (cases "f b > x") (auto intro: order_trans less_imp_le)
qed simp

definition used_blocks :: "nanofs \<Rightarrow> u32 list" where
  "used_blocks s = concat (map (\<lambda>k. let node = inode_read (of_nat k) s in
     if name_free node then [] else map (\<lambda>b. node_blocks node ! b) [0..<4]) [1..<73])"

lemma fold_concat: "fold f (concat xss) = fold (fold f) xss"
  by (induction xss) auto

lemma block_alloc_fold:
  "block_alloc s = fold (\<lambda>b h. if b > h then b else h) (used_blocks s) 8 + 1"
proof -
  have "fold (\<lambda>ino highest.
       let node = inode_read (of_nat ino) s in
       if name_free node then highest
       else fold (\<lambda>b highest. if node_blocks node ! b > highest then node_blocks node ! b else highest)
              [0..<FS_MAX_BLOCKS] highest) ks h =
    fold (\<lambda>b h. if b > h then b else h) (concat (map (\<lambda>k. let node = inode_read (of_nat k) s in
     if name_free node then [] else map (\<lambda>b. node_blocks node ! b) [0..<4]) ks)) h" for ks h
    by (induction ks arbitrary: h) (simp_all add: Let_def FS_MAX_BLOCKS_def fold_map comp_def)
  then show ?thesis
    unfolding block_alloc_def used_blocks_def by (simp add: FS_MAX_INODES_def FS_DATA_START_def)
qed

lemma used_blocks_iff:
  assumes "disk_ok (disk s)"
  shows "b \<in> set (used_blocks s) \<longleftrightarrow>
    (\<exists>i\<in>inode_ids. live (inode_read i s) \<and> b \<in> set (node_blocks (inode_read i s)))"
proof -
  have blocks: "set (map (\<lambda>b. node_blocks (inode_read i s) ! b) [0..<4]) = set (node_blocks (inode_read i s))"
    if "i \<in> inode_ids" for i
    using inode_read_valid [OF assms that] by (metis inode_ok_def map_nth)
  have "b \<in> set (used_blocks s) \<longleftrightarrow> (\<exists>k\<in>{1..<73}. live (inode_read (of_nat k) s) \<and>
      b \<in> set (map (\<lambda>b. node_blocks (inode_read (of_nat k) s) ! b) [0..<4]))"
    by (auto simp: used_blocks_def Let_def split: if_splits)
  also have "\<dots> \<longleftrightarrow> (\<exists>k\<in>{1..<73}. live (inode_read (of_nat k) s) \<and> b \<in> set (node_blocks (inode_read (of_nat k) s)))"
    using blocks id_of_nat by (metis atLeastLessThan_iff)
  also have "\<dots> \<longleftrightarrow> (\<exists>i\<in>inode_ids. live (inode_read i s) \<and> b \<in> set (node_blocks (inode_read i s)))"
  proof
    assume "\<exists>i\<in>inode_ids. live (inode_read i s) \<and> b \<in> set (node_blocks (inode_read i s))"
    then obtain i where "i \<in> inode_ids" "live (inode_read i s)" "b \<in> set (node_blocks (inode_read i s))" by blast
    then show "\<exists>k\<in>{1..<73}. live (inode_read (of_nat k) s) \<and> b \<in> set (node_blocks (inode_read (of_nat k) s))"
      by (intro bexI [of _ "unat i"]) (simp_all add: inode_ids_iff)
  qed (use id_of_nat in \<open>metis atLeastLessThan_iff\<close>)
  finally show ?thesis .
qed

text \<open>The block handed out lies above every block in use and above the inode table.\<close>

lemma block_alloc_fresh:
  assumes "disk_ok (disk s)" "blocks_below B s" "8 \<le> B" "B < 2 ^ 32 - 1"
  shows "9 \<le> unat (block_alloc s) \<and> unat (block_alloc s) \<le> B + 1 \<and>
    (\<forall>i\<in>inode_ids. live (inode_read i s) \<longrightarrow> (\<forall>b\<in>set (node_blocks (inode_read i s)). b < block_alloc s))"
proof -
  let ?h = "fold (\<lambda>b h. if b > h then b else h) (used_blocks s) 8"
  note m = fold_max_ge [of 8 "\<lambda>b. b" "used_blocks s"]
  have le: "unat ?h \<le> B"
  proof -
    have "?h = 8 \<or> ?h \<in> set (used_blocks s)" using m by auto
    then show ?thesis using assms(2,3) used_blocks_iff [OF assms(1)] by (auto simp: blocks_below_def)
  qed
  have "8 \<le> unat ?h" using m by (simp add: word_le_nat_alt)
  moreover have alloc: "unat (block_alloc s) = unat ?h + 1"
    unfolding block_alloc_fold using le assms(4) by (simp add: unat_word_ariths)
  moreover have "b < block_alloc s" if "b \<in> set (used_blocks s)" for b
    using m that alloc by (simp add: word_less_nat_alt word_le_nat_alt less_Suc_eq_le)
  ultimately show ?thesis using le used_blocks_iff [OF assms(1)] by auto
qed

end
