(* ===== verification/Fs_Data.thy ===== *)
theory Fs_Data
  imports Fs_Table
begin

text \<open>
  The data sectors: what the write loops leave on the disk, what the read loop returns, and the
  bytes of a file (\<open>file_bytes\<close>) as the contract between the two.
\<close>

section \<open>Writing\<close>

lemma length_sector_chunk [simp]: "n \<le> 512 \<Longrightarrow> length (sector_chunk data w n) = 512"
  by (simp add: sector_chunk_def)

lemma disk_write_ok:
  assumes "disk_ok d" "unat b < 2 ^ 28"
  shows "disk_write b bs d = (0, d\<lparr>sectors := (sectors d)(b := bs)\<rparr>)"
  using assms by (simp add: disk_write_def disk_ok_def lba28_small)

text \<open>The sectors a write leaves, block by block; a later block of the same number wins.\<close>

fun sectors_written :: "u32 list \<Rightarrow> u8 list \<Rightarrow> nat \<Rightarrow> nat \<Rightarrow> (u32 \<Rightarrow> u8 list) \<Rightarrow> u32 \<Rightarrow> u8 list" where
  "sectors_written [] data len w f = f"
| "sectors_written (b # bs) data len w f =
     (if w < len then sectors_written bs data len (w + min (len - w) 511)
        (f(b := sector_chunk data w (min (len - w) 511))) else f)"

lemma write_text_loop_sectors:
  assumes "disk_ok d" "\<forall>b\<in>set bs. unat b < 2 ^ 28"
  shows "write_text_loop bs data len w d = d\<lparr>sectors := sectors_written bs data len w (sectors d)\<rparr> \<and>
    disk_ok (d\<lparr>sectors := sectors_written bs data len w (sectors d)\<rparr>)"
  using assms
proof (induction bs arbitrary: w d)
  case (Cons b bs)
  show ?case
  proof (cases "w < len")
    case True
    have "disk_ok (d\<lparr>sectors := (sectors d)(b := sector_chunk data w (min (len - w) 511))\<rparr>)"
      using Cons.prems by (intro disk_ok_upd) simp_all
    from Cons.IH [OF this, of "w + min (len - w) 511"] Cons.prems True show ?thesis
      by (simp add: disk_write_ok Let_def del: fun_upd_apply)
  qed (use Cons.prems in simp)
qed simp

lemma write_binary_text: "w < len \<Longrightarrow> write_binary_loop bs data len w d = write_text_loop bs data len w d"
proof (induction bs arbitrary: w d)
  case (Cons b bs)
  have done_: "write_text_loop bs data len w' d' = d'" if "len \<le> w'" for w' d'
    using that by (cases bs) auto
  show ?case using Cons by (auto simp: Let_def done_)
qed simp

lemma sectors_written_other: "x \<notin> set bs \<Longrightarrow> sectors_written bs data len w f x = f x"
  by (induction bs arbitrary: w f) auto

lemma sectors_written_block:
  assumes "distinct bs" "k < length bs" "w + 511 * k < len"
  shows "sectors_written bs data len w f (bs ! k) =
    sector_chunk data (w + 511 * k) (min (len - (w + 511 * k)) 511)"
  using assms
proof (induction bs arbitrary: k w f)
  case (Cons b bs)
  show ?case
  proof (cases k)
    case 0
    with Cons.prems show ?thesis by (simp add: sectors_written_other)
  next
    case (Suc l)
    with Cons.prems have "min (len - w) 511 = 511" by simp
    with Suc Cons show ?thesis by (simp add: algebra_simps)
  qed
qed simp

section \<open>Reading\<close>

definition file_bytes :: "disk \<Rightarrow> fs_inode \<Rightarrow> u8 list" where
  "file_bytes d node = take (unat (node_size node))
     (concat (map (\<lambda>b. take 511 (sectors d b)) (takeWhile (\<lambda>b. b \<noteq> 0) (node_blocks node))))"

lemma fold_update_block:
  assumes "pos + n \<le> length buf" "n \<le> length sec"
  shows "fold (\<lambda>j buf. buf[pos + j := sec ! j]) [0..<n] buf = take pos buf @ take n sec @ drop (pos + n) buf"
  using assms
proof (induction n)
  case (Suc n)
  from Suc.prems have "drop (pos + n) buf = buf ! (pos + n) # drop (Suc (pos + n)) buf"
    by (intro Cons_nth_drop_Suc [symmetric]) simp
  with Suc show ?case
    by (simp add: list_update_append take_Suc_conv_app_nth min_def)
qed simp

lemma drop_more: "drop n xs = drop n ys \<Longrightarrow> drop (n + k) xs = drop (n + k) ys"
  by (metis drop_drop add.commute)

lemma take_chunk:
  "511 \<le> length sec \<Longrightarrow> take (n - pos) (take 511 sec @ xs) =
    take (min (n - pos) 511) sec @ take (n - (pos + min (n - pos) 511)) xs"
  by (simp add: min_def)

lemma read_loop_result:
  assumes "disk_ok d" "\<forall>b\<in>set bs. unat b < 2 ^ 28" "pos \<le> n" "n \<le> length buf"
  shows "read_loop bs pos n d buf =
    (let r = take (n - pos) (concat (map (\<lambda>b. take 511 (sectors d b)) (takeWhile (\<lambda>b. b \<noteq> 0) bs)))
     in (pos + length r, take pos buf @ r @ drop (pos + length r) buf))"
  using assms
proof (induction bs arbitrary: pos buf)
  case (Cons b bs)
  show ?case
  proof (cases "pos < n \<and> b \<noteq> 0")
    case False
    then show ?thesis using Cons.prems by (auto simp: Let_def)
  next
    case True
    let ?c = "min (n - pos) 511" and ?sec = "sectors d b"
    have sec: "length ?sec = 512" "disk_read b d = (0, ?sec)"
      using Cons.prems by (simp_all add: disk_ok_def disk_read_def lba28_small)
    have fit: "pos + ?c \<le> length buf" "?c \<le> length ?sec" using Cons.prems sec by auto
    let ?buf = "take pos buf @ take ?c ?sec @ drop (pos + ?c) buf"
    have step: "read_loop (b # bs) pos n d buf = read_loop bs (pos + ?c) n d ?buf"
      using True sec by (simp add: fold_update_block [OF fit] Let_def)
    have "length ?buf = length buf" using Cons.prems sec by simp
    then have IH: "read_loop bs (pos + ?c) n d ?buf =
      (let r = take (n - (pos + ?c)) (concat (map (\<lambda>b. take 511 (sectors d b)) (takeWhile (\<lambda>b. b \<noteq> 0) bs)))
       in (pos + ?c + length r, take (pos + ?c) ?buf @ r @ drop (pos + ?c + length r) ?buf))"
      using Cons.prems by (intro Cons.IH) auto
    have "take (pos + ?c) ?buf = take pos buf @ take ?c ?sec"
      using Cons.prems sec by simp
    moreover have "drop (pos + ?c) ?buf = drop (pos + ?c) buf"
      using Cons.prems sec by simp
    then have "drop (pos + ?c + k) ?buf = drop (pos + ?c + k) buf" for k
      by (rule drop_more)
    moreover have "take (n - pos) (take 511 ?sec @ xs) = take ?c ?sec @ take (n - (pos + ?c)) xs" for xs
      by (rule take_chunk) (use sec in simp)
    ultimately show ?thesis
      unfolding step IH using True sec by (simp add: Let_def add.assoc)
  qed
qed (simp add: Let_def)

end
