(* ===== verification/Fs_Invariant.thy ===== *)
theory Fs_Invariant
  imports Fs_Data
begin

text \<open>
  The invariant of a NanoFS volume. Every live inode has a terminated name and blocks in the data
  area; no two live inodes have the same name in the same directory or a block in common. The bound
  \<open>B\<close> on the block numbers grows by at most one with each operation.
\<close>

unbundle bit_operations_syntax

section \<open>The invariant\<close>

definition inode_wf :: "nat \<Rightarrow> fs_inode \<Rightarrow> bool" where
  "inode_wf B node \<longleftrightarrow> live node \<longrightarrow>
     node_name node ! 27 = 0 \<and> (\<forall>b\<in>set (node_blocks node). b = 0 \<or> 9 \<le> unat b \<and> unat b \<le> B)"

definition names_differ :: "fs_inode \<Rightarrow> fs_inode \<Rightarrow> bool" where
  "names_differ m n \<longleftrightarrow> live m \<longrightarrow> live n \<longrightarrow> node_parent m = node_parent n \<longrightarrow> cstr (node_name m) \<noteq> cstr (node_name n)"

definition blocks_disjoint :: "fs_inode \<Rightarrow> fs_inode \<Rightarrow> bool" where
  "blocks_disjoint m n \<longleftrightarrow> live m \<longrightarrow> live n \<longrightarrow> set (node_blocks m) \<inter> set (node_blocks n) \<subseteq> {0}"

definition fs_inv :: "nat \<Rightarrow> nanofs \<Rightarrow> bool" where
  "fs_inv B s \<longleftrightarrow> disk_ok (disk s) \<and> 8 \<le> B \<and> itab.every (inode_wf B) s \<and>
     itab.pairwise_rel names_differ s \<and> itab.pairwise_rel blocks_disjoint s"

lemma names_differ_sym: "names_differ m n \<Longrightarrow> names_differ n m"
  by (auto simp: names_differ_def)

lemma blocks_disjoint_sym: "blocks_disjoint m n \<Longrightarrow> blocks_disjoint n m"
  by (auto simp: blocks_disjoint_def)

lemma fs_inv_disk [dest]: "fs_inv B s \<Longrightarrow> disk_ok (disk s)"
  by (simp add: fs_inv_def)

lemma fs_inv_wf: "fs_inv B s \<Longrightarrow> i \<in> inode_ids \<Longrightarrow> inode_wf B (inode_read i s)"
  by (simp add: fs_inv_def itab.every_def)

lemma fs_inv_names: "fs_inv B s \<Longrightarrow> i \<in> inode_ids \<Longrightarrow> j \<in> inode_ids \<Longrightarrow> i \<noteq> j \<Longrightarrow>
    names_differ (inode_read i s) (inode_read j s)"
  by (simp add: fs_inv_def itab.pairwise_rel_def)

lemma fs_inv_blocks: "fs_inv B s \<Longrightarrow> i \<in> inode_ids \<Longrightarrow> j \<in> inode_ids \<Longrightarrow> i \<noteq> j \<Longrightarrow>
    blocks_disjoint (inode_read i s) (inode_read j s)"
  by (simp add: fs_inv_def itab.pairwise_rel_def)

lemma fs_inv_mono: "fs_inv B s \<Longrightarrow> B \<le> B' \<Longrightarrow> fs_inv B' s"
  by (fastforce simp: fs_inv_def itab.every_def inode_wf_def)

text \<open>The invariant depends on the table and the health of the disk only.\<close>

lemma fs_inv_same_table:
  assumes "fs_inv B s" "disk_ok (disk t)" "\<And>i. i \<in> inode_ids \<Longrightarrow> inode_read i t = inode_read i s"
  shows "fs_inv B t"
  using assms by (simp add: fs_inv_def itab.every_def itab.pairwise_rel_def)

lemma inode_read_disk: "disk s = disk t \<Longrightarrow> inode_read i s = inode_read i t"
  by (simp add: inode_read_def)

lemma fs_inv_write:
  assumes "fs_inv B s" "i \<in> inode_ids" "inode_ok node" "inode_wf B node"
    and "\<And>j. j \<in> inode_ids \<Longrightarrow> j \<noteq> i \<Longrightarrow>
      names_differ node (inode_read j s) \<and> blocks_disjoint node (inode_read j s)"
  shows "fs_inv B (inode_write i node s)"
proof -
  have d: "disk_ok (disk s)" using assms(1) by blast
  have "itab.every (inode_wf B) (inode_write i node s)"
    using assms(1-4) d by (intro itab.every_wr) (auto simp: fs_inv_def)
  moreover have "itab.pairwise_rel names_differ (inode_write i node s)"
    using assms d by (intro itab.pairwise_wr) (auto simp: fs_inv_def dest: names_differ_sym)
  moreover have "itab.pairwise_rel blocks_disjoint (inode_write i node s)"
    using assms d by (intro itab.pairwise_wr) (auto simp: fs_inv_def dest: blocks_disjoint_sym)
  ultimately show ?thesis
    using assms(1-3) by (simp add: fs_inv_def inode_write_ok)
qed

section \<open>Writing data sectors\<close>

lemma inode_read_data_write:
  assumes "disk_ok (disk s)" "i \<in> inode_ids" "\<forall>b\<in>set bs. 9 \<le> unat b"
  shows "inode_read i (s\<lparr>disk := (disk s)\<lparr>sectors := sectors_written bs data len w (sectors (disk s))\<rparr>\<rparr>) =
    inode_read i s"
    (is "inode_read i ?t = _")
proof (cases "disk_ok (disk ?t)")
  case True
  have "inode_sector i \<notin> set bs" using inode_sector_bounds [OF assms(2)] assms(3) by auto
  then show ?thesis using assms True by (simp add: inode_read_ok sectors_written_other)
next
  case False
  have "length (sectors_written bs data len w (sectors (disk s)) x) = 512" for x
  proof -
    have "\<forall>x. length (f x) = 512 \<Longrightarrow> length (sectors_written bs data len w f x) = 512" for f
      by (induction bs arbitrary: w f) auto
    with assms(1) show ?thesis by (simp add: disk_ok_def)
  qed
  with False assms(1) show ?thesis by (simp add: disk_ok_def)
qed

lemma block_alloc_inv:
  assumes "fs_inv B s" "B < 2 ^ 32 - 1"
  shows "9 \<le> unat (block_alloc s) \<and> unat (block_alloc s) \<le> B + 1 \<and>
    (\<forall>i\<in>inode_ids. live (inode_read i s) \<longrightarrow> block_alloc s \<notin> set (node_blocks (inode_read i s)))"
proof -
  have "blocks_below B s" unfolding blocks_below_def
  proof (intro ballI impI)
    fix i b assume "i \<in> inode_ids" "live (inode_read i s)" "b \<in> set (node_blocks (inode_read i s))"
    then show "unat b \<le> B" using fs_inv_wf [OF assms(1)] assms(1) by (fastforce simp: inode_wf_def fs_inv_def)
  qed
  then show ?thesis using block_alloc_fresh [of s B] assms by (auto simp: fs_inv_def)
qed

lemma block_alloc_disjoint:
  assumes "fs_inv B s" "B < 2 ^ 32 - 1" "j \<in> inode_ids"
    and "live node \<longrightarrow> set (node_blocks node) \<subseteq> {0, block_alloc s}"
  shows "blocks_disjoint node (inode_read j s)"
  using block_alloc_inv [OF assms(1,2)] assms(3,4) by (auto simp: blocks_disjoint_def)

section \<open>Names\<close>

definition short_name :: "u8 list \<Rightarrow> bool" where
  "short_name name \<longleftrightarrow> length (cstr name) < 28"

lemma set_name_fields [simp]:
  "node_parent (set_name name node) = node_parent node" "node_blocks (set_name name node) = node_blocks node"
  "node_size (set_name name node) = node_size node" "node_is_directory (set_name name node) = node_is_directory node"
  by (simp_all add: set_name_def)

lemma node_name_set_name: "node_name (set_name name node) = (strncpy name 28)[27 := 0]"
  by (simp add: set_name_def FS_NAME_MAX_def)

lemma short_name_bytes: "short_name name \<Longrightarrow> (strncpy name 28)[27 := 0] = strncpy name 28"
  by (rule nth_equalityI) (auto simp: short_name_def strncpy_eq nth_list_update nth_append)

lemma cstr_set_name: "short_name name \<Longrightarrow> cstr (node_name (set_name name node)) = cstr name"
  unfolding node_name_set_name by (simp add: short_name_bytes cstr_strncpy short_name_def)

text \<open>What is kept of a name: its first 27 bytes. For a short name that is the name.\<close>

definition stored_name :: "u8 list \<Rightarrow> u8 list" where
  "stored_name name = take 27 (cstr name)"

lemma stored_name_short: "short_name name \<Longrightarrow> stored_name name = cstr name"
  by (simp add: stored_name_def short_name_def)

lemma zero_notin_stored: "0 \<notin> set (stored_name name)"
  using zero_notin_cstr [of name] unfolding stored_name_def by (blast dest: in_set_takeD)

lemma cstr_stored_name [simp]: "cstr (stored_name name) = stored_name name"
  by (rule cstr_idem) (rule zero_notin_stored)

lemma cstr_set_name_stored: "cstr (node_name (set_name name node)) = stored_name name"
proof -
  have "(strncpy name 28)[27 := 0] = stored_name name @ replicate (28 - length (stored_name name)) 0"
    by (rule nth_equalityI) (auto simp: stored_name_def strncpy_eq nth_list_update nth_append min_def)
  then show ?thesis unfolding node_name_set_name by (simp add: cstr_append_zeros zero_notin_stored)
qed

lemma lookup_stored: "short_name name \<Longrightarrow> lookup (stored_name name) dir s = lookup name dir s"
  by (simp add: lookup_as_search matches_def stored_name_short [symmetric])

lemma set_name_terminated: "node_name (set_name name node) ! 27 = 0"
  unfolding node_name_set_name by simp

lemma live_set_name: "live (set_name name node) \<longleftrightarrow> cstr name \<noteq> []"
  unfolding name_free_def node_name_set_name by (cases name) (auto simp: numeral_eq_Suc)

lemma inode_ok_set_name: "length (node_blocks node) = 4 \<Longrightarrow> inode_ok (set_name name node)"
  by (simp add: inode_ok_def node_name_set_name)

lemma zero_inode_eq:
  "zero_inode = \<lparr>node_name = replicate 28 0, node_parent = 0, node_blocks = [0, 0, 0, 0], node_size = 0,
     node_is_directory = 0, node_pad = 0\<rparr>"
proof -
  have "le_word (replicate n 0) = (0 :: u32)" for n by (induction n) auto
  then show ?thesis by (simp add: zero_inode_def decode_inode_def INODE_BYTES_def upt_4)
qed

lemma zero_inode_facts [simp]: "name_free zero_inode" "inode_ok zero_inode"
  by (simp_all add: zero_inode_eq name_free_def inode_ok_def)

text \<open>A fresh name in the current directory differs from all others.\<close>

lemma fresh_name_differs:
  assumes "lookup name dir s = 0" "j \<in> inode_ids" "live node \<longrightarrow> node_parent node = dir \<and> cstr (node_name node) = cstr name"
  shows "names_differ node (inode_read j s)"
  using assms by (auto simp: lookup_zero matches_def names_differ_def)

section \<open>Operations on directory entries\<close>

definition new_file :: "u8 list \<Rightarrow> nanofs \<Rightarrow> fs_inode" where
  "new_file name s = (set_name name zero_inode)\<lparr>node_parent := current_dir s, node_blocks := [block_alloc s, 0, 0, 0]\<rparr>"

definition new_directory :: "u8 list \<Rightarrow> nanofs \<Rightarrow> fs_inode" where
  "new_directory name s = (set_name name zero_inode)\<lparr>node_parent := current_dir s, node_is_directory := 1\<rparr>"

lemma fs_create_eq:
  "fs_create (Some name) s =
     (if lookup name (current_dir s) s \<noteq> 0 then (-1, s)
      else if inode_alloc s = 0 then (-2, s) else (0, inode_write (inode_alloc s) (new_file name s) s))"
  by (simp add: fs_create_def new_file_def Let_def set_name_def zero_inode_eq)

lemma fs_mkdir_eq:
  "fs_mkdir name s =
     (if lookup name (current_dir s) s \<noteq> 0 then (-1, s)
      else if inode_alloc s = 0 then (-2, s) else (0, inode_write (inode_alloc s) (new_directory name s) s))"
  by (simp add: fs_mkdir_def new_directory_def Let_def set_name_def zero_inode_eq)

lemma new_entry_facts [simp]:
  "inode_ok (new_file name s)" "inode_ok (new_directory name s)"
  "node_parent (new_file name s) = current_dir s" "node_parent (new_directory name s) = current_dir s"
  "node_blocks (new_file name s) = [block_alloc s, 0, 0, 0]" "node_blocks (new_directory name s) = [0, 0, 0, 0]"
  "name_free (new_file name s) \<longleftrightarrow> cstr name = []" "name_free (new_directory name s) \<longleftrightarrow> cstr name = []"
  "node_name (new_file name s) = node_name (set_name name zero_inode)"
  "node_name (new_directory name s) = node_name (set_name name zero_inode)"
  "node_is_directory (new_file name s) = 0" "node_is_directory (new_directory name s) = 1"
  "node_size (new_file name s) = 0" "node_size (new_directory name s) = 0"
  using live_set_name [of name zero_inode]
  by (auto simp: new_file_def new_directory_def inode_ok_def node_name_set_name name_free_def zero_inode_eq)

lemma fs_inv_new_entry:
  assumes "fs_inv B s" "B < 2 ^ 32 - 1" "lookup (stored_name name) (current_dir s) s = 0" "inode_alloc s \<noteq> 0"
    and "node \<in> {new_file name s, new_directory name s}"
  shows "fs_inv (B + 1) (inode_write (inode_alloc s) node s)"
proof (rule fs_inv_write)
  show "fs_inv (B + 1) s" using assms(1) by (rule fs_inv_mono) simp
  show "inode_alloc s \<in> inode_ids" using inode_alloc_found assms(4) by blast
  show "inode_ok node" using assms(5) by auto
  note alloc = block_alloc_inv [OF assms(1,2)]
  show "inode_wf (B + 1) node"
    using assms(5) alloc set_name_terminated [of name zero_inode] by (auto simp: inode_wf_def)
  fix j assume j: "j \<in> inode_ids"
  have "names_differ node (inode_read j s)"
    by (rule fresh_name_differs [OF assms(3) j]) (use assms(5) cstr_set_name_stored in auto)
  moreover have "blocks_disjoint node (inode_read j s)"
    by (rule block_alloc_disjoint [OF assms(1,2) j]) (use assms(5) in auto)
  ultimately show "names_differ node (inode_read j s) \<and> blocks_disjoint node (inode_read j s)" ..
qed

text \<open>A new name fits if it is short, or is not, cut, that of another entry of the directory.\<close>

definition name_fits :: "u8 list \<Rightarrow> nanofs \<Rightarrow> bool" where
  "name_fits name s \<longleftrightarrow> short_name name \<or> lookup (stored_name name) (current_dir s) s = 0"

lemma name_fits_free: "name_fits name s \<Longrightarrow> lookup name (current_dir s) s = 0 \<Longrightarrow> lookup (stored_name name) (current_dir s) s = 0"
  by (auto simp: name_fits_def lookup_stored)

lemma fs_inv_create:
  "fs_inv B s \<Longrightarrow> B < 2 ^ 32 - 1 \<Longrightarrow> name_fits name s \<Longrightarrow> fs_inv (B + 1) (snd (fs_create (Some name) s))"
  using fs_inv_new_entry [of B s name "new_file name s"] fs_inv_mono [of B s "B + 1"] name_fits_free [of name s]
  by (auto simp: fs_create_eq)

lemma fs_inv_mkdir:
  "fs_inv B s \<Longrightarrow> B < 2 ^ 32 - 1 \<Longrightarrow> name_fits name s \<Longrightarrow> fs_inv (B + 1) (snd (fs_mkdir name s))"
  using fs_inv_new_entry [of B s name "new_directory name s"] fs_inv_mono [of B s "B + 1"] name_fits_free [of name s]
  by (auto simp: fs_mkdir_eq)

lemma fs_inv_delete:
  assumes "fs_inv B s"
  shows "fs_inv B (snd (fs_delete name s))"
proof (cases "lookup name (current_dir s) s = 0")
  case False
  then have "lookup name (current_dir s) s \<in> inode_ids" using lookup_found by blast
  then show ?thesis using False assms
    by (auto simp: fs_delete_def Let_def inode_wf_def names_differ_def blocks_disjoint_def intro!: fs_inv_write)
qed (use assms in \<open>simp add: fs_delete_def\<close>)

lemma fs_inv_rename:
  assumes "fs_inv B s" "name_fits new s \<or> lookup (stored_name new) (current_dir s) s = lookup old (current_dir s) s"
  shows "fs_inv B (snd (fs_rename old new s))"
proof -
  let ?i = "lookup old (current_dir s) s"
  show ?thesis
  proof (cases "?i = 0 \<or> lookup new (current_dir s) s \<noteq> 0")
    case False
    then have i: "?i \<in> inode_ids" "matches old (current_dir s) (inode_read ?i s)" and fresh: "lookup new (current_dir s) s = 0"
      using lookup_found by blast+
    have ok: "inode_ok (inode_read ?i s)" using assms(1) i(1) by (blast intro: inode_read_valid)
    have "fs_inv B (inode_write ?i (set_name new (inode_read ?i s)) s)"
    proof (rule fs_inv_write [OF assms(1) i(1)])
      show "inode_ok (set_name new (inode_read ?i s))" using ok by (intro inode_ok_set_name) (simp add: inode_ok_def)
      show "inode_wf B (set_name new (inode_read ?i s))"
        using fs_inv_wf [OF assms(1) i(1)] i(2) by (simp add: inode_wf_def matches_def set_name_terminated)
      fix j assume j: "j \<in> inode_ids" "j \<noteq> ?i"
      have "names_differ (set_name new (inode_read ?i s)) (inode_read j s)"
      proof (cases "lookup (stored_name new) (current_dir s) s = 0")
        case True
        show ?thesis
          by (rule fresh_name_differs [OF True j(1)]) (use i(2) in \<open>simp add: matches_def cstr_set_name_stored\<close>)
      next
        case False
        then have l: "lookup (stored_name new) (current_dir s) s = ?i" using assms(2) name_fits_free [OF _ fresh] by blast
        then have "cstr (node_name (inode_read ?i s)) = stored_name new"
          using lookup_found [OF refl False] by (simp add: matches_def)
        then show ?thesis
          using fs_inv_names [OF assms(1) i(1) j(1)] j(2) i(2) by (simp add: names_differ_def matches_def cstr_set_name_stored)
      qed
      moreover have "blocks_disjoint (set_name new (inode_read ?i s)) (inode_read j s)"
        using fs_inv_blocks [OF assms(1) i(1) j(1)] j(2) i(2) by (auto simp: blocks_disjoint_def matches_def)
      ultimately show "names_differ (set_name new (inode_read ?i s)) (inode_read j s) \<and>
          blocks_disjoint (set_name new (inode_read ?i s)) (inode_read j s)" ..
    qed
    then show ?thesis using False by (simp add: fs_rename_def Let_def)
  qed (use assms in \<open>auto simp: fs_rename_def Let_def\<close>)
qed

section \<open>Operations on file contents\<close>

lemma fill_blocks_fields:
  "length (node_blocks node) = 4 \<Longrightarrow> needed \<le> 4 \<Longrightarrow>
    fill_blocks needed s node = node\<lparr>node_blocks := map (\<lambda>b. if b < needed \<and> node_blocks node ! b = 0
      then block_alloc s else node_blocks node ! b) [0..<4]\<rparr>"
proof (induction needed)
  case 0
  then show ?case by (cases node) (simp add: fill_blocks_def list_eq_iff_nth_eq)
next
  case (Suc n)
  have "fill_blocks (Suc n) s node =
      (let node = fill_blocks n s node in
       if node_blocks node ! n = 0 then node\<lparr>node_blocks := (node_blocks node)[n := block_alloc s]\<rparr> else node)"
    by (simp add: fill_blocks_def Let_def)
  also have "\<dots> = node\<lparr>node_blocks := map (\<lambda>b. if b < Suc n \<and> node_blocks node ! b = 0
      then block_alloc s else node_blocks node ! b) [0..<4]\<rparr>"
    using Suc by (cases node) (auto simp: Let_def list_eq_iff_nth_eq nth_list_update less_Suc_eq)
  finally show ?case .
qed

text \<open>
  What both writing operations do once the size \<open>sz\<close> is known: blocks for \<open>n\<close> sectors, the sectors,
  the inode. \<open>bs\<close> are the blocks written.
\<close>

definition put_file :: "u32 \<Rightarrow> u32 \<Rightarrow> nat \<Rightarrow> u8 list \<Rightarrow> nanofs \<Rightarrow> nanofs" where
  "put_file i sz n data s =
     (let node = fill_blocks n s (inode_read i s) in
      inode_write i (node\<lparr>node_size := sz\<rparr>)
        (s\<lparr>disk := write_text_loop (take n (node_blocks node)) data (unat sz) 0 (disk s)\<rparr>))"

definition blocks_for :: "u32 \<Rightarrow> nat" where
  "blocks_for sz = max 1 ((unat sz + 510) div 511)"

lemma max_size_2044: "max_size = 2044"
  by (simp add: max_size_def FS_MAX_BLOCKS_def)

lemma blocks_for_bounds: "sz \<le> max_size \<Longrightarrow> 1 \<le> blocks_for sz \<and> blocks_for sz \<le> 4"
  by (simp add: blocks_for_def max_size_2044 word_le_nat_alt)

lemma unat_blocks_needed: "sz \<le> max_size \<Longrightarrow> unat ((sz + 510) div 511) = (unat sz + 510) div 511"
  by (simp add: max_size_2044 word_le_nat_alt unat_div unat_word_ariths)

lemma unat_at_least_one:
  "unat (if (q :: u32) < 1 then 1 else q) = max 1 (unat q)" "unat (if (q :: u32) = 0 then 1 else q) = max 1 (unat q)"
  by (cases "q = 0"; simp add: max_def word_less_nat_alt unat_gt_0 Suc_le_eq)+

lemma blocks_needed_eq:
  "sz \<le> max_size \<Longrightarrow> unat (if (sz + 510) div 511 < 1 then 1 else (sz + 510) div 511) = blocks_for sz"
  "sz \<le> max_size \<Longrightarrow> unat (if (sz + 510) div 511 = 0 then 1 else (sz + 510) div 511) = blocks_for sz"
  using unat_blocks_needed [of sz] unat_at_least_one [of "(sz + 510) div 511"] by (simp_all add: blocks_for_def)

definition clip :: "u32 \<Rightarrow> u32" where
  "clip len = (if len > max_size then max_size else len)"

lemma clip_size_le: "clip len \<le> max_size"
  by (simp add: clip_def not_less)

lemma fs_write_eq:
  "fs_write (Some name) (Some text) s =
     (let i = lookup name (current_dir s) s in
      if i = 0 then (-1, s)
      else if node_is_directory (inode_read i s) \<noteq> 0 then (-2, s)
      else (0, put_file i (clip (of_nat (strlen text))) (blocks_for (clip (of_nat (strlen text)))) text s))"
  using blocks_needed_eq(1) [OF clip_size_le [of "of_nat (strlen text)"]]
  by (simp add: fs_write_def put_file_def clip_def [symmetric] Let_def)

text \<open>The binary variant differs for the empty file, whose first sector it clears.\<close>

definition put_empty :: "u32 \<Rightarrow> nanofs \<Rightarrow> nanofs" where
  "put_empty i s =
     (let node = fill_blocks 1 s (inode_read i s) in
      inode_write i (node\<lparr>node_size := 0\<rparr>)
        (s\<lparr>disk := snd (disk_write (node_blocks node ! 0) (replicate 512 0) (disk s))\<rparr>))"

lemma fs_write_binary_eq:
  assumes "disk_ok (disk s)"
  shows "fs_write_binary (Some name) (Some data) sz s =
     (let i = lookup name (current_dir s) s in
      if i = 0 then (-1, s)
      else if node_is_directory (inode_read i s) \<noteq> 0 then (-2, s)
      else if sz > max_size then (-3, s)
      else (0, if sz = 0 then put_empty i s else put_file i sz (blocks_for sz) data s))"
proof (cases "lookup name (current_dir s) s = 0 \<or> node_is_directory (inode_read (lookup name (current_dir s) s) s) \<noteq> 0 \<or> sz > max_size")
  case True
  then show ?thesis by (auto simp: fs_write_binary_def Let_def)
next
  case False
  let ?i = "lookup name (current_dir s) s"
  from False have le: "sz \<le> max_size" by (simp add: not_less)
  show ?thesis
  proof (cases "sz = 0")
    case True
    have "?i \<in> inode_ids" using False lookup_found by blast
    then have "inode_ok (inode_read ?i s)" using assms by (blast intro: inode_read_valid)
    then have four: "length (node_blocks (fill_blocks 1 s (inode_read ?i s))) = 4"
      by (simp add: fill_blocks_fields inode_ok_def)
    then have "take 1 (node_blocks (fill_blocks 1 s (inode_read ?i s))) = [node_blocks (fill_blocks 1 s (inode_read ?i s)) ! 0]"
      by (auto simp: list_of_4)
    with True False blocks_needed_eq(2) [OF le] show ?thesis
      by (simp add: fs_write_binary_def put_empty_def Let_def blocks_for_def sector_chunk_def)
  next
    case nonzero: False
    then have "0 < unat sz" by (simp add: unat_gt_0)
    with False nonzero blocks_needed_eq(2) [OF le] show ?thesis
      by (simp add: fs_write_binary_def put_file_def Let_def write_binary_text)
  qed
qed

end
