(* ===== verification/Fs_Files.thy ===== *)
theory Fs_Files
  imports Fs_Invariant
begin

text \<open>
  File contents under the NanoFS invariant: both writing operations are one update
  (\<open>put_blocks\<close>) that keeps the invariant and touches the blocks of its own file only.
\<close>

definition put_blocks :: "u32 \<Rightarrow> u32 \<Rightarrow> nat \<Rightarrow> nat \<Rightarrow> u8 list \<Rightarrow> nanofs \<Rightarrow> nanofs" where
  "put_blocks i sz n len data s =
     (let node = fill_blocks n s (inode_read i s) in
      inode_write i (node\<lparr>node_size := sz\<rparr>)
        (s\<lparr>disk := (disk s)\<lparr>sectors := sectors_written (take n (node_blocks node)) data len 0 (sectors (disk s))\<rparr>\<rparr>))"

definition filled :: "u32 \<Rightarrow> nat \<Rightarrow> nanofs \<Rightarrow> fs_inode" where
  "filled i n s = fill_blocks n s (inode_read i s)"

lemma filled_facts:
  assumes "fs_inv B s" "B + 1 < 2 ^ 28" "i \<in> inode_ids" "live (inode_read i s)" "n \<le> 4"
  shows "inode_ok (filled i n s)"
    and "node_name (filled i n s) = node_name (inode_read i s)"
    and "node_parent (filled i n s) = node_parent (inode_read i s)"
    and "node_is_directory (filled i n s) = node_is_directory (inode_read i s)"
    and "set (node_blocks (filled i n s)) \<subseteq> set (node_blocks (inode_read i s)) \<union> {block_alloc s}"
    and "\<forall>b\<in>set (take n (node_blocks (filled i n s))). 9 \<le> unat b \<and> unat b < 2 ^ 28"
    and "length (take n (node_blocks (filled i n s))) = n"
proof -
  have ok: "inode_ok (inode_read i s)" using assms(1,3) by (blast intro: inode_read_valid)
  then have eq: "filled i n s = (inode_read i s)\<lparr>node_blocks := map (\<lambda>b. if b < n \<and> node_blocks (inode_read i s) ! b = 0
      then block_alloc s else node_blocks (inode_read i s) ! b) [0..<4]\<rparr>"
    unfolding filled_def using assms(5) by (intro fill_blocks_fields) (simp_all add: inode_ok_def)
  have four: "length (node_blocks (inode_read i s)) = 4" using ok by (simp add: inode_ok_def)
  show "inode_ok (filled i n s)" using ok by (simp add: eq inode_ok_def)
  show "node_name (filled i n s) = node_name (inode_read i s)" "node_parent (filled i n s) = node_parent (inode_read i s)"
    "node_is_directory (filled i n s) = node_is_directory (inode_read i s)" by (simp_all add: eq)
  show "set (node_blocks (filled i n s)) \<subseteq> set (node_blocks (inode_read i s)) \<union> {block_alloc s}"
    using four by (auto simp: eq)
  show "length (take n (node_blocks (filled i n s))) = n" using assms(5) by (simp add: eq)
  have alloc: "9 \<le> unat (block_alloc s) \<and> unat (block_alloc s) < 2 ^ 28"
    using block_alloc_inv [OF assms(1)] assms(2) by simp
  have old: "9 \<le> unat b \<and> unat b < 2 ^ 28" if "b \<in> set (node_blocks (inode_read i s))" "b \<noteq> 0" for b
    using fs_inv_wf [OF assms(1,3)] assms(2,4) that by (fastforce simp: inode_wf_def)
  show "\<forall>b\<in>set (take n (node_blocks (filled i n s))). 9 \<le> unat b \<and> unat b < 2 ^ 28"
  proof
    fix b assume "b \<in> set (take n (node_blocks (filled i n s)))"
    then obtain k where "k < n" "k < 4" "b = node_blocks (filled i n s) ! k" by (auto simp: eq in_set_conv_nth)
    then show "9 \<le> unat b \<and> unat b < 2 ^ 28"
      using alloc old [of "node_blocks (inode_read i s) ! k"] four by (auto simp: eq)
  qed
qed

lemma put_file_blocks:
  assumes "fs_inv B s" "B + 1 < 2 ^ 28" "i \<in> inode_ids" "live (inode_read i s)" "n \<le> 4"
  shows "put_file i sz n data s = put_blocks i sz n (unat sz) data s"
  unfolding put_file_def put_blocks_def Let_def filled_def [symmetric]
  using write_text_loop_sectors [of "disk s" "take n (node_blocks (filled i n s))" data "unat sz" 0]
    filled_facts(6) [OF assms] assms(1) by auto

lemma put_empty_blocks:
  assumes "fs_inv B s" "B + 1 < 2 ^ 28" "i \<in> inode_ids" "live (inode_read i s)"
  shows "put_empty i s = put_blocks i 0 1 1 (replicate 512 0) s"
proof -
  note f = filled_facts [OF assms, of 1, simplified]
  have four: "length (node_blocks (filled i 1 s)) = 4" using f(1) by (simp add: inode_ok_def)
  then obtain b bs where b: "node_blocks (filled i 1 s) = b # bs" by (cases "node_blocks (filled i 1 s)") auto
  have "sector_chunk (replicate 512 0) 0 1 = replicate 512 0"
    by (simp add: sector_chunk_def cchar_def replicate_Suc [symmetric] del: replicate_Suc)
  moreover have "unat b < 2 ^ 28" using f(6) b by simp
  ultimately show ?thesis
    unfolding put_empty_def put_blocks_def Let_def filled_def [symmetric]
    using b assms(1) by (simp add: disk_write_ok fs_inv_disk)
qed

lemma put_blocks_facts:
  assumes "fs_inv B s" "B + 1 < 2 ^ 28" "i \<in> inode_ids" "live (inode_read i s)" "n \<le> 4"
  shows "fs_inv (B + 1) (put_blocks i sz n len data s)"
    and "j \<in> inode_ids \<Longrightarrow> inode_read j (put_blocks i sz n len data s) =
      (if j = i then (filled i n s)\<lparr>node_size := sz\<rparr> else inode_read j s)"
    and "9 \<le> unat x \<Longrightarrow> sectors (disk (put_blocks i sz n len data s)) x =
      sectors_written (take n (node_blocks (filled i n s))) data len 0 (sectors (disk s)) x"
    and "current_dir (put_blocks i sz n len data s) = current_dir s"
proof -
  note f = filled_facts [OF assms]
  let ?t = "s\<lparr>disk := (disk s)\<lparr>sectors := sectors_written (take n (node_blocks (filled i n s))) data len 0 (sectors (disk s))\<rparr>\<rparr>"
  let ?n = "(filled i n s)\<lparr>node_size := sz\<rparr>"
  have d: "disk_ok (disk s)" using assms(1) by blast
  have dt: "disk_ok (disk ?t)"
    using write_text_loop_sectors [OF d, of "take n (node_blocks (filled i n s))" data len 0] f(6) by simp
  have same: "inode_read j ?t = inode_read j s" if "j \<in> inode_ids" for j
    by (rule inode_read_data_write [OF d that]) (use f(6) in blast)
  have it: "fs_inv B ?t" by (rule fs_inv_same_table [OF assms(1) dt same])
  have eq: "put_blocks i sz n len data s = inode_write i ?n ?t"
    by (simp add: put_blocks_def filled_def Let_def)
  have okn: "inode_ok ?n" using f(1) by (simp add: inode_ok_def)
  show "fs_inv (B + 1) (put_blocks i sz n len data s)" unfolding eq
  proof (rule fs_inv_write [OF _ assms(3) okn])
    show "fs_inv (B + 1) ?t" using it by (rule fs_inv_mono) simp
    note alloc = block_alloc_inv [OF assms(1)]
    show "inode_wf (B + 1) ?n"
      using fs_inv_wf [OF assms(1,3)] f(2,5) alloc assms(2) by (fastforce simp: inode_wf_def name_free_def)
    fix j assume j: "j \<in> inode_ids" "j \<noteq> i"
    have "names_differ ?n (inode_read j s)"
      using fs_inv_names [OF assms(1,3) j(1)] j(2) f(2,3) by (auto simp: names_differ_def name_free_def)
    moreover have "blocks_disjoint ?n (inode_read j s)"
      using fs_inv_blocks [OF assms(1,3) j(1)] j f(2,5) alloc assms(2,4) by (fastforce simp: blocks_disjoint_def)
    ultimately show "names_differ ?n (inode_read j ?t) \<and> blocks_disjoint ?n (inode_read j ?t)"
      by (simp add: same j)
  qed
  show "inode_read j (put_blocks i sz n len data s) = (if j = i then ?n else inode_read j s)" if "j \<in> inode_ids"
    unfolding eq using inode_read_write [OF dt okn assms(3) that] same that by simp
  show "sectors (disk (put_blocks i sz n len data s)) x =
      sectors_written (take n (node_blocks (filled i n s))) data len 0 (sectors (disk s)) x" if "9 \<le> unat x"
    unfolding eq inode_write_sector [OF dt assms(3) okn] using inode_sector_bounds [OF assms(3)] that by auto
  show "current_dir (put_blocks i sz n len data s) = current_dir s"
    unfolding eq inode_write_sector [OF dt assms(3) okn] by simp
qed

text \<open>Writing one file leaves the bytes of every other file as they were.\<close>

lemma put_blocks_other_bytes:
  assumes "fs_inv B s" "B + 1 < 2 ^ 28" "i \<in> inode_ids" "live (inode_read i s)" "n \<le> 4"
    and j: "j \<in> inode_ids" "j \<noteq> i" "live (inode_read j s)"
  shows "file_bytes (disk (put_blocks i sz n len data s)) (inode_read j s) = file_bytes (disk s) (inode_read j s)"
proof -
  note f = filled_facts [OF assms(1-5)] and p = put_blocks_facts [OF assms(1-5)]
  have "sectors (disk (put_blocks i sz n len data s)) b = sectors (disk s) b"
    if "b \<in> set (node_blocks (inode_read j s))" "b \<noteq> 0" for b
  proof -
    have "9 \<le> unat b" using fs_inv_wf [OF assms(1) j(1)] j(3) that by (auto simp: inode_wf_def)
    moreover have "b \<notin> set (node_blocks (inode_read i s))"
      using fs_inv_blocks [OF assms(1,3) j(1)] j assms(4) that by (auto simp: blocks_disjoint_def)
    moreover have "b \<noteq> block_alloc s" using block_alloc_inv [OF assms(1)] assms(2) j that by auto
    ultimately have "b \<notin> set (take n (node_blocks (filled i n s)))"
      using f(5) by (blast dest: in_set_takeD)
    then show ?thesis unfolding p(3) [OF \<open>9 \<le> unat b\<close>] by (rule sectors_written_other)
  qed
  then have "map (\<lambda>b. take 511 (sectors (disk (put_blocks i sz n len data s)) b))
      (takeWhile (\<lambda>b. b \<noteq> 0) (node_blocks (inode_read j s))) =
    map (\<lambda>b. take 511 (sectors (disk s) b)) (takeWhile (\<lambda>b. b \<noteq> 0) (node_blocks (inode_read j s)))"
    by (intro map_cong refl) (metis set_takeWhileD)
  then show ?thesis by (simp only: file_bytes_def)
qed

section \<open>Reading a file back\<close>

lemma concat_chunks:
  assumes "w \<le> len" "len - w \<le> 511 * length bs"
    and "\<And>k. k < length bs \<Longrightarrow> w + 511 * k < len \<Longrightarrow>
      g (bs ! k) = sector_chunk data (w + 511 * k) (min (len - (w + 511 * k)) 511)"
  shows "take (len - w) (concat (map (\<lambda>b. take 511 (g b)) bs)) = map (cchar data) [w..<len]"
  using assms
proof (induction bs arbitrary: w)
  case (Cons b bs)
  show ?case
  proof (cases "w = len")
    case False
    let ?c = "min (len - w) 511"
    have b: "g b = sector_chunk data w ?c" using Cons.prems(1,3) False by (fastforce dest: spec [of _ 0])
    have chunk: "take 511 (g b) = map (cchar data) [w..<w + ?c] @ replicate (511 - ?c) 0"
      unfolding b sector_chunk_def by (auto simp: list_eq_iff_nth_eq nth_append)
    show ?thesis
    proof (cases "len - w \<le> 511")
      case True
      with chunk False Cons.prems(1) show ?thesis by simp
    next
      case long: False
      have "take (len - (w + 511)) (concat (map (\<lambda>b. take 511 (g b)) bs)) = map (cchar data) [w + 511..<len]"
      proof (rule Cons.IH)
        fix k assume "k < length bs" "w + 511 + 511 * k < len"
        then show "g (bs ! k) = sector_chunk data (w + 511 + 511 * k) (min (len - (w + 511 + 511 * k)) 511)"
          using Cons.prems(3) [of "Suc k"] by (simp add: add.assoc)
      qed (use long Cons.prems in auto)
      moreover have "[w..<len] = [w..<w + 511] @ [w + 511..<len]"
        using upt_add_eq_append [of w "w + 511" "len - (w + 511)"] long by simp
      ultimately show ?thesis using chunk long by simp
    qed
  qed simp
qed simp

lemma distinct_filled:
  assumes "distinct (filter (\<lambda>b. b \<noteq> 0) xs)" "length (filter (\<lambda>b. b = 0) xs) \<le> 1" "a \<notin> set xs"
  shows "distinct (map (\<lambda>b. if b = 0 then a else b) xs)"
  using assms
proof (induction xs)
  case (Cons x xs)
  then show ?case
  proof (cases "x = 0")
    case True
    with Cons.prems have "0 \<notin> set xs" by (auto simp: filter_empty_conv)
    then have "map (\<lambda>b. if b = 0 then a else b) xs = xs" "filter (\<lambda>b. b \<noteq> 0) xs = xs"
      by (auto intro!: map_idI filter_True)
    with True Cons.prems show ?thesis by simp
  qed (use Cons in auto)
qed simp

text \<open>At most one of the blocks a write of \<open>n\<close> sectors needs is missing, and none is doubled.\<close>

definition room_for :: "nat \<Rightarrow> fs_inode \<Rightarrow> bool" where
  "room_for n node \<longleftrightarrow> distinct (filter (\<lambda>b. b \<noteq> 0) (take n (node_blocks node))) \<and>
     length (filter (\<lambda>b. b = 0) (take n (node_blocks node))) \<le> 1"

lemma take_filled_blocks:
  assumes "inode_ok (inode_read i s)" "n \<le> 4"
  shows "take n (node_blocks (filled i n s)) =
    map (\<lambda>b. if b = 0 then block_alloc s else b) (take n (node_blocks (inode_read i s)))"
  using assms by (auto simp: filled_def fill_blocks_fields inode_ok_def list_eq_iff_nth_eq)

lemma put_blocks_file_bytes:
  assumes "fs_inv B s" "B + 1 < 2 ^ 28" "i \<in> inode_ids" "live (inode_read i s)"
    and "sz \<le> max_size" "room_for (blocks_for sz) (inode_read i s)"
  shows "file_bytes (disk (put_blocks i sz (blocks_for sz) (unat sz) data s))
      ((filled i (blocks_for sz) s)\<lparr>node_size := sz\<rparr>) = map (cchar data) [0..<unat sz]"
proof -
  let ?n = "blocks_for sz"
  have n: "?n \<le> 4" "unat sz \<le> 511 * ?n" using blocks_for_bounds [OF assms(5)] by (auto simp: blocks_for_def)
  note f = filled_facts [OF assms(1-4) n(1)] and p = put_blocks_facts [OF assms(1-4) n(1)]
  let ?bs = "take ?n (node_blocks (filled i ?n s))"
  let ?g = "sectors (disk (put_blocks i sz ?n (unat sz) data s))"
  have "block_alloc s \<notin> set (take ?n (node_blocks (inode_read i s)))"
    using block_alloc_inv [OF assms(1)] assms(2-4) by (auto dest: in_set_takeD)
  moreover have ok: "inode_ok (inode_read i s)" using assms(1,3) by (blast intro: inode_read_valid)
  ultimately have dist: "distinct ?bs"
    using assms(6) n(1) by (simp add: take_filled_blocks distinct_filled room_for_def)
  have secs: "?g (?bs ! k) = sector_chunk data (0 + 511 * k) (min (unat sz - (0 + 511 * k)) 511)"
    if "k < length ?bs" "0 + 511 * k < unat sz" for k
  proof -
    have "9 \<le> unat (?bs ! k)" using f(6) that(1) nth_mem by blast
    then show ?thesis unfolding p(3) [OF \<open>9 \<le> unat (?bs ! k)\<close>]
      using sectors_written_block [OF dist that(1), of 0] that(2) by simp
  qed
  have nz: "b \<noteq> 0" if "b \<in> set ?bs" for b using f(6) that by fastforce
  have "takeWhile (\<lambda>b. b \<noteq> 0) (node_blocks (filled i ?n s)) =
      ?bs @ takeWhile (\<lambda>b. b \<noteq> 0) (drop ?n (node_blocks (filled i ?n s)))"
    using takeWhile_append2 [of ?bs "\<lambda>b. b \<noteq> 0" "drop ?n (node_blocks (filled i ?n s))"] nz by simp
  moreover have "unat sz \<le> length (concat (map (\<lambda>b. take 511 (?g b)) ?bs))"
  proof -
    have "length (concat (map (\<lambda>b. take 511 (?g b)) ?bs)) = 511 * length ?bs"
      using p(1) [of sz "unat sz" data] by (auto simp: length_concat comp_def fs_inv_def disk_ok_def sum_list_triv)
    then show ?thesis using n(2) f(7) by simp
  qed
  ultimately have "file_bytes (disk (put_blocks i sz ?n (unat sz) data s)) ((filled i ?n s)\<lparr>node_size := sz\<rparr>) =
      take (unat sz) (concat (map (\<lambda>b. take 511 (?g b)) ?bs))"
    by (simp add: file_bytes_def)
  also have "\<dots> = map (cchar data) [0..<unat sz]"
    using concat_chunks [of 0 "unat sz" ?bs ?g data, OF _ _ secs] n(2) f(7) by simp
  finally show ?thesis .
qed

lemma lookup_cong:
  assumes "\<And>j. j \<in> inode_ids \<Longrightarrow> matches name dir (inode_read j t) \<longleftrightarrow> matches name dir (inode_read j s)"
  shows "lookup name dir t = lookup name dir s"
proof -
  have "(of_nat k :: u32) \<in> inode_ids" if "1 \<le> k" "k < FS_MAX_INODES + 1" for k
    using id_of_nat [of k] that by (simp add: FS_MAX_INODES_def)
  then have "first_index (\<lambda>k. matches name dir (inode_read (of_nat k) t)) 1 (FS_MAX_INODES + 1) =
      first_index (\<lambda>k. matches name dir (inode_read (of_nat k) s)) 1 (FS_MAX_INODES + 1)"
    using assms by (intro first_index_cong) blast
  then show ?thesis by (simp add: lookup_as_search)
qed

lemma put_blocks_lookup:
  assumes "fs_inv B s" "B + 1 < 2 ^ 28" "i \<in> inode_ids" "live (inode_read i s)" "n \<le> 4"
  shows "lookup name dir (put_blocks i sz n len data s) = lookup name dir s"
  using filled_facts [OF assms] put_blocks_facts(2) [OF assms]
  by (intro lookup_cong) (auto simp: matches_def name_free_def)

lemma fs_read_eq:
  assumes "fs_inv B s" "B < 2 ^ 28" "lookup name (current_dir s) s = i" "i \<noteq> 0"
    and "node_is_directory (inode_read i s) = 0" "min (unat (node_size (inode_read i s))) (unat bsz) \<le> length buf"
  shows "fs_read (Some name) (Some buf) bsz s =
    (let r = take (unat bsz) (file_bytes (disk s) (inode_read i s)) in (int (length r), Some (r @ drop (length r) buf)))"
proof -
  have i: "i \<in> inode_ids" "live (inode_read i s)" using lookup_found [OF assms(3,4)] by (simp_all add: matches_def)
  have small: "\<forall>b\<in>set (node_blocks (inode_read i s)). unat b < 2 ^ 28"
    using fs_inv_wf [OF assms(1) i(1)] i(2) assms(2) by (fastforce simp: inode_wf_def)
  let ?sz = "node_size (inode_read i s)"
  have m: "unat (if ?sz > bsz then bsz else ?sz) = min (unat ?sz) (unat bsz)"
    by (simp add: min_def word_less_nat_alt)
  show ?thesis
    using assms(3-6) read_loop_result [of "disk s" "node_blocks (inode_read i s)" 0 "min (unat ?sz) (unat bsz)" buf]
      assms(1) small m
    by (simp add: fs_read_def Let_def file_bytes_def fs_inv_disk take_take min.commute split_def)
qed

end
