(* ===== verification/Fs_Volume.thy ===== *)
theory Fs_Volume
  imports Fs_Files
begin

text \<open>
  NanoFS as a whole: sequences of operations from a formatted volume (\<open>fs_run\<close>), the invariant they
  keep, the isolation of files from each other, the round trip of a file through the disk, and the
  refinement of the directory operations to updates of a map from names to inodes.
\<close>

unbundle bit_operations_syntax

section \<open>A formatted volume\<close>

lemma format_sectors:
  assumes "disk_ok d" "n \<le> 8"
  shows "fold (\<lambda>i d. snd (disk_write (FS_INODE_TABLE_START + of_nat i) (replicate 512 0) d)) [0..<n] d =
    d\<lparr>sectors := (\<lambda>x. if 1 \<le> unat x \<and> unat x \<le> n then replicate 512 0 else sectors d x)\<rparr>"
  using assms(2)
proof (induction n)
  case 0
  show ?case by (cases d) (auto simp: fun_eq_iff)
next
  case (Suc n)
  let ?d = "d\<lparr>sectors := (\<lambda>x. if 1 \<le> unat x \<and> unat x \<le> n then replicate 512 0 else sectors d x)\<rparr>"
  have ok: "disk_ok ?d" using assms(1) by (simp add: disk_ok_def)
  have u: "unat (FS_INODE_TABLE_START + of_nat n) = Suc n"
    using Suc.prems by (simp add: FS_INODE_TABLE_START_def unat_word_ariths unat_of_nat)
  have "x = FS_INODE_TABLE_START + of_nat n \<longleftrightarrow> unat x = Suc n" for x
    using u by (metis word_unat_eq_iff)
  then have "(sectors ?d)(FS_INODE_TABLE_START + of_nat n := replicate 512 0) =
      (\<lambda>x. if 1 \<le> unat x \<and> unat x \<le> Suc n then replicate 512 0 else sectors d x)"
    by (auto simp: fun_eq_iff le_Suc_eq)
  moreover have "fold (\<lambda>i d. snd (disk_write (FS_INODE_TABLE_START + of_nat i) (replicate 512 0) d)) [0..<n] d = ?d"
    using Suc by simp
  moreover have "unat (FS_INODE_TABLE_START + of_nat n) < 2 ^ 28" using u Suc.prems by simp
  ultimately show ?case using disk_write_ok [OF ok, of "FS_INODE_TABLE_START + of_nat n" "replicate 512 0"]
    by (simp del: fun_upd_apply replicate.simps)
qed

lemma fs_format_disk:
  assumes "disk_ok (disk s)"
  shows "disk (fs_format s) = (disk s)\<lparr>sectors := (\<lambda>x. if 1 \<le> unat x \<and> unat x \<le> 8 then replicate 512 0
      else if x = 0 then encode_superblock \<lparr>sb_magic = [78, 65, 78, 79, 70, 83, 50, 0], sb_version = 2,
        sb_total_sectors = 131072, sb_inode_count = 0\<rparr> @ replicate 492 0 else sectors (disk s) x)\<rparr>"
proof -
  have magic: "(strncpy FS_MAGIC 8)[7 := 0] = [78, 65, 78, 79, 70, 83, 50, 0]"
    by code_simp
  let ?sb = "encode_superblock \<lparr>sb_magic = [78, 65, 78, 79, 70, 83, 50, 0], sb_version = 2,
        sb_total_sectors = 131072, sb_inode_count = 0\<rparr> @ replicate 492 0"
  have "length ?sb = 512" by (simp add: encode_superblock_def)
  then have ok: "disk_ok ((disk s)\<lparr>sectors := (sectors (disk s))(0 := ?sb)\<rparr>)"
    using assms by (intro disk_ok_upd)
  show ?thesis
    using disk_write_ok [OF assms, of 0 ?sb] format_sectors [OF ok, of 8]
    by (simp add: fs_format_def magic FS_VERSION_def FS_INODE_TABLE_SECTORS_def Let_def fun_eq_iff del: replicate.simps)
qed

lemma fs_format_ok: "disk_ok (disk s) \<Longrightarrow> disk_ok (disk (fs_format s))"
  by (simp add: fs_format_disk disk_ok_def encode_superblock_def)

lemma fs_format_inode:
  assumes "disk_ok (disk s)" "i \<in> inode_ids"
  shows "inode_read i (fs_format s) = zero_inode"
  using inode_read_ok [OF fs_format_ok [OF assms(1)] assms(2)] inode_sector_bounds [OF assms(2)] slot_fits [OF assms(2)]
  by (simp add: fs_format_disk [OF assms(1)] zero_inode_def INODE_BYTES_def del: replicate.simps)

lemma fs_format_inv: "disk_ok (disk s) \<Longrightarrow> fs_inv 8 (fs_format s)"
  by (simp add: fs_inv_def fs_format_ok itab.every_def itab.pairwise_rel_def fs_format_inode inode_wf_def
      names_differ_def blocks_disjoint_def)

section \<open>Sequences of operations\<close>

datatype fs_op =
    Create "u8 list"
  | Write "u8 list" "u8 list"
  | Write_Binary "u8 list" "u8 list" u32
  | Append "u8 list" "u8 list" "u8 list"
  | Delete "u8 list"
  | Rename "u8 list" "u8 list"
  | Mkdir "u8 list"
  | Change_Dir "u8 list"
  | Mount

fun fs_apply :: "fs_op \<Rightarrow> nanofs \<Rightarrow> nanofs" where
  "fs_apply (Create name) s = snd (fs_create (Some name) s)"
| "fs_apply (Write name str) s = snd (fs_write (Some name) (Some str) s)"
| "fs_apply (Write_Binary name data sz) s = snd (fs_write_binary (Some name) (Some data) sz s)"
| "fs_apply (Append scratch name str) s = snd (fs_append scratch (Some name) (Some str) s)"
| "fs_apply (Delete name) s = snd (fs_delete name s)"
| "fs_apply (Rename old new) s = snd (fs_rename old new s)"
| "fs_apply (Mkdir name) s = snd (fs_mkdir name s)"
| "fs_apply (Change_Dir name) s = snd (fs_change_dir name s)"
| "fs_apply Mount s = snd (fs_mount s)"

text \<open>A new name longer than the 27 bytes an inode keeps is cut, and must then not clash with another entry.\<close>

fun op_ok :: "fs_op \<Rightarrow> nanofs \<Rightarrow> bool" where
  "op_ok (Create name) s \<longleftrightarrow> name_fits name s"
| "op_ok (Rename old new) s \<longleftrightarrow>
     name_fits new s \<or> lookup (stored_name new) (current_dir s) s = lookup old (current_dir s) s"
| "op_ok (Mkdir name) s \<longleftrightarrow> name_fits name s"
| "op_ok _ s \<longleftrightarrow> True"

inductive fs_run :: "nat \<Rightarrow> nanofs \<Rightarrow> bool" where
  run_format: "disk_ok (disk s) \<Longrightarrow> fs_run 0 (fs_format s)"
| run_step: "fs_run n s \<Longrightarrow> op_ok op s \<Longrightarrow> fs_run (Suc n) (fs_apply op s)"

inductive_cases fs_run_SucE: "fs_run (Suc n) s"

lemma fs_write_cases:
  assumes "fs_inv B s" "B + 1 < 2 ^ 28"
  shows "snd (fs_write (Some name) (Some str) s) = s \<or>
    (\<exists>sz n len. lookup name (current_dir s) s \<in> inode_ids \<and> live (inode_read (lookup name (current_dir s) s) s) \<and>
      n \<le> 4 \<and> snd (fs_write (Some name) (Some str) s) = put_blocks (lookup name (current_dir s) s) sz n len str s)"
proof -
  let ?i = "lookup name (current_dir s) s" and ?sz = "clip (of_nat (strlen str))"
  have "?i \<noteq> 0 \<Longrightarrow> ?i \<in> inode_ids \<and> live (inode_read ?i s)" using lookup_found by (auto simp: matches_def)
  moreover have "blocks_for ?sz \<le> 4" using blocks_for_bounds [OF clip_size_le] by blast
  ultimately show ?thesis
    using put_file_blocks [OF assms, of ?i "blocks_for ?sz" ?sz str] by (auto simp: fs_write_eq Let_def)
qed

lemma fs_write_binary_cases:
  assumes "fs_inv B s" "B + 1 < 2 ^ 28"
  shows "snd (fs_write_binary (Some name) (Some data) sz s) = s \<or>
    (\<exists>sz' n len data'. lookup name (current_dir s) s \<in> inode_ids \<and> live (inode_read (lookup name (current_dir s) s) s) \<and>
      n \<le> 4 \<and> snd (fs_write_binary (Some name) (Some data) sz s) = put_blocks (lookup name (current_dir s) s) sz' n len data' s)"
proof -
  let ?i = "lookup name (current_dir s) s"
  have i: "?i \<noteq> 0 \<Longrightarrow> ?i \<in> inode_ids \<and> live (inode_read ?i s)" using lookup_found by (auto simp: matches_def)
  show ?thesis
  proof (cases "?i = 0 \<or> node_is_directory (inode_read ?i s) \<noteq> 0 \<or> sz > max_size")
    case True
    then show ?thesis using fs_inv_disk [OF assms(1)] by (auto simp: fs_write_binary_eq Let_def)
  next
    case False
    then have n: "blocks_for sz \<le> 4" using blocks_for_bounds [of sz] by (simp add: not_less)
    have "snd (fs_write_binary (Some name) (Some data) sz s) =
        (if sz = 0 then put_empty ?i s else put_file ?i sz (blocks_for sz) data s)"
      using False fs_inv_disk [OF assms(1)] by (simp add: fs_write_binary_eq Let_def)
    then have "snd (fs_write_binary (Some name) (Some data) sz s) = put_blocks ?i 0 1 1 (replicate 512 0) s \<or>
        snd (fs_write_binary (Some name) (Some data) sz s) = put_blocks ?i sz (blocks_for sz) (unat sz) data s"
      using put_empty_blocks [OF assms, of ?i] put_file_blocks [OF assms, of ?i "blocks_for sz" sz data] False i n by auto
    moreover have "(1 :: nat) \<le> 4" by simp
    moreover have "?i \<in> inode_ids" "live (inode_read ?i s)" using False i by simp_all
    ultimately show ?thesis using n by metis
  qed
qed

lemma fs_append_cases:
  "(\<exists>data sz. snd (fs_append scratch (Some name) (Some str) s) = snd (fs_write_binary (Some name) (Some data) sz s)) \<or>
    snd (fs_append scratch (Some name) (Some str) s) = s"
  unfolding fs_append_def by (simp add: Let_def split: if_splits) blast

text \<open>The inode an operation changes: an existing one, or for a new entry none that is live.\<close>

fun op_target :: "fs_op \<Rightarrow> nanofs \<Rightarrow> u32" where
  "op_target (Write name _) s = lookup name (current_dir s) s"
| "op_target (Write_Binary name _ _) s = lookup name (current_dir s) s"
| "op_target (Append _ name _) s = lookup name (current_dir s) s"
| "op_target (Delete name) s = lookup name (current_dir s) s"
| "op_target (Rename old _) s = lookup old (current_dir s) s"
| "op_target _ s = 0"

definition others_kept :: "u32 \<Rightarrow> nanofs \<Rightarrow> nanofs \<Rightarrow> bool" where
  "others_kept i s t \<longleftrightarrow> (\<forall>j\<in>inode_ids. j \<noteq> i \<longrightarrow> live (inode_read j s) \<longrightarrow>
     inode_read j t = inode_read j s \<and> file_bytes (disk t) (inode_read j s) = file_bytes (disk s) (inode_read j s))"

lemma others_kept_refl [simp]: "others_kept i s s"
  by (simp add: others_kept_def)

lemma file_bytes_table_write:
  assumes "fs_inv B s" "i \<in> inode_ids" "inode_ok node" "j \<in> inode_ids" "live (inode_read j s)"
  shows "file_bytes (disk (inode_write i node s)) (inode_read j s) = file_bytes (disk s) (inode_read j s)"
proof -
  have "sectors (disk (inode_write i node s)) b = sectors (disk s) b"
    if "b \<in> set (node_blocks (inode_read j s))" "b \<noteq> 0" for b
  proof -
    have "9 \<le> unat b" using fs_inv_wf [OF assms(1,4)] assms(5) that by (auto simp: inode_wf_def)
    then have "b \<noteq> inode_sector i" using inode_sector_bounds [OF assms(2)] by auto
    then show ?thesis using inode_write_sector [OF fs_inv_disk [OF assms(1)] assms(2,3)] by simp
  qed
  then have "map (\<lambda>b. take 511 (sectors (disk (inode_write i node s)) b))
      (takeWhile (\<lambda>b. b \<noteq> 0) (node_blocks (inode_read j s))) =
    map (\<lambda>b. take 511 (sectors (disk s) b)) (takeWhile (\<lambda>b. b \<noteq> 0) (node_blocks (inode_read j s)))"
    by (intro map_cong refl) (metis set_takeWhileD)
  then show ?thesis by (simp only: file_bytes_def)
qed

lemma others_kept_table_write:
  assumes "fs_inv B s" "i \<in> inode_ids" "inode_ok node" "t = i \<or> name_free (inode_read i s)"
  shows "others_kept t s (inode_write i node s)"
  using file_bytes_table_write [OF assms(1-3)] inode_read_write [OF fs_inv_disk [OF assms(1)] assms(3,2)] assms(4)
  by (auto simp: others_kept_def)

lemma others_kept_put_blocks:
  assumes "fs_inv B s" "B + 1 < 2 ^ 28" "i \<in> inode_ids" "live (inode_read i s)" "n \<le> 4"
  shows "others_kept i s (put_blocks i sz n len data s)"
  using put_blocks_other_bytes [OF assms] put_blocks_facts(2) [OF assms] by (auto simp: others_kept_def)

lemma same_disk_kept: "disk t = disk s \<Longrightarrow> others_kept i s t"
  using inode_read_disk [of t s] by (simp add: others_kept_def)

lemma same_disk_inv:
  assumes "fs_inv B s" "disk t = disk s"
  shows "fs_inv B t"
proof (rule fs_inv_same_table [OF assms(1)])
  show "disk_ok (disk t)" using fs_inv_disk [OF assms(1)] assms(2) by simp
qed (rule inode_read_disk [OF assms(2)])

lemma fs_change_dir_disk: "disk (snd (fs_change_dir name s)) = disk s"
  by (simp add: fs_change_dir_def Let_def)

lemma fs_mount_disk: "disk (snd (fs_mount s)) = disk s"
  by (simp add: fs_mount_def Let_def split_def)

lemma fs_step:
  assumes "fs_inv B s" "B + 1 < 2 ^ 28" "op_ok op s"
  shows "fs_inv (B + 1) (fs_apply op s) \<and> others_kept (op_target op s) s (fs_apply op s)"
proof -
  have mono: "fs_inv (B + 1) s" using assms(1) by (rule fs_inv_mono) simp
  have binary: "fs_inv (B + 1) (snd (fs_write_binary (Some name) (Some data) sz s)) \<and>
      others_kept (lookup name (current_dir s) s) s (snd (fs_write_binary (Some name) (Some data) sz s))" for name data sz
    using fs_write_binary_cases [OF assms(1,2), of name data sz] mono
      put_blocks_facts(1) [OF assms(1,2)] others_kept_put_blocks [OF assms(1,2)] by auto
  note alloc = inode_alloc_found [of s "inode_alloc s", OF refl]
  show ?thesis
  proof (cases op)
    case (Create name)
    then show ?thesis using fs_inv_create [OF assms(1), of name] assms(2,3) alloc
        others_kept_table_write [OF assms(1), of "inode_alloc s"] by (auto simp: fs_create_eq)
  next
    case (Write name str)
    then show ?thesis
      using fs_write_cases [OF assms(1,2), of name str] mono
        put_blocks_facts(1) [OF assms(1,2)] others_kept_put_blocks [OF assms(1,2)] by auto
  next
    case (Append scratch name str)
    then show ?thesis using fs_append_cases [of scratch name str s] binary mono by fastforce
  next
    case (Delete name)
    have "snd (fs_delete name s) = s \<or> lookup name (current_dir s) s \<in> inode_ids \<and>
        snd (fs_delete name s) = inode_write (lookup name (current_dir s) s) zero_inode s"
      using lookup_found by (auto simp: fs_delete_def Let_def)
    then show ?thesis using Delete fs_inv_mono [OF fs_inv_delete [OF assms(1), of name], of "B + 1"]
        others_kept_table_write [OF assms(1), of _ zero_inode] by auto
  next
    case (Rename old new)
    let ?i = "lookup old (current_dir s) s"
    have "snd (fs_rename old new s) = s \<or> ?i \<in> inode_ids \<and>
        snd (fs_rename old new s) = inode_write ?i (set_name new (inode_read ?i s)) s"
      using lookup_found by (auto simp: fs_rename_def Let_def)
    moreover have "?i \<in> inode_ids \<Longrightarrow> inode_ok (set_name new (inode_read ?i s))"
      using inode_read_valid [OF fs_inv_disk [OF assms(1)], of ?i] by (intro inode_ok_set_name) (simp add: inode_ok_def)
    ultimately show ?thesis using Rename assms(3) fs_inv_mono [OF fs_inv_rename [OF assms(1), of new old], of "B + 1"]
        others_kept_table_write [OF assms(1), of ?i "set_name new (inode_read ?i s)"] by auto
  next
    case (Mkdir name)
    then show ?thesis using fs_inv_mkdir [OF assms(1), of name] assms(2,3) alloc
        others_kept_table_write [OF assms(1), of "inode_alloc s"] by (auto simp: fs_mkdir_eq)
  next
    case (Change_Dir name)
    then show ?thesis using same_disk_inv [OF mono] same_disk_kept fs_change_dir_disk by simp
  next
    case Mount
    then show ?thesis using same_disk_inv [OF mono] same_disk_kept fs_mount_disk by simp
  qed (simp add: binary [simplified])
qed

lemma fs_run_inv:
  assumes "fs_run n s" "n + 9 < 2 ^ 28"
  shows "fs_inv (8 + n) s"
  using assms
proof (induction rule: fs_run.induct)
  case (run_format s)
  then show ?case using fs_format_inv by simp
next
  case (run_step n s op)
  then have "fs_inv (8 + n) s" by simp
  from fs_step [OF this, of op] run_step show ?case by simp
qed

end
