(* ===== verification/Fs_Correct.thy ===== *)
theory Fs_Correct
  imports Fs_Volume
begin

text \<open>The properties of NanoFS, with concrete volumes on which their hypotheses hold.\<close>

unbundle bit_operations_syntax

definition disk_sample :: disk where
  "disk_sample = \<lparr>sectors = (\<lambda>_. replicate 512 0), read_status = (\<lambda>_. 0), write_status = (\<lambda>_. 0), stale = replicate 512 0\<rparr>"

definition volume_sample :: nanofs where
  "volume_sample = fs_format (fs_initial disk_sample)"

definition name_a :: "u8 list" where "name_a = [97]"
definition name_b :: "u8 list" where "name_b = [98]"

lemma disk_sample_ok [simp]: "disk_ok disk_sample"
  by (simp add: disk_ok_def disk_sample_def)

lemma volume_sample_ok [simp]: "disk_ok (disk volume_sample)"
  by (simp add: volume_sample_def fs_format_ok fs_initial_def)

lemma volume_sample_inode: "i \<in> inode_ids \<Longrightarrow> inode_read i volume_sample = zero_inode"
  by (simp add: volume_sample_def fs_format_inode fs_initial_def)

lemma volume_sample_dir [simp]: "current_dir volume_sample = 0"
  by (simp add: volume_sample_def fs_format_def Let_def)

lemma short_names [simp]: "short_name name_a" "short_name name_b"
  by (simp_all add: short_name_def name_a_def name_b_def)

lemma names_fit [simp]: "name_fits name_a s" "name_fits name_b s"
  by (simp_all add: name_fits_def)

lemma volume_sample_run: "fs_run 0 volume_sample"
  unfolding volume_sample_def by (rule run_format) (simp add: fs_initial_def)

text \<open>A volume with one file \<open>a\<close>.\<close>

definition volume_a :: nanofs where
  "volume_a = fs_apply (Create name_a) volume_sample"

lemma volume_a_run: "fs_run 1 volume_a"
  unfolding volume_a_def using run_step [OF volume_sample_run, of "Create name_a"] by simp

lemma volume_sample_block: "block_alloc volume_sample = 9"
proof -
  have "used_blocks volume_sample = []"
    using used_blocks_iff [OF volume_sample_ok] volume_sample_inode by (fastforce simp: set_empty [symmetric] simp del: set_empty)
  then show ?thesis by (simp add: block_alloc_fold)
qed

lemma volume_sample_alloc: "inode_alloc volume_sample = 1"
proof -
  have "1 \<in> inode_ids" by (simp add: inode_ids_def)
  then have "inode_alloc volume_sample \<noteq> 0" using volume_sample_inode by (auto simp: inode_alloc_zero)
  moreover from this have "\<not> 1 < inode_alloc volume_sample"
    using inode_alloc_found [OF refl, of volume_sample] volume_sample_inode \<open>1 \<in> inode_ids\<close> by auto
  ultimately have "unat (inode_alloc volume_sample) \<noteq> 0" "unat (inode_alloc volume_sample) \<le> 1"
    by (simp_all add: unat_eq_0 word_less_nat_alt not_less)
  then have "unat (inode_alloc volume_sample) = unat (1 :: u32)" by simp
  then show ?thesis by (simp only: word_unat_eq_iff)
qed

lemma volume_a_eq: "volume_a = inode_write 1 (new_file name_a volume_sample) volume_sample"
proof -
  have "lookup name_a 0 volume_sample = 0" using volume_sample_inode by (simp add: lookup_zero matches_def)
  then show ?thesis by (simp add: volume_a_def fs_create_eq volume_sample_alloc)
qed

lemma volume_a_inode:
  "j \<in> inode_ids \<Longrightarrow> inode_read j volume_a = (if j = 1 then new_file name_a volume_sample else zero_inode)"
  unfolding volume_a_eq using inode_read_write [OF volume_sample_ok, of "new_file name_a volume_sample" 1 j] volume_sample_inode
  by (simp add: inode_ids_def)

lemma volume_a_dir [simp]: "current_dir volume_a = 0"
  unfolding volume_a_eq by (simp add: inode_write_def Let_def)

lemma volume_a_lookup: "lookup name_a 0 volume_a = 1"
proof -
  have one: "1 \<in> inode_ids" by (simp add: inode_ids_def)
  have m: "matches name_a 0 (inode_read j volume_a) \<longleftrightarrow> j = 1" if "j \<in> inode_ids" for j
    using that cstr_set_name [of name_a zero_inode] by (simp add: volume_a_inode matches_def) (simp add: name_a_def)
  then have "lookup name_a 0 volume_a \<noteq> 0" using one by (auto simp: lookup_zero)
  then show ?thesis using lookup_found [OF refl, of name_a 0 volume_a] m by auto
qed

lemma volume_a_inv: "fs_inv 9 volume_a"
  using fs_run_inv [OF volume_a_run] by simp

section \<open>The inode table\<close>

text \<open>The inode table is an array. The packed layout of an inode is a bijection between inodes and
  their 54 bytes, and on a disk whose accesses succeed \<open>inode_read\<close> returns what \<open>inode_write\<close> stored
  under the same number and is not affected by writes under other numbers, although nine inodes
  share a sector.\<close>

theorem inode_table_roundtrip:
  assumes "disk_ok (disk s)" and "inode_ok node" and "i \<in> inode_ids" and "j \<in> inode_ids"
  shows "decode_inode (encode_inode node) = node \<and> length (encode_inode node) = INODE_BYTES \<and>
    (\<forall>bs. length bs = INODE_BYTES \<longrightarrow> encode_inode (decode_inode bs) = bs) \<and>
    inode_read j (inode_write i node s) = (if j = i then node else inode_read j s) \<and>
    disk_ok (disk (inode_write i node s))"
  using assms by (simp add: decode_encode_inode length_encode_inode INODE_BYTES_def encode_decode_inode
      inode_read_write inode_write_ok)

theorem inode_table_roundtrip_witness:
  "inode_read 2 (inode_write 1 zero_inode volume_sample) = inode_read 2 volume_sample"
  using inode_table_roundtrip [of volume_sample zero_inode 1 2] by (simp add: inode_ids_def)

section \<open>Searching a directory\<close>

text \<open>\<open>lookup\<close> returns the least inode number with that name and that parent, and 0 exactly when
  there is none. Under the volume invariant there is at most one, so the result does not depend on
  the order of the search.\<close>

theorem lookup_correct:
  assumes "fs_run n s" and "n + 9 < 2 ^ 28"
  shows "(lookup name dir s = 0 \<longleftrightarrow> (\<forall>i\<in>inode_ids. \<not> matches name dir (inode_read i s))) \<and>
    (\<forall>i\<in>inode_ids. lookup name dir s = i \<longleftrightarrow> matches name dir (inode_read i s))"
proof (intro conjI ballI)
  show "lookup name dir s = 0 \<longleftrightarrow> (\<forall>i\<in>inode_ids. \<not> matches name dir (inode_read i s))" by (rule lookup_zero)
  fix i assume i: "i \<in> inode_ids"
  then have nz: "i \<noteq> 0" by (auto simp: inode_ids_def)
  note inv = fs_run_inv [OF assms]
  show "lookup name dir s = i \<longleftrightarrow> matches name dir (inode_read i s)"
  proof
    assume m: "matches name dir (inode_read i s)"
    then have "lookup name dir s \<noteq> 0" using i by (auto simp: lookup_zero)
    from lookup_found [OF refl this] have "lookup name dir s \<in> inode_ids" "matches name dir (inode_read (lookup name dir s) s)"
      by auto
    then show "lookup name dir s = i"
      using fs_inv_names [OF inv i, of "lookup name dir s"] m unfolding names_differ_def matches_def by metis
  qed (use lookup_found nz in blast)
qed

theorem lookup_correct_witness: "lookup name_a 0 volume_sample = 0"
  using lookup_correct [OF volume_sample_run, of name_a 0] volume_sample_inode by (simp add: matches_def)

section \<open>The volume\<close>

text \<open>C6: On a formatted volume whose disk works, after n operations, of any kind and with any arguments, up to 2^28 - 10 of them
  and none of them giving an entry a name longer than 27 bytes that, cut to these, is that of another entry of its directory:
  two live inodes never have the same name in one directory and never share a data block, and every block of a live inode lies
  in the data area, above the superblock and the inode table, and below sector 9 + n. So blocks stay
  on the disk as long as it has 9 + n sectors; the code has no bound of its own.\<close>

theorem fs_volume_invariant:
  assumes "fs_run n s" and "n + 9 < 2 ^ 28" and "i \<in> inode_ids" and "live (inode_read i s)"
  shows "(\<forall>b\<in>set (node_blocks (inode_read i s)). b = 0 \<or> 9 \<le> unat b \<and> unat b \<le> 8 + n) \<and>
    (\<forall>j\<in>inode_ids. j \<noteq> i \<and> live (inode_read j s) \<longrightarrow>
       set (node_blocks (inode_read i s)) \<inter> set (node_blocks (inode_read j s)) \<subseteq> {0} \<and>
       (node_parent (inode_read i s) = node_parent (inode_read j s) \<longrightarrow>
          cstr (node_name (inode_read i s)) \<noteq> cstr (node_name (inode_read j s))))"
  using fs_run_inv [OF assms(1,2)] assms(3,4) fs_inv_wf [of "8 + n" s i] fs_inv_names [of "8 + n" s i] fs_inv_blocks [of "8 + n" s i]
  by (auto simp: inode_wf_def names_differ_def blocks_disjoint_def)

theorem fs_volume_invariant_witness:
  "node_blocks (inode_read 1 volume_a) ! 0 = 0 \<or> unat (node_blocks (inode_read 1 volume_a) ! 0) = 9"
proof -
  have one: "1 \<in> inode_ids" by (simp add: inode_ids_def)
  then have "live (inode_read 1 volume_a)" "node_blocks (inode_read 1 volume_a) ! 0 \<in> set (node_blocks (inode_read 1 volume_a))"
    by (simp_all add: volume_a_inode name_a_def)
  with fs_volume_invariant [OF volume_a_run _ one] show ?thesis by fastforce
qed

text \<open>C5: Files are isolated from each other. Whatever operation is made on a volume, every live
  inode other than the one the operation names keeps its metadata and the bytes of its file.\<close>

theorem fs_isolation:
  assumes "fs_run n s" and "n + 9 < 2 ^ 28" and "op_ok op s"
    and "j \<in> inode_ids" and "live (inode_read j s)" and "j \<noteq> op_target op s"
  shows "inode_read j (fs_apply op s) = inode_read j s \<and>
    file_bytes (disk (fs_apply op s)) (inode_read j s) = file_bytes (disk s) (inode_read j s)"
  using fs_step [OF fs_run_inv [OF assms(1,2)] _ assms(3)] assms by (auto simp: others_kept_def)

theorem fs_isolation_witness:
  "inode_read 1 (fs_apply (Create name_b) volume_a) = new_file name_a volume_sample"
  using fs_isolation [OF volume_a_run, of "Create name_b" 1] volume_a_inode [of 1]
  by (simp add: inode_ids_def name_a_def)

section \<open>Reading and writing\<close>

lemma cchar_cstr: "k < length (cstr s) \<Longrightarrow> cchar s k = cstr s ! k"
proof (induction s arbitrary: k)
  case (Cons c s)
  have "cchar (c # s) 0 = c" "cchar (c # s) (Suc k) = cchar s k" for k by (simp_all add: cchar_def)
  with Cons show ?case by (cases k) (auto split: if_splits)
qed simp


lemma unat_of_nat_eq: "n < 2 ^ 32 \<Longrightarrow> unat (of_nat n :: u32) = n"
  by (simp add: unat_of_nat)



text \<open>A write that needs two or more new blocks at once corrupts the file. The allocator looks at
  the inodes on the disk only, so all blocks missing in one write get the same number: of a text of 1023
  to 1533 bytes written to a new file, reading back gives the third chunk where the second should be.\<close>

theorem fs_write_three_blocks_corrupt:
  assumes "fs_run m s" and "m + 9 < 2 ^ 28" and "lookup name (current_dir s) s = i" and "i \<noteq> 0"
    and "node_is_directory (inode_read i s) = 0" and "node_blocks (inode_read i s) = [b, 0, 0, 0]" and "b \<noteq> 0"
    and "1022 < strlen contents" and "strlen contents \<le> 1533"
  shows "(let s' = snd (fs_write (Some name) (Some contents) s); node = inode_read i s' in
    node_blocks node ! 1 = node_blocks node ! 2 \<and> file_bytes (disk s') node ! 511 = cstr contents ! 1022)"
proof -
  let ?sz = "of_nat (strlen contents) :: u32"
  note inv = fs_run_inv [OF assms(1,2)]
  have B: "8 + m + 1 < 2 ^ 28" using assms(2) by simp
  have i: "i \<in> inode_ids" "live (inode_read i s)" using lookup_found [OF assms(3,4)] by (simp_all add: matches_def)
  have sz: "unat ?sz = strlen contents" using assms(9) by (simp add: unat_of_nat_eq)
  have clip: "clip ?sz = ?sz" using assms(9) sz by (simp add: clip_def max_size_2044 word_less_nat_alt)
  have n: "blocks_for ?sz = 3" using assms(8,9) unfolding blocks_for_def sz by linarith
  let ?t = "put_blocks i ?sz 3 (unat ?sz) contents s"
  have w: "fs_write (Some name) (Some contents) s = (0, ?t)"
    using assms(3-5) put_file_blocks [OF inv B i, of 3 ?sz contents] clip n by (simp add: fs_write_eq Let_def)
  have ok: "inode_ok (inode_read i s)" using inv i(1) by (blast intro: inode_read_valid)
  let ?a = "block_alloc s"
  have blocks: "node_blocks (filled i 3 s) = [b, ?a, ?a, 0]"
    using assms(6,7) ok by (simp add: filled_def fill_blocks_fields upt_4)
  note p = put_blocks_facts [OF inv B i, of 3]
  have a: "9 \<le> unat ?a" "?a \<noteq> b" using block_alloc_inv [OF inv] B i assms(6) by auto
  have b: "9 \<le> unat b" using fs_inv_wf [OF inv i(1)] i(2) assms(6,7) by (simp add: inode_wf_def)
  have node: "inode_read i ?t = (filled i 3 s)\<lparr>node_size := ?sz\<rparr>" using p(2) i by simp
  have len: "length (sectors (disk ?t) x) = 512" for x using p(1) by (auto simp: fs_inv_def disk_ok_def)
  have sec: "sectors (disk ?t) ?a = sector_chunk contents 1022 (strlen contents - 1022)"
  proof -
    have "min (strlen contents) 511 = 511" "min (strlen contents - 511) 511 = 511"
      "min (strlen contents - 1022) 511 = strlen contents - 1022" using assms(8,9) by auto
    then show ?thesis using p(3) a assms(8) blocks sz by simp
  qed
  have "file_bytes (disk ?t) (inode_read i ?t) ! 511 = sectors (disk ?t) ?a ! 0"
    unfolding node using assms(7,8) a sz blocks len by (auto simp: file_bytes_def nth_append)
  also have "\<dots> = cstr contents ! 1022"
    unfolding sec sector_chunk_def using assms(8) by (simp add: nth_append cchar_cstr strlen_cstr)
  finally show ?thesis unfolding w using node blocks by (simp add: Let_def)
qed

theorem fs_write_three_blocks_corrupt_witness:
  "(let s' = snd (fs_write (Some name_a) (Some (replicate 1022 65 @ [66])) volume_a); node = inode_read 1 s' in
    node_blocks node ! 1 = node_blocks node ! 2 \<and>
    file_bytes (disk s') node ! 511 = 66)"
proof -
  have one: "1 \<in> inode_ids" by (simp add: inode_ids_def)
  have c: "cstr (replicate 1022 65 @ [66]) = replicate 1022 65 @ [66]" by (rule cstr_idem) simp
  then have "strlen (replicate 1022 65 @ [66]) = 1023" by (simp add: strlen_cstr)
  with c show ?thesis
    using fs_write_three_blocks_corrupt [OF volume_a_run, of name_a 1 9 "replicate 1022 65 @ [66]"]
    by (simp add: volume_a_lookup volume_a_inode [OF one] volume_sample_block nth_append)
qed

end
