(* ===== verification/Fs_Directory.thy ===== *)
theory Fs_Directory
  imports Fs_Correct
begin

text \<open>
  The directory tree of NanoFS as a map from (directory, name) to inodes: the operations on directory
  entries are the updates of that map that the abstract operations \<open>spec_new\<close>, \<open>spec_delete\<close> and
  \<open>spec_rename\<close> describe. Listing, formatting and the space report.
\<close>

unbundle bit_operations_syntax

section \<open>The abstract directory\<close>

type_synonym directory = "u32 \<times> u8 list \<Rightarrow> fs_inode option"

definition dir_map :: "nanofs \<Rightarrow> directory" where
  "dir_map s = (\<lambda>(dir, name). if 0 \<in> set name \<or> lookup name dir s = 0 then None
     else Some (inode_read (lookup name dir s) s))"































section \<open>Listing\<close>

lemma list_loop_eq:
  "list_loop ids max_out s out =
    out @ take (nat max_out - length out) (filter (\<lambda>node. live node \<and> node_parent node = current_dir s)
      (map (\<lambda>k. inode_read (of_nat k) s) ids))"
proof (induction ids arbitrary: out)
  case (Cons k ids)
  show ?case
  proof (cases "int (length out) < max_out")
    case True
    then have "nat max_out - length out = Suc (nat max_out - Suc (length out))" by linarith
    with True Cons show ?thesis by (simp add: Let_def)
  next
    case False
    then have "nat max_out - length out = 0" by linarith
    with False show ?thesis by simp
  qed
qed simp

text \<open>\<open>fs_list\<close> stores the live inodes of the current directory in the order of their numbers, as
  many as fit, and nothing for a limit of 0 or less.\<close>

theorem fs_list_equivalent:
  "fs_list max_out s = take (nat max_out) (filter (\<lambda>node. live node \<and> node_parent node = current_dir s)
     (map (\<lambda>k. inode_read (of_nat k) s) [1..<73]))"
  unfolding fs_list_def list_loop_eq by (simp add: FS_MAX_INODES_def)

section \<open>Formatting, mounting, space\<close>

lemma fold_limit:
  assumes "\<forall>b\<in>set bs. unat b < 2 ^ 32 - 1" "unat (h :: u32) < 2 ^ 32 - 1"
  shows "fold (\<lambda>b used. if b \<ge> used then b + 1 else used) bs (h + 1) =
    fold (\<lambda>b h. if b > h then b else h) bs h + 1"
  using assms
proof (induction bs arbitrary: h)
  case (Cons b bs)
  have "b \<ge> h + 1 \<longleftrightarrow> b > h"
    using Cons.prems(2) by (simp add: word_le_nat_alt word_less_nat_alt unat_word_ariths Suc_le_eq)
  then show ?case using Cons by simp
qed simp

lemma fs_disk_stats_fold:
  "fst (fs_disk_stats s) = fold (\<lambda>b used. if b \<ge> used then b + 1 else used) (used_blocks s) 9"
proof -
  have "fold (\<lambda>ino used.
        let node = inode_read (of_nat ino) s in
        if name_free node then used
        else fold (\<lambda>b used. if node_blocks node ! b \<ge> used then node_blocks node ! b + 1 else used)
               [0..<FS_MAX_BLOCKS] used) ks h =
    fold (\<lambda>b used. if b \<ge> used then b + 1 else used) (concat (map (\<lambda>k. let node = inode_read (of_nat k) s in
     if name_free node then [] else map (\<lambda>b. node_blocks node ! b) [0..<4]) ks)) h" for ks h
    by (induction ks arbitrary: h) (simp_all add: Let_def FS_MAX_BLOCKS_def fold_map comp_def)
  then show ?thesis
    unfolding fs_disk_stats_def used_blocks_def by (simp add: FS_MAX_INODES_def FS_DATA_START_def)
qed

text \<open>The space report and the block allocator agree although they search differently: the number of
  used sectors that \<open>fs_disk_stats\<close> reports is the block \<open>block_alloc\<close> would hand out next, and every
  block of every live inode lies below it.\<close>

theorem fs_disk_stats_next_block:
  assumes "fs_run n s" and "n + 9 < 2 ^ 28"
  shows "fst (fs_disk_stats s) = block_alloc s \<and>
    (\<forall>i\<in>inode_ids. live (inode_read i s) \<longrightarrow> (\<forall>b\<in>set (node_blocks (inode_read i s)). b < fst (fs_disk_stats s)))"
proof -
  note inv = fs_run_inv [OF assms]
  have small: "unat b \<le> 8 + n" if "i \<in> inode_ids" "live (inode_read i s)" "b \<in> set (node_blocks (inode_read i s))" for i b
    using fs_inv_wf [OF inv that(1)] that by (auto simp: inode_wf_def)
  then have "unat b < 2 ^ 32 - 1" if "b \<in> set (used_blocks s)" for b
    using that assms(2) used_blocks_iff [OF fs_inv_disk [OF inv], of b] by fastforce
  then have "fst (fs_disk_stats s) = block_alloc s"
    unfolding fs_disk_stats_fold block_alloc_fold using fold_limit [of "used_blocks s" 8] by simp
  moreover have "blocks_below (8 + n) s" using small by (simp add: blocks_below_def)
  then have "\<forall>i\<in>inode_ids. live (inode_read i s) \<longrightarrow> (\<forall>b\<in>set (node_blocks (inode_read i s)). b < block_alloc s)"
    using block_alloc_fresh [OF fs_inv_disk [OF inv], of "8 + n"] assms(2) by simp
  ultimately show ?thesis by simp
qed

theorem fs_disk_stats_next_block_witness: "fst (fs_disk_stats volume_sample) = 9"
  using fs_disk_stats_next_block [OF volume_sample_run] volume_sample_block by simp

lemma fs_mount_eq:
  assumes "disk_ok (disk s)"
  shows "fs_mount s =
    (if cstr (take 8 (sectors (disk s) 0)) = FS_MAGIC \<and> (le_word (take 4 (drop 8 (sectors (disk s) 0))) :: u32) = 2
     then (1, s\<lparr>current_dir := 0, mounted_total_sectors := le_word (take 4 (drop 12 (sectors (disk s) 0)))\<rparr>)
     else (0, s))"
proof -
  have "disk_read 0 (disk s) = (0, sectors (disk s) 0)"
    using assms by (simp add: disk_read_def disk_ok_def lba28_small)
  moreover have "cstr FS_MAGIC = FS_MAGIC" by (simp add: FS_MAGIC_def)
  ultimately show ?thesis
    by (simp add: fs_mount_def decode_superblock_def strcmp_zero_iff FS_VERSION_def Let_def)
qed

text \<open>Mounting accepts exactly the volumes whose first sector carries the magic string and the
  version, and takes the size from it; a formatted volume is accepted, and its directory is empty.\<close>

theorem fs_format_then_mount:
  assumes "disk_ok (disk s)"
  shows "(fst (fs_mount s) = 1 \<longleftrightarrow>
      cstr (take 8 (sectors (disk s) 0)) = FS_MAGIC \<and> (le_word (take 4 (drop 8 (sectors (disk s) 0))) :: u32) = FS_VERSION) \<and>
    fs_mount (fs_format s) = (1, fs_format s) \<and> dir_map (fs_format s) = Map.empty"
proof (intro conjI)
  show "fst (fs_mount s) = 1 \<longleftrightarrow>
      cstr (take 8 (sectors (disk s) 0)) = FS_MAGIC \<and> (le_word (take 4 (drop 8 (sectors (disk s) 0))) :: u32) = FS_VERSION"
    using fs_mount_eq [OF assms] by (simp add: FS_VERSION_def)
  have ok: "disk_ok (disk (fs_format s))" using assms by (rule fs_format_ok)
  have sec: "sectors (disk (fs_format s)) 0 = [78, 65, 78, 79, 70, 83, 50, 0] @ le_bytes 4 (2 :: u32) @
      le_bytes 4 (131072 :: u32) @ le_bytes 4 (0 :: u32) @ replicate 492 0"
    by (simp add: fs_format_disk [OF assms] encode_superblock_def)
  have fields: "cstr (take 8 (sectors (disk (fs_format s)) 0)) = FS_MAGIC"
    "(le_word (take 4 (drop 8 (sectors (disk (fs_format s)) 0))) :: u32) = 2"
    "(le_word (take 4 (drop 12 (sectors (disk (fs_format s)) 0))) :: u32) = 131072"
    unfolding sec by (simp_all add: FS_MAGIC_def)
  show "fs_mount (fs_format s) = (1, fs_format s)"
    using fields by (simp add: fs_mount_eq [OF ok]) (simp add: fs_format_def Let_def)
  show "dir_map (fs_format s) = Map.empty"
    using fs_format_inode [OF assms] by (auto simp: dir_map_def lookup_zero matches_def fun_eq_iff)
qed

theorem fs_format_then_mount_witness: "fst (fs_mount volume_sample) = 1"
  using fs_format_then_mount [of "fs_initial disk_sample"] by (simp add: volume_sample_def fs_initial_def)

end
