(* ===== verification/Kernel_State.thy ===== *)
theory Kernel_State
  imports Vmm Kmalloc Fs
begin

text \<open>
  The state the process layer works on: the machine (memory, allocator, page tables, display), the
  mounted file system, the loader's last address space (\<open>riru_user_cr3\<close>), the process table of
  \<open>src/process/process.c\<close> and the kernel stack top of \<open>src/gdt.c\<close>. Memory accesses of the loaders
  go through the current page tables: \<open>vread\<close> and \<open>vwrite\<close> are \<open>None\<close> when the walk finds no page
  (the page fault, after which the kernel halts).
\<close>

unbundle bit_operations_syntax

record interrupt_frame =
  r15 :: u64
  r14 :: u64
  r13 :: u64
  r12 :: u64
  r11 :: u64
  r10 :: u64
  r9 :: u64
  r8 :: u64
  rbp :: u64
  rdi :: u64
  rsi :: u64
  rdx :: u64
  rcx :: u64
  rbx :: u64
  rax :: u64
  int_num :: u64
  error_code :: u64
  rip :: u64
  cs :: u64
  rflags :: u64
  rsp :: u64
  ss :: u64

definition zero_frame :: interrupt_frame where
  "zero_frame = \<lparr>r15 = 0, r14 = 0, r13 = 0, r12 = 0, r11 = 0, r10 = 0, r9 = 0, r8 = 0, rbp = 0, rdi = 0,
     rsi = 0, rdx = 0, rcx = 0, rbx = 0, rax = 0, int_num = 0, error_code = 0, rip = 0, cs = 0,
     rflags = 0, rsp = 0, ss = 0\<rparr>"

datatype process_state = PROCESS_UNUSED | PROCESS_RUNNING | PROCESS_EXITED

record process =
  pid :: u64
  state :: process_state
  entry :: u64
  stack :: u64
  proc_cr3 :: u64
  exit_code :: "32 word"
  frame :: interrupt_frame

record kernel =
  mach :: machine
  fs :: nanofs
  riru_user_cr3 :: u64
  process_table :: "process list"
  current_index :: int
  next_pid :: u64
  busy_ticks :: u64
  kernel_stack_top :: u64

definition on_mach :: "(machine \<Rightarrow> machine) \<Rightarrow> kernel \<Rightarrow> kernel" where
  "on_mach f k = k\<lparr>mach := f (mach k)\<rparr>"

definition of_mach :: "(machine \<Rightarrow> 'a \<times> machine) \<Rightarrow> kernel \<Rightarrow> 'a \<times> kernel" where
  "of_mach f k = (let (x, m) = f (mach k) in (x, k\<lparr>mach := m\<rparr>))"

definition print_k :: "string \<Rightarrow> kernel \<Rightarrow> kernel" where
  "print_k msg k = on_mach (print_m msg) k"

definition present_k :: "kernel \<Rightarrow> kernel" where
  "present_k k = on_mach present_m k"

definition say_k :: "string \<Rightarrow> kernel \<Rightarrow> kernel" where
  "say_k msg k = present_k (print_k msg k)"

text \<open>The processor's own walk of the current page tables.\<close>

definition mmu_walk :: "machine \<Rightarrow> u64 \<Rightarrow> u64 option" where
  "mmu_walk m va =
     (let pml4e = slot m (current_pml4 m) (pml4_index va) in
      if pml4e AND PAGE_PRESENT = 0 then None
      else
        (let pdpte = slot m (physical_to_table pml4e) (pdpt_index va) in
         if pdpte AND PAGE_PRESENT = 0 then None
         else
           (let pde = slot m (physical_to_table pdpte) (pd_index va) in
            if pde AND PAGE_PRESENT = 0 then None
            else if pde AND HUGE_PAGE \<noteq> 0 then Some ((pde AND 0x000FFFFFFFE00000) + (va AND 0x1FFFFF))
            else
              (let pte = slot m (physical_to_table pde) (pt_index va) in
               if pte AND PAGE_PRESENT = 0 then None else Some ((pte AND PAGE_MASK) + (va AND 0xFFF))))))"

definition vread :: "machine \<Rightarrow> u64 \<Rightarrow> u8 option" where
  "vread m va = map_option (mem m) (mmu_walk m va)"

definition vwrite :: "u64 \<Rightarrow> u8 \<Rightarrow> machine \<Rightarrow> machine option" where
  "vwrite va b m = map_option (\<lambda>pa. m\<lparr>mem := (mem m)(pa := b)\<rparr>) (mmu_walk m va)"

text \<open>\<open>for (i = 0; i < n; i++) destination[i] = source[i];\<close>, and the same with a zero.\<close>

fun copy_bytes :: "nat \<Rightarrow> u64 \<Rightarrow> u64 \<Rightarrow> machine \<Rightarrow> machine option" where
  "copy_bytes 0 dest src m = Some m"
| "copy_bytes (Suc n) dest src m =
     (case vread m src of None \<Rightarrow> None
      | Some b \<Rightarrow> (case vwrite dest b m of None \<Rightarrow> None | Some m \<Rightarrow> copy_bytes n (dest + 1) (src + 1) m))"

fun zero_bytes :: "nat \<Rightarrow> u64 \<Rightarrow> machine \<Rightarrow> machine option" where
  "zero_bytes 0 dest m = Some m"
| "zero_bytes (Suc n) dest m =
     (case vwrite dest 0 m of None \<Rightarrow> None | Some m \<Rightarrow> zero_bytes n (dest + 1) m)"

end
