(* ===== verification/Riru.thy ===== *)
theory Riru
  imports Prelude
begin

text \<open>
  The executable format, \<open>src/riru/riru.c\<close>: the 120-byte header read from memory, its validation
  with every return code, and the parsed image, whose sections are pointers into the file.
\<close>

definition RIRU_VERSION :: u16 where "RIRU_VERSION = 1"
definition RIRU_ARCH_X86_64 :: u16 where "RIRU_ARCH_X86_64 = 1"
definition RIRU_TYPE_EXECUTABLE :: u16 where "RIRU_TYPE_EXECUTABLE = 1"
definition RIRU_HEADER_BYTES :: u64 where "RIRU_HEADER_BYTES = 120"

record riru_header =
  magic :: "u8 list"
  version :: u16
  architecture :: u16
  rtype :: u16
  rflags16 :: u16
  rentry :: u64
  code_offset :: u64
  code_vaddr :: u64
  code_size :: u64
  rodata_offset :: u64
  rodata_vaddr :: u64
  rodata_size :: u64
  data_offset :: u64
  data_vaddr :: u64
  data_size :: u64
  bss_size :: u64
  stack_size :: u64
  image_size :: u64

text \<open>The structure as the compiler lays it out: the first 64-bit field is aligned to offset 16.\<close>

definition riru_header_at :: "memory \<Rightarrow> u64 \<Rightarrow> riru_header" where
  "riru_header_at m p =
     \<lparr>magic = load_bytes m p 4, version = load16 m (p + 4), architecture = load16 m (p + 6),
      rtype = load16 m (p + 8), rflags16 = load16 m (p + 10), rentry = load64 m (p + 16),
      code_offset = load64 m (p + 24), code_vaddr = load64 m (p + 32), code_size = load64 m (p + 40),
      rodata_offset = load64 m (p + 48), rodata_vaddr = load64 m (p + 56), rodata_size = load64 m (p + 64),
      data_offset = load64 m (p + 72), data_vaddr = load64 m (p + 80), data_size = load64 m (p + 88),
      bss_size = load64 m (p + 96), stack_size = load64 m (p + 104), image_size = load64 m (p + 112)\<rparr>"

definition riru_check_magic :: "riru_header \<Rightarrow> bool" where
  "riru_check_magic h \<longleftrightarrow> magic h ! 0 = 0x52 \<and> magic h ! 1 = 0x49 \<and> magic h ! 2 = 0x52 \<and> magic h ! 3 = 0x55"

definition riru_range_valid :: "u64 \<Rightarrow> u64 \<Rightarrow> u64 \<Rightarrow> bool" where
  "riru_range_valid offset sz file_size =
     (if offset > file_size then False else if sz > file_size - offset then False else True)"

definition riru_validate :: "memory \<Rightarrow> u64 \<Rightarrow> u64 \<Rightarrow> int" where
  "riru_validate m file sz =
     (if file = 0 then -1
      else if sz < RIRU_HEADER_BYTES then -2
      else
        (let h = riru_header_at m file in
         if \<not> riru_check_magic h then -3
         else if version h \<noteq> RIRU_VERSION then -4
         else if architecture h \<noteq> RIRU_ARCH_X86_64 then -5
         else if rtype h \<noteq> RIRU_TYPE_EXECUTABLE then -6
         else if image_size h > sz then -7
         else if image_size h < RIRU_HEADER_BYTES then -8
         else if \<not> riru_range_valid (code_offset h) (code_size h) (image_size h) then -9
         else if \<not> riru_range_valid (rodata_offset h) (rodata_size h) (image_size h) then -10
         else if \<not> riru_range_valid (data_offset h) (data_size h) (image_size h) then -11
         else if rentry h = 0 then -12
         else if code_size h \<noteq> 0 \<and> code_vaddr h = 0 then -13
         else if rodata_size h \<noteq> 0 \<and> rodata_vaddr h = 0 then -14
         else if data_size h \<noteq> 0 \<and> data_vaddr h = 0 then -15
         else 0))"

record riru_image =
  img_header :: riru_header
  img_code :: u64
  img_rodata :: u64
  img_data :: u64
  img_code_vaddr :: u64
  img_rodata_vaddr :: u64
  img_data_vaddr :: u64
  img_entry :: u64

text \<open>\<open>out\<close> is the caller's structure (\<open>False\<close> for a null pointer); it is filled in on success only.\<close>

definition riru_parse :: "memory \<Rightarrow> u64 \<Rightarrow> u64 \<Rightarrow> bool \<Rightarrow> int \<times> riru_image option" where
  "riru_parse m file sz out =
     (if \<not> out then (-1, None)
      else
        (let result = riru_validate m file sz in
         if result \<noteq> 0 then (result, None)
         else
           (let h = riru_header_at m file in
            (0, Some \<lparr>img_header = h,
                 img_code = (if code_size h \<noteq> 0 then file + code_offset h else 0),
                 img_rodata = (if rodata_size h \<noteq> 0 then file + rodata_offset h else 0),
                 img_data = (if data_size h \<noteq> 0 then file + data_offset h else 0),
                 img_code_vaddr = code_vaddr h, img_rodata_vaddr = rodata_vaddr h,
                 img_data_vaddr = data_vaddr h, img_entry = rentry h\<rparr>))))"

end
