(* ===== verification/Riru_Loader.thy ===== *)
theory Riru_Loader
  imports Kernel_State Riru
begin

text \<open>
  The program loader, \<open>src/riru/loader.c\<close>: from a file in kernel memory to an address space with
  code, read-only data, data, BSS and stack mapped and filled. The outer \<open>option\<close> is \<open>None\<close> for a
  page fault while copying; the result structure is written on success only.
\<close>

unbundle bit_operations_syntax

definition RIRU_USER_MIN :: u64 where "RIRU_USER_MIN = 0x400000"
definition RIRU_USER_MAX :: u64 where "RIRU_USER_MAX = 0x40000000"
definition RIRU_USER_STACK_TOP :: u64 where "RIRU_USER_STACK_TOP = 0x3FFFF000"
definition RIRU_USER_STACK_SIZE :: u64 where "RIRU_USER_STACK_SIZE = 16 * 1024"

record load_result =
  res_entry :: u64
  image_base :: u64
  image_end :: u64
  res_pages :: u64

definition valid_range :: "u64 \<Rightarrow> u64 \<Rightarrow> bool" where
  "valid_range address sz =
     (if sz = 0 then True
      else if address < RIRU_USER_MIN then False
      else if address \<ge> RIRU_USER_MAX then False
      else if sz > RIRU_USER_MAX - address then False
      else True)"

text \<open>The loop both \<open>map_range\<close> and \<open>map_user_stack\<close> run over their pages.\<close>

fun map_user_pages :: "u64 \<Rightarrow> u64 \<Rightarrow> u64 list \<Rightarrow> machine \<Rightarrow> int \<times> machine" where
  "map_user_pages c flags [] m = (0, m)"
| "map_user_pages c flags (va # vas) m =
     (let existing = vmm_get_physical_in c va m in
      if existing \<noteq> 0 then
        (let (result, m) = vmm_map_user_page c va existing (flags OR PAGE_USER) m in
         if result \<noteq> 0 then (-2, m) else map_user_pages c flags vas m)
      else
        (let (physical, m) = of_pmm pmm_alloc_page m in
         if physical = 0 then (-1, m)
         else
           (let (result, m) = vmm_map_user_page c va physical (flags OR PAGE_USER) m in
            if result \<noteq> 0 then (-2, on_pmm (pmm_free_page physical) m)
            else map_user_pages c flags vas m)))"

definition map_range :: "u64 \<Rightarrow> u64 \<Rightarrow> u64 \<Rightarrow> u64 \<Rightarrow> machine \<Rightarrow> int \<times> machine" where
  "map_range c address sz flags m =
     (if sz = 0 then (0, m)
      else map_user_pages c flags (page_range (align_down address) (align_up (address + sz))) m)"

definition map_user_stack :: "u64 \<Rightarrow> machine \<Rightarrow> int \<times> machine" where
  "map_user_stack c m =
     map_user_pages c PAGE_WRITABLE
       (page_range (RIRU_USER_STACK_TOP - RIRU_USER_STACK_SIZE) RIRU_USER_STACK_TOP) m"

text \<open>One section's contribution to \<open>image_base\<close> and \<open>image_end\<close>.\<close>

definition extend_image :: "u64 \<Rightarrow> u64 \<Rightarrow> u64 \<times> u64 \<Rightarrow> u64 \<times> u64" where
  "extend_image vaddr sz ext =
     (let start = align_down vaddr; iend = align_up (vaddr + sz) in
      (if start < fst ext then start else fst ext, if iend > snd ext then iend else snd ext))"

definition image_range :: "riru_header \<Rightarrow> int + (u64 \<times> u64)" where
  "image_range h =
     (let r0 = (- 1, 0) in
      if code_size h \<noteq> 0 \<and> \<not> valid_range (code_vaddr h) (code_size h) then Inl (-2)
      else
        (let r1 = (if code_size h \<noteq> 0 then (align_down (code_vaddr h), align_up (code_vaddr h + code_size h)) else r0) in
         if rodata_size h \<noteq> 0 \<and> \<not> valid_range (rodata_vaddr h) (rodata_size h) then Inl (-3)
         else
           (let r2 = (if rodata_size h \<noteq> 0 then extend_image (rodata_vaddr h) (rodata_size h) r1 else r1) in
            if data_size h \<noteq> 0 \<and> \<not> valid_range (data_vaddr h) (data_size h) then Inl (-4)
            else
              (let r3 = (if data_size h \<noteq> 0 then extend_image (data_vaddr h) (data_size h) r2 else r2) in
               if fst r3 = - 1 then Inl (-5) else Inr r3))))"

definition bss_start :: "riru_header \<Rightarrow> u64 \<Rightarrow> u64" where
  "bss_start h iend =
     (if bss_size h \<noteq> 0 then
        (if data_size h \<noteq> 0 then data_vaddr h + data_size h
         else if code_size h \<noteq> 0 then code_vaddr h + code_size h else iend)
      else 0)"

text \<open>The mappings, in the order the code makes them, with the return code of the one that failed.\<close>

definition map_sections :: "riru_header \<Rightarrow> u64 \<Rightarrow> u64 \<Rightarrow> kernel \<Rightarrow> int \<times> kernel" where
  "map_sections h iend c k =
     (let (r, k) = of_mach (map_range c (code_vaddr h) (code_size h) PAGE_WRITABLE) (say_k ''RIRU: mapping code...\<newline>'' k) in
      if r \<noteq> 0 then (-7, say_k ''RIRU: code mapping failed\<newline>'' k)
      else
     (let (r, k) = of_mach (map_range c (rodata_vaddr h) (rodata_size h) PAGE_WRITABLE) (say_k ''RIRU: mapping rodata...\<newline>'' k) in
      if r \<noteq> 0 then (-8, say_k ''RIRU: rodata mapping failed\<newline>'' k)
      else
     (let (r, k) = of_mach (map_range c (data_vaddr h) (data_size h) PAGE_WRITABLE) (say_k ''RIRU: mapping data...\<newline>'' k) in
      if r \<noteq> 0 then (-9, say_k ''RIRU: data mapping failed\<newline>'' k)
      else if bss_size h \<noteq> 0 \<and> \<not> valid_range (bss_start h iend) (bss_size h) then (-10, k)
      else
     (let (r, k) = (if bss_size h \<noteq> 0
            then of_mach (map_range c (bss_start h iend) (bss_size h) PAGE_WRITABLE) (say_k ''RIRU: mapping BSS...\<newline>'' k)
            else (0, k)) in
      if r \<noteq> 0 then (-11, say_k ''RIRU: BSS mapping failed\<newline>'' k)
      else
     (let (r, k) = of_mach (map_user_stack c) (say_k ''RIRU: mapping user stack...\<newline>'' k) in
      if r \<noteq> 0 then (-12, say_k ''RIRU: user stack mapping failed\<newline>'' k)
      else (0, say_k ''RIRU: user stack mapped\<newline>'' k))))))"

text \<open>
  The copies into the new address space. The header stays in the file's memory while its image is
  copied, and \<open>i < header->code_size\<close> is read again before every byte; so is the header after the
  copies. The pointers of \<open>img\<close> are local variables.
\<close>

function copy_section :: "(riru_header \<Rightarrow> u64) \<Rightarrow> u64 \<Rightarrow> u64 \<Rightarrow> u64 \<Rightarrow> u64 \<Rightarrow> machine \<Rightarrow> machine option" where
  "copy_section sz file dest src i m =
     (if i < sz (riru_header_at (mem m) file) then
        (case vread m (src + i) of None \<Rightarrow> None
         | Some b \<Rightarrow> (case vwrite (dest + i) b m of None \<Rightarrow> None
             | Some m \<Rightarrow> copy_section sz file dest src (i + 1) m))
      else Some m)"
  by pat_completeness auto
termination
  by (relation "measure (\<lambda>(sz, file, dest, src, i, m). 2 ^ 64 - unat i)")
     (auto simp: unat_less_step [simplified])

declare copy_section.simps [simp del]

definition fill_sections :: "riru_image \<Rightarrow> u64 \<Rightarrow> u64 \<Rightarrow> machine \<Rightarrow> machine option" where
  "fill_sections img file bss m =
     (let h = (\<lambda>m. riru_header_at (mem m) file) in
      Option.bind (copy_section code_size file (code_vaddr (h m)) (img_code img) 0 m)
     (\<lambda>m. Option.bind (copy_section rodata_size file (rodata_vaddr (h m)) (img_rodata img) 0 m)
     (\<lambda>m. Option.bind (copy_section data_size file (data_vaddr (h m)) (img_data img) 0 m)
     (\<lambda>m. zero_bytes (unat (bss_size (h m))) bss m))))"

definition riru_load :: "u64 \<Rightarrow> u64 \<Rightarrow> bool \<Rightarrow> kernel \<Rightarrow> (int \<times> load_result option \<times> kernel) option" where
  "riru_load file sz result k =
     (if file = 0 \<or> \<not> result then Some (-1, None, k)
      else
        (case riru_parse (mem (mach k)) file sz True of
           (rc, None) \<Rightarrow> Some (rc, None, k)
         | (_, Some img) \<Rightarrow>
             (let h = img_header img in
              case image_range h of
                Inl rc \<Rightarrow> Some (rc, None, k)
              | Inr (base, iend) \<Rightarrow>
                  (let (c, k) = of_mach vmm_create_user_space (say_k ''RIRU: creating user address space...\<newline>'' k);
                       k = k\<lparr>riru_user_cr3 := c\<rparr> in
                   if c = 0 then Some (-6, None, say_k ''RIRU: failed to create user address space\<newline>'' k)
                   else
                     (let (rc, k) = map_sections h iend c (say_k ''RIRU: user address space created\<newline>'' k) in
                      if rc \<noteq> 0 then Some (rc, None, k)
                      else
                        (let k = on_mach (vmm_switch_address_space c) (say_k ''RIRU: switching to user address space...\<newline>'' k);
                             k = on_mach (vmm_debug_user_page c 0x401000) (print_k ''RIRU: checking 0x401000 mapping...\<newline>'' k) in
                         case fill_sections img file (bss_start h iend) (mach k) of
                           None \<Rightarrow> None
                         | Some m \<Rightarrow>
                             (let k = say_k ''RIRU: returning to kernel address space...\<newline>'' (k\<lparr>mach := m\<rparr>);
                                  k = on_mach vmm_switch_kernel_space k;
                                  h = riru_header_at (mem (mach k)) file in
                              if rentry h < base \<or> rentry h \<ge> iend
                              then Some (-13, None, say_k ''RIRU: invalid entry point\<newline>'' k)
                              else Some (0, Some \<lparr>res_entry = rentry h, image_base = base, image_end = iend,
                                                  res_pages = (iend - base) div PAGE_SIZE\<rparr>,
                                         say_k ''RIRU: load successful\<newline>'' k))))))))"

definition riru_get_user_cr3 :: "kernel \<Rightarrow> u64" where
  "riru_get_user_cr3 k = riru_user_cr3 k"

definition riru_load_file :: "u8 list \<Rightarrow> bool \<Rightarrow> kernel \<Rightarrow> (int \<times> load_result option \<times> kernel) option" where
  "riru_load_file name result k =
     (let k = say_k ''RIRU: fs_stat...\<newline>'' k;
          (stat_result, inode) = fs_stat name (Some zero_inode) (fs k);
          k = say_k ''RIRU: fs_stat returned\<newline>'' k in
      if stat_result \<noteq> 0 then Some (-2, None, say_k ''RIRU: fs_stat FAILED\<newline>'' k)
      else
        (let k = say_k ''RIRU: allocating buffer...\<newline>'' (say_k ''RIRU: fs_stat OK\<newline>'' k);
             sz = node_size (the inode);
             (buffer, k) = of_mach (kmalloc (ucast sz)) k;
             k = say_k ''RIRU: kmalloc returned\<newline>'' k in
         if buffer = 0 then Some (-3, None, say_k ''RIRU: kmalloc returned NULL\<newline>'' k)
         else
           (let k = say_k ''RIRU: fs_read...\<newline>'' k;
                (read_result, bytes) = fs_read (Some name) (Some (load_bytes (mem (mach k)) buffer (unat sz))) sz (fs k);
                k = on_mach (\<lambda>m. m\<lparr>mem := store_bytes (mem m) buffer (the bytes)\<rparr>) k;
                k = say_k ''RIRU: fs_read returned\<newline>'' k in
            if read_result < 0
            then Some (-4, None, on_mach (kfree buffer) (say_k ''RIRU: fs_read FAILED\<newline>'' k))
            else
              (let k = say_k ''RIRU: loading image...\<newline>'' (say_k ''RIRU: fs_read OK\<newline>'' k) in
               map_option (\<lambda>(rc, res, k). (rc, res, on_mach (kfree buffer) (say_k ''RIRU: loader returned\<newline>'' k)))
                 (riru_load buffer (of_int read_result) result k)))))"

end
