(* ===== verification/Process.thy ===== *)
theory Process
  imports Riru_Loader
begin

text \<open>
  Processes and the scheduler, \<open>src/process/process.c\<close>: four slots, each with the registers the
  process resumes with, \<open>current_index\<close> the slot whose registers are on the processor (-1 for the
  kernel). The trap frame of the interrupted code is an argument and a result (\<open>None\<close> for a null
  pointer).
\<close>

unbundle bit_operations_syntax

definition MAX_PROCESSES :: nat where "MAX_PROCESSES = 4"
definition GDT_USER_CODE :: u64 where "GDT_USER_CODE = 0x18"
definition GDT_USER_DATA :: u64 where "GDT_USER_DATA = 0x20"

definition unused_process :: process where
  "unused_process = \<lparr>pid = 0, state = PROCESS_UNUSED, entry = 0, stack = 0, proc_cr3 = 0, exit_code = 0,
     frame = zero_frame\<rparr>"

definition process_init :: "kernel \<Rightarrow> kernel" where
  "process_init k = k\<lparr>process_table := replicate MAX_PROCESSES unused_process, current_index := -1\<rparr>"

definition find_free_slot :: "kernel \<Rightarrow> int" where
  "find_free_slot k =
     (case first_index (\<lambda>i. state (process_table k ! i) = PROCESS_UNUSED \<or> state (process_table k ! i) = PROCESS_EXITED)
             0 MAX_PROCESSES of
        Some i \<Rightarrow> int i | None \<Rightarrow> -1)"

definition initial_frame :: "u64 \<Rightarrow> u64 \<Rightarrow> interrupt_frame" where
  "initial_frame ent stk =
     zero_frame\<lparr>rip := ent, cs := GDT_USER_CODE OR 3, rflags := 0x202, rsp := stk, ss := GDT_USER_DATA OR 3\<rparr>"

definition process_create :: "u64 \<Rightarrow> u64 \<Rightarrow> u64 \<Rightarrow> kernel \<Rightarrow> int \<times> kernel" where
  "process_create ent stk c k =
     (let slt = find_free_slot k in
      if slt < 0 then (-1, k)
      else
        (let proc = \<lparr>pid = next_pid k, state = PROCESS_RUNNING, entry = ent, stack = stk, proc_cr3 = c,
                     exit_code = 0, frame = initial_frame ent stk\<rparr>
         in (slt, k\<lparr>process_table := (process_table k)[nat slt := proc], next_pid := next_pid k + 1\<rparr>)))"

definition process_exec :: "u8 list option \<Rightarrow> kernel \<Rightarrow> (int \<times> kernel) option" where
  "process_exec name k =
     (case name of
        None \<Rightarrow> Some (-1, k)
      | Some nm \<Rightarrow>
          if cchar nm 0 = 0 then Some (-1, k)
          else
            (let k = say_k ''...\<newline>'' (print_k (map (\<lambda>b. char_of (unat b)) (cstr nm)) (print_k ''RIRU: loading '' k)) in
             case riru_load_file nm True k of
               None \<Rightarrow> None
             | Some (r, result, k) \<Rightarrow>
                 if r \<noteq> 0 then Some (-3, say_k ''RIRU: load failed\<newline>'' k)
                 else
                   (let c = riru_get_user_cr3 k; stk = 0x3FFFF000 in
                    if c = 0 then Some (-4, say_k ''RIRU: invalid user CR3\<newline>'' k)
                    else
                      (let (slt, k) = process_create (res_entry (the result)) stk c k in
                       if slt < 0 then Some (-5, say_k ''Process creation failed (table full)\<newline>'' k)
                       else
                         (let k = print_k ''Queued process PID '' k;
                              k = on_mach (on_pmm (print_uint (pid (process_table k ! nat slt)))) k
                          in Some (0, say_k '' (starts on next timer tick)\<newline>'' k))))))"

definition process_exit_from_syscall ::
  "u64 \<Rightarrow> interrupt_frame option \<Rightarrow> kernel \<Rightarrow> interrupt_frame option \<times> kernel" where
  "process_exit_from_syscall exit_return f k =
     (case f of
        None \<Rightarrow> (None, k)
      | Some fr \<Rightarrow>
          if current_index k < 0 then (f, k)
          else
            (let i = nat (current_index k);
                 proc = (process_table k ! i)\<lparr>exit_code := ucast (rdi fr), state := PROCESS_EXITED\<rparr>;
                 c = proc_cr3 proc;
                 k = k\<lparr>process_table := (process_table k)[i := proc]\<rparr>;
                 k = on_mach vmm_switch_kernel_space k;
                 k = (if c \<noteq> 0 then on_mach (\<lambda>m. snd (vmm_destroy_user_space c m)) k else k);
                 k = k\<lparr>process_table := (process_table k)[i := proc\<lparr>proc_cr3 := 0\<rparr>], current_index := -1\<rparr>
             in (Some (fr\<lparr>rip := exit_return, cs := 0x08, rflags := rflags fr OR 0x200,
                          rsp := kernel_stack_top k, ss := 0x10\<rparr>), k)))"

text \<open>The round-robin search: the first running slot from \<open>start\<close> on, around the table.\<close>

definition next_running :: "process list \<Rightarrow> nat \<Rightarrow> nat option" where
  "next_running table start =
     map_option (\<lambda>offset. (start + offset) mod MAX_PROCESSES)
       (first_index (\<lambda>offset. state (table ! ((start + offset) mod MAX_PROCESSES)) = PROCESS_RUNNING) 0 MAX_PROCESSES)"

definition save_interrupted :: "interrupt_frame \<Rightarrow> kernel \<Rightarrow> kernel" where
  "save_interrupted fr k =
     (if current_index k \<ge> 0 \<and> state (process_table k ! nat (current_index k)) = PROCESS_RUNNING
      then k\<lparr>process_table := (process_table k)[nat (current_index k) :=
                (process_table k ! nat (current_index k))\<lparr>frame := fr\<rparr>]\<rparr>
      else k)"

definition scheduler_tick :: "interrupt_frame option \<Rightarrow> kernel \<Rightarrow> interrupt_frame option \<times> kernel" where
  "scheduler_tick f k =
     (case f of
        None \<Rightarrow> (None, k)
      | Some fr \<Rightarrow>
          (let k = save_interrupted fr k;
               start = (if current_index k \<ge> 0 then nat (current_index k + 1) else 0) in
           case next_running (process_table k) start of
             None \<Rightarrow>
               (let k = (if current_index k \<noteq> -1 then on_mach vmm_switch_kernel_space k else k)
                in (f, k\<lparr>current_index := -1\<rparr>))
           | Some next \<Rightarrow>
               (let k = on_mach (vmm_switch_address_space (proc_cr3 (process_table k ! next))) k
                in (Some (frame (process_table k ! next)),
                    k\<lparr>current_index := int next, busy_ticks := busy_ticks k + 1\<rparr>))))"

definition process_get_busy_ticks :: "kernel \<Rightarrow> u64" where
  "process_get_busy_ticks k = busy_ticks k"

text \<open>The two lookups return the slot (a pointer into the table) or \<open>None\<close>.\<close>

definition process_current :: "kernel \<Rightarrow> nat option" where
  "process_current k = (if current_index k < 0 then None else Some (nat (current_index k)))"

definition process_by_pid :: "u64 \<Rightarrow> kernel \<Rightarrow> nat option" where
  "process_by_pid p k =
     first_index (\<lambda>i. state (process_table k ! i) \<noteq> PROCESS_UNUSED \<and> pid (process_table k ! i) = p) 0 MAX_PROCESSES"

end
