(* ===== verification/Syscalls.thy ===== *)
theory Syscalls
  imports Process
begin

text \<open>
  System calls, \<open>src/syscalls.c\<close>: the check of user buffers, and the dispatch on the number in
  \<open>rax\<close>. Reading the user's buffer goes through the current page tables; a page fault while doing
  so is the result \<open>None\<close>.
\<close>

unbundle bit_operations_syntax

definition USER_MIN :: u64 where "USER_MIN = 0x400000"
definition USER_MAX :: u64 where "USER_MAX = 0x40000000"
definition SYS_EXIT :: u64 where "SYS_EXIT = 1"
definition SYS_WRITE :: u64 where "SYS_WRITE = 2"

definition user_range_valid :: "u64 \<Rightarrow> u64 \<Rightarrow> bool" where
  "user_range_valid address sz =
     (if sz = 0 then True
      else if address < USER_MIN then False
      else if address \<ge> USER_MAX then False
      else if sz > USER_MAX - address then False
      else True)"

definition syscall_init :: "kernel \<Rightarrow> kernel" where
  "syscall_init k = say_k ''Syscall initialized.\<newline>'' k"

fun write_chars :: "nat \<Rightarrow> u64 \<Rightarrow> kernel \<Rightarrow> kernel option" where
  "write_chars 0 buffer k = Some k"
| "write_chars (Suc n) buffer k =
     (case vread (mach k) buffer of None \<Rightarrow> None
      | Some b \<Rightarrow> write_chars n (buffer + 1) (on_mach (on_pmm (terminal_putchar (char_of (unat b)))) k))"

definition syscall_handler ::
  "u64 \<Rightarrow> interrupt_frame option \<Rightarrow> kernel \<Rightarrow> (interrupt_frame option \<times> kernel) option" where
  "syscall_handler exit_return f k =
     (case f of
        None \<Rightarrow> Some (None, k)
      | Some fr \<Rightarrow>
          if rax fr = SYS_WRITE then
            (let buffer = rdi fr; len = rsi fr in
             if \<not> user_range_valid buffer len then Some (Some (fr\<lparr>rax := - 1\<rparr>), k)
             else
               (case write_chars (unat len) buffer k of
                  None \<Rightarrow> None
                | Some k \<Rightarrow> Some (Some (fr\<lparr>rax := len\<rparr>), present_k k)))
          else if rax fr = SYS_EXIT then Some (process_exit_from_syscall exit_return f k)
          else Some (Some (fr\<lparr>rax := - 1\<rparr>), k))"

end
