(* ===== verification/Process_Table.thy ===== *)
theory Process_Table
  imports Syscalls Vmm_Spaces
begin

text \<open>
  The process table: the events of the process layer as a step relation, the invariant of the table,
  and the scheduler's promises: who runs next, that every runnable process runs within four ticks,
  and that a preempted process resumes with the registers it was interrupted with.
\<close>

unbundle bit_operations_syntax

definition running :: "kernel \<Rightarrow> nat \<Rightarrow> bool" where
  "running k i \<longleftrightarrow> i < 4 \<and> state (process_table k ! i) = PROCESS_RUNNING"

section \<open>The search for the next process\<close>

lemma next_running_none: "next_running t start = None \<longleftrightarrow> (\<forall>i<4. state (t ! i) \<noteq> PROCESS_RUNNING)"
proof -
  have "(\<forall>off<4. state (t ! ((start + off) mod 4)) \<noteq> PROCESS_RUNNING) \<longleftrightarrow> (\<forall>i<4. state (t ! i) \<noteq> PROCESS_RUNNING)"
  proof (intro iffI allI impI)
    fix i :: nat assume all: "\<forall>off<4. state (t ! ((start + off) mod 4)) \<noteq> PROCESS_RUNNING" and i: "i < 4"
    have "(start + (i + 3 * start) mod 4) mod 4 = i" using i by (simp add: mod_simps)
    then show "state (t ! i) \<noteq> PROCESS_RUNNING" using all by (metis mod_less_divisor zero_less_numeral)
  qed simp
  then show ?thesis by (simp add: next_running_def first_index_None MAX_PROCESSES_def)
qed

lemma next_running_some:
  "next_running t start = Some j \<longleftrightarrow>
    (\<exists>off<4. j = (start + off) mod 4 \<and> state (t ! j) = PROCESS_RUNNING \<and>
       (\<forall>o'<off. state (t ! ((start + o') mod 4)) \<noteq> PROCESS_RUNNING))"
  by (auto simp: next_running_def first_index_Some MAX_PROCESSES_def)

section \<open>The tick\<close>

definition tick :: "interrupt_frame \<Rightarrow> kernel \<Rightarrow> interrupt_frame option \<times> kernel" where
  "tick fr k = scheduler_tick (Some fr) k"

definition search_start :: "kernel \<Rightarrow> nat" where
  "search_start k = (if current_index k \<ge> 0 then nat (current_index k + 1) else 0)"

lemma on_mach_simps [simp]:
  "process_table (on_mach f k) = process_table k" "current_index (on_mach f k) = current_index k"
  "next_pid (on_mach f k) = next_pid k" "busy_ticks (on_mach f k) = busy_ticks k" "mach (on_mach f k) = f (mach k)"
  "kernel_stack_top (on_mach f k) = kernel_stack_top k"
  by (simp_all add: on_mach_def)

lemma save_interrupted_simps [simp]:
  "current_index (save_interrupted fr k) = current_index k" "next_pid (save_interrupted fr k) = next_pid k"
  "busy_ticks (save_interrupted fr k) = busy_ticks k" "mach (save_interrupted fr k) = mach k"
  "length (process_table (save_interrupted fr k)) = length (process_table k)"
  by (simp_all add: save_interrupted_def)

lemma save_interrupted_slot:
  assumes "length (process_table k) = 4" "i < 4"
  shows "process_table (save_interrupted fr k) ! i =
    (if current_index k = int i \<and> state (process_table k ! i) = PROCESS_RUNNING
     then (process_table k ! i)\<lparr>frame := fr\<rparr> else process_table k ! i)"
  using assms by (cases "nat (current_index k) = i") (auto simp: save_interrupted_def)

lemma save_interrupted_state [simp]:
  "length (process_table k) = 4 \<Longrightarrow> i < 4 \<Longrightarrow>
    state (process_table (save_interrupted fr k) ! i) = state (process_table k ! i)"
  by (simp add: save_interrupted_slot)

lemma next_running_save:
  "length (process_table k) = 4 \<Longrightarrow>
    next_running (process_table (save_interrupted fr k)) st = next_running (process_table k) st"
  unfolding next_running_def MAX_PROCESSES_def
  by (intro arg_cong [of _ _ "map_option _"] first_index_cong) simp

lemma tick_eq:
  assumes "length (process_table k) = 4"
  shows "tick fr k =
    (case next_running (process_table k) (search_start k) of
       None \<Rightarrow> (Some fr, (if current_index k \<noteq> -1 then on_mach vmm_switch_kernel_space (save_interrupted fr k)
                         else save_interrupted fr k)\<lparr>current_index := -1\<rparr>)
     | Some j \<Rightarrow> (Some (frame (process_table (save_interrupted fr k) ! j)),
           (on_mach (vmm_switch_address_space (proc_cr3 (process_table (save_interrupted fr k) ! j))) (save_interrupted fr k))
             \<lparr>current_index := int j, busy_ticks := busy_ticks k + 1\<rparr>))"
  using next_running_save [OF assms, of fr]
  by (simp add: tick_def scheduler_tick_def search_start_def Let_def split: option.split)

section \<open>The invariant\<close>

definition table_ok :: "kernel \<Rightarrow> bool" where
  "table_ok k \<longleftrightarrow> length (process_table k) = 4 \<and>
     (current_index k = -1 \<or> (\<exists>i. current_index k = int i \<and> running k i)) \<and>
     (\<forall>i<4. state (process_table k ! i) \<noteq> PROCESS_UNUSED \<longrightarrow>
        0 < pid (process_table k ! i) \<and> pid (process_table k ! i) < next_pid k) \<and>
     (\<forall>i<4. \<forall>j<4. i \<noteq> j \<longrightarrow> state (process_table k ! i) \<noteq> PROCESS_UNUSED \<longrightarrow>
        state (process_table k ! j) \<noteq> PROCESS_UNUSED \<longrightarrow> pid (process_table k ! i) \<noteq> pid (process_table k ! j))"

lemma table_ok_length [dest]: "table_ok k \<Longrightarrow> length (process_table k) = 4"
  by (simp add: table_ok_def)

lemma tick_table:
  assumes "length (process_table k) = 4"
  shows "process_table (snd (tick fr k)) = process_table (save_interrupted fr k)"
    and "next_pid (snd (tick fr k)) = next_pid k"
    and "current_index (snd (tick fr k)) = (case next_running (process_table k) (search_start k) of None \<Rightarrow> -1 | Some j \<Rightarrow> int j)"
  by (simp_all add: tick_eq [OF assms] split: option.split)

lemma tick_running [simp]: "length (process_table k) = 4 \<Longrightarrow> running (snd (tick fr k)) i \<longleftrightarrow> running k i"
  by (auto simp: running_def tick_table)

lemma save_interrupted_pid [simp]:
  "length (process_table k) = 4 \<Longrightarrow> i < 4 \<Longrightarrow> pid (process_table (save_interrupted fr k) ! i) = pid (process_table k ! i)"
  by (simp add: save_interrupted_slot)

lemma table_ok_tick:
  assumes "table_ok k"
  shows "table_ok (snd (tick fr k))"
proof -
  have l: "length (process_table k) = 4" using assms by blast
  have "current_index (snd (tick fr k)) = -1 \<or> (\<exists>i. current_index (snd (tick fr k)) = int i \<and> running k i)"
    using next_running_some [of "process_table k" "search_start k"]
    by (auto simp: tick_table [OF l] running_def split: option.split)
  then show ?thesis using assms l by (simp add: table_ok_def tick_table)
qed

lemma find_free_slot_cases:
  "(find_free_slot k = -1 \<and> (\<forall>i<4. running k i)) \<or>
   (\<exists>i<4. find_free_slot k = int i \<and> \<not> running k i \<and> (\<forall>j<i. running k j))"
proof (cases "first_index (\<lambda>i. state (process_table k ! i) = PROCESS_UNUSED \<or> state (process_table k ! i) = PROCESS_EXITED) 0 4")
  case None
  then have "running k i" if "i < 4" for i
    using that by (cases "state (process_table k ! i)") (auto simp: first_index_None running_def)
  with None show ?thesis by (simp add: find_free_slot_def MAX_PROCESSES_def)
next
  case (Some i)
  then have "find_free_slot k = int i" by (simp add: find_free_slot_def MAX_PROCESSES_def)
  moreover have "i < 4" "\<not> running k i" using Some by (auto simp: first_index_Some running_def)
  moreover have "running k j" if "j < i" for j
    using Some that \<open>i < 4\<close> by (cases "state (process_table k ! j)") (auto simp: first_index_Some running_def)
  ultimately show ?thesis by blast
qed

definition new_process :: "u64 \<Rightarrow> u64 \<Rightarrow> u64 \<Rightarrow> kernel \<Rightarrow> process" where
  "new_process ent stk c k = \<lparr>pid = next_pid k, state = PROCESS_RUNNING, entry = ent, stack = stk, proc_cr3 = c,
     exit_code = 0, frame = initial_frame ent stk\<rparr>"

lemma process_create_eq:
  "process_create ent stk c k =
    (if find_free_slot k < 0 then (-1, k)
     else (find_free_slot k, k\<lparr>process_table := (process_table k)[nat (find_free_slot k) := new_process ent stk c k],
             next_pid := next_pid k + 1\<rparr>))"
  by (simp add: process_create_def new_process_def Let_def)

lemma unat_next_pid: "(p :: u64) \<noteq> - 1 \<Longrightarrow> unat (p + 1) = unat p + 1"
  by (metis Suc_eq_plus1 add.commute add_eq_0_iff2 unatSuc)

lemma table_ok_create:
  assumes "table_ok k" "0 < next_pid k" "next_pid k \<noteq> - 1"
  shows "table_ok (snd (process_create ent stk c k)) \<and> 0 < next_pid (snd (process_create ent stk c k))"
proof (cases "find_free_slot k < 0")
  case True
  then show ?thesis using assms by (simp add: process_create_eq)
next
  case False
  then obtain i where i: "i < 4" "find_free_slot k = int i" "\<not> running k i" using find_free_slot_cases [of k] by auto
  have l: "length (process_table k) = 4" using assms(1) by blast
  note u = unat_next_pid [OF assms(3)]
  have lt: "p < next_pid k + 1" if "p < next_pid k" for p using that u by (simp add: word_less_nat_alt)
  have "next_pid k < next_pid k + 1" using u by (simp add: word_less_nat_alt)
  moreover have "0 < next_pid k + 1" using u by (simp add: word_less_nat_alt)
  ultimately show ?thesis
    using assms i l lt False
    by (auto simp: process_create_eq table_ok_def running_def nth_list_update new_process_def)
qed

lemma process_exit_eq:
  "process_exit_from_syscall ret (Some fr) k =
    (if current_index k < 0 then (Some fr, k)
     else (let i = nat (current_index k); c = proc_cr3 (process_table k ! i) in
       (Some (fr\<lparr>rip := ret, cs := 0x08, rflags := rflags fr OR 0x200, rsp := kernel_stack_top k, ss := 0x10\<rparr>),
        (on_mach (\<lambda>m. if c \<noteq> 0 then snd (vmm_destroy_user_space c (vmm_switch_kernel_space m)) else vmm_switch_kernel_space m) k)
          \<lparr>process_table := (process_table k)[i := (process_table k ! i)\<lparr>exit_code := ucast (rdi fr), state := PROCESS_EXITED, proc_cr3 := 0\<rparr>],
           current_index := -1\<rparr>)))"
  by (cases k) (auto simp: process_exit_from_syscall_def Let_def on_mach_def)

lemma table_ok_exit:
  assumes "table_ok k"
  shows "table_ok (snd (process_exit_from_syscall ret (Some fr) k))"
proof (cases "current_index k < 0")
  case True
  then show ?thesis using assms by (simp add: process_exit_eq)
next
  case False
  then obtain i where i: "current_index k = int i" "i < 4" "state (process_table k ! i) = PROCESS_RUNNING"
    using assms by (auto simp: table_ok_def running_def)
  then show ?thesis using assms
    by (auto simp: process_exit_eq Let_def table_ok_def nth_list_update)
qed

section \<open>Events\<close>

datatype event =
    Tick interrupt_frame
  | Spawn u64 u64 u64
  | Exit u64 interrupt_frame

fun handle :: "event \<Rightarrow> kernel \<Rightarrow> kernel" where
  "handle (Tick fr) k = snd (scheduler_tick (Some fr) k)"
| "handle (Spawn ent stk c) k = snd (process_create ent stk c k)"
| "handle (Exit ret fr) k = snd (process_exit_from_syscall ret (Some fr) k)"

text \<open>\<open>n\<close> bounds the number of processes ever made.\<close>

inductive proc_run :: "nat \<Rightarrow> kernel \<Rightarrow> bool" where
  boot: "next_pid k = 1 \<Longrightarrow> proc_run 0 (process_init k)"
| event: "proc_run n k \<Longrightarrow> proc_run (Suc n) (handle ev k)"

inductive_cases proc_run_SucE: "proc_run (Suc n) k"

lemma handle_next_pid:
  "next_pid (handle ev k) = next_pid k \<or> next_pid (handle ev k) = next_pid k + 1"
proof (cases ev)
  case (Tick fr)
  show ?thesis unfolding Tick
    by (simp add: scheduler_tick_def Let_def split: option.split)
next
  case (Spawn e s c)
  then show ?thesis by (simp add: process_create_eq)
next
  case (Exit r fr)
  then show ?thesis by (simp add: process_exit_eq Let_def)
qed

lemma handle_table_ok:
  assumes "table_ok k" "0 < next_pid k" "next_pid k \<noteq> - 1"
  shows "table_ok (handle ev k)"
  using assms table_ok_tick [OF assms(1)] table_ok_create [OF assms] table_ok_exit [OF assms(1)]
  by (cases ev) (simp_all add: tick_def)

lemma unused_process_state [simp]: "state unused_process = PROCESS_UNUSED"
  by (simp add: unused_process_def)

lemma table_ok_init: "table_ok (process_init k)"
  by (simp add: table_ok_def process_init_def MAX_PROCESSES_def)

lemma proc_run_ok:
  assumes "proc_run n k" "n + 2 < 2 ^ 64"
  shows "table_ok k \<and> 0 < next_pid k \<and> unat (next_pid k) \<le> n + 1"
  using assms
proof (induction rule: proc_run.induct)
  case (boot k)
  have "next_pid (process_init k) = next_pid k" by (simp add: process_init_def)
  then show ?case using boot table_ok_init by simp
next
  case (event n k ev)
  then have IH: "table_ok k" "0 < next_pid k" "unat (next_pid k) \<le> n + 1" by auto
  have "next_pid k \<noteq> - 1"
  proof
    assume "next_pid k = - 1"
    then have "unat (next_pid k) = 2 ^ 64 - 1" by (simp add: unsigned_minus_1_eq_mask mask_eq_exp_minus_1)
    then show False using IH(3) event.prems by simp
  qed
  from handle_table_ok [OF IH(1,2) this] unat_next_pid [OF this] handle_next_pid [of ev k] IH
  show ?case by (auto simp: word_less_nat_alt)
qed

text \<open>C8: The process table is consistent in every reachable state: it has four slots, the current
  index is -1 or the slot of a running process, and the processes in the table, live or exited, have
  different, non-zero process ids that were all handed out before.\<close>

theorem process_table_invariant:
  assumes "proc_run n k" and "n + 2 < 2 ^ 64"
  shows "length (process_table k) = MAX_PROCESSES \<and>
    (current_index k = -1 \<or> (\<exists>i<4. current_index k = int i \<and> state (process_table k ! i) = PROCESS_RUNNING)) \<and>
    (\<forall>i<4. state (process_table k ! i) \<noteq> PROCESS_UNUSED \<longrightarrow>
       0 < pid (process_table k ! i) \<and> pid (process_table k ! i) < next_pid k \<and>
       process_by_pid (pid (process_table k ! i)) k = Some i)"
proof -
  have ok: "table_ok k" using proc_run_ok [OF assms] by blast
  have "process_by_pid (pid (process_table k ! i)) k = Some i"
    if i: "i < 4" "state (process_table k ! i) \<noteq> PROCESS_UNUSED" for i
  proof -
    have "\<not> (state (process_table k ! j) \<noteq> PROCESS_UNUSED \<and> pid (process_table k ! j) = pid (process_table k ! i))"
      if "j < i" for j
      using ok i that unfolding table_ok_def by (metis less_trans nat_neq_iff)
    then show ?thesis using i by (simp add: process_by_pid_def MAX_PROCESSES_def first_index_Some)
  qed
  with ok show ?thesis by (auto simp: table_ok_def running_def MAX_PROCESSES_def)
qed

section \<open>Scheduling\<close>

lemma handle_slot_kept:
  assumes "table_ok k" "running k i" "current_index k \<noteq> int i"
  shows "process_table (handle ev k) ! i = process_table k ! i"
proof (cases ev)
  case (Tick fr)
  have l: "length (process_table k) = 4" using assms(1) by blast
  show ?thesis using assms(2,3) save_interrupted_slot [OF l, of i fr] tick_table(1) [OF l, of fr]
    by (simp add: Tick tick_def running_def)
next
  case (Spawn e s c)
  have "nat (find_free_slot k) \<noteq> i \<or> find_free_slot k < 0" using find_free_slot_cases [of k] assms(2) by auto
  then show ?thesis by (auto simp: Spawn process_create_eq)
next
  case (Exit r fr)
  then show ?thesis using assms(3) by (simp add: process_exit_eq Let_def)
qed

text \<open>C9: A tick is a round-robin switch. With no runnable process the interrupted frame is returned
  unchanged and the kernel runs. Otherwise the process chosen is the first runnable slot after the
  current one, going around the table; its saved frame is returned and its address space loaded; the
  interrupted process keeps the registers it was interrupted with, and no other slot changes.\<close>

theorem scheduler_tick_round_robin:
  assumes "proc_run n k" and "n + 2 < 2 ^ 64"
  shows "let (f, k') = scheduler_tick (Some fr) k; start = nat (current_index k + 1) in
    (\<forall>i<4. process_table k' ! i = (if current_index k = int i then (process_table k ! i)\<lparr>frame := fr\<rparr> else process_table k ! i)) \<and>
    ((\<forall>i<4. state (process_table k ! i) \<noteq> PROCESS_RUNNING) \<and> f = Some fr \<and> current_index k' = -1 \<or>
     (\<exists>off<4. let j = (start + off) mod 4 in
        state (process_table k ! j) = PROCESS_RUNNING \<and>
        (\<forall>o'<off. state (process_table k ! ((start + o') mod 4)) \<noteq> PROCESS_RUNNING) \<and>
        f = Some (frame (process_table k' ! j)) \<and> current_index k' = int j \<and> busy_ticks k' = busy_ticks k + 1 \<and>
        mach k' = vmm_switch_address_space (proc_cr3 (process_table k ! j)) (mach k)))"
proof -
  have ok: "table_ok k" using proc_run_ok [OF assms] by blast
  then have l: "length (process_table k) = 4" by blast
  have st: "nat (current_index k + 1) = search_start k" using ok by (auto simp: search_start_def table_ok_def)
  let ?k = "snd (tick fr k)"
  have run: "current_index k = int i \<Longrightarrow> i < 4 \<and> state (process_table k ! i) = PROCESS_RUNNING" for i
    using ok by (auto simp: table_ok_def running_def)
  have slots: "process_table ?k ! i = (if current_index k = int i then (process_table k ! i)\<lparr>frame := fr\<rparr> else process_table k ! i)"
    if "i < 4" for i
    using that run [of i] by (simp add: tick_table(1) [OF l] save_interrupted_slot [OF l])
  have cr3: "proc_cr3 (process_table (save_interrupted fr k) ! i) = proc_cr3 (process_table k ! i)" if "i < 4" for i
    using that by (simp add: save_interrupted_slot [OF l])
  have main: "(\<forall>i<4. state (process_table k ! i) \<noteq> PROCESS_RUNNING) \<and> fst (tick fr k) = Some fr \<and> current_index ?k = -1 \<or>
     (\<exists>off<4. let j = (search_start k + off) mod 4 in
        state (process_table k ! j) = PROCESS_RUNNING \<and>
        (\<forall>o'<off. state (process_table k ! ((search_start k + o') mod 4)) \<noteq> PROCESS_RUNNING) \<and>
        fst (tick fr k) = Some (frame (process_table ?k ! j)) \<and> current_index ?k = int j \<and> busy_ticks ?k = busy_ticks k + 1 \<and>
        mach ?k = vmm_switch_address_space (proc_cr3 (process_table k ! j)) (mach k))"
  proof (cases "next_running (process_table k) (search_start k)")
    case None
    then have "fst (tick fr k) = Some fr \<and> current_index ?k = -1" by (simp add: tick_eq [OF l])
    then show ?thesis using None next_running_none by blast
  next
    case (Some j)
    then obtain off where off: "off < 4" "j = (search_start k + off) mod 4" "state (process_table k ! j) = PROCESS_RUNNING"
      "\<forall>o'<off. state (process_table k ! ((search_start k + o') mod 4)) \<noteq> PROCESS_RUNNING"
      by (auto simp: next_running_some)
    then have "j < 4" by simp
    have "fst (tick fr k) = Some (frame (process_table ?k ! j)) \<and> current_index ?k = int j \<and> busy_ticks ?k = busy_ticks k + 1 \<and>
        mach ?k = vmm_switch_address_space (proc_cr3 (process_table k ! j)) (mach k)"
      using Some cr3 [OF \<open>j < 4\<close>] by (simp add: tick_eq [OF l])
    then show ?thesis using off by (auto simp: Let_def)
  qed
  show ?thesis
    unfolding Let_def split_def st tick_def [symmetric] using slots main by (simp add: Let_def)
qed

text \<open>The number of slots between the one where the search starts and slot \<open>i\<close>.\<close>

definition slots_before :: "nat \<Rightarrow> kernel \<Rightarrow> nat" where
  "slots_before i k = (i + 3 * search_start k) mod 4"

lemma slots_before_reaches: "i < 4 \<Longrightarrow> (search_start k + slots_before i k) mod 4 = i"
  by (simp add: slots_before_def mod_simps)

lemma slots_before_less: "slots_before i k < 4"
  by (simp add: slots_before_def)

lemma mod_4_shift: "(i + 3 * ((s + d) mod 4 + 1)) mod 4 = ((i + 3 * s) mod 4 + 3 * d + 3) mod (4 :: nat)"
proof -
  obtain q r where q: "s + d = 4 * q + r" and r: "(s + d) mod 4 = r" by (metis mult_div_mod_eq)
  have "(i + 3 * (r + 1)) mod 4 = (i + 3 * (r + 1) + 4 * (3 * q)) mod 4"
    by (simp only: mod_mult_self2)
  also have "i + 3 * (r + 1) + 4 * (3 * q) = (i + 3 * s) + (3 * d + 3)"
  proof -
    have "3 * (s + d) = 3 * (4 * q + r)" using q by simp
    then show ?thesis by (simp add: algebra_simps)
  qed
  also have "(i + 3 * s + (3 * d + 3)) mod 4 = ((i + 3 * s) mod 4 + (3 * d + 3)) mod 4" by (simp only: mod_add_left_eq)
  finally show ?thesis by (simp only: add.assoc r)
qed

lemma tick_progress:
  assumes "table_ok k" "running k i"
  shows "current_index (snd (tick fr k)) = int i \<or> slots_before i (snd (tick fr k)) < slots_before i k"
proof -
  have l: "length (process_table k) = 4" using assms(1) by blast
  have i: "i < 4" "state (process_table k ! i) = PROCESS_RUNNING" using assms(2) by (auto simp: running_def)
  let ?st = "search_start k" and ?d = "slots_before i k"
  have "next_running (process_table k) ?st \<noteq> None" using i by (auto simp: next_running_none)
  then obtain j where j: "next_running (process_table k) ?st = Some j" by blast
  then obtain off where off: "off < 4" "j = (?st + off) mod 4"
    "\<forall>o'<off. state (process_table k ! ((?st + o') mod 4)) \<noteq> PROCESS_RUNNING" by (auto simp: next_running_some)
  have cur: "current_index (snd (tick fr k)) = int j" using j by (simp add: tick_table(3) [OF l])
  have "\<not> ?d < off" using off(3) slots_before_reaches [OF i(1), of k] i(2) by metis
  then consider "off = ?d" | "off < ?d" by linarith
  then show ?thesis
  proof cases
    case 1
    then show ?thesis using cur off(2) slots_before_reaches [OF i(1), of k] by simp
  next
    case 2
    then obtain r where r: "?d = off + 1 + r" by (metis Suc_eq_plus1 less_iff_Suc_add add_Suc)
    have "search_start (snd (tick fr k)) = j + 1" using cur by (simp add: search_start_def)
    then have "slots_before i (snd (tick fr k)) = (i + 3 * ((?st + off) mod 4 + 1)) mod 4"
      by (simp add: slots_before_def off(2))
    also have "\<dots> = ((i + 3 * ?st) mod 4 + 3 * off + 3) mod 4" by (rule mod_4_shift)
    also have "(i + 3 * ?st) mod 4 + 3 * off + 3 = r + 4 * (off + 1)" using r by (simp add: slots_before_def)
    also have "(r + 4 * (off + 1)) mod 4 = r mod 4" by (simp only: mod_mult_self2)
    also have "\<dots> = r" using r slots_before_less [of i k] by simp
    finally show ?thesis using r by simp
  qed
qed

definition ticks :: "interrupt_frame list \<Rightarrow> kernel \<Rightarrow> kernel" where
  "ticks frs k = fold (\<lambda>fr k. snd (scheduler_tick (Some fr) k)) frs k"

lemma ticks_reach:
  assumes "table_ok k" "running k i" "slots_before i k < length frs"
  shows "\<exists>m. 1 \<le> m \<and> m \<le> slots_before i k + 1 \<and> current_index (ticks (take m frs) k) = int i"
  using assms
proof (induction frs arbitrary: k)
  case (Cons fr frs)
  let ?k = "snd (tick fr k)"
  have l: "length (process_table k) = 4" using Cons.prems(1) by blast
  from tick_progress [OF Cons.prems(1,2), of fr] show ?case
  proof
    assume "current_index ?k = int i"
    then show ?thesis by (intro exI [of _ 1]) (simp add: ticks_def tick_def)
  next
    assume less: "slots_before i ?k < slots_before i k"
    then obtain m where "1 \<le> m" "m \<le> slots_before i ?k + 1" "current_index (ticks (take m frs) ?k) = int i"
      using Cons.IH [of ?k] table_ok_tick [OF Cons.prems(1)] Cons.prems(2,3) l by auto
    then show ?thesis using less by (intro exI [of _ "Suc m"]) (simp add: ticks_def tick_def)
  qed
qed simp

text \<open>C10: No runnable process starves: whatever the frames, a process that is in the running state is
  the current one after at most four ticks.\<close>

theorem scheduler_fair:
  assumes "proc_run n k" and "n + 2 < 2 ^ 64" and "i < 4" and "state (process_table k ! i) = PROCESS_RUNNING"
    and "length frs = 4"
  shows "\<exists>m. 1 \<le> m \<and> m \<le> 4 \<and> current_index (ticks (take m frs) k) = int i"
proof -
  have "slots_before i k < 4" by (simp add: slots_before_def)
  then show ?thesis
    using ticks_reach [of k i frs] proc_run_ok [OF assms(1,2)] assms(3-5) by (fastforce simp: running_def)
qed

text \<open>C11: A preempted process resumes exactly where it was interrupted. Its frame comes back when it
  is scheduled again, whatever happened to the other processes in between.\<close>

theorem preempted_process_resumes:
  assumes "proc_run n k" and "n + length evs + 3 < 2 ^ 64" and "current_index k = int i"
    and "\<forall>m\<le>length evs. current_index (fold handle (take m evs) (handle (Tick fr) k)) \<noteq> int i"
    and "current_index (snd (scheduler_tick (Some fr') (fold handle evs (handle (Tick fr) k)))) = int i"
  shows "fst (scheduler_tick (Some fr') (fold handle evs (handle (Tick fr) k))) = Some fr"
proof -
  note handle.simps [simp del]
  have ok: "table_ok k" using proc_run_ok [OF assms(1)] assms(2) by simp
  then have l: "length (process_table k) = 4" by blast
  have run: "running k i" using ok assms(3) by (auto simp: table_ok_def)
  let ?k = "handle (Tick fr) k"
  have saved: "frame (process_table ?k ! i) = fr \<and> running ?k i"
    using run assms(3) l tick_running [OF l, of fr i]
    by (simp add: handle.simps tick_def [symmetric] tick_table(1) [OF l] save_interrupted_slot running_def)
  have runs: "proc_run (Suc n + m) (fold handle (take m evs) ?k)" if "m \<le> length evs" for m
    using that
  proof (induction m)
    case 0
    then show ?case using event [OF assms(1), of "Tick fr"] by simp
  next
    case (Suc m)
    then show ?case using event [of "Suc n + m" _ "evs ! m"] by (simp add: take_Suc_conv_app_nth)
  qed
  have kept: "process_table (fold handle (take m evs) ?k) ! i = process_table ?k ! i" if "m \<le> length evs" for m
    using that
  proof (induction m)
    case (Suc m)
    then have "process_table (fold handle (take m evs) ?k) ! i = process_table ?k ! i" by simp
    moreover have "table_ok (fold handle (take m evs) ?k)"
      using proc_run_ok [OF runs [of m]] Suc.prems assms(2) by simp
    moreover have "current_index (fold handle (take m evs) ?k) \<noteq> int i" using assms(4) Suc.prems by simp
    ultimately show ?case
      using handle_slot_kept [of "fold handle (take m evs) ?k" i "evs ! m"] saved Suc.prems
      by (simp add: take_Suc_conv_app_nth running_def)
  qed simp
  let ?e = "fold handle evs ?k"
  have e: "table_ok ?e" "process_table ?e ! i = process_table ?k ! i" "current_index ?e \<noteq> int i"
    using proc_run_ok [OF runs [of "length evs"]] kept [of "length evs"] assms(2,4) by auto
  then have le: "length (process_table ?e) = 4" by blast
  from assms(5) have cur: "current_index (snd (tick fr' ?e)) = int i" by (simp add: tick_def)
  then have nx: "next_running (process_table ?e) (search_start ?e) = Some i"
    unfolding tick_table(3) [OF le] by (simp split: option.splits)
  then have "fst (tick fr' ?e) = Some (frame (process_table (save_interrupted fr' ?e) ! i))" by (simp add: tick_eq [OF le])
  moreover have "i < 4" using saved by (simp add: running_def)
  ultimately show ?thesis using e(2,3) saved by (simp add: tick_def save_interrupted_slot [OF le])
qed

section \<open>Creation and exit\<close>

text \<open>\<open>process_create\<close> fails exactly when all four slots run, and then changes nothing. Otherwise it
  takes the lowest slot that does not run, gives it the next process id and a frame that enters the
  program in ring 3 with interrupts enabled and all other registers zero, and changes no other slot.\<close>

theorem process_create_correct:
  assumes "proc_run n k" and "n + 2 < 2 ^ 64"
  shows "(\<forall>i<4. state (process_table k ! i) = PROCESS_RUNNING) \<and> process_create ent stk c k = (-1, k) \<or>
    (\<exists>i<4. state (process_table k ! i) \<noteq> PROCESS_RUNNING \<and> (\<forall>j<i. state (process_table k ! j) = PROCESS_RUNNING) \<and>
      fst (process_create ent stk c k) = int i \<and>
      (let k' = snd (process_create ent stk c k); p = process_table k' ! i in
       pid p = next_pid k \<and> next_pid k' = next_pid k + 1 \<and> state p = PROCESS_RUNNING \<and> proc_cr3 p = c \<and>
       rip (frame p) = ent \<and> rsp (frame p) = stk \<and> cs (frame p) AND 3 = 3 \<and> ss (frame p) AND 3 = 3 \<and>
       rflags (frame p) AND 0x200 \<noteq> 0 \<and> rax (frame p) = 0 \<and>
       (\<forall>j<4. j \<noteq> i \<longrightarrow> process_table k' ! j = process_table k ! j)))"
  using find_free_slot_cases [of k]
proof
  assume "find_free_slot k = -1 \<and> (\<forall>i<4. running k i)"
  then show ?thesis by (intro disjI1) (simp add: process_create_eq running_def)
next
  assume "\<exists>i<4. find_free_slot k = int i \<and> \<not> running k i \<and> (\<forall>j<i. running k j)"
  then obtain i where i: "i < 4" "find_free_slot k = int i" "\<not> running k i" "\<forall>j<i. running k j" by blast
  moreover have "length (process_table k) = 4" using proc_run_ok [OF assms] by blast
  moreover have "(GDT_USER_CODE OR 3) AND 3 = 3" "(GDT_USER_DATA OR 3) AND 3 = 3"
    by (simp_all add: GDT_USER_CODE_def GDT_USER_DATA_def)
  ultimately show ?thesis
    by (intro disjI2 exI [of _ i])
       (auto simp: process_create_eq new_process_def initial_frame_def zero_frame_def running_def Let_def)
qed

text \<open>Exiting ends the current process and nothing else: its slot keeps the process id and gets the
  exit code, it is not runnable any more, no process is current, and the frame enters the kernel at the
  given return point in ring 0 on the kernel stack. Without a current process nothing happens.\<close>

theorem process_exit_correct:
  assumes "proc_run n k" and "n + 2 < 2 ^ 64"
  shows "let (f, k') = process_exit_from_syscall ret (Some fr) k in
    (current_index k = -1 \<longrightarrow> f = Some fr \<and> k' = k) \<and>
    (\<forall>i<4. current_index k = int i \<longrightarrow>
       state (process_table k' ! i) = PROCESS_EXITED \<and> exit_code (process_table k' ! i) = ucast (rdi fr) \<and>
       pid (process_table k' ! i) = pid (process_table k ! i) \<and> proc_cr3 (process_table k' ! i) = 0 \<and>
       current_index k' = -1 \<and> (\<forall>j<4. j \<noteq> i \<longrightarrow> process_table k' ! j = process_table k ! j) \<and>
       (\<exists>g. f = Some g \<and> rip g = ret \<and> cs g = 8 \<and> ss g = 0x10 \<and> rsp g = kernel_stack_top k \<and> rdi g = rdi fr))"
proof -
  have "length (process_table k) = 4" using proc_run_ok [OF assms] by blast
  then show ?thesis by (auto simp: process_exit_eq Let_def)
qed

section \<open>Concrete runs\<close>

definition kernel_sample :: kernel where
  "kernel_sample = \<lparr>mach = machine_sample,
     fs = fs_initial \<lparr>sectors = (\<lambda>_. replicate 512 0), read_status = (\<lambda>_. 0), write_status = (\<lambda>_. 0), stale = []\<rparr>,
     riru_user_cr3 = 0, process_table = [], current_index = -1, next_pid = 1, busy_ticks = 0,
     kernel_stack_top = 0x9000\<rparr>"

definition two_processes :: kernel where
  "two_processes = handle (Spawn 0x401000 0x3FFFF000 0x8000) (handle (Spawn 0x400000 0x3FFFF000 0x7000) (process_init kernel_sample))"

lemma two_processes_run: "proc_run 2 two_processes"
proof -
  have "proc_run 0 (process_init kernel_sample)" by (rule boot) (simp add: kernel_sample_def)
  then show ?thesis unfolding two_processes_def numeral_2_eq_2 by (intro event)
qed

lemma two_processes_eq:
  "process_table two_processes = [new_process 0x400000 0x3FFFF000 0x7000 kernel_sample,
     (new_process 0x401000 0x3FFFF000 0x8000 kernel_sample)\<lparr>pid := 2\<rparr>, unused_process, unused_process]"
  "current_index two_processes = -1"
  by (simp_all add: two_processes_def process_create_eq find_free_slot_def process_init_def MAX_PROCESSES_def
      first_index.simps numeral_eq_Suc new_process_def kernel_sample_def)

definition first_running :: kernel where
  "first_running = handle (Tick zero_frame) two_processes"

lemma first_running_run: "proc_run 3 first_running"
  unfolding first_running_def using event [OF two_processes_run, of "Tick zero_frame"]
  by (simp only: numeral_2_eq_2 numeral_3_eq_3)

lemma next_two:
  "state (t ! 0) = PROCESS_RUNNING \<Longrightarrow> next_running t 0 = Some 0"
  "state (t ! 1) = PROCESS_RUNNING \<Longrightarrow> next_running t 1 = Some 1"
  unfolding next_running_some
  subgoal by (intro exI [of _ 0]) simp
  subgoal by (intro exI [of _ 0]) simp
  done

lemma next_around:
  assumes "state (t ! 0) = PROCESS_RUNNING" "state (t ! 2) \<noteq> PROCESS_RUNNING" "state (t ! 3) \<noteq> PROCESS_RUNNING"
  shows "next_running t 2 = Some 0"
proof -
  have skip: "state (t ! ((2 + d) mod 4)) \<noteq> PROCESS_RUNNING" if "d < 2" for d
  proof -
    from that consider "d = 0" | "d = 1" by linarith
    then show ?thesis using assms(2,3) by cases simp_all
  qed
  have "\<forall>d<2. state (t ! ((2 + d) mod 4)) \<noteq> PROCESS_RUNNING" using skip by blast
  then show ?thesis unfolding next_running_some using assms(1) by (intro exI [of _ 2] conjI) simp_all
qed

lemma first_running_eq:
  "current_index first_running = 0" "process_table first_running = process_table two_processes"
proof -
  have l: "length (process_table two_processes) = 4" by (simp add: two_processes_eq)
  have "next_running (process_table two_processes) 0 = Some 0" by (rule next_two) (simp add: two_processes_eq new_process_def)
  then show "current_index first_running = 0"
    using tick_table(3) [OF l, of zero_frame] by (simp add: first_running_def tick_def search_start_def two_processes_eq(2))
  show "process_table first_running = process_table two_processes"
    using tick_table(1) [OF l, of zero_frame] by (simp add: first_running_def tick_def save_interrupted_def two_processes_eq(2))
qed

theorem process_table_invariant_witness: "process_by_pid 1 two_processes = Some 0"
proof -
  have "(2 :: nat) + 2 < 2 ^ 64" by simp
  note inv = process_table_invariant [OF two_processes_run this]
  have "state (process_table two_processes ! 0) \<noteq> PROCESS_UNUSED" "pid (process_table two_processes ! 0) = 1"
    by (simp_all add: two_processes_eq new_process_def kernel_sample_def)
  moreover have "(0 :: nat) < 4" by simp
  ultimately show ?thesis using inv by metis
qed

theorem scheduler_tick_round_robin_witness:
  "process_table (snd (scheduler_tick (Some (zero_frame\<lparr>rax := 7\<rparr>)) first_running)) ! 0 =
     (process_table first_running ! 0)\<lparr>frame := zero_frame\<lparr>rax := 7\<rparr>\<rparr>"
  using scheduler_tick_round_robin [OF first_running_run, of "zero_frame\<lparr>rax := 7\<rparr>"]
  by (simp add: split_def Let_def first_running_eq)

theorem scheduler_fair_witness:
  "\<exists>m. 1 \<le> m \<and> m \<le> 4 \<and> current_index (ticks (take m (replicate 4 zero_frame)) two_processes) = int 1"
  by (rule scheduler_fair [OF two_processes_run]) (simp_all add: two_processes_eq new_process_def)

theorem preempted_process_resumes_witness:
  "fst (scheduler_tick (Some zero_frame) (handle (Tick (zero_frame\<lparr>rax := 7\<rparr>)) first_running)) = Some (zero_frame\<lparr>rax := 7\<rparr>)"
proof -
  let ?k = "handle (Tick (zero_frame\<lparr>rax := 7\<rparr>)) first_running"
  have l: "length (process_table first_running) = 4" by (simp add: first_running_eq two_processes_eq)
  have "next_running (process_table first_running) 1 = Some 1"
    by (rule next_two) (simp add: first_running_eq two_processes_eq new_process_def)
  then have c: "current_index ?k = 1"
    using tick_table(3) [OF l] by (simp add: tick_def search_start_def first_running_eq)
  have t: "process_table ?k = process_table (save_interrupted (zero_frame\<lparr>rax := 7\<rparr>) first_running)"
    using tick_table(1) [OF l] by (simp add: tick_def)
  have lk: "length (process_table ?k) = 4" unfolding t using l by simp
  have "next_running (process_table ?k) 2 = Some 0"
    unfolding t next_running_save [OF l]
    by (rule next_around) (simp_all add: first_running_eq two_processes_eq new_process_def)
  then have "current_index (snd (scheduler_tick (Some zero_frame) ?k)) = int 0"
    using tick_table(3) [OF lk] c by (simp add: tick_def [symmetric] search_start_def)
  then show ?thesis
    using preempted_process_resumes [OF first_running_run, of "[]" 0 "zero_frame\<lparr>rax := 7\<rparr>" zero_frame] c first_running_eq(1)
    by simp
qed

theorem process_create_correct_witness: "fst (process_create 5 6 7 two_processes) = 2"
proof -
  have s: "state (process_table two_processes ! 0) = PROCESS_RUNNING" "state (process_table two_processes ! 1) = PROCESS_RUNNING"
    "state (process_table two_processes ! 2) \<noteq> PROCESS_RUNNING" by (simp_all add: two_processes_eq new_process_def)
  have "(2 :: nat) + 2 < 2 ^ 64" by simp
  from process_create_correct [OF two_processes_run this, of 5 6 7] s(3)
  obtain i where "state (process_table two_processes ! i) \<noteq> PROCESS_RUNNING"
    "\<forall>j<i. state (process_table two_processes ! j) = PROCESS_RUNNING" "fst (process_create 5 6 7 two_processes) = int i"
    by (metis numeral_less_iff semiring_norm(76,78))
  moreover from this s have "i \<noteq> 0" "i \<noteq> 1" "\<not> 2 < i" by metis+
  ultimately have "i = 2" by linarith
  then show ?thesis using \<open>fst (process_create 5 6 7 two_processes) = int i\<close> by simp
qed

theorem process_exit_correct_witness:
  "state (process_table (snd (process_exit_from_syscall 9 (Some zero_frame) first_running)) ! 0) = PROCESS_EXITED"
  using process_exit_correct [OF first_running_run, of 9 zero_frame] by (simp add: split_def Let_def first_running_eq)

end
