(* ===== verification/Elf.thy ===== *)
theory Elf
  imports Prelude
begin

text \<open>
  ELF64 headers, \<open>src/elf/elf.c\<close>: the two structures as they lie in memory, the validation with
  every return code, and the access to the program headers.
\<close>

definition ELFCLASS64 :: u8 where "ELFCLASS64 = 2"
definition ELFDATA2LSB :: u8 where "ELFDATA2LSB = 1"
definition EM_X86_64 :: u16 where "EM_X86_64 = 62"
definition ET_EXEC :: u16 where "ET_EXEC = 2"
definition ET_DYN :: u16 where "ET_DYN = 3"
definition PT_LOAD :: u32 where "PT_LOAD = 1"
definition ELF_HEADER_BYTES :: u64 where "ELF_HEADER_BYTES = 64"
definition ELF_PROGRAM_HEADER_BYTES :: u64 where "ELF_PROGRAM_HEADER_BYTES = 56"

record elf64_header =
  e_ident :: "u8 list"
  e_type :: u16
  e_machine :: u16
  e_version :: u32
  e_entry :: u64
  e_phoff :: u64
  e_shoff :: u64
  e_flags :: u32
  e_ehsize :: u16
  e_phentsize :: u16
  e_phnum :: u16
  e_shentsize :: u16
  e_shnum :: u16
  e_shstrndx :: u16

record elf64_program_header =
  p_type :: u32
  p_flags :: u32
  p_offset :: u64
  p_vaddr :: u64
  p_paddr :: u64
  p_filesz :: u64
  p_memsz :: u64
  p_align :: u64

definition elf_header_at :: "memory \<Rightarrow> u64 \<Rightarrow> elf64_header" where
  "elf_header_at m p =
     \<lparr>e_ident = load_bytes m p 16, e_type = load16 m (p + 16), e_machine = load16 m (p + 18),
      e_version = load32 m (p + 20), e_entry = load64 m (p + 24), e_phoff = load64 m (p + 32),
      e_shoff = load64 m (p + 40), e_flags = load32 m (p + 48), e_ehsize = load16 m (p + 52),
      e_phentsize = load16 m (p + 54), e_phnum = load16 m (p + 56), e_shentsize = load16 m (p + 58),
      e_shnum = load16 m (p + 60), e_shstrndx = load16 m (p + 62)\<rparr>"

definition program_header_at :: "memory \<Rightarrow> u64 \<Rightarrow> elf64_program_header" where
  "program_header_at m p =
     \<lparr>p_type = load32 m p, p_flags = load32 m (p + 4), p_offset = load64 m (p + 8), p_vaddr = load64 m (p + 16),
      p_paddr = load64 m (p + 24), p_filesz = load64 m (p + 32), p_memsz = load64 m (p + 40), p_align = load64 m (p + 48)\<rparr>"

definition elf_check_magic :: "u8 list \<Rightarrow> bool" where
  "elf_check_magic ident \<longleftrightarrow> ident ! 0 = 0x7F \<and> ident ! 1 = 0x45 \<and> ident ! 2 = 0x4C \<and> ident ! 3 = 0x46"

definition elf_validate :: "memory \<Rightarrow> u64 \<Rightarrow> u64 \<Rightarrow> int" where
  "elf_validate m file sz =
     (if file = 0 then -1
      else if sz < ELF_HEADER_BYTES then -2
      else
        (let h = elf_header_at m file in
         if \<not> elf_check_magic (e_ident h) then -3
         else if e_ident h ! 4 \<noteq> ELFCLASS64 then -4
         else if e_ident h ! 5 \<noteq> ELFDATA2LSB then -5
         else if e_machine h \<noteq> EM_X86_64 then -6
         else if e_type h \<noteq> ET_EXEC \<and> e_type h \<noteq> ET_DYN then -7
         else if ucast (e_phentsize h) \<noteq> ELF_PROGRAM_HEADER_BYTES then -8
         else if e_phoff h > sz then -9
         else
           (let ph_end = e_phoff h + ucast (e_phnum h) * ucast (e_phentsize h) in
            if ph_end > sz then -10 else if e_entry h = 0 then -11 else 0)))"

text \<open>The out-parameters are \<open>False\<close> for a null pointer, and written on success only.\<close>

definition elf_get_header :: "memory \<Rightarrow> u64 \<Rightarrow> u64 \<Rightarrow> bool \<Rightarrow> int \<times> elf64_header option" where
  "elf_get_header m file sz header =
     (if \<not> header then (-1, None)
      else if elf_validate m file sz \<noteq> 0 then (-2, None) else (0, Some (elf_header_at m file)))"

definition elf_get_program_header ::
  "memory \<Rightarrow> u64 \<Rightarrow> u64 \<Rightarrow> u16 \<Rightarrow> bool \<Rightarrow> int \<times> elf64_program_header option" where
  "elf_get_program_header m file sz index header =
     (if \<not> header then (-1, None)
      else if elf_validate m file sz \<noteq> 0 then (-2, None)
      else
        (let elf = elf_header_at m file in
         if index \<ge> e_phnum elf then (-3, None)
         else (0, Some (program_header_at m (file + e_phoff elf + ucast index * ucast (e_phentsize elf))))))"

definition elf_is_loadable :: "elf64_program_header option \<Rightarrow> bool" where
  "elf_is_loadable header = (case header of None \<Rightarrow> False | Some h \<Rightarrow> p_type h = PT_LOAD)"

end
