(* ===== verification/Elf_Loader.thy ===== *)
theory Elf_Loader
  imports Kernel_State Elf
begin

text \<open>
  The ELF loader, \<open>src/elf/loader.c\<close>: a first pass over the program headers that validates them and
  finds the image's extent, a second one that maps missing pages in the current address space and
  copies each segment. \<open>None\<close> is a page fault while copying.
\<close>

unbundle bit_operations_syntax

definition USER_MIN_ADDRESS :: u64 where "USER_MIN_ADDRESS = 0x400000"
definition USER_MAX_ADDRESS :: u64 where "USER_MAX_ADDRESS = 0x40000000"

record elf_load_result =
  elf_res_entry :: u64
  elf_image_base :: u64
  elf_image_end :: u64
  elf_pages :: u64

definition range_valid :: "u64 \<Rightarrow> u64 \<Rightarrow> bool" where
  "range_valid start sz =
     (if sz = 0 then True
      else if start < USER_MIN_ADDRESS then False
      else if start > USER_MAX_ADDRESS then False
      else if sz > USER_MAX_ADDRESS - start then False
      else True)"

text \<open>First pass, from program header \<open>i\<close> on; \<open>n\<close> headers remain.\<close>

fun scan_headers :: "memory \<Rightarrow> u64 \<Rightarrow> u64 \<Rightarrow> nat \<Rightarrow> u16 \<Rightarrow> u64 \<times> u64 \<Rightarrow> int + (u64 \<times> u64)" where
  "scan_headers m file sz 0 i ext = Inr ext"
| "scan_headers m file sz (Suc n) i ext =
     (case elf_get_program_header m file sz i True of
        (rc, None) \<Rightarrow> Inl (-3)
      | (rc, Some ph) \<Rightarrow>
          if rc \<noteq> 0 then Inl (-3)
          else if \<not> elf_is_loadable (Some ph) then scan_headers m file sz n (i + 1) ext
          else if p_memsz ph < p_filesz ph then Inl (-4)
          else if p_offset ph > sz then Inl (-5)
          else if p_filesz ph > sz - p_offset ph then Inl (-6)
          else if \<not> range_valid (p_vaddr ph) (p_memsz ph) then Inl (-7)
          else
            (let segment_start = align_down (p_vaddr ph);
                 segment_end = align_up (p_vaddr ph + p_memsz ph)
             in scan_headers m file sz n (i + 1)
                  (if segment_start < fst ext then segment_start else fst ext,
                   if segment_end > snd ext then segment_end else snd ext)))"

fun map_segment_pages :: "u64 \<Rightarrow> nat list \<Rightarrow> machine \<Rightarrow> int \<times> machine" where
  "map_segment_pages segment_start [] m = (0, m)"
| "map_segment_pages segment_start (page # pages) m =
     (let virtual_address = segment_start + of_nat page * PAGE_SIZE in
      if vmm_get_physical virtual_address m \<noteq> 0 then map_segment_pages segment_start pages m
      else
        (let (physical, m) = of_pmm pmm_alloc_page m in
         if physical = 0 then (-11, m)
         else
           (let (map_result, m) = vmm_map_page virtual_address physical (PAGE_WRITABLE OR PAGE_USER) m in
            if map_result \<noteq> 0 then (-12, on_pmm (pmm_free_page physical) m)
            else map_segment_pages segment_start pages m)))"

fun load_segments :: "u64 \<Rightarrow> u64 \<Rightarrow> nat \<Rightarrow> u16 \<Rightarrow> machine \<Rightarrow> (int \<times> machine) option" where
  "load_segments file sz 0 i m = Some (0, m)"
| "load_segments file sz (Suc n) i m =
     (case elf_get_program_header (mem m) file sz i True of
        (rc, None) \<Rightarrow> Some (-10, m)
      | (rc, Some ph) \<Rightarrow>
          if rc \<noteq> 0 then Some (-10, m)
          else if \<not> elf_is_loadable (Some ph) then load_segments file sz n (i + 1) m
          else
            (let segment_start = align_down (p_vaddr ph);
                 segment_end = align_up (p_vaddr ph + p_memsz ph);
                 pages = (segment_end - segment_start) div PAGE_SIZE;
                 (r, m) = map_segment_pages segment_start [0..<unat pages] m in
             if r \<noteq> 0 then Some (r, m)
             else
               (case copy_bytes (unat (p_filesz ph)) (p_vaddr ph) (file + p_offset ph) m of
                  None \<Rightarrow> None
                | Some m \<Rightarrow>
                    (case zero_bytes (unat (p_memsz ph) - unat (p_filesz ph)) (p_vaddr ph + p_filesz ph) m of
                       None \<Rightarrow> None
                     | Some m \<Rightarrow> load_segments file sz n (i + 1) m))))"

definition elf_load :: "u64 \<Rightarrow> u64 \<Rightarrow> bool \<Rightarrow> machine \<Rightarrow> (int \<times> elf_load_result option \<times> machine) option" where
  "elf_load file sz result m =
     (if file = 0 \<or> \<not> result then Some (-1, None, m)
      else
        (let validation = elf_validate (mem m) file sz in
         if validation \<noteq> 0 then Some (validation, None, m)
         else
           (case elf_get_header (mem m) file sz True of
              (rc, None) \<Rightarrow> Some (-2, None, m)
            | (rc, Some elf) \<Rightarrow>
                (case scan_headers (mem m) file sz (unat (e_phnum elf)) 0 (- 1, 0) of
                   Inl rc \<Rightarrow> Some (rc, None, m)
                 | Inr (base, iend) \<Rightarrow>
                     if base = - 1 then Some (-8, None, m)
                     else
                       (let npages = (iend - base) div PAGE_SIZE in
                        if npages = 0 then Some (-9, None, m)
                        else
                          (case load_segments file sz (unat (e_phnum elf)) 0 m of
                             None \<Rightarrow> None
                           | Some (rc, m) \<Rightarrow>
                               if rc \<noteq> 0 then Some (rc, None, m)
                               else if e_entry elf < base \<or> e_entry elf \<ge> iend then Some (-13, None, m)
                               else Some (0, Some \<lparr>elf_res_entry = e_entry elf, elf_image_base = base,
                                                   elf_image_end = iend, elf_pages = npages\<rparr>, m)))))))"

end
