(* ===== verification/Executables.thy ===== *)
theory Executables
  imports Process_Table Elf_Loader
begin

text \<open>
  Untrusted input: the range checks of the loaders and of the system calls as one contract (locale
  \<open>range_check\<close>, interpreted on the three copies of the code), what the two executable formats accept,
  and the system call dispatch.
\<close>

unbundle bit_operations_syntax

section \<open>Range checks\<close>

locale range_check =
  fixes valid :: "u64 \<Rightarrow> u64 \<Rightarrow> bool" and lo hi :: u64
  assumes valid_law: "valid a n \<longleftrightarrow> n = 0 \<or> (lo \<le> a \<and> a \<le> hi \<and> n \<le> hi - a)"
begin

lemma valid_iff: "valid a n \<longleftrightarrow> n = 0 \<or> (unat lo \<le> unat a \<and> unat a + unat n \<le> unat hi)"
proof -
  have "a \<le> hi \<Longrightarrow> n \<le> hi - a \<longleftrightarrow> unat a + unat n \<le> unat hi"
    by (simp add: word_le_nat_alt unat_sub) linarith
  moreover have "unat a + unat n \<le> unat hi \<Longrightarrow> a \<le> hi" by (simp add: word_le_nat_alt)
  ultimately show ?thesis unfolding valid_law by (auto simp: word_le_nat_alt)
qed

text \<open>Every byte of a valid range lies between the limits; the addition does not wrap.\<close>

lemma valid_bytes:
  assumes "valid a n" "i < n"
  shows "unat (a + i) = unat a + unat i \<and> lo \<le> a + i \<and> a + i < hi"
proof -
  from assms have "n \<noteq> 0" by auto
  then have r: "unat lo \<le> unat a" "unat a + unat n \<le> unat hi" using assms(1) by (simp_all add: valid_iff)
  have "unat i < unat n" using assms(2) by (simp add: word_less_nat_alt)
  then have "unat a + unat i < unat hi" using r(2) by linarith
  then have s: "unat (a + i) = unat a + unat i"
    using unat_less_u64 [of hi] by (intro unat_add_lem [THEN iffD1]) simp
  then show ?thesis using r(1) \<open>unat a + unat i < unat hi\<close> by (simp add: word_le_nat_alt word_less_nat_alt)
qed

end

lemma word_diff_positive: "(a :: u64) = hi \<Longrightarrow> n \<le> hi - a \<longleftrightarrow> n = 0"
  by simp

interpretation user_range: range_check user_range_valid USER_MIN USER_MAX
  by unfold_locales (auto simp: user_range_valid_def not_less not_le dest: order.antisym)

interpretation load_range: range_check valid_range RIRU_USER_MIN RIRU_USER_MAX
  by unfold_locales (auto simp: valid_range_def not_less not_le dest: order.antisym)

interpretation elf_range: range_check range_valid USER_MIN_ADDRESS USER_MAX_ADDRESS
  by unfold_locales (auto simp: range_valid_def not_less not_le)

section \<open>System calls\<close>

lemma print_keeps_memory:
  "slot (on_pmm f m) = slot m" "current_pml4 (on_pmm f m) = current_pml4 m" "mem (on_pmm f m) = mem m"
  by (simp_all add: fun_eq_iff slot_def on_pmm_def)

lemma vread_print [simp]: "vread (on_pmm f m) a = vread m a"
  unfolding vread_def mmu_walk_def print_keeps_memory ..

lemma write_chars_result:
  assumes "\<forall>i<n. vread (mach k) (a + of_nat i) \<noteq> None"
  shows "write_chars n a k =
    Some (fold (\<lambda>i. on_mach (on_pmm (terminal_putchar (char_of (unat (the (vread (mach k) (a + of_nat i)))))))) [0..<n] k)"
  using assms
proof (induction n arbitrary: a k)
  case (Suc n)
  from Suc.prems obtain b where b: "vread (mach k) a = Some b" by fastforce
  let ?k = "on_mach (on_pmm (terminal_putchar (char_of (unat b)))) k"
  have "vread (mach k) (a + 1 + of_nat i) \<noteq> None" if "i < n" for i
    using Suc.prems that by (fastforce simp: add.assoc dest: spec [of _ "Suc i"])
  then have "write_chars n (a + 1) ?k =
    Some (fold (\<lambda>i. on_mach (on_pmm (terminal_putchar (char_of (unat (the (vread (mach k) (a + 1 + of_nat i)))))))) [0..<n] ?k)"
    using Suc.IH [of ?k "a + 1"] by simp
  moreover have "[0..<Suc n] = 0 # map Suc [0..<n]" by (simp add: map_Suc_upt upt_conv_Cons)
  ultimately show ?case using b by (simp add: fold_map comp_def add.assoc)
qed simp

text \<open>C23: The system call dispatch trusts nothing. A write is refused with -1 and without effect unless
  the whole buffer lies in the user area from 4 MiB to 1 GiB, in which case no address wraps; if the
  buffer is mapped its bytes are put out in order and the length is returned. An unknown number gives -1,
  a null frame nothing.\<close>

theorem syscall_handler_correct:
  shows "syscall_handler ret None k = Some (None, k) \<and>
    (rax fr \<notin> {SYS_WRITE, SYS_EXIT} \<longrightarrow> syscall_handler ret (Some fr) k = Some (Some (fr\<lparr>rax := - 1\<rparr>), k)) \<and>
    (rax fr = SYS_EXIT \<longrightarrow> syscall_handler ret (Some fr) k = Some (process_exit_from_syscall ret (Some fr) k)) \<and>
    (rax fr = SYS_WRITE \<and> rsi fr \<noteq> 0 \<and> \<not> (0x400000 \<le> unat (rdi fr) \<and> unat (rdi fr) + unat (rsi fr) \<le> 0x40000000) \<longrightarrow>
       syscall_handler ret (Some fr) k = Some (Some (fr\<lparr>rax := - 1\<rparr>), k)) \<and>
    (rax fr = SYS_WRITE \<and> 0x400000 \<le> unat (rdi fr) \<and> unat (rdi fr) + unat (rsi fr) \<le> 0x40000000 \<and>
       (\<forall>i<unat (rsi fr). vread (mach k) (rdi fr + of_nat i) \<noteq> None) \<longrightarrow>
       syscall_handler ret (Some fr) k = Some (Some (fr\<lparr>rax := rsi fr\<rparr>),
         present_k (fold (\<lambda>i. on_mach (on_pmm (terminal_putchar (char_of (unat (the (vread (mach k) (rdi fr + of_nat i))))))))
           [0..<unat (rsi fr)] k)))"
proof -
  have c: "SYS_WRITE \<noteq> SYS_EXIT" "unat USER_MIN = 0x400000" "unat USER_MAX = 0x40000000"
    by (simp_all add: SYS_WRITE_def SYS_EXIT_def USER_MIN_def USER_MAX_def)
  show ?thesis
    using c write_chars_result [of "unat (rsi fr)" k "rdi fr"] user_range.valid_iff [of "rdi fr" "rsi fr"]
    by (auto simp: syscall_handler_def Let_def)
qed

theorem syscall_handler_correct_witness:
  "syscall_handler 0 (Some (zero_frame\<lparr>rax := 2, rdi := 0x1000, rsi := 4\<rparr>)) kernel_sample =
    Some (Some (zero_frame\<lparr>rax := - 1, rdi := 0x1000, rsi := 4\<rparr>), kernel_sample)"
  using syscall_handler_correct [of 0 kernel_sample "zero_frame\<lparr>rax := 2, rdi := 0x1000, rsi := 4\<rparr>"]
  by (simp add: SYS_WRITE_def)

section \<open>Executables\<close>

lemma riru_range_valid_iff: "riru_range_valid off n f \<longleftrightarrow> unat off + unat n \<le> unat f"
  by (simp add: riru_range_valid_def word_less_nat_alt unat_sub word_le_nat_alt) linarith

text \<open>C25: What \<open>riru_validate\<close> accepts, exactly: a file with a complete header whose magic, version,
  architecture and type are right, whose image fits the file, all of whose sections lie inside the image
  without wrapping, with an entry point and an address for every non-empty section. Parsing an accepted
  file gives pointers to sections that lie inside the file.\<close>

theorem riru_parse_sound:
  shows "(riru_validate m file sz = 0 \<longleftrightarrow>
      (let h = riru_header_at m file in
       file \<noteq> 0 \<and> 120 \<le> unat sz \<and> riru_check_magic h \<and> version h = 1 \<and> architecture h = 1 \<and> rtype h = 1 \<and>
       120 \<le> unat (image_size h) \<and> unat (image_size h) \<le> unat sz \<and>
       unat (code_offset h) + unat (code_size h) \<le> unat (image_size h) \<and>
       unat (rodata_offset h) + unat (rodata_size h) \<le> unat (image_size h) \<and>
       unat (data_offset h) + unat (data_size h) \<le> unat (image_size h) \<and> rentry h \<noteq> 0 \<and>
       (code_size h \<noteq> 0 \<longrightarrow> code_vaddr h \<noteq> 0) \<and> (rodata_size h \<noteq> 0 \<longrightarrow> rodata_vaddr h \<noteq> 0) \<and>
       (data_size h \<noteq> 0 \<longrightarrow> data_vaddr h \<noteq> 0))) \<and>
    (\<forall>img. riru_parse m file sz True = (0, Some img) \<longrightarrow>
       (let h = riru_header_at m file in
        img_header img = h \<and> img_entry img = rentry h \<and>
        (\<forall>i<code_size h. img_code img + i = file + (code_offset h + i) \<and> unat (code_offset h + i) < unat sz) \<and>
        (\<forall>i<rodata_size h. img_rodata img + i = file + (rodata_offset h + i) \<and> unat (rodata_offset h + i) < unat sz) \<and>
        (\<forall>i<data_size h. img_data img + i = file + (data_offset h + i) \<and> unat (data_offset h + i) < unat sz)))"
proof -
  let ?h = "riru_header_at m file"
  have iff: "riru_validate m file sz = 0 \<longleftrightarrow>
      file \<noteq> 0 \<and> 120 \<le> unat sz \<and> riru_check_magic ?h \<and> version ?h = 1 \<and> architecture ?h = 1 \<and> rtype ?h = 1 \<and>
       120 \<le> unat (image_size ?h) \<and> unat (image_size ?h) \<le> unat sz \<and>
       unat (code_offset ?h) + unat (code_size ?h) \<le> unat (image_size ?h) \<and>
       unat (rodata_offset ?h) + unat (rodata_size ?h) \<le> unat (image_size ?h) \<and>
       unat (data_offset ?h) + unat (data_size ?h) \<le> unat (image_size ?h) \<and> rentry ?h \<noteq> 0 \<and>
       (code_size ?h \<noteq> 0 \<longrightarrow> code_vaddr ?h \<noteq> 0) \<and> (rodata_size ?h \<noteq> 0 \<longrightarrow> rodata_vaddr ?h \<noteq> 0) \<and>
       (data_size ?h \<noteq> 0 \<longrightarrow> data_vaddr ?h \<noteq> 0)"
    unfolding riru_validate_def Let_def riru_range_valid_iff [symmetric]
    by (simp add: RIRU_HEADER_BYTES_def RIRU_VERSION_def RIRU_ARCH_X86_64_def RIRU_TYPE_EXECUTABLE_def
        word_less_nat_alt not_less)
  have inside: "unat (off + i) < unat sz" if "i < n" "unat off + unat n \<le> unat f" "unat f \<le> unat sz" for off i n f :: u64
  proof -
    have "unat off + unat i < unat sz" using that by (simp add: word_less_nat_alt)
    then show ?thesis using unat_less_u64 [of sz] by (subst unat_add_lem [THEN iffD1]) simp_all
  qed
  have nonzero: "i < n \<Longrightarrow> n \<noteq> 0" for i n :: u64 by auto
  have parse: "img_header img = ?h \<and> img_entry img = rentry ?h \<and>
        (\<forall>i<code_size ?h. img_code img + i = file + (code_offset ?h + i) \<and> unat (code_offset ?h + i) < unat sz) \<and>
        (\<forall>i<rodata_size ?h. img_rodata img + i = file + (rodata_offset ?h + i) \<and> unat (rodata_offset ?h + i) < unat sz) \<and>
        (\<forall>i<data_size ?h. img_data img + i = file + (data_offset ?h + i) \<and> unat (data_offset ?h + i) < unat sz)"
    if p: "riru_parse m file sz True = (0, Some img)" for img
  proof -
    have v: "riru_validate m file sz = 0" using p by (auto simp: riru_parse_def Let_def split: if_splits)
    then have img: "img = \<lparr>img_header = ?h,
                 img_code = (if code_size ?h \<noteq> 0 then file + code_offset ?h else 0),
                 img_rodata = (if rodata_size ?h \<noteq> 0 then file + rodata_offset ?h else 0),
                 img_data = (if data_size ?h \<noteq> 0 then file + data_offset ?h else 0),
                 img_code_vaddr = code_vaddr ?h, img_rodata_vaddr = rodata_vaddr ?h,
                 img_data_vaddr = data_vaddr ?h, img_entry = rentry ?h\<rparr>"
      using p by (simp add: riru_parse_def Let_def)
    note f = iff [THEN iffD1, OF v]
    show ?thesis unfolding img using f nonzero inside by (auto simp: add.assoc)
  qed
  show ?thesis unfolding Let_def using iff parse by blast
qed

text \<open>A small executable at address 0x1000: its header and eight bytes of code.\<close>

definition riru_sample_bytes :: "u8 list" where
  "riru_sample_bytes = [82, 73, 82, 85, 1, 0, 1, 0, 1, 0, 0, 0, 0, 0, 0, 0] @ le_bytes 8 (0x401000 :: u64) @
     le_bytes 8 (120 :: u64) @ le_bytes 8 (0x401000 :: u64) @ le_bytes 8 (8 :: u64) @ replicate 56 0 @ le_bytes 8 (0 :: u64) @
     le_bytes 8 (128 :: u64) @ replicate 8 0x90"

definition riru_sample :: memory where
  "riru_sample a = (let k = unat (a - 0x1000) in if k < 128 then riru_sample_bytes ! k else 0)"

lemma riru_sample_valid: "riru_validate riru_sample 0x1000 128 = 0"
  by code_simp

theorem riru_parse_sound_witness:
  "\<exists>img. riru_parse riru_sample 0x1000 128 True = (0, Some img) \<and> img_header img = riru_header_at riru_sample 0x1000 \<and>
     unat (code_offset (img_header img)) + unat (code_size (img_header img)) \<le> unat (128 :: u64)"
proof -
  obtain img where img: "riru_parse riru_sample 0x1000 128 True = (0, Some img)"
    by (simp add: riru_parse_def riru_sample_valid Let_def)
  note s = riru_parse_sound [of riru_sample "0x1000" 128, unfolded Let_def]
  have "img_header img = riru_header_at riru_sample 0x1000" using s img by blast
  moreover have "unat (code_offset (riru_header_at riru_sample 0x1000)) + unat (code_size (riru_header_at riru_sample 0x1000)) \<le> unat (128 :: u64)"
    using s riru_sample_valid by (meson le_trans)
  ultimately show ?thesis using img by auto
qed

end
