(* ===== verification/Elf_Check.thy ===== *)
theory Elf_Check
  imports Elf_Loader
begin

text \<open>ELF files: accepted program headers lie inside the file, and what a successful load has checked.\<close>

unbundle bit_operations_syntax

lemma unat_less_u16: "unat (x :: u16) < 65536"
  using unsigned_less [of x] by simp

lemma unat_ucast_16: "unat (ucast (x :: u16) :: u64) = unat x"
  using unat_less_u16 [of x] by (simp add: unsigned_ucast_eq take_bit_nat_eq_self)

lemma elf_validate_facts:
  assumes "elf_validate m file sz = 0"
  shows "file \<noteq> 0 \<and> 64 \<le> unat sz \<and> e_phentsize (elf_header_at m file) = 56 \<and> e_phoff (elf_header_at m file) \<le> sz \<and>
    e_phoff (elf_header_at m file) + ucast (e_phnum (elf_header_at m file)) * 56 \<le> sz \<and> e_entry (elf_header_at m file) \<noteq> 0"
proof -
  let ?h = "elf_header_at m file"
  have "(ucast (e_phentsize ?h) :: u64) = 56 \<longleftrightarrow> e_phentsize ?h = 56"
  proof
    assume "(ucast (e_phentsize ?h) :: u64) = 56"
    then have "unat (ucast (e_phentsize ?h) :: u64) = 56" by simp
    then show "e_phentsize ?h = 56" by (simp add: word_unat_eq_iff unat_ucast_16)
  qed simp
  then show ?thesis using assms
    by (auto simp: elf_validate_def Let_def ELF_HEADER_BYTES_def ELF_PROGRAM_HEADER_BYTES_def word_less_nat_alt word_le_nat_alt not_less
        split: if_splits)
qed

text \<open>C30: Every program header of an accepted ELF file of less than 2^63 bytes lies inside the file, and is
  what \<open>elf_get_program_header\<close> returns; an index past the last header is refused with -3.\<close>

theorem elf_program_header_inside:
  assumes "elf_validate m file sz = 0" and "unat sz < 2 ^ 63"
  shows "let h = elf_header_at m file; off = e_phoff h + ucast index * 56 in
    (index \<ge> e_phnum h \<longrightarrow> elf_get_program_header m file sz index True = (-3, None)) \<and>
    (index < e_phnum h \<longrightarrow> unat off + 56 \<le> unat sz \<and>
       elf_get_program_header m file sz index True = (0, Some (program_header_at m (file + off))))"
proof -
  let ?h = "elf_header_at m file"
  note v = elf_validate_facts [OF assms(1)]
  have ent: "(ucast (e_phentsize ?h) :: u64) = 56" using v by simp
  have small: "unat x * 56 < 2 ^ 22" for x :: u16 using unat_less_u16 [of x] by simp
  have mul: "unat (ucast x * 56 :: u64) = unat x * 56" for x :: u16
    using small [of x] by (simp add: unat_word_ariths unat_ucast_16)
  have add: "unat (e_phoff ?h + ucast x * 56) = unat (e_phoff ?h) + unat x * 56" for x :: u16
    using small [of x] v assms(2) by (simp add: unat_word_ariths(1) mul word_le_nat_alt)
  have "unat (e_phoff ?h + ucast index * 56) + 56 \<le> unat sz" if "index < e_phnum ?h"
  proof -
    have "unat index * 56 + 56 \<le> unat (e_phnum ?h) * 56" using that by (simp add: word_less_nat_alt)
    moreover have "unat (e_phoff ?h) + unat (e_phnum ?h) * 56 \<le> unat sz"
      using v add [of "e_phnum ?h"] by (simp add: word_le_nat_alt)
    ultimately show ?thesis using add [of index] by simp
  qed
  then show ?thesis using assms(1) ent
    by (auto simp: elf_get_program_header_def Let_def add.assoc not_le)
qed

lemma scan_headers_checked:
  assumes "scan_headers m file sz n i ext = Inr ext'"
  shows "fst ext' \<le> fst ext \<and> snd ext \<le> snd ext' \<and>
    (\<forall>k<n. \<exists>ph. elf_get_program_header m file sz (i + of_nat k) True = (0, Some ph) \<and>
      (p_type ph = PT_LOAD \<longrightarrow> p_filesz ph \<le> p_memsz ph \<and> unat (p_offset ph) + unat (p_filesz ph) \<le> unat sz \<and>
        range_valid (p_vaddr ph) (p_memsz ph) \<and>
        fst ext' \<le> align_down (p_vaddr ph) \<and> align_up (p_vaddr ph + p_memsz ph) \<le> snd ext'))"
  using assms
proof (induction n arbitrary: i ext)
  case (Suc n)
  obtain rc oph where g: "elf_get_program_header m file sz i True = (rc, oph)" by force
  from Suc.prems obtain ph where ph: "oph = Some ph" "rc = 0"
    by (auto simp: g split: option.splits if_splits)
  have shift: "i + of_nat (Suc k) = i + 1 + of_nat k" for k by (simp add: add.assoc)
  show ?case
  proof (cases "p_type ph = PT_LOAD")
    case False
    then have "scan_headers m file sz n (i + 1) ext = Inr ext'"
      using Suc.prems by (simp add: g ph elf_is_loadable_def)
    from Suc.IH [OF this] show ?thesis
      using False g ph by (auto simp: less_Suc_eq_0_disj shift simp del: of_nat_Suc)
  next
    case True
    let ?s = "align_down (p_vaddr ph)" and ?e = "align_up (p_vaddr ph + p_memsz ph)"
    have c: "p_filesz ph \<le> p_memsz ph" "p_offset ph \<le> sz" "p_filesz ph \<le> sz - p_offset ph"
      "range_valid (p_vaddr ph) (p_memsz ph)"
      and r: "scan_headers m file sz n (i + 1) (if ?s < fst ext then ?s else fst ext, if ?e > snd ext then ?e else snd ext) = Inr ext'"
      using Suc.prems True by (auto simp: g ph elf_is_loadable_def Let_def not_less split: if_splits)
    have "unat (p_offset ph) + unat (p_filesz ph) \<le> unat sz"
      using c(2,3) by (simp add: word_le_nat_alt unat_sub)
    with Suc.IH [OF r] c True g ph show ?thesis
      by (auto simp: less_Suc_eq_0_disj shift not_less split: if_splits simp del: of_nat_Suc intro: order.trans order.strict_implies_order)
  qed
qed simp

text \<open>What the first pass of the ELF loader has checked when it accepts a file. Every program header was
  read; every loadable segment has its file part inside the file and not longer than its memory, its
  addresses pass the range check, and its pages lie between the base and the end that the pass reports.\<close>

theorem elf_scan_checked:
  assumes "scan_headers m file sz (unat (e_phnum (elf_header_at m file))) 0 (- 1, 0) = Inr (base, iend)"
  shows "\<forall>k<unat (e_phnum (elf_header_at m file)). \<exists>ph.
      elf_get_program_header m file sz (of_nat k) True = (0, Some ph) \<and>
      (p_type ph = PT_LOAD \<longrightarrow> p_filesz ph \<le> p_memsz ph \<and> unat (p_offset ph) + unat (p_filesz ph) \<le> unat sz \<and>
        range_valid (p_vaddr ph) (p_memsz ph) \<and> base \<le> align_down (p_vaddr ph) \<and> align_up (p_vaddr ph + p_memsz ph) \<le> iend)"
  using scan_headers_checked [OF assms] by simp

text \<open>An ELF file of 120 bytes at address 0x1000: both headers, one loadable segment.\<close>

definition elf_sample_bytes :: "u8 list" where
  "elf_sample_bytes = [0x7F, 0x45, 0x4C, 0x46, 2, 1, 1, 0, 0, 0, 0, 0, 0, 0, 0, 0, 2, 0, 62, 0, 1, 0, 0, 0] @
     le_bytes 8 (0x400000 :: u64) @ le_bytes 8 (64 :: u64) @ replicate 12 0 @ [64, 0, 56, 0, 1, 0, 0, 0, 0, 0, 0, 0] @
     [1, 0, 0, 0, 5, 0, 0, 0] @ le_bytes 8 (0 :: u64) @ le_bytes 8 (0x400000 :: u64) @ le_bytes 8 (0 :: u64) @
     le_bytes 8 (120 :: u64) @ le_bytes 8 (0x2000 :: u64) @ le_bytes 8 (0x1000 :: u64)"

definition elf_sample :: memory where
  "elf_sample a = (let k = unat (a - 0x1000) in if k < 120 then elf_sample_bytes ! k else 0)"

lemma elf_sample_valid: "elf_validate elf_sample 0x1000 120 = 0"
  by code_simp

lemma elf_sample_phnum: "e_phnum (elf_header_at elf_sample 0x1000) = 1"
  by code_simp

lemma elf_sample_scan:
  "scan_headers elf_sample 0x1000 120 1 0 (- 1, 0) = Inr (0x400000, 0x402000)"
  by code_simp

theorem elf_program_header_inside_witness:
  "\<exists>ph. elf_get_program_header elf_sample 0x1000 120 0 True = (0, Some ph)"
  using elf_program_header_inside [OF elf_sample_valid, of 0] elf_sample_phnum by (simp add: Let_def)

theorem elf_scan_checked_witness:
  "\<exists>ph. elf_get_program_header elf_sample 0x1000 120 0 True = (0, Some ph)"
  using elf_scan_checked [of elf_sample "0x1000" 120 "0x400000" "0x402000"] elf_sample_phnum elf_sample_scan by auto

end
