(* ===== verification/C_Division.thy ===== *)
theory C_Division
  imports Main "HOL-Library.Signed_Division"
begin

text \<open>
  C's signed division, which truncates towards zero (\<open>sdiv\<close>, \<open>smod\<close>), in terms of the mathematical one.
\<close>

lemma sdiv_nonneg: "0 \<le> a \<Longrightarrow> 0 < b \<Longrightarrow> a sdiv b = a div (b :: int)"
  by (auto simp: signed_divide_int_eq_divide_int sgn_if)

lemma smod_nonneg: "0 \<le> a \<Longrightarrow> 0 < b \<Longrightarrow> a smod b = a mod (b :: int)"
  by (auto simp: signed_modulo_int_eq_modulo_int sgn_if)

lemma smod_neg: "a < 0 \<Longrightarrow> 0 < b \<Longrightarrow> a smod b = - ((- a) mod (b :: int))"
  by (simp add: smod_int_alt_def)

text \<open>\<open>total %= m; if (total < 0) total += m;\<close> is the remainder of the mathematical division.\<close>

lemma smod_adjust:
  assumes "0 < (m :: int)"
  shows "(if a smod m < 0 then a smod m + m else a smod m) = a mod m"
proof (cases "a < 0")
  case False
  then show ?thesis using assms by (simp add: smod_nonneg not_less)
next
  case True
  have r: "0 \<le> (- a) mod m" "(- a) mod m < m" using assms by simp_all
  have "a mod m = (if (- a) mod m = 0 then 0 else m - (- a) mod m)"
    using zmod_zminus1_eq_if [of "- a" m] by simp
  then show ?thesis using r by (simp add: smod_neg [OF True assms])
qed

lemma sdiv_pos_nonneg: "0 \<le> a \<Longrightarrow> 0 < b \<Longrightarrow> 0 \<le> a sdiv (b :: int)"
  by (simp add: sdiv_nonneg pos_imp_zdiv_nonneg_iff)

end
