(* ===== verification/Clock.thy ===== *)
theory Clock
  imports C_Division Prelude
begin

text \<open>
  The tick counter (\<open>src/drivers/timer/timer.c\<close>) and the wall clock (\<open>src/system/clock.c\<close>). The
  signed arithmetic is C's: \<open>sdiv\<close> and \<open>smod\<close> truncate towards zero. All intermediate values are
  far inside \<open>long long\<close>, since the tick counter is divided by 100 first.
\<close>

record clock =
  timer_ticks :: u64
  clock_offset :: int

definition timer_handler :: "clock \<Rightarrow> clock" where
  "timer_handler c = c\<lparr>timer_ticks := timer_ticks c + 1\<rparr>"

definition timer_get_ticks :: "clock \<Rightarrow> u64" where
  "timer_get_ticks c = timer_ticks c"

definition clock_init :: "clock \<Rightarrow> clock" where
  "clock_init c = c\<lparr>clock_offset := 0\<rparr>"

definition clock_get :: "clock \<Rightarrow> int \<times> int \<times> int" where
  "clock_get c =
     (let tot = uint (timer_get_ticks c div 100) + clock_offset c;
          tot = tot smod 86400;
          tot = (if tot < 0 then tot + 86400 else tot)
      in (tot sdiv 3600, (tot smod 3600) sdiv 60, tot smod 60))"

definition clock_set :: "int \<Rightarrow> int \<Rightarrow> int \<Rightarrow> clock \<Rightarrow> clock" where
  "clock_set h m s c =
     (let h = (if h < 0 then 0 else h);
          h = (if h > 23 then 23 else h);
          m = (if m < 0 then 0 else m);
          m = (if m > 59 then 59 else m);
          s = (if s < 0 then 0 else s);
          s = (if s > 59 then 59 else s);
          target = h * 3600 + m * 60 + s;
          now = uint (timer_get_ticks c div 100)
      in c\<lparr>clock_offset := target - now\<rparr>)"

section \<open>Time of day\<close>

text \<open>The second of the day a triple of hours, minutes and seconds denotes.\<close>

fun day_second :: "int \<times> int \<times> int \<Rightarrow> int" where
  "day_second (h, m, s) = h * 3600 + m * 60 + s"

fun valid_time :: "int \<times> int \<times> int \<Rightarrow> bool" where
  "valid_time (h, m, s) \<longleftrightarrow> 0 \<le> h \<and> h < 24 \<and> 0 \<le> m \<and> m < 60 \<and> 0 \<le> s \<and> s < 60"

definition seconds_up :: "clock \<Rightarrow> int" where
  "seconds_up c = uint (timer_ticks c div 100)"

lemma clock_get_split:
  "clock_get c =
     (let t = (seconds_up c + clock_offset c) mod 86400 in (t div 3600, t mod 3600 div 60, t mod 60))"
proof -
  have "0 \<le> (seconds_up c + clock_offset c) mod 86400" by simp
  then show ?thesis
    by (simp add: clock_get_def Let_def smod_adjust timer_get_ticks_def sdiv_nonneg smod_nonneg
        flip: seconds_up_def)
qed

lemma day_second_split:
  assumes "0 \<le> t" and "t < 86400"
  shows "day_second (t div 3600, t mod 3600 div 60, t mod 60) = t"
    and "valid_time (t div 3600, t mod 3600 div 60, t mod 60)"
proof -
  have "t mod 60 = t mod 3600 mod 60" by (simp add: mod_mod_cancel)
  then show "day_second (t div 3600, t mod 3600 div 60, t mod 60) = t"
    using div_mult_mod_eq [of t 3600] div_mult_mod_eq [of "t mod 3600" 60]
    unfolding day_second.simps by linarith
  have "0 \<le> t div 3600" and "t div 3600 < 24" and "0 \<le> t mod 3600 div 60" and "t mod 3600 div 60 < 60"
    using assms pos_mod_bound [of 3600 t] by (simp_all add: div_less_iff_less_mult pos_imp_zdiv_nonneg_iff)
  then show "valid_time (t div 3600, t mod 3600 div 60, t mod 60)" by simp
qed

lemma split_day_second:
  assumes "valid_time (h, m, s)"
  shows "day_second (h, m, s) div 3600 = h" and "day_second (h, m, s) mod 3600 div 60 = m"
    and "day_second (h, m, s) mod 60 = s"
proof -
  have h: "day_second (h, m, s) = (m * 60 + s) + 3600 * h" by simp
  have r: "0 \<le> m * 60 + s" "m * 60 + s < 3600" using assms by auto
  show "day_second (h, m, s) div 3600 = h" using r unfolding h by (simp add: div_mult_self2 div_pos_pos_trivial)
  have "day_second (h, m, s) mod 3600 = m * 60 + s" using r unfolding h by simp
  moreover have "(m * 60 + s) div 60 = m" using assms by simp
  ultimately show "day_second (h, m, s) mod 3600 div 60 = m" by simp
  have "day_second (h, m, s) = s + (h * 60 + m) * 60" by simp
  then have "day_second (h, m, s) mod 60 = s mod 60" by (simp only: mod_mult_self1)
  then show "day_second (h, m, s) mod 60 = s" using assms by (simp del: day_second.simps)
qed

lemma valid_time_unique:
  assumes "valid_time p" and "valid_time q" and "day_second p = day_second q"
  shows "p = q"
proof -
  obtain h m s where p: "p = (h, m, s)" by (rule prod_cases3)
  obtain h' m' s' where q: "q = (h', m', s')" by (rule prod_cases3)
  have e: "day_second (h, m, s) = day_second (h', m', s')" using assms p q by simp
  have "h = h'" using split_day_second(1) [of h m s] split_day_second(1) [of h' m' s'] assms(1,2) p q e by metis
  moreover have "m = m'"
    using split_day_second(2) [of h m s] split_day_second(2) [of h' m' s'] assms(1,2) p q e by metis
  moreover have "s = s'"
    using split_day_second(3) [of h m s] split_day_second(3) [of h' m' s'] assms(1,2) p q e by metis
  ultimately show ?thesis using p q by simp
qed

lemma clock_get_meaning:
  "valid_time (clock_get c) \<and> day_second (clock_get c) = (seconds_up c + clock_offset c) mod 86400"
proof -
  have "0 \<le> (seconds_up c + clock_offset c) mod 86400" "(seconds_up c + clock_offset c) mod 86400 < 86400"
    by simp_all
  from day_second_split [OF this] show ?thesis unfolding clock_get_split Let_def by blast
qed

text \<open>What \<open>clock_set\<close> makes of its arguments.\<close>

fun clamp_time :: "int \<times> int \<times> int \<Rightarrow> int \<times> int \<times> int" where
  "clamp_time (h, m, s) = (max 0 (min 23 h), max 0 (min 59 m), max 0 (min 59 s))"

lemma clamp_time_valid: "valid_time (clamp_time p)"
  by (cases p) auto

lemma clamp_time_id: "valid_time p \<Longrightarrow> clamp_time p = p"
  by (cases p) auto

lemma clock_set_offset:
  "clock_set h m s c = c\<lparr>clock_offset := day_second (clamp_time (h, m, s)) - seconds_up c\<rparr>"
  by (simp add: clock_set_def Let_def timer_get_ticks_def seconds_up_def max_def min_def)

section \<open>Properties\<close>

text \<open>C34: After \<open>clock_set\<close> the clock shows the time it was set to (each field brought into its range
  first) and then runs on: \<open>k\<close> ticks later it shows the time of day that many hundredths of a second
  further on, past midnight included, with the hour, minute and second always in range. The tick
  counter must not wrap meanwhile.\<close>

theorem clock_set_get:
  assumes "unat (timer_ticks c) + k < 2 ^ 64"
  shows "(let p = clock_get ((timer_handler ^^ k) (clock_set h m s c)) in
     valid_time p \<and>
     day_second p = (day_second (clamp_time (h, m, s)) +
       int ((unat (timer_ticks c) + k) div 100 - unat (timer_ticks c) div 100)) mod 86400 \<and>
     (k = 0 \<longrightarrow> p = clamp_time (h, m, s)))"
proof -
  define d where "d = (timer_handler ^^ k) (clock_set h m s c)"
  have off: "clock_offset d = day_second (clamp_time (h, m, s)) - seconds_up c"
    unfolding d_def by (induction k) (simp_all add: timer_handler_def clock_set_offset)
  have "unat (timer_ticks c) + j < 2 ^ 64 \<Longrightarrow>
      unat (timer_ticks ((timer_handler ^^ j) (clock_set h m s c))) = unat (timer_ticks c) + j" for j
    by (induction j) (simp_all add: timer_handler_def clock_set_offset unat_word_ariths)
  then have t: "unat (timer_ticks d) = unat (timer_ticks c) + k" using assms unfolding d_def by simp
  have up: "seconds_up x = int (unat (timer_ticks x) div 100)" for x
    by (simp add: seconds_up_def uint_div_distrib zdiv_int)
  have "unat (timer_ticks c) div 100 \<le> (unat (timer_ticks c) + k) div 100" by (simp add: div_le_mono)
  then have "seconds_up d + clock_offset d = day_second (clamp_time (h, m, s)) +
      int ((unat (timer_ticks c) + k) div 100 - unat (timer_ticks c) div 100)"
    unfolding off up t by simp
  then have D: "day_second (clock_get d) = (day_second (clamp_time (h, m, s)) +
      int ((unat (timer_ticks c) + k) div 100 - unat (timer_ticks c) div 100)) mod 86400"
    by (simp only: conjunct2 [OF clock_get_meaning])
  have V: "valid_time (clock_get d)" by (rule conjunct1 [OF clock_get_meaning])
  have "clock_get d = clamp_time (h, m, s)" if "k = 0"
  proof (rule valid_time_unique [OF V clamp_time_valid])
    have "0 \<le> day_second (clamp_time (h, m, s))" "day_second (clamp_time (h, m, s)) < 86400"
      using clamp_time_valid [of "(h, m, s)"] by auto
    then show "day_second (clock_get d) = day_second (clamp_time (h, m, s))"
      using D that by simp
  qed
  with V D show ?thesis unfolding d_def [symmetric] Let_def by blast
qed

theorem clock_set_get_witness:
  "valid_time (clock_get ((timer_handler ^^ 2) (clock_set 23 59 70 \<lparr>timer_ticks = 12399, clock_offset = 7\<rparr>))) \<and>
   day_second (clock_get ((timer_handler ^^ 2) (clock_set 23 59 70 \<lparr>timer_ticks = 12399, clock_offset = 7\<rparr>))) = 0"
proof -
  have h: "unat (timer_ticks \<lparr>timer_ticks = 12399, clock_offset = 7\<rparr>) + 2 < 2 ^ 64" by simp
  have e: "(day_second (clamp_time (23, 59, 70)) + int ((unat (timer_ticks \<lparr>timer_ticks = 12399, clock_offset = 7\<rparr>) + 2) div 100 -
      unat (timer_ticks \<lparr>timer_ticks = 12399, clock_offset = 7\<rparr>) div 100)) mod 86400 = 0"
    by simp
  show ?thesis using clock_set_get [OF h, of 23 59 70] unfolding Let_def e by blast
qed

end
