(* ===== verification/Multiboot.thy ===== *)
theory Multiboot
  imports Prelude
begin

text \<open>
  The search of the boot information for a tag, \<open>mb2_find_tag\<close> of \<open>src/multiboot2.h\<close>, which
  the framebuffer and the ACPI code start from. The boot information is memory the boot loader
  wrote; a tag of size 0 makes the search run for ever, which is the value \<open>None\<close>. A null result
  is \<open>Some 0\<close>.
\<close>

unbundle bit_operations_syntax

definition MB2_TAG_END :: u32 where "MB2_TAG_END = 0"
definition MB2_TAG_FB :: u32 where "MB2_TAG_FB = 8"
definition MB2_TAG_ACPI_OLD :: u32 where "MB2_TAG_ACPI_OLD = 14"
definition MB2_TAG_ACPI_NEW :: u32 where "MB2_TAG_ACPI_NEW = 15"

definition tag_step :: "u32 \<Rightarrow> u64" where
  "tag_step sz = ucast ((sz + 7) AND NOT 7)"

partial_function (option) mb2_search :: "memory \<Rightarrow> u32 \<Rightarrow> u64 \<Rightarrow> u64 option" where
  "mb2_search m type tag =
     (if load32 m tag = MB2_TAG_END then Some 0
      else if load32 m tag = type then Some tag
      else mb2_search m type (tag + tag_step (load32 m (tag + 4))))"

definition mb2_find_tag :: "memory \<Rightarrow> u64 \<Rightarrow> u32 \<Rightarrow> u64 option" where
  "mb2_find_tag m info type = mb2_search m type (info + 8)"

lemma unat_plus_small:
  fixes p :: u64
  assumes "unat p + n < 2 ^ 64"
  shows "unat (p + of_nat n) = unat p + n"
proof -
  have "unat (of_nat n :: u64) = n" using assms by (simp add: unat_of_nat)
  then show ?thesis using assms unat_add_lem [of p "of_nat n"] by simp
qed

lemma load_bytes_slice:
  assumes "load_bytes m a n = bs" and "i + k \<le> n"
  shows "load_bytes m (a + of_nat i) k = take k (drop i bs)"
  using assms by (intro nth_equalityI) (auto simp: add.assoc)

section \<open>Well-formed boot information\<close>

text \<open>
  \<open>tags_at m a ts\<close>: from address \<open>a\<close> on, memory holds the tags \<open>ts\<close> (type and size each), every
  one padded to eight bytes, and then the end tag.
\<close>

fun tags_at :: "memory \<Rightarrow> u64 \<Rightarrow> (u32 \<times> u32) list \<Rightarrow> bool" where
  "tags_at m a [] \<longleftrightarrow> load32 m a = MB2_TAG_END"
| "tags_at m a ((t, sz) # ts) \<longleftrightarrow>
     t \<noteq> MB2_TAG_END \<and> load32 m a = t \<and> load32 m (a + 4) = sz \<and> tags_at m (a + tag_step sz) ts"

text \<open>The address of the first tag of a type in such a list.\<close>

fun first_tag :: "u32 \<Rightarrow> u64 \<Rightarrow> (u32 \<times> u32) list \<Rightarrow> u64" where
  "first_tag type a [] = 0"
| "first_tag type a ((t, sz) # ts) = (if t = type then a else first_tag type (a + tag_step sz) ts)"

lemma mb2_search_first_tag: "tags_at m a ts \<Longrightarrow> mb2_search m type a = Some (first_tag type a ts)"
  by (induction type a ts rule: first_tag.induct) (simp_all add: mb2_search.simps)

text \<open>On boot information that is a list of tags closed by the end tag, the search returns: it finds
  the first tag of the wanted type, and null when there is none.\<close>

theorem mb2_find_tag_correct:
  assumes "tags_at m (info + 8) ts"
  shows "mb2_find_tag m info type = Some (first_tag type (info + 8) ts)"
  using assms by (simp add: mb2_find_tag_def mb2_search_first_tag)

text \<open>Boot information at 0x1000 with a memory map tag (type 6, 20 bytes) and a framebuffer tag.\<close>

definition boot_info :: memory where
  "boot_info = store_bytes (\<lambda>_. 0) 0x1008
     ([6, 0, 0, 0, 20, 0, 0, 0] @ replicate 16 0xFF @ [8, 0, 0, 0, 38, 0, 0, 0])"

theorem mb2_find_tag_correct_witness:
  "mb2_find_tag boot_info 0x1000 MB2_TAG_FB = Some 0x1020"
proof -
  have t: "tags_at boot_info (0x1000 + 8) [(6, 20), (8, 38)]" by code_simp
  have f: "first_tag MB2_TAG_FB (0x1000 + 8) [(6, 20), (8, 38)] = 0x1020" by code_simp
  show ?thesis using mb2_find_tag_correct [OF t, of MB2_TAG_FB] unfolding f .
qed

end
