(* ===== verification/Acpi.thy ===== *)
theory Acpi
  imports Multiboot Console
begin

text \<open>
  The search of the ACPI tables for the processors, \<open>src/acpi/acpi.c\<close>: checksums, the walk of
  the root table (RSDT or XSDT), the walk of the MADT, and \<open>acpi_init\<close> with its fall-backs to a single
  core. The packed structures appear as the offsets of their fields. The addresses come from the firmware and are
  followed as they are: what can be read is a parameter (\<open>rd\<close>, the addresses the kernel's page tables map to themselves),
  and a read of anything else is a page fault from which the start-up does not return, \<open>None\<close>.
\<close>

unbundle bit_operations_syntax

definition ACPI_MAX_CPUS :: nat where "ACPI_MAX_CPUS = 4"
definition MADT_TYPE_LOCAL_APIC :: u8 where "MADT_TYPE_LOCAL_APIC = 0"
definition MADT_LAPIC_FLAG_ENABLED :: u32 where "MADT_LAPIC_FLAG_ENABLED = 1"

record acpi = console +
  g_lapic_ids :: "u32 list"
  g_cpu_count :: nat
  g_lapic_base :: u64

section \<open>Reading\<close>

definition readable :: "(u64 \<Rightarrow> bool) \<Rightarrow> u64 \<Rightarrow> nat \<Rightarrow> bool" where
  "readable rd a n = list_all (\<lambda>i. rd (a + of_nat i)) [0..<n]"

definition read8 :: "(u64 \<Rightarrow> bool) \<Rightarrow> memory \<Rightarrow> u64 \<Rightarrow> u8 option" where
  "read8 rd m a = (if rd a then Some (m a) else None)"

definition read32 :: "(u64 \<Rightarrow> bool) \<Rightarrow> memory \<Rightarrow> u64 \<Rightarrow> u32 option" where
  "read32 rd m a = (if readable rd a 4 then Some (load32 m a) else None)"

definition read64 :: "(u64 \<Rightarrow> bool) \<Rightarrow> memory \<Rightarrow> u64 \<Rightarrow> u64 option" where
  "read64 rd m a = (if readable rd a 8 then Some (load64 m a) else None)"

definition checksum_ok :: "(u64 \<Rightarrow> bool) \<Rightarrow> memory \<Rightarrow> u64 \<Rightarrow> u32 \<Rightarrow> bool option" where
  "checksum_ok rd m data len =
     (if readable rd data (unat len) then Some (foldl (+) 0 (load_bytes m data (unat len)) = 0) else None)"

text \<open>\<open>memcmp(p, s, n) == 0\<close>: the comparison stops at the first difference.\<close>

fun same_bytes :: "(u64 \<Rightarrow> bool) \<Rightarrow> memory \<Rightarrow> u64 \<Rightarrow> string \<Rightarrow> bool option" where
  "same_bytes rd m p [] = Some True"
| "same_bytes rd m p (c # s) =
     (if \<not> rd p then None else if m p \<noteq> of_char c then Some False else same_bytes rd m (p + 1) s)"

text \<open>The signature is the first field of a table header and its length the second; the header has 36 bytes.\<close>

definition table_length :: "(u64 \<Rightarrow> bool) \<Rightarrow> memory \<Rightarrow> u64 \<Rightarrow> u32 option" where
  "table_length rd m table = read32 rd m (table + 4)"

definition root_entry :: "(u64 \<Rightarrow> bool) \<Rightarrow> memory \<Rightarrow> u64 \<Rightarrow> bool \<Rightarrow> nat \<Rightarrow> u64 option" where
  "root_entry rd m entries use_xsdt i =
     (if use_xsdt then read64 rd m (entries + ucast (of_nat i * 8 :: u32))
      else map_option ucast (read32 rd m (entries + ucast (of_nat i * 4 :: u32))))"

definition entry_count :: "u32 \<Rightarrow> bool \<Rightarrow> u32" where
  "entry_count len use_xsdt = (len - 36) div (if use_xsdt then 8 else 4)"

text \<open>The loop, with \<open>n\<close> entries left.\<close>

fun find_entry :: "(u64 \<Rightarrow> bool) \<Rightarrow> memory \<Rightarrow> u64 \<Rightarrow> bool \<Rightarrow> string \<Rightarrow> nat \<Rightarrow> nat \<Rightarrow> u64 option" where
  "find_entry rd m entries use_xsdt signature i 0 = Some 0"
| "find_entry rd m entries use_xsdt signature i (Suc n) =
     (case root_entry rd m entries use_xsdt i of
        None \<Rightarrow> None
      | Some phys \<Rightarrow>
          (case same_bytes rd m phys signature of
             None \<Rightarrow> None
           | Some True \<Rightarrow> Some phys
           | Some False \<Rightarrow> find_entry rd m entries use_xsdt signature (i + 1) n))"

definition find_table :: "(u64 \<Rightarrow> bool) \<Rightarrow> memory \<Rightarrow> u64 \<Rightarrow> bool \<Rightarrow> string \<Rightarrow> u64 option" where
  "find_table rd m table_base use_xsdt signature =
     (let root = table_base in
      case table_length rd m root of
        None \<Rightarrow> None
      | Some len \<Rightarrow> find_entry rd m (root + 36) use_xsdt signature 0 (unat (entry_count len use_xsdt)))"

section \<open>The MADT\<close>

text \<open>One enabled local APIC, as long as there is room.\<close>

definition madt_lapic :: "(u64 \<Rightarrow> bool) \<Rightarrow> memory \<Rightarrow> u64 \<Rightarrow> acpi \<Rightarrow> acpi option" where
  "madt_lapic rd m p s =
     (if \<not> readable rd p 8 then None
      else
        (let apic_id = m (p + 3); flags = load32 m (p + 4) in
         Some (if flags AND MADT_LAPIC_FLAG_ENABLED \<noteq> 0 \<and> g_cpu_count s < ACPI_MAX_CPUS
               then s\<lparr>g_lapic_ids := (g_lapic_ids s)[g_cpu_count s := ucast apic_id], g_cpu_count := g_cpu_count s + 1\<rparr>
               else s)))"

partial_function (option) madt_walk :: "(u64 \<Rightarrow> bool) \<Rightarrow> memory \<Rightarrow> u64 \<Rightarrow> u64 \<Rightarrow> acpi \<Rightarrow> acpi option" where
  "madt_walk rd m p limit s =
     (if p + 2 \<le> limit then
        (if \<not> readable rd p 2 then None
         else
           (let type = m p; len = m (p + 1) in
            if len < 2 then Some s
            else Option.bind (if type = MADT_TYPE_LOCAL_APIC \<and> len \<ge> 8 then madt_lapic rd m p s else Some s)
                   (\<lambda>s. madt_walk rd m (p + ucast len) limit s)))
      else Some s)"

definition parse_madt :: "(u64 \<Rightarrow> bool) \<Rightarrow> memory \<Rightarrow> u64 \<Rightarrow> acpi \<Rightarrow> (bool \<times> acpi) option" where
  "parse_madt rd m madt s =
     Option.bind (table_length rd m madt) (\<lambda>len.
     Option.bind (checksum_ok rd m madt len) (\<lambda>ok.
       if \<not> ok then Some (False, terminal_print ''ACPI: MADT checksum invalid, ignoring\<newline>'' s)
       else
         Option.bind (read32 rd m (madt + 36)) (\<lambda>address.
           (let s = s\<lparr>g_lapic_base := ucast address\<rparr> in
            map_option (\<lambda>s. (g_cpu_count s > 0, s)) (madt_walk rd m (madt + 44) (madt + ucast len) s)))))"

section \<open>Initialisation\<close>

definition single_core :: "string \<Rightarrow> acpi \<Rightarrow> acpi" where
  "single_core msg s =
     (let s = terminal_print msg s; s = s\<lparr>g_cpu_count := 1\<rparr>
      in s\<lparr>g_lapic_ids := (g_lapic_ids s)[0 := 0]\<rparr>)"

definition acpi_report :: "acpi \<Rightarrow> acpi" where
  "acpi_report s =
     (let s = terminal_print ''ACPI: found '' s;
          s = print_uint (of_nat (g_cpu_count s)) s;
          s = terminal_print '' CPU core(s), Local APIC at '' s;
          s = print_hex64 (g_lapic_base s) s
      in terminal_print ''\<newline>'' s)"

text \<open>From the root table on.\<close>

definition acpi_tables :: "(u64 \<Rightarrow> bool) \<Rightarrow> memory \<Rightarrow> u64 \<Rightarrow> bool \<Rightarrow> acpi \<Rightarrow> acpi option" where
  "acpi_tables rd m table_base use_xsdt s =
     Option.bind (table_length rd m table_base) (\<lambda>len.
     Option.bind (checksum_ok rd m table_base len) (\<lambda>ok.
       if \<not> ok then Some (single_core ''ACPI: RSDT/XSDT checksum invalid, assuming single core\<newline>'' s)
       else
         Option.bind (find_table rd m table_base use_xsdt ''APIC'') (\<lambda>madt.
           if madt = 0 then Some (single_core ''ACPI: no usable MADT, assuming single core\<newline>'' s)
           else
             map_option
               (\<lambda>(ok, s). if \<not> ok then single_core ''ACPI: no usable MADT, assuming single core\<newline>'' s else acpi_report s)
               (parse_madt rd m madt s))))"

text \<open>
  The descriptor is the payload of the tag, eight bytes in. Its fields: signature at 0, revision at
  15, RSDT address at 16, and in a version 2 descriptor the length at 20 and the XSDT address at 24. First the
  condition under which the XSDT is used, which reads no more than decides it.
\<close>

definition use_xsdt_of :: "(u64 \<Rightarrow> bool) \<Rightarrow> memory \<Rightarrow> u64 \<Rightarrow> u64 \<Rightarrow> bool option" where
  "use_xsdt_of rd m v1 v2 =
     (if v2 = 0 then Some False
      else
        Option.bind (read8 rd m (v1 + 15)) (\<lambda>revision.
          if revision < 2 then Some False
          else
            Option.bind (read64 rd m (v2 + 24)) (\<lambda>xsdt_address.
              if xsdt_address = 0 then Some False
              else Option.bind (read32 rd m (v2 + 20)) (checksum_ok rd m v2))))"

definition acpi_from_rsdp :: "(u64 \<Rightarrow> bool) \<Rightarrow> memory \<Rightarrow> u64 \<Rightarrow> u64 \<Rightarrow> acpi \<Rightarrow> acpi option" where
  "acpi_from_rsdp rd m v1 v2 s =
     Option.bind (if v1 = 0 then Some False else same_bytes rd m v1 ''RSD PTR '') (\<lambda>found.
       if \<not> found then Some (single_core ''ACPI: no RSDP from bootloader, assuming single core\<newline>'' s)
       else
         Option.bind (read32 rd m (v1 + 16)) (\<lambda>rsdt_address.
         Option.bind (use_xsdt_of rd m v1 v2) (\<lambda>use_xsdt.
           if use_xsdt then Option.bind (read64 rd m (v2 + 24)) (\<lambda>xsdt_address. acpi_tables rd m xsdt_address True s)
           else
             Option.bind (checksum_ok rd m v1 20) (\<lambda>ok.
               if \<not> ok then Some (single_core ''ACPI: RSDP checksum invalid, assuming single core\<newline>'' s)
               else acpi_tables rd m (ucast rsdt_address) False s))))"

definition acpi_init :: "(u64 \<Rightarrow> bool) \<Rightarrow> memory \<Rightarrow> u64 \<Rightarrow> acpi \<Rightarrow> acpi option" where
  "acpi_init rd m mb2_info s =
     (let s = s\<lparr>g_cpu_count := 0, g_lapic_base := 0\<rparr> in
      Option.bind (mb2_find_tag m mb2_info MB2_TAG_ACPI_NEW) (\<lambda>new_tag.
      Option.bind (mb2_find_tag m mb2_info MB2_TAG_ACPI_OLD) (\<lambda>old_tag.
        (let v2 = (if new_tag \<noteq> 0 then new_tag + 8 else 0);
             v1 = (if new_tag \<noteq> 0 then v2 else if old_tag \<noteq> 0 then old_tag + 8 else 0)
         in acpi_from_rsdp rd m v1 v2 s))))"

definition acpi_cpu_count :: "acpi \<Rightarrow> nat" where
  "acpi_cpu_count s = (if g_cpu_count s > 0 then g_cpu_count s else 1)"

definition acpi_cpu_lapic_id :: "int \<Rightarrow> acpi \<Rightarrow> u32" where
  "acpi_cpu_lapic_id index s =
     (if index < 0 \<or> index \<ge> int (g_cpu_count s) then 0 else g_lapic_ids s ! nat index)"

definition acpi_lapic_base :: "acpi \<Rightarrow> u64" where
  "acpi_lapic_base s = g_lapic_base s"

section \<open>Bounds and termination\<close>

definition acpi_ok :: "acpi \<Rightarrow> bool" where
  "acpi_ok s \<longleftrightarrow> length (g_lapic_ids s) = 4 \<and> g_cpu_count s \<le> 4 \<and> (\<forall>i < g_cpu_count s. g_lapic_ids s ! i < 256)"

lemma foldl_sum: "foldl (+) x bs = x + sum_list (bs :: u8 list)"
  by (induction bs arbitrary: x) (simp_all add: add.assoc)

lemma ucast_u8_less: "ucast (b :: u8) < (256 :: u32)"
proof -
  have "unat b < 256" using unsigned_less [of b] by simp
  then have "unat (ucast b :: u32) = unat b" by (simp add: unsigned_ucast_eq take_bit_nat_eq_self)
  with \<open>unat b < 256\<close> show ?thesis by (simp add: word_less_nat_alt)
qed

text \<open>The low addresses, below a bound that the identity map reaches.\<close>

definition reads_below :: "(u64 \<Rightarrow> bool) \<Rightarrow> nat \<Rightarrow> bool" where
  "reads_below rd n \<longleftrightarrow> (\<forall>a. unat a < n \<longrightarrow> rd a)"

lemma readable_below:
  assumes "reads_below rd (2 ^ 32)" and "unat a + n \<le> 2 ^ 32"
  shows "readable rd a n"
proof -
  have "unat (a + of_nat i) < 2 ^ 32" if "i < n" for i
    using unat_plus_small [of a i] assms(2) that by simp
  then show ?thesis using assms(1) by (auto simp: readable_def list_all_iff reads_below_def)
qed

lemma readable_mono: "readable rd a n \<Longrightarrow> k \<le> n \<Longrightarrow> readable rd a k"
  by (simp add: readable_def list_all_iff)

lemma readable_part: "readable rd a n \<Longrightarrow> i + k \<le> n \<Longrightarrow> readable rd (a + of_nat i) k"
proof -
  assume r: "readable rd a n" and l: "i + k \<le> n"
  have "rd (a + of_nat i + of_nat j)" if "j < k" for j
    using r l that unfolding readable_def list_all_iff by (auto dest!: bspec [where x = "i + j"] simp: add.assoc)
  then show ?thesis by (simp add: readable_def list_all_iff)
qed

lemma madt_lapic_ok: "acpi_ok s \<Longrightarrow> madt_lapic rd m p s = Some t \<Longrightarrow> acpi_ok t"
  by (auto simp: madt_lapic_def acpi_ok_def ACPI_MAX_CPUS_def Let_def nth_list_update less_Suc_eq ucast_u8_less
      split: if_splits)

text \<open>Every round advances, so the walk of a table in low memory ends.\<close>

lemma madt_walk_returns:
  assumes "reads_below rd (2 ^ 32)" and "unat limit + 6 \<le> 2 ^ 32"
  shows "acpi_ok s \<Longrightarrow> unat p \<le> unat limit + 255 \<Longrightarrow> \<exists>s'. madt_walk rd m p limit s = Some s' \<and> acpi_ok s'"
proof (induction "unat limit + 255 - unat p" arbitrary: p s rule: less_induct)
  case less
  have "unat (p + 2) = unat p + 2" using unat_plus_small [of p 2] less.prems(2) assms(2) by simp
  then have p: "p + 2 \<le> limit \<longleftrightarrow> unat p + 2 \<le> unat limit" by (simp add: word_le_nat_alt)
  have rd: "readable rd p 8" if "unat p + 2 \<le> unat limit"
    using readable_below [OF assms(1), of p 8] that assms(2) by simp
  show ?case
  proof (cases "p + 2 \<le> limit \<and> 2 \<le> m (p + 1)")
    case False
    then show ?thesis using less.prems rd [THEN readable_mono, of 2] p by (subst madt_walk.simps) (auto simp: Let_def not_le)
  next
    case True
    have pl: "unat p + 2 \<le> unat limit" using True p by simp
    define l where "l = unat (m (p + 1))"
    have l: "2 \<le> l" "l \<le> 255" using True unat_less_u8 [of "m (p + 1)"] by (auto simp: l_def word_le_nat_alt)
    have "(ucast (m (p + 1)) :: u64) = of_nat l" by (simp add: l_def)
    moreover have q: "unat (p + of_nat l) = unat p + l" using True p l assms(2) by (intro unat_plus_small) simp
    ultimately have n: "unat (p + ucast (m (p + 1))) = unat p + l" by simp
    obtain s1 where s1: "(if m p = MADT_TYPE_LOCAL_APIC \<and> m (p + 1) \<ge> 8 then madt_lapic rd m p s else Some s) = Some s1"
      using rd True p by (cases "m p = MADT_TYPE_LOCAL_APIC \<and> m (p + 1) \<ge> 8") (simp_all add: madt_lapic_def Let_def)
    have ok: "acpi_ok s1" using less.prems(1) s1 madt_lapic_ok by (auto split: if_splits)
    have "\<exists>s'. madt_walk rd m (p + ucast (m (p + 1))) limit s1 = Some s' \<and> acpi_ok s'"
    proof (rule less.hyps)
      show "unat limit + 255 - unat (p + ucast (m (p + 1))) < unat limit + 255 - unat p" unfolding n using pl l by simp
      show "unat (p + ucast (m (p + 1))) \<le> unat limit + 255" unfolding n using pl l by simp
    qed (rule ok)
    moreover have "\<not> m (p + 1) < 2" using True by (simp add: not_less)
    moreover have "readable rd p 2" using rd [THEN readable_mono, of 2] True p by simp
    ultimately show ?thesis using True s1 by (subst madt_walk.simps) (simp add: Let_def)
  qed
qed

lemma single_core_ok: "length (g_lapic_ids s) = 4 \<Longrightarrow> acpi_ok (single_core msg s) \<and> 0 < g_cpu_count (single_core msg s)"
  by (simp add: single_core_def acpi_ok_def Let_def terminal_print_def)

section \<open>Well-formed tables\<close>

text \<open>
  A MADT whose entries are a list of a type and a body each. The processors it names are the enabled
  local APIC entries.
\<close>

type_synonym madt_entry = "u8 \<times> u8 list"

fun entry_bytes :: "madt_entry \<Rightarrow> u8 list" where
  "entry_bytes (t, b) = t # of_nat (length b + 2) # b"

fun entry_lapic :: "madt_entry \<Rightarrow> u32 list" where
  "entry_lapic (t, b) =
     (if t = 0 \<and> 6 \<le> length b \<and> (le_word (take 4 (drop 2 b)) :: u32) AND 1 \<noteq> 0 then [ucast (b ! 1)] else [])"

definition lapics :: "madt_entry list \<Rightarrow> u32 list" where
  "lapics es = concat (map entry_lapic es)"

definition madt_content :: "madt_entry list \<Rightarrow> u8 list" where
  "madt_content es = concat (map entry_bytes es)"

definition entry_ok :: "madt_entry \<Rightarrow> bool" where
  "entry_ok e \<longleftrightarrow> length (snd e) \<le> 253"

text \<open>Recording the processors one after the other.\<close>

definition add_lapic :: "u32 \<Rightarrow> acpi \<Rightarrow> acpi" where
  "add_lapic i s =
     (if g_cpu_count s < 4 then s\<lparr>g_lapic_ids := (g_lapic_ids s)[g_cpu_count s := i], g_cpu_count := g_cpu_count s + 1\<rparr>
      else s)"

lemma madt_walk_entries:
  assumes "load_bytes m p (length (madt_content es)) = madt_content es" and "list_all entry_ok es"
    and "unat p + length (madt_content es) + 2 < 2 ^ 64" and "readable rd p (length (madt_content es))"
  shows "madt_walk rd m p (p + of_nat (length (madt_content es))) s = Some (fold add_lapic (lapics es) s)"
  using assms
proof (induction es arbitrary: p s)
  case Nil
  then have "unat (p + 2) = unat p + 2" using unat_plus_small [of p 2] by (simp add: madt_content_def)
  then have "\<not> p + 2 \<le> p" by (simp add: word_le_nat_alt)
  then show ?case by (subst madt_walk.simps) (simp add: madt_content_def lapics_def)
next
  case (Cons e es)
  obtain t b where e: "e = (t, b)" by (cases e)
  define n where "n = length (madt_content es)"
  define limit where "limit = p + of_nat (length b + 2 + n)"
  have b: "length b \<le> 253" using Cons.prems(2) e by (simp add: entry_ok_def)
  have content: "madt_content (e # es) = t # of_nat (length b + 2) # b @ madt_content es"
    by (simp add: madt_content_def e)
  have bytes: "load_bytes m p (length b + 2 + n) = t # of_nat (length b + 2) # b @ madt_content es"
    using Cons.prems(1) unfolding content by (simp add: n_def)
  have rdp: "readable rd p (length b + 2 + n)" using Cons.prems(4) unfolding content by (simp add: n_def)
  have room: "unat p + (length b + 2 + n) + 2 < 2 ^ 64" using Cons.prems(3) unfolding content by (simp add: n_def)
  have lim: "unat limit = unat p + (length b + 2 + n)" unfolding limit_def using room by (intro unat_plus_small) simp
  have p2: "unat (p + 2) = unat p + 2" using unat_plus_small [of p 2] room by simp
  define L :: u8 where "L = of_nat (length b + 2)"
  have m0: "m p = t" and m1: "m (p + 1) = L"
    unfolding L_def using arg_cong [OF bytes, of "\<lambda>l. l ! 0"] arg_cong [OF bytes, of "\<lambda>l. l ! 1"] by simp_all
  have ul: "unat L = length b + 2" unfolding L_def using b by (simp only: unat_of_nat) simp
  have lens: "L < 2 \<longleftrightarrow> False" "8 \<le> L \<longleftrightarrow> 6 \<le> length b"
    using ul by (simp_all add: word_less_nat_alt word_le_nat_alt)
  have uc: "(ucast L :: u64) = of_nat (length b + 2)"
    using ul by (metis of_nat_unat)
  have body: "(if t = MADT_TYPE_LOCAL_APIC \<and> 6 \<le> length b then madt_lapic rd m p s else Some s) =
      Some (fold add_lapic (entry_lapic e) s)"
  proof (cases "6 \<le> length b")
    case True
    have "m (p + 3) = b ! 1" using arg_cong [OF bytes, of "\<lambda>l. l ! 3"] True by (simp add: nth_append numeral_3_eq_3)
    moreover have "load_bytes m (p + 4) 4 = take 4 (drop 2 b)"
      using load_bytes_slice [OF bytes, of 4 4] True by (simp add: numeral_eq_Suc)
    moreover have "readable rd p 8" using rdp True by (auto intro: readable_mono)
    ultimately show ?thesis
      using True by (simp add: e madt_lapic_def load32_def Let_def add_lapic_def MADT_TYPE_LOCAL_APIC_def
          MADT_LAPIC_FLAG_ENABLED_def ACPI_MAX_CPUS_def)
  qed (simp add: e)
  have go: "p + 2 \<le> limit" using p2 lim by (simp add: word_le_nat_alt)
  have step: "madt_walk rd m p limit s = madt_walk rd m (p + of_nat (length b + 2)) limit (fold add_lapic (entry_lapic e) s)"
    using go readable_mono [OF rdp, of 2] by (subst madt_walk.simps) (simp add: Let_def m0 m1 lens uc body del: of_nat_add)
  have "load_bytes m (p + of_nat (length b + 2)) n = madt_content es"
    using load_bytes_slice [OF bytes, of "length b + 2" n] by (simp add: n_def)
  moreover have "unat (p + of_nat (length b + 2)) = unat p + (length b + 2)" using room by (intro unat_plus_small) simp
  moreover have "readable rd (p + of_nat (length b + 2)) n" using readable_part [OF rdp, of "length b + 2" n] by simp
  ultimately have "madt_walk rd m (p + of_nat (length b + 2)) (p + of_nat (length b + 2) + of_nat n)
      (fold add_lapic (entry_lapic e) s) = Some (fold add_lapic (lapics es) (fold add_lapic (entry_lapic e) s))"
    using Cons.IH [of "p + of_nat (length b + 2)"] Cons.prems(2) room by (simp add: n_def)
  then show ?case using step unfolding content by (simp add: limit_def lapics_def n_def add.assoc)
qed

lemma fold_add_lapic:
  assumes "g_cpu_count s \<le> 4" and "length (g_lapic_ids s) = 4"
  shows "g_cpu_count (fold add_lapic is s) = min 4 (g_cpu_count s + length is) \<and>
     take (g_cpu_count (fold add_lapic is s)) (g_lapic_ids (fold add_lapic is s)) =
       take 4 (take (g_cpu_count s) (g_lapic_ids s) @ is)"
  using assms
proof (induction "is" arbitrary: s)
  case Nil
  then show ?case by simp
next
  case (Cons i "is")
  show ?case
  proof (cases "g_cpu_count s < 4")
    case True
    then have "take (Suc (g_cpu_count s)) ((g_lapic_ids s)[g_cpu_count s := i]) = take (g_cpu_count s) (g_lapic_ids s) @ [i]"
      using Cons.prems by (simp add: take_Suc_conv_app_nth)
    moreover define u where "u = add_lapic i s"
    ultimately have u: "g_cpu_count u = Suc (g_cpu_count s)" "length (g_lapic_ids u) = 4"
        "take (g_cpu_count u) (g_lapic_ids u) = take (g_cpu_count s) (g_lapic_ids s) @ [i]"
      using True Cons.prems by (simp_all add: add_lapic_def)
    have "g_cpu_count u \<le> 4" using u True by simp
    note IH = Cons.IH [OF this u(2)]
    have e: "fold add_lapic (i # is) s = fold add_lapic is u" by (simp add: u_def)
    have l: "take (g_cpu_count s) (g_lapic_ids s) @ i # is = take (g_cpu_count u) (g_lapic_ids u) @ is"
      "g_cpu_count s + length (i # is) = g_cpu_count u + length is"
      by (simp_all add: u(3)) (simp add: u(1))
    show ?thesis unfolding e l by (rule IH)
  next
    case False
    note IH = Cons.IH [OF Cons.prems]
    have four: "g_cpu_count s = 4" using False Cons.prems by simp
    have n: "g_cpu_count (fold add_lapic is s) = 4" using IH four by simp
    have "take 4 (g_lapic_ids (fold add_lapic is s)) = g_lapic_ids s" using IH four Cons.prems unfolding n by simp
    moreover have "add_lapic i s = s" using four by (simp add: add_lapic_def)
    ultimately show ?thesis using n four Cons.prems by simp
  qed
qed

section \<open>Properties\<close>

text \<open>The MADT is read as its entries say. For a table with a valid checksum whose entries are a list of
  typed records of at most 255 bytes, in any order and of any types, the parse returns, and the
  processors it has recorded are the first four enabled local APICs in the order of the table, with
  their ids; it fails exactly when there is none.\<close>

theorem parse_madt_correct:
  assumes "sum_list (load_bytes m madt n) = 0" and "unat (load32 m (madt + 4)) = n" and "n = 44 + length (madt_content es)"
    and "list_all entry_ok es" and "load_bytes m (madt + 44) (length (madt_content es)) = madt_content es"
    and "unat madt + n + 2 < 2 ^ 64" and "readable rd madt n" and "g_cpu_count s = 0" and "length (g_lapic_ids s) = 4"
  shows "\<exists>s'. parse_madt rd m madt s = Some (lapics es \<noteq> [], s') \<and>
     g_cpu_count s' = min 4 (length (lapics es)) \<and> take (g_cpu_count s') (g_lapic_ids s') = take 4 (lapics es)"
proof -
  define t where "t = s\<lparr>g_lapic_base := ucast (load32 m (madt + 36))\<rparr>"
  have "(ucast (load32 m (madt + 4)) :: u64) = of_nat (44 + length (madt_content es))"
    using assms(2,3) by (metis of_nat_unat)
  then have lim: "madt + ucast (load32 m (madt + 4)) = madt + 44 + of_nat (length (madt_content es))" by simp
  have "unat (madt + 44) = unat madt + 44" using unat_plus_small [of madt 44] assms(3,6) by simp
  moreover have rd: "readable rd (madt + 4) 4" "readable rd (madt + 36) 4" "readable rd (madt + 44) (length (madt_content es))"
    using readable_part [OF assms(7), of 4 4] readable_part [OF assms(7), of 36 4]
      readable_part [OF assms(7), of 44 "length (madt_content es)"] assms(3) by simp_all
  ultimately have "madt_walk rd m (madt + 44) (madt + 44 + of_nat (length (madt_content es))) t = Some (fold add_lapic (lapics es) t)"
    using assms by (intro madt_walk_entries) simp_all
  moreover have "g_cpu_count t \<le> 4" "length (g_lapic_ids t) = 4" "g_cpu_count t = 0" using assms by (simp_all add: t_def)
  note this fold_add_lapic [OF this(1,2), of "lapics es"]
  moreover have "checksum_ok rd m madt (load32 m (madt + 4)) = Some True"
    using assms(1,2,7) by (simp add: checksum_ok_def foldl_sum)
  ultimately show ?thesis
    using rd by (auto simp: parse_madt_def table_length_def read32_def Let_def lim simp flip: t_def)
qed

definition blank_acpi :: acpi where
  "blank_acpi = \<lparr>display = [], g_lapic_ids = [0, 0, 0, 0], g_cpu_count = 0, g_lapic_base = 0\<rparr>"

text \<open>A MADT with an enabled processor, an I/O APIC entry, a disabled and another enabled processor.\<close>

definition example_entries :: "madt_entry list" where
  "example_entries = [(0, [0, 7, 1, 0, 0, 0]), (1, [2, 0]), (0, [1, 8, 0, 0, 0, 0]), (0, [2, 9, 1, 0, 0, 0])]"

definition example_bytes :: "u8 list" where
  "example_bytes = [0x41, 0x50, 0x49, 0x43, 72, 0, 0, 0, 0, 95] @ replicate 34 0 @ madt_content example_entries"

definition example_madt :: memory where
  "example_madt = store_bytes (\<lambda>_. 0) 0x2000 example_bytes"

theorem parse_madt_correct_witness:
  "\<exists>s'. parse_madt (\<lambda>a. a < 0x100000000) example_madt 0x2000 blank_acpi = Some (True, s') \<and> g_cpu_count s' = 2 \<and>
     take (g_cpu_count s') (g_lapic_ids s') = [7, 9]"
proof -
  have n: "length example_bytes = 72" "length (madt_content example_entries) = 28" by code_simp+
  then have all: "load_bytes example_madt 0x2000 72 = example_bytes"
    by (simp add: example_madt_def load_store_bytes_same)
  have "load_bytes example_madt (0x2000 + 4) 4 = take 4 (drop 4 example_bytes)"
    using load_bytes_slice [OF all, of 4 4] by simp
  then have t: "load32 example_madt (0x2000 + 4) = le_word (take 4 (drop 4 example_bytes))"
    by (simp add: load32_def)
  moreover have "le_word (take 4 (drop 4 example_bytes)) = (72 :: u32)" by code_simp
  ultimately have len: "unat (load32 example_madt (0x2000 + 4)) = 72" by simp
  have "sum_list example_bytes = 0" by code_simp
  then have c: "sum_list (load_bytes example_madt 0x2000 72) = 0" by (simp add: all)
  have l: "72 = 44 + length (madt_content example_entries)" by (simp add: n)
  have k: "list_all entry_ok example_entries" by code_simp
  have "take 28 (drop 44 example_bytes) = madt_content example_entries" by code_simp
  then have b: "load_bytes example_madt (0x2000 + 44) (length (madt_content example_entries)) = madt_content example_entries"
    using load_bytes_slice [OF all, of 44 28] by (simp add: n)
  have "reads_below (\<lambda>a. a < 0x100000000) (2 ^ 32)" by (simp add: reads_below_def word_less_nat_alt)
  then have rd: "readable (\<lambda>a. a < 0x100000000) 0x2000 72" by (rule readable_below) simp
  have r: "unat (0x2000 :: u64) + 72 + 2 < 2 ^ 64"
    "g_cpu_count blank_acpi = 0" "length (g_lapic_ids blank_acpi) = 4" by (simp_all add: blank_acpi_def)
  have e: "lapics example_entries = [7, 9]" by code_simp
  show ?thesis using parse_madt_correct [OF c len l k b r(1) rd r(2,3)] unfolding e by (simp add: numeral_2_eq_2)
qed

lemma acpi_report_state [simp]:
  "g_cpu_count (acpi_report s) = g_cpu_count s" "g_lapic_ids (acpi_report s) = g_lapic_ids s"
  by (simp_all add: acpi_report_def Let_def terminal_print_def print_uint_def print_hex64_def fold_putchar)
     (simp_all add: terminal_putchar_def)

section \<open>The whole search\<close>

text \<open>The tables as the firmware laid them out: the descriptor and whether it is of version 2, the root table it leads to,
  the entries of a root table, and the MADT.\<close>

definition ascii :: "string \<Rightarrow> u8 list" where
  "ascii s = map of_char s"

definition rsdp_of :: "u64 \<Rightarrow> (u32 \<times> u32) list \<Rightarrow> u64 \<times> bool" where
  "rsdp_of info ts =
     (if first_tag MB2_TAG_ACPI_NEW (info + 8) ts \<noteq> 0 then (first_tag MB2_TAG_ACPI_NEW (info + 8) ts + 8, True)
      else if first_tag MB2_TAG_ACPI_OLD (info + 8) ts \<noteq> 0 then (first_tag MB2_TAG_ACPI_OLD (info + 8) ts + 8, False)
      else (0, False))"

definition sums_to_zero :: "memory \<Rightarrow> u64 \<Rightarrow> nat \<Rightarrow> bool" where
  "sums_to_zero m a n \<longleftrightarrow> sum_list (load_bytes m a n) = 0"

definition root_of_rsdp :: "memory \<Rightarrow> u64 \<Rightarrow> bool \<Rightarrow> (u64 \<times> bool) option" where
  "root_of_rsdp m d two =
     (if d = 0 \<or> load_bytes m d 8 \<noteq> ascii ''RSD PTR '' then None
      else if two \<and> 2 \<le> m (d + 15) \<and> load64 m (d + 24) \<noteq> 0 \<and> sums_to_zero m d (unat (load32 m (d + 20)))
      then Some (load64 m (d + 24), True)
      else if sums_to_zero m d 20 then Some (ucast (load32 m (d + 16)), False) else None)"

definition length_field :: "memory \<Rightarrow> u64 \<Rightarrow> nat" where
  "length_field m table = unat (load32 m (table + 4))"

definition root_entries :: "memory \<Rightarrow> u64 \<Rightarrow> bool \<Rightarrow> u64 list" where
  "root_entries m root xsdt =
     map (\<lambda>i. if xsdt then load64 m (root + of_nat (36 + i * 8)) else ucast (load32 m (root + of_nat (36 + i * 4))))
       [0..<(length_field m root - 36) div (if xsdt then 8 else 4)]"

definition madt_of_root :: "memory \<Rightarrow> u64 \<Rightarrow> bool \<Rightarrow> u64" where
  "madt_of_root m root xsdt =
     (case List.find (\<lambda>e. load_bytes m e 4 = ascii ''APIC'') (root_entries m root xsdt) of None \<Rightarrow> 0 | Some e \<Rightarrow> e)"

definition madt_listing :: "memory \<Rightarrow> u64 \<Rightarrow> madt_entry list \<Rightarrow> bool" where
  "madt_listing m madt es \<longleftrightarrow> sums_to_zero m madt (length_field m madt) \<and>
     length_field m madt = 44 + length (madt_content es) \<and> list_all entry_ok es \<and>
     load_bytes m (madt + 44) (length (madt_content es)) = madt_content es"

text \<open>What the firmware must not do for the search to stay inside the four gigabytes that the kernel maps.\<close>

definition rsdp_low :: "memory \<Rightarrow> u64 \<Rightarrow> bool \<Rightarrow> bool" where
  "rsdp_low m d two \<longleftrightarrow> unat d + 36 \<le> 2 ^ 32 \<and> (two \<longrightarrow> unat d + unat (load32 m (d + 20)) \<le> 2 ^ 32)"

definition root_low :: "memory \<Rightarrow> u64 \<Rightarrow> bool \<Rightarrow> bool" where
  "root_low m root xsdt \<longleftrightarrow> unat root + 8 \<le> 2 ^ 32 \<and> unat root + length_field m root \<le> 2 ^ 32 \<and>
     (sums_to_zero m root (length_field m root) \<longrightarrow> 36 \<le> length_field m root \<and>
        (\<forall>e \<in> set (root_entries m root xsdt). unat e + 4 \<le> 2 ^ 32 \<and>
           (load_bytes m e 4 = ascii ''APIC'' \<longrightarrow> unat e + 40 \<le> 2 ^ 32 \<and> unat e + length_field m e + 6 \<le> 2 ^ 32)))"

text \<open>The ids recorded in the end: the boot processor alone, or those of the MADT.\<close>

definition ids_of :: "acpi \<Rightarrow> u32 list" where
  "ids_of s = take (g_cpu_count s) (g_lapic_ids s)"

definition listed_ids :: "memory \<Rightarrow> (u64 \<times> bool) option \<Rightarrow> u32 list \<Rightarrow> bool" where
  "listed_ids m root is \<longleftrightarrow>
     (case root of
        None \<Rightarrow> is = [0]
      | Some (r, xsdt) \<Rightarrow>
          (if \<not> sums_to_zero m r (length_field m r) \<or> madt_of_root m r xsdt = 0 \<or>
              \<not> sums_to_zero m (madt_of_root m r xsdt) (length_field m (madt_of_root m r xsdt))
           then is = [0]
           else (\<forall>es. madt_listing m (madt_of_root m r xsdt) es \<longrightarrow>
                  is = (if lapics es = [] then [0] else take 4 (lapics es)))))"

lemma single_core_ids: "length (g_lapic_ids s) = 4 \<Longrightarrow> ids_of (single_core msg s) = [0]"
  by (cases "g_lapic_ids s") (simp_all add: ids_of_def single_core_def terminal_print_def Let_def)

lemma checksum_sums:
  "readable rd a (unat len) \<Longrightarrow> checksum_ok rd m a len = Some (sums_to_zero m a (unat len))"
  by (simp add: checksum_ok_def sums_to_zero_def foldl_sum)

lemma same_bytes_load:
  "readable rd p (length s) \<Longrightarrow> same_bytes rd m p s = Some (load_bytes m p (length s) = ascii s)"
proof (induction s arbitrary: p)
  case (Cons c s)
  have "rd p" "readable rd (p + 1) (length s)"
    using readable_part [OF Cons.prems, of 1 "length s"] readable_part [OF Cons.prems, of 0 1] by (simp_all add: readable_def)
  moreover have "load_bytes m p (length (c # s)) = m p # load_bytes m (p + 1) (length s)"
    by (rule nth_equalityI) (auto simp: nth_Cons add.assoc split: nat.split)
  ultimately show ?case using Cons.IH [of "p + 1"] by (simp add: ascii_def)
qed (simp add: ascii_def load_bytes_def)

lemma find_entry_list:
  assumes "\<And>j. i \<le> j \<Longrightarrow> j < i + n \<Longrightarrow> root_entry rd m entries x j = Some (f j) \<and> readable rd (f j) (length sig)"
  shows "find_entry rd m entries x sig i n =
     Some (case List.find (\<lambda>e. load_bytes m e (length sig) = ascii sig) (map f [i..<i + n]) of None \<Rightarrow> 0 | Some e \<Rightarrow> e)"
  using assms
proof (induction n arbitrary: i)
  case (Suc n)
  have r: "root_entry rd m entries x i = Some (f i)" "readable rd (f i) (length sig)" using Suc.prems [of i] by simp_all
  have "find_entry rd m entries x sig (i + 1) n =
     Some (case List.find (\<lambda>e. load_bytes m e (length sig) = ascii sig) (map f [i + 1..<i + 1 + n]) of None \<Rightarrow> 0 | Some e \<Rightarrow> e)"
    using Suc.prems by (intro Suc.IH) simp
  moreover have "[i..<i + Suc n] = i # [i + 1..<i + 1 + n]" by (subst upt_conv_Cons) simp_all
  ultimately show ?case using r by (simp add: same_bytes_load split: bool.split del: upt_Suc)
qed simp

text \<open>In tables that lie low every read succeeds, and gives what the table holds.\<close>

lemma table_length_low: "reads_below rd (2 ^ 32) \<Longrightarrow> unat t + 8 \<le> 2 ^ 32 \<Longrightarrow> table_length rd m t = Some (load32 m (t + 4))"
proof -
  assume rd: "reads_below rd (2 ^ 32)" and t: "unat t + 8 \<le> 2 ^ 32"
  have "readable rd t 8" by (rule readable_below [OF rd t])
  then show ?thesis using readable_part [of rd t 8 4 4] by (simp add: table_length_def read32_def)
qed

lemma find_table_low:
  assumes "reads_below rd (2 ^ 32)" and "root_low m root x" and "sums_to_zero m root (length_field m root)"
  shows "find_table rd m root x ''APIC'' = Some (madt_of_root m root x)"
proof -
  define w :: nat where "w = (if x then 8 else 4)"
  define n where "n = (length_field m root - 36) div w"
  define f where "f i = (if x then load64 m (root + of_nat (36 + i * 8)) else ucast (load32 m (root + of_nat (36 + i * 4))))" for i
  have low: "unat root + length_field m root \<le> 2 ^ 32" "36 \<le> length_field m root" "unat root + 8 \<le> 2 ^ 32"
    and es: "root_entries m root x = map f [0..<n]" "\<And>e. e \<in> set (root_entries m root x) \<Longrightarrow> unat e + 4 \<le> 2 ^ 32"
    using assms(2,3) by (simp_all add: root_low_def root_entries_def n_def w_def f_def [abs_def])
  have rd: "readable rd root (length_field m root)" by (rule readable_below [OF assms(1) low(1)])
  have c: "unat (entry_count (load32 m (root + 4)) x) = n"
    using low(2) by (simp add: entry_count_def n_def w_def length_field_def unat_div unat_sub_if' word_le_nat_alt)
  have four: "length ''APIC'' = 4" by simp
  have step: "root_entry rd m (root + 36) x j = Some (f j) \<and> readable rd (f j) 4" if "j < n" for j
  proof -
    have "f j \<in> set (root_entries m root x)" using that by (simp add: es(1))
    then have "readable rd (f j) 4" by (intro readable_below [OF assms(1)] es(2))
    moreover have b: "36 + j * w + w \<le> length_field m root"
    proof -
      have "(j + 1) * w \<le> n * w" using that by (intro mult_le_mono1) simp
      also have "\<dots> \<le> length_field m root - 36" by (simp add: n_def)
      finally show ?thesis using low(2) by simp
    qed
    moreover have "ucast (of_nat j * of_nat w :: u32) = (of_nat (j * w) :: u64)"
    proof -
      have "j * w < 2 ^ 32" using b low(1) w_def by (simp split: if_splits)
      then have "unat (of_nat (j * w) :: u32) = j * w" by (simp only: unat_of_nat) simp
      then show ?thesis by (metis of_nat_mult of_nat_unat)
    qed
    moreover have "readable rd (root + of_nat (36 + j * w)) w" using b by (intro readable_part [OF rd]) simp
    ultimately show ?thesis by (cases x) (simp_all add: root_entry_def read64_def read32_def f_def w_def add.assoc)
  qed
  show ?thesis
    using find_entry_list [of 0 n rd m "root + 36" x f "''APIC''", unfolded four] step table_length_low [OF assms(1) low(3), of m]
    by (simp add: find_table_def c madt_of_root_def es(1))
qed

lemma parse_madt_low:
  assumes "reads_below rd (2 ^ 32)" and "unat madt + 40 \<le> 2 ^ 32" and "unat madt + length_field m madt + 6 \<le> 2 ^ 32" and "acpi_ok s"
  shows "\<exists>t. parse_madt rd m madt s = Some (sums_to_zero m madt (length_field m madt) \<and> 0 < g_cpu_count t, t) \<and> acpi_ok t"
proof -
  define len where "len = load32 m (madt + 4)"
  have l: "length_field m madt = unat len" "unat madt + unat len + 6 \<le> 2 ^ 32" using assms(3) by (simp_all add: length_field_def len_def)
  have t: "table_length rd m madt = Some len" using table_length_low [OF assms(1)] assms(2) by (simp add: len_def)
  have c: "checksum_ok rd m madt len = Some (sums_to_zero m madt (unat len))"
    using l(2) by (intro checksum_sums readable_below [OF assms(1)]) simp
  have "readable rd madt 40" by (rule readable_below [OF assms(1,2)])
  then have a: "read32 rd m (madt + 36) = Some (load32 m (madt + 36))"
    using readable_part [of rd madt 40 36 4] by (simp add: read32_def)
  define u where "u = s\<lparr>g_lapic_base := ucast (load32 m (madt + 36))\<rparr>"
  have u: "acpi_ok u" using assms(4) by (simp add: u_def acpi_ok_def)
  have n: "unat (madt + ucast len) = unat madt + unat len" "unat (madt + 44) = unat madt + 44"
    using unat_plus_small [of madt "unat len"] unat_plus_small [of madt 44] l(2) by simp_all
  have "\<exists>s'. madt_walk rd m (madt + 44) (madt + ucast len) u = Some s' \<and> acpi_ok s'"
    using l(2) u by (intro madt_walk_returns [OF assms(1)]) (simp_all add: n)
  then obtain v where v: "madt_walk rd m (madt + 44) (madt + ucast len) u = Some v" "acpi_ok v" by blast
  have "acpi_ok (terminal_print msg s)" for msg using assms(4) by (simp add: acpi_ok_def terminal_print_def)
  then show ?thesis
    using v by (cases "sums_to_zero m madt (unat len)") (auto simp: parse_madt_def t c a l(1) Let_def simp flip: u_def)
qed

lemma ids_report [simp]: "ids_of (acpi_report s) = ids_of s"
  by (simp add: ids_of_def)

lemma found_in_list: "List.find P xs = Some e \<Longrightarrow> e \<in> set xs \<and> P e"
  by (induction xs) (auto split: if_splits)

lemma acpi_tables_low:
  assumes "reads_below rd (2 ^ 32)" and "root_low m root x" and "acpi_ok s" and "g_cpu_count s = 0"
  shows "\<exists>t. acpi_tables rd m root x s = Some t \<and> acpi_ok t \<and> 0 < g_cpu_count t \<and> listed_ids m (Some (root, x)) (ids_of t)"
proof -
  define madt where "madt = madt_of_root m root x"
  have ids: "length (g_lapic_ids s) = 4" using assms(3) by (simp add: acpi_ok_def)
  have low: "unat root + 8 \<le> 2 ^ 32" "unat root + length_field m root \<le> 2 ^ 32" using assms(2) by (simp_all add: root_low_def)
  have t: "table_length rd m root = Some (load32 m (root + 4))" by (rule table_length_low [OF assms(1) low(1)])
  have c: "checksum_ok rd m root (load32 m (root + 4)) = Some (sums_to_zero m root (length_field m root))"
    using low(2) unfolding length_field_def by (intro checksum_sums readable_below [OF assms(1)])
  note sc = single_core_ok single_core_ids
  show ?thesis
  proof (cases "sums_to_zero m root (length_field m root) \<and> madt \<noteq> 0")
    case False
    then show ?thesis
      using find_table_low [OF assms(1,2)] sc [OF ids] by (auto simp: acpi_tables_def t c listed_ids_def simp flip: madt_def)
  next
    case True
    have f: "find_table rd m root x ''APIC'' = Some madt" using find_table_low [OF assms(1,2)] True by (simp add: madt_def)
    have e: "madt \<in> set (root_entries m root x)" "load_bytes m madt 4 = ascii ''APIC''"
      using True by (auto simp: madt_def madt_of_root_def split: option.splits dest!: found_in_list)
    then have m: "unat madt + 40 \<le> 2 ^ 32" "unat madt + length_field m madt + 6 \<le> 2 ^ 32"
      using assms(2) True by (simp_all add: root_low_def)
    obtain u where u: "parse_madt rd m madt s = Some (sums_to_zero m madt (length_field m madt) \<and> 0 < g_cpu_count u, u)"
        "acpi_ok u" using parse_madt_low [OF assms(1) m assms(3)] by blast
    have uids: "length (g_lapic_ids u) = 4" using u(2) by (simp add: acpi_ok_def)
    have es: "(lapics es \<noteq> []) = (0 < g_cpu_count u) \<and> ids_of u = take 4 (lapics es)" if "madt_listing m madt es" for es
    proof -
      have rd: "readable rd madt (length_field m madt)" using m(2) by (intro readable_below [OF assms(1)]) simp
      have big: "unat madt + length_field m madt + 2 < 2 ^ 64" using m(2) by simp
      from that parse_madt_correct [OF _ _ _ _ _ big rd assms(4) ids, of m es] u(1)
      show ?thesis by (auto simp: madt_listing_def sums_to_zero_def length_field_def ids_of_def)
    qed
    show ?thesis
      using True u sc [OF uids] es by (auto simp: acpi_tables_def t c f listed_ids_def acpi_ok_def simp flip: madt_def)
  qed
qed

text \<open>Which root table is chosen.\<close>

lemma acpi_from_rsdp_root:
  assumes "reads_below rd (2 ^ 32)" and "d \<noteq> 0 \<Longrightarrow> rsdp_low m d two" and "d2 = (if two then d else 0)"
  shows "\<exists>msg. acpi_from_rsdp rd m d d2 s =
     (case root_of_rsdp m d two of
        Some (root, x) \<Rightarrow> acpi_tables rd m root x s | None \<Rightarrow> Some (single_core msg s))"
proof (cases "d \<noteq> 0 \<and> load_bytes m d 8 = ascii ''RSD PTR ''")
  case False
  have l8: "length ''RSD PTR '' = 8" by simp
  have "same_bytes rd m d ''RSD PTR '' = Some (load_bytes m d 8 = ascii ''RSD PTR '')" if "d \<noteq> 0"
  proof -
    have "unat d + 8 \<le> 2 ^ 32" using assms(2) that by (simp add: rsdp_low_def)
    then have "readable rd d 8" by (intro readable_below [OF assms(1)])
    then show ?thesis by (rule same_bytes_load [of rd d "''RSD PTR ''" m, unfolded l8])
  qed
  then show ?thesis using False by (auto simp: acpi_from_rsdp_def root_of_rsdp_def)
next
  case True
  have l8: "length ''RSD PTR '' = 8" by simp
  have low: "unat d + 36 \<le> 2 ^ 32" "two \<Longrightarrow> unat d + unat (load32 m (d + 20)) \<le> 2 ^ 32"
    using assms(2) True by (simp_all add: rsdp_low_def)
  have rd: "readable rd d 36" by (rule readable_below [OF assms(1) low(1)])
  have "readable rd d 8" by (rule readable_mono [OF rd]) simp
  then have f: "same_bytes rd m d ''RSD PTR '' = Some True"
    using True same_bytes_load [of rd d "''RSD PTR ''" m, unfolded l8] by simp
  have r: "read32 rd m (d + 16) = Some (load32 m (d + 16))" "read32 rd m (d + 20) = Some (load32 m (d + 20))"
    "read64 rd m (d + 24) = Some (load64 m (d + 24))"
    using readable_part [OF rd, of 16 4] readable_part [OF rd, of 20 4] readable_part [OF rd, of 24 8]
    by (simp_all add: read32_def read64_def)
  have r8: "read8 rd m (d + 15) = Some (m (d + 15))"
    using readable_part [OF rd, of 15 1] by (simp add: read8_def readable_def)
  have c20: "checksum_ok rd m d 20 = Some (sums_to_zero m d 20)"
    using readable_mono [OF rd, of 20] by (subst checksum_sums) simp_all
  have c2: "checksum_ok rd m d (load32 m (d + 20)) = Some (sums_to_zero m d (unat (load32 m (d + 20))))" if "two"
    using low(2) [OF that] by (intro checksum_sums readable_below [OF assms(1)])
  have x: "use_xsdt_of rd m d d2 =
      Some (two \<and> 2 \<le> m (d + 15) \<and> load64 m (d + 24) \<noteq> 0 \<and> sums_to_zero m d (unat (load32 m (d + 20))))"
  proof (cases two)
    case t: True
    show ?thesis
    proof (cases "m (d + 15) < 2")
      case True
      then have "\<not> 2 \<le> m (d + 15)" by (simp only: not_le)
      then show ?thesis using True t \<open>d \<noteq> 0 \<and> _\<close> by (simp add: use_xsdt_of_def assms(3) r8)
    next
      case False
      then have "2 \<le> m (d + 15)" by (simp only: not_less)
      with False t \<open>d \<noteq> 0 \<and> _\<close> c2 show ?thesis
        by (cases "load64 m (d + 24) = 0") (simp_all add: use_xsdt_of_def assms(3) r r8)
    qed
  qed (simp add: use_xsdt_of_def assms(3))
  define b where "b = (two \<and> 2 \<le> m (d + 15) \<and> load64 m (d + 24) \<noteq> 0 \<and> sums_to_zero m d (unat (load32 m (d + 20))))"
  have d: "d \<noteq> 0" "b \<Longrightarrow> two" using True by (simp_all add: b_def)
  have root: "root_of_rsdp m d two = (if b then Some (load64 m (d + 24), True)
      else if sums_to_zero m d 20 then Some (ucast (load32 m (d + 16)), False) else None)"
    using True by (simp add: root_of_rsdp_def b_def)
  have x': "use_xsdt_of rd m d d2 = Some b" unfolding b_def by (rule x)
  have run: "acpi_from_rsdp rd m d d2 s =
      (if b then Option.bind (read64 rd m (d2 + 24)) (\<lambda>a. acpi_tables rd m a True s)
       else if sums_to_zero m d 20 then acpi_tables rd m (ucast (load32 m (d + 16))) False s
       else Some (single_core ''ACPI: RSDP checksum invalid, assuming single core\<newline>'' s))"
    unfolding acpi_from_rsdp_def by (simp only: f r x' c20 d(1) if_False bind.bind_lunit not_True_eq_False not_not)
      (cases b; cases "sums_to_zero m d 20"; simp only: if_True if_False not_True_eq_False not_False_eq_True)
  show ?thesis
  proof (cases b)
    case True
    then have "d2 = d" using d(2) assms(3) by simp
    then show ?thesis unfolding run root using True r(3) by simp
  next
    case False
    then show ?thesis unfolding run root by (cases "sums_to_zero m d 20") auto
  qed
qed

text \<open>C37: The processors start-up learns of, end to end. Let boot information be well formed and the kernel map the first
  four gigabytes, and let no pointer or length of the firmware lead out of them: the root descriptor's, the root table's,
  whose length covers its header, and, when those check out, those of the tables it lists as far as they are
  read. Then \<open>acpi_init\<close> returns, whatever else the tables hold; it reports between one and four processors, each with an
  8-bit id; the ids are those of the enabled local APICs of the MADT, in its order, at most four, where the MADT is the first
  table of the checked root table with its signature and lists them in well-formed entries; and the boot processor alone
  when there is no such table, a checksum is wrong or no APIC is enabled.\<close>

theorem acpi_init_counts_processors:
  assumes "tags_at m (info + 8) ts" and "length (g_lapic_ids s) = 4" and "reads_below rd (2 ^ 32)"
    and "rsdp_of info ts = (d, two)" and "d \<noteq> 0 \<Longrightarrow> rsdp_low m d two"
    and "\<And>root x. root_of_rsdp m d two = Some (root, x) \<Longrightarrow> root_low m root x"
  shows "\<exists>t. acpi_init rd m info s = Some t \<and> 1 \<le> acpi_cpu_count t \<and> acpi_cpu_count t \<le> 4 \<and>
     g_cpu_count t = acpi_cpu_count t \<and> acpi_cpu_lapic_id i t < 256 \<and> listed_ids m (root_of_rsdp m d two) (ids_of t)"
proof -
  define u where "u = s\<lparr>g_cpu_count := 0, g_lapic_base := 0\<rparr>"
  have u: "acpi_ok u" "g_cpu_count u = 0" and ids: "length (g_lapic_ids u) = 4"
    using assms(2) by (simp_all add: u_def acpi_ok_def)
  have f: "mb2_find_tag m info ty = Some (first_tag ty (info + 8) ts)" for ty
    using assms(1) by (simp add: mb2_find_tag_def mb2_search_first_tag)
  have "acpi_init rd m info s = acpi_from_rsdp rd m d (if two then d else 0) u"
    using assms(4) by (auto simp: acpi_init_def f rsdp_of_def Let_def simp flip: u_def split: if_splits)
  with acpi_from_rsdp_root [OF assms(3,5) refl] obtain msg where
    i: "acpi_init rd m info s = (case root_of_rsdp m d two of
        Some (root, x) \<Rightarrow> acpi_tables rd m root x u | None \<Rightarrow> Some (single_core msg u))" by metis
  have "\<exists>t. acpi_init rd m info s = Some t \<and> acpi_ok t \<and> 0 < g_cpu_count t \<and> listed_ids m (root_of_rsdp m d two) (ids_of t)"
  proof (cases "root_of_rsdp m d two")
    case None
    then show ?thesis using i single_core_ok [OF ids] single_core_ids [OF ids] by (simp add: listed_ids_def)
  next
    case (Some r)
    obtain root x where r: "r = (root, x)" by (cases r)
    show ?thesis using acpi_tables_low [OF assms(3) assms(6) u, of root x] Some i by (simp add: r)
  qed
  then obtain t where t: "acpi_init rd m info s = Some t" "acpi_ok t" "0 < g_cpu_count t"
      "listed_ids m (root_of_rsdp m d two) (ids_of t)" by blast
  moreover have "acpi_cpu_lapic_id i t < 256" using t(2,3) by (auto simp: acpi_cpu_lapic_id_def acpi_ok_def)
  ultimately show ?thesis by (auto simp: acpi_cpu_count_def acpi_ok_def)
qed

text \<open>Boot information with an ACPI 1.0 tag, an RSDT with one entry, and the MADT of before.\<close>

definition firmware_info :: "u8 list" where
  "firmware_info = [48, 0, 0, 0, 0, 0, 0, 0, 14, 0, 0, 0, 28, 0, 0, 0] @
     [0x52, 0x53, 0x44, 0x20, 0x50, 0x54, 0x52, 0x20, 177, 0, 0, 0, 0, 0, 0, 0, 0, 0x30, 0, 0] @ replicate 12 0"

definition firmware_rsdt :: "u8 list" where
  "firmware_rsdt = [0x52, 0x53, 0x44, 0x54, 40, 0, 0, 0, 1, 122] @ replicate 26 0 @ [0, 0x20, 0, 0]"

definition firmware :: memory where
  "firmware a =
     (let n = unat a in
      if 0x1000 \<le> n \<and> n < 0x1030 then firmware_info ! (n - 0x1000)
      else if 0x2000 \<le> n \<and> n < 0x2048 then example_bytes ! (n - 0x2000)
      else if 0x3000 \<le> n \<and> n < 0x3028 then firmware_rsdt ! (n - 0x3000) else 0)"

lemma firmware_bytes:
  "i + k \<le> 48 \<Longrightarrow> load_bytes firmware (0x1000 + of_nat i) k = take k (drop i firmware_info)"
  "i + k \<le> 72 \<Longrightarrow> load_bytes firmware (0x2000 + of_nat i) k = take k (drop i example_bytes)"
  "i + k \<le> 40 \<Longrightarrow> load_bytes firmware (0x3000 + of_nat i) k = take k (drop i firmware_rsdt)"
proof -
  have u: "unat (0x1000 + of_nat j :: u64) = 0x1000 + j" "unat (0x2000 + of_nat j :: u64) = 0x2000 + j"
    "unat (0x3000 + of_nat j :: u64) = 0x3000 + j" if "j < 72" for j
    using unat_plus_small [of "0x1000" j] unat_plus_small [of "0x2000" j] unat_plus_small [of "0x3000" j] that by simp_all
  have n: "length firmware_info = 48" "length example_bytes = 72" "length firmware_rsdt = 40" by code_simp+
  have "load_bytes firmware 0x1000 48 = firmware_info" "load_bytes firmware 0x2000 72 = example_bytes"
    "load_bytes firmware 0x3000 40 = firmware_rsdt"
    by (rule nth_equalityI; simp add: n firmware_def u Let_def)+
  then show "i + k \<le> 48 \<Longrightarrow> load_bytes firmware (0x1000 + of_nat i) k = take k (drop i firmware_info)"
    "i + k \<le> 72 \<Longrightarrow> load_bytes firmware (0x2000 + of_nat i) k = take k (drop i example_bytes)"
    "i + k \<le> 40 \<Longrightarrow> load_bytes firmware (0x3000 + of_nat i) k = take k (drop i firmware_rsdt)"
    by (auto intro: load_bytes_slice)
qed

theorem acpi_init_counts_processors_witness:
  "\<exists>t. acpi_init (\<lambda>a. a < 0x100000000) firmware 0x1000 blank_acpi = Some t \<and> ids_of t = [7, 9]"
proof -
  have lists: "take 4 (drop 8 firmware_info) = [14, 0, 0, 0]" "take 4 (drop 12 firmware_info) = [28, 0, 0, 0]"
    "take 4 (drop 40 firmware_info) = [0, 0, 0, 0]" "take 8 (drop 16 firmware_info) = ascii ''RSD PTR ''"
    "sum_list (take 20 (drop 16 firmware_info)) = 0" "take 4 (drop 32 firmware_info) = [0, 0x30, 0, 0]"
    "take 4 (drop 4 firmware_rsdt) = [40, 0, 0, 0]" "sum_list (take 40 (drop 0 firmware_rsdt)) = 0"
    "take 4 (drop 36 firmware_rsdt) = [0, 0x20, 0, 0]" "take 4 (drop 0 example_bytes) = ascii ''APIC''"
    "take 4 (drop 4 example_bytes) = [72, 0, 0, 0]" "sum_list (take 72 (drop 0 example_bytes)) = 0"
    "take 28 (drop 44 example_bytes) = madt_content example_entries" "length (madt_content example_entries) = 28"
    "list_all entry_ok example_entries"
    by code_simp+
  have words: "le_word [14, 0, 0, 0] = (14 :: u32)" "le_word [28, 0, 0, 0] = (28 :: u32)" "le_word [0, 0, 0, 0] = (0 :: u32)"
    "le_word [0, 0x30, 0, 0] = (0x3000 :: u32)" "le_word [40, 0, 0, 0] = (40 :: u32)" "le_word [0, 0x20, 0, 0] = (0x2000 :: u32)"
    "le_word [72, 0, 0, 0] = (72 :: u32)" "tag_step 28 = 32"
    by code_simp+
  note info = firmware_bytes(1) [of 8 4] firmware_bytes(1) [of 12 4] firmware_bytes(1) [of 40 4] firmware_bytes(1) [of 16 8]
    firmware_bytes(1) [of 16 20] firmware_bytes(1) [of 32 4]
  note rsdt = firmware_bytes(3) [of 4 4] firmware_bytes(3) [of 0 40] firmware_bytes(3) [of 36 4]
  note madt = firmware_bytes(2) [of 0 4] firmware_bytes(2) [of 4 4] firmware_bytes(2) [of 0 72] firmware_bytes(2) [of 44 28]
  have t: "tags_at firmware (0x1000 + 8) [(14, 28)]"
    using info by (simp add: load32_def lists words MB2_TAG_END_def)
  have f: "length_field firmware 0x3000 = 40" "length_field firmware 0x2000 = 72"
    using rsdt(1) madt(2) by (simp_all add: length_field_def load32_def lists words)
  have es: "root_entries firmware 0x3000 False = [0x2000]"
    using rsdt(3) by (simp add: root_entries_def f load32_def lists words)
  have m: "sums_to_zero firmware 0x3000 (length_field firmware 0x3000)" "madt_of_root firmware 0x3000 False = 0x2000"
    using rsdt(2) madt(1) lists(8,10) by (simp_all add: sums_to_zero_def f madt_of_root_def es)
  have listing: "madt_listing firmware 0x2000 example_entries"
    using madt(3,4) lists(12) by (simp add: madt_listing_def sums_to_zero_def f lists(13-15))
  have l: "length (g_lapic_ids blank_acpi) = 4" by (simp add: blank_acpi_def)
  have rd: "reads_below (\<lambda>a. a < 0x100000000) (2 ^ 32)" by (simp add: reads_below_def word_less_nat_alt)
  have d: "rsdp_of 0x1000 [(14, 28)] = (0x1010, False)" by code_simp
  have low: "rsdp_low firmware 0x1010 False" by (simp add: rsdp_low_def)
  have r: "root_of_rsdp firmware 0x1010 False = Some (0x3000, False)"
    using info(4-6) by (simp add: root_of_rsdp_def sums_to_zero_def load32_def lists words)
  have "root_low firmware 0x3000 False" using m(1) by (simp add: root_low_def f es)
  then have rl: "root_low firmware root x" if "root_of_rsdp firmware 0x1010 False = Some (root, x)" for root x
    using that r by simp
  note es = listing
  from listing have c: "sums_to_zero firmware 0x2000 (length_field firmware 0x2000)" unfolding madt_listing_def by blast
  have e: "lapics example_entries = [7, 9]" by code_simp
  from acpi_init_counts_processors [OF t l rd d low rl, of 0] obtain t where
    w: "acpi_init (\<lambda>a. a < 0x100000000) firmware 0x1000 blank_acpi = Some t" "g_cpu_count t = acpi_cpu_count t"
      "acpi_cpu_count t \<le> 4" "listed_ids firmware (root_of_rsdp firmware 0x1010 False) (ids_of t)" by blast
  have i: "ids_of t = [7, 9]" using w(4) es unfolding r by (simp add: listed_ids_def m c e)
  then show ?thesis using w(1) by blast
qed

text \<open>A root table that the kernel has not mapped is followed all the same, and start-up never returns from the fault.\<close>

lemma acpi_unmapped_root_faults:
  assumes "\<not> rd (root + 4)"
  shows "acpi_tables rd m root x s = None"
proof -
  have "\<not> readable rd (root + 4) 4" using assms by (auto simp: readable_def list_all_iff intro!: bexI [of _ 0])
  then show ?thesis by (simp add: acpi_tables_def table_length_def read32_def)
qed

end
