(* ===== verification/Terminal.thy ===== *)
theory Terminal
  imports Console C_Division
begin

text \<open>
  The character terminal, \<open>src/terminal/terminal.c\<close>: the grid of characters \<open>screen_buf\<close>, the cursor,
  scrolling, and the viewport the grid is drawn into. The calls to the framebuffer are recorded in
  order (\<open>calls\<close>); theory Framebuffer says what they do to the pixels. The array is addressed by any
  pair of integers, as C addresses it, so that a write outside its 64 rows and 120 columns would
  show as a change of a cell out there.
\<close>

datatype fb_call =
    FillRect int int int int "nat \<times> nat \<times> nat"
  | DrawChar int int char "nat \<times> nat \<times> nat" "nat \<times> nat \<times> nat"
  | Present

record terminal =
  term_W :: int
  term_H :: int
  cols :: int
  rows :: int
  origin_x :: int
  origin_y :: int
  screen_buf :: "int \<Rightarrow> int \<Rightarrow> char"
  buf_row :: int
  buf_col :: int
  scroll_top :: int
  blink_counter :: int
  cursor_visible :: bool
  calls :: "fb_call list"

definition COL_BG :: "nat \<times> nat \<times> nat" where "COL_BG = (0, 0, 0)"
definition COL_TEXT :: "nat \<times> nat \<times> nat" where "COL_TEXT = (255, 255, 255)"
definition CHAR_W :: int where "CHAR_W = 8"
definition CHAR_H :: int where "CHAR_H = 10"
definition MAX_ROWS :: int where "MAX_ROWS = 64"
definition MAX_COLS :: int where "MAX_COLS = 120"

lemmas term_consts = CHAR_W_def CHAR_H_def MAX_ROWS_def MAX_COLS_def

abbreviation NUL :: char where "NUL \<equiv> CHR 0x00"

definition call :: "fb_call \<Rightarrow> terminal \<Rightarrow> terminal" where
  "call c t = t\<lparr>calls := calls t @ [c]\<rparr>"

definition set_cell :: "int \<Rightarrow> int \<Rightarrow> char \<Rightarrow> terminal \<Rightarrow> terminal" where
  "set_cell r c ch t = t\<lparr>screen_buf := (screen_buf t)(r := (screen_buf t r)(c := ch))\<rparr>"

section \<open>Drawing\<close>

fun draw_cells :: "nat \<Rightarrow> int \<Rightarrow> int \<Rightarrow> int \<Rightarrow> terminal \<Rightarrow> terminal" where
  "draw_cells 0 r buf_r c t = t"
| "draw_cells (Suc n) r buf_r c t =
     (let ch = screen_buf t buf_r c in
      if ch = NUL then t
      else draw_cells n r buf_r (c + 1)
        (call (DrawChar (origin_x t + c * CHAR_W) (origin_y t + r * CHAR_H) ch COL_TEXT COL_BG) t))"

fun draw_rows :: "nat \<Rightarrow> int \<Rightarrow> terminal \<Rightarrow> terminal" where
  "draw_rows 0 r t = t"
| "draw_rows (Suc n) r t =
     (let buf_r = scroll_top t + r in
      if buf_r \<ge> MAX_ROWS then t
      else draw_rows n (r + 1) (draw_cells (nat (cols t)) r buf_r 0 t))"

definition redraw_terminal :: "terminal \<Rightarrow> terminal" where
  "redraw_terminal t =
     draw_rows (nat (rows t)) 0 (call (FillRect (origin_x t) (origin_y t) (term_W t) (term_H t) COL_BG) t)"

definition terminal_hide_cursor :: "terminal \<Rightarrow> terminal" where
  "terminal_hide_cursor t =
     (let x = origin_x t + buf_col t * CHAR_W;
          y = origin_y t + (buf_row t - scroll_top t) * CHAR_H
      in call Present (call (FillRect x (y + CHAR_H - 2) CHAR_W 2 COL_BG) t))"

definition terminal_draw_cursor :: "terminal \<Rightarrow> terminal" where
  "terminal_draw_cursor t =
     (let x = origin_x t + buf_col t * CHAR_W;
          y = origin_y t + (buf_row t - scroll_top t) * CHAR_H
      in call Present (call (FillRect x (y + CHAR_H - 2) CHAR_W 2 COL_TEXT) t))"

definition terminal_tick :: "terminal \<Rightarrow> terminal" where
  "terminal_tick t =
     (let t = t\<lparr>blink_counter := blink_counter t + 1\<rparr> in
      if blink_counter t \<ge> 3000 then
        (let t = t\<lparr>blink_counter := 0\<rparr>; t = t\<lparr>cursor_visible := \<not> cursor_visible t\<rparr> in
         if cursor_visible t then terminal_draw_cursor t else terminal_hide_cursor t)
      else t)"

section \<open>Output\<close>

text \<open>Every row takes the next one's characters, and the last is blanked.\<close>

definition shift_rows :: "terminal \<Rightarrow> terminal" where
  "shift_rows t =
     (let t = fold (\<lambda>r. fold (\<lambda>c t. set_cell r c (screen_buf t (r + 1) c) t) [0..MAX_COLS - 1]) [0..MAX_ROWS - 2] t
      in fold (\<lambda>c. set_cell (buf_row t) c NUL) [0..MAX_COLS - 1] t)"

definition scroll_down :: "terminal \<Rightarrow> terminal" where
  "scroll_down t =
     (let t = t\<lparr>buf_row := buf_row t + 1, buf_col := 0\<rparr>;
          t = (if buf_row t \<ge> MAX_ROWS then shift_rows (t\<lparr>buf_row := MAX_ROWS - 1\<rparr>) else t);
          t = t\<lparr>scroll_top := if buf_row t \<ge> rows t then buf_row t - rows t + 1 else 0\<rparr>
      in redraw_terminal t)"

definition terminal_putchar_s :: "char \<Rightarrow> terminal \<Rightarrow> terminal" where
  "terminal_putchar_s c t =
     (if c = CHR 0x0A then call Present (scroll_down t)
      else if c = CHR 0x08 then
        (if buf_col t > 0 then
           (let t = t\<lparr>buf_col := buf_col t - 1\<rparr>;
                t = set_cell (buf_row t) (buf_col t) NUL t
            in call Present
                 (call (FillRect (origin_x t + buf_col t * CHAR_W)
                     (origin_y t + (buf_row t - scroll_top t) * CHAR_H) CHAR_W CHAR_H COL_BG) t))
         else t)
      else
        (let t = (if buf_col t \<ge> cols t then scroll_down t else t);
             t = set_cell (buf_row t) (buf_col t) c t;
             t = call (DrawChar (origin_x t + buf_col t * CHAR_W)
                  (origin_y t + (buf_row t - scroll_top t) * CHAR_H) c COL_TEXT COL_BG) t;
             t = t\<lparr>buf_col := buf_col t + 1\<rparr>
         in call Present t))"

definition terminal_print_s :: "string \<Rightarrow> terminal \<Rightarrow> terminal" where
  "terminal_print_s s t = fold terminal_putchar_s s t"

definition terminal_clear :: "terminal \<Rightarrow> terminal" where
  "terminal_clear t =
     (let t = fold (\<lambda>r. fold (\<lambda>c. set_cell r c NUL) [0..MAX_COLS - 1]) [0..MAX_ROWS - 1] t;
          t = t\<lparr>buf_row := 0, buf_col := 0, scroll_top := 0\<rparr>
      in call Present (call (FillRect (origin_x t) (origin_y t) (term_W t) (term_H t) COL_BG) t))"

section \<open>The viewport\<close>

text \<open>\<open>cols = W / CHAR_W\<close> and \<open>rows = H / CHAR_H\<close>, at most what the array holds.\<close>

definition set_grid :: "terminal \<Rightarrow> terminal" where
  "set_grid t =
     (let t = t\<lparr>cols := term_W t sdiv CHAR_W, rows := term_H t sdiv CHAR_H\<rparr>;
          t = (if cols t > MAX_COLS then t\<lparr>cols := MAX_COLS\<rparr> else t)
      in if rows t > MAX_ROWS then t\<lparr>rows := MAX_ROWS\<rparr> else t)"

definition terminal_init :: "int \<Rightarrow> int \<Rightarrow> terminal \<Rightarrow> terminal" where
  "terminal_init width height t =
     (let t = t\<lparr>origin_x := 0, origin_y := 0, term_W := width, term_H := height\<rparr>
      in terminal_draw_cursor (redraw_terminal (terminal_clear (set_grid t))))"

definition clamp_cursor_to_grid :: "terminal \<Rightarrow> terminal" where
  "clamp_cursor_to_grid t =
     (let t = (if buf_col t > cols t then t\<lparr>buf_col := cols t\<rparr> else t);
          t = (if buf_row t \<ge> MAX_ROWS then t\<lparr>buf_row := MAX_ROWS - 1\<rparr> else t);
          t = t\<lparr>scroll_top := if buf_row t \<ge> rows t then buf_row t - rows t + 1 else 0\<rparr>
      in if scroll_top t < 0 then t\<lparr>scroll_top := 0\<rparr> else t)"

definition terminal_set_viewport :: "int \<Rightarrow> int \<Rightarrow> int \<Rightarrow> int \<Rightarrow> terminal \<Rightarrow> terminal" where
  "terminal_set_viewport x y w h t =
     (let t = t\<lparr>origin_x := x, origin_y := y, term_W := w, term_H := h\<rparr>
      in terminal_draw_cursor (redraw_terminal (clamp_cursor_to_grid (set_grid t))))"

definition terminal_move_viewport :: "int \<Rightarrow> int \<Rightarrow> terminal \<Rightarrow> terminal" where
  "terminal_move_viewport x y t =
     terminal_draw_cursor (redraw_terminal (t\<lparr>origin_x := x, origin_y := y\<rparr>))"

definition terminal_scroll :: "int \<Rightarrow> terminal \<Rightarrow> terminal" where
  "terminal_scroll lines t =
     (let max_scroll = (if buf_row t \<ge> rows t then buf_row t - rows t + 1 else 0);
          t = t\<lparr>scroll_top := scroll_top t - lines\<rparr>;
          t = (if scroll_top t < 0 then t\<lparr>scroll_top := 0\<rparr> else t);
          t = (if scroll_top t > max_scroll then t\<lparr>scroll_top := max_scroll\<rparr> else t)
      in terminal_draw_cursor (redraw_terminal t))"

definition terminal_contains :: "int \<Rightarrow> int \<Rightarrow> terminal \<Rightarrow> bool" where
  "terminal_contains x y t \<longleftrightarrow>
     x \<ge> origin_x t \<and> x < origin_x t + term_W t \<and> y \<ge> origin_y t \<and> y < origin_y t + term_H t"

text \<open>The log of theory Console, played back.\<close>

fun show_call :: "display_call \<Rightarrow> terminal \<Rightarrow> terminal" where
  "show_call (TerminalPrint s) t = terminal_print_s s t"
| "show_call (TerminalPutchar c) t = terminal_putchar_s c t"
| "show_call FbPresent t = call Present t"

section \<open>What the operations leave alone\<close>

lemma call_frame [simp]:
  "screen_buf (call c t) = screen_buf t" "buf_row (call c t) = buf_row t" "buf_col (call c t) = buf_col t"
  "cols (call c t) = cols t" "rows (call c t) = rows t" "scroll_top (call c t) = scroll_top t"
  "term_W (call c t) = term_W t" "term_H (call c t) = term_H t" "origin_x (call c t) = origin_x t"
  "origin_y (call c t) = origin_y t"
  by (simp_all add: call_def)

lemma set_cell_frame [simp]:
  "buf_row (set_cell r c ch t) = buf_row t" "buf_col (set_cell r c ch t) = buf_col t"
  "cols (set_cell r c ch t) = cols t" "rows (set_cell r c ch t) = rows t"
  "scroll_top (set_cell r c ch t) = scroll_top t"
  by (simp_all add: set_cell_def)

lemma screen_buf_set_cell:
  "screen_buf (set_cell r c ch t) r' c' = (if r' = r \<and> c' = c then ch else screen_buf t r' c')"
  by (simp add: set_cell_def)

lemma draw_cells_frame [simp]:
  "screen_buf (draw_cells n r b c t) = screen_buf t" "buf_row (draw_cells n r b c t) = buf_row t"
  "buf_col (draw_cells n r b c t) = buf_col t" "cols (draw_cells n r b c t) = cols t"
  "rows (draw_cells n r b c t) = rows t" "scroll_top (draw_cells n r b c t) = scroll_top t"
  by (induction n arbitrary: c t) (simp_all add: Let_def)

lemma draw_rows_frame [simp]:
  "screen_buf (draw_rows n r t) = screen_buf t" "buf_row (draw_rows n r t) = buf_row t"
  "buf_col (draw_rows n r t) = buf_col t" "cols (draw_rows n r t) = cols t"
  "rows (draw_rows n r t) = rows t" "scroll_top (draw_rows n r t) = scroll_top t"
  by (induction n arbitrary: r t) (simp_all add: Let_def)

lemma redraw_frame [simp]:
  "screen_buf (redraw_terminal t) = screen_buf t" "buf_row (redraw_terminal t) = buf_row t"
  "buf_col (redraw_terminal t) = buf_col t" "cols (redraw_terminal t) = cols t"
  "rows (redraw_terminal t) = rows t" "scroll_top (redraw_terminal t) = scroll_top t"
  by (simp_all add: redraw_terminal_def)

lemma cursor_frame [simp]:
  "screen_buf (terminal_draw_cursor t) = screen_buf t" "buf_row (terminal_draw_cursor t) = buf_row t"
  "buf_col (terminal_draw_cursor t) = buf_col t" "cols (terminal_draw_cursor t) = cols t"
  "screen_buf (terminal_hide_cursor t) = screen_buf t" "buf_row (terminal_hide_cursor t) = buf_row t"
  "buf_col (terminal_hide_cursor t) = buf_col t" "cols (terminal_hide_cursor t) = cols t"
  by (simp_all add: terminal_draw_cursor_def terminal_hide_cursor_def Let_def)

section \<open>The array after the copying loops\<close>

lemma fold_frame:
  assumes "\<And>x t. buf_row (f x t) = buf_row t \<and> buf_col (f x t) = buf_col t \<and> cols (f x t) = cols t \<and> rows (f x t) = rows t"
  shows "buf_row (fold f xs t) = buf_row t \<and> buf_col (fold f xs t) = buf_col t \<and> cols (fold f xs t) = cols t \<and> rows (fold f xs t) = rows t"
  using assms by (induction xs arbitrary: t) simp_all

lemma fold_copy_row:
  "screen_buf (fold (\<lambda>c t. set_cell r c (screen_buf t (r + 1) c) t) cs t) r' c' =
     (if r' = r \<and> c' \<in> set cs then screen_buf t (r + 1) c' else screen_buf t r' c')"
  by (induction cs arbitrary: t) (auto simp: screen_buf_set_cell)

lemma fold_blank_row:
  "screen_buf (fold (\<lambda>c. set_cell r c ch) cs t) r' c' =
     (if r' = r \<and> c' \<in> set cs then ch else screen_buf t r' c')"
  by (induction cs arbitrary: t) (auto simp: screen_buf_set_cell)

lemma fold_blank_rows:
  "screen_buf (fold (\<lambda>r. fold (\<lambda>c. set_cell r c ch) cs) rs t) r' c' =
     (if r' \<in> set rs \<and> c' \<in> set cs then ch else screen_buf t r' c')"
  by (induction rs arbitrary: t) (auto simp: fold_blank_row)

lemma fold_copy_rows:
  "screen_buf (fold (\<lambda>r. fold (\<lambda>c t. set_cell r c (screen_buf t (r + 1) c) t) cs) [0..int n - 1] t) r' c' =
     (if 0 \<le> r' \<and> r' < int n \<and> c' \<in> set cs then screen_buf t (r' + 1) c' else screen_buf t r' c')"
proof (induction n arbitrary: r' c')
  case 0
  then show ?case by auto
next
  case (Suc n)
  have "[0..int (Suc n) - 1] = [0..int n - 1] @ [int n]" using upto_rec2 [of 0 "int n"] by simp
  then show ?case by (simp add: fold_copy_row Suc.IH)
qed

lemma shift_rows_cells:
  "screen_buf (shift_rows t) r c =
     (if 0 \<le> c \<and> c < 120 \<and> r = buf_row t then NUL
      else if 0 \<le> c \<and> c < 120 \<and> 0 \<le> r \<and> r < 63 then screen_buf t (r + 1) c else screen_buf t r c)"
proof -
  have b: "buf_row (fold (\<lambda>r. fold (\<lambda>c t. set_cell r c (screen_buf t (r + 1) c) t) [0..119]) [0..62] t) = buf_row t"
    by (rule fold_frame [THEN conjunct1]) (simp add: fold_frame)
  show ?thesis
    using fold_copy_rows [of "[0..119]" 63 t r c]
    by (auto simp: shift_rows_def term_consts fold_blank_row b Let_def)
qed

lemma shift_rows_frame [simp]:
  "buf_row (shift_rows t) = buf_row t" "buf_col (shift_rows t) = buf_col t"
  "cols (shift_rows t) = cols t" "rows (shift_rows t) = rows t"
proof -
  define u where "u = fold (\<lambda>r. fold (\<lambda>c t. set_cell r c (screen_buf t (r + 1) c) t) [0..MAX_COLS - 1]) [0..MAX_ROWS - 2] t"
  have "buf_row u = buf_row t \<and> buf_col u = buf_col t \<and> cols u = cols t \<and> rows u = rows t"
    unfolding u_def by (rule fold_frame) (simp add: fold_frame)
  moreover have "buf_row (shift_rows t) = buf_row u \<and> buf_col (shift_rows t) = buf_col u \<and>
      cols (shift_rows t) = cols u \<and> rows (shift_rows t) = rows u"
    unfolding shift_rows_def u_def [symmetric] Let_def by (rule fold_frame) simp
  ultimately show "buf_row (shift_rows t) = buf_row t" "buf_col (shift_rows t) = buf_col t"
    "cols (shift_rows t) = cols t" "rows (shift_rows t) = rows t" by simp_all
qed

text \<open>The cells of the array.\<close>

definition in_array :: "int \<Rightarrow> int \<Rightarrow> bool" where
  "in_array r c \<longleftrightarrow> 0 \<le> r \<and> r < 64 \<and> 0 \<le> c \<and> c < 120"

lemma scroll_down_state:
  shows "buf_row (scroll_down t) = (if buf_row t + 1 \<ge> 64 then 63 else buf_row t + 1)"
    and "buf_col (scroll_down t) = 0" and "cols (scroll_down t) = cols t" and "rows (scroll_down t) = rows t"
    and "screen_buf (scroll_down t) r c =
      (if buf_row t + 1 \<ge> 64 \<and> in_array r c then if r = 63 then NUL else screen_buf t (r + 1) c
       else screen_buf t r c)"
  by (auto simp: scroll_down_def Let_def term_consts shift_rows_cells in_array_def)

section \<open>Bounds\<close>

definition grid_ok :: "terminal \<Rightarrow> bool" where
  "grid_ok t \<longleftrightarrow> 0 \<le> buf_row t \<and> buf_row t < 64 \<and> 0 \<le> buf_col t \<and> buf_col t \<le> 120 \<and> 0 \<le> cols t \<and> cols t \<le> 120"

text \<open>A step keeps to the array: it touches no cell outside it and leaves the cursor and the grid in range.\<close>

definition keeps_array :: "terminal \<Rightarrow> terminal \<Rightarrow> bool" where
  "keeps_array t t' \<longleftrightarrow> grid_ok t' \<and> (\<forall>r c. \<not> in_array r c \<longrightarrow> screen_buf t' r c = screen_buf t r c)"

datatype terminal_op =
    TPutchar char | TPrint string | TClear | TViewport int int int int | TMove int int | TScroll int | TTick

fun terminal_do :: "terminal_op \<Rightarrow> terminal \<Rightarrow> terminal" where
  "terminal_do (TPutchar c) t = terminal_putchar_s c t"
| "terminal_do (TPrint s) t = terminal_print_s s t"
| "terminal_do TClear t = terminal_clear t"
| "terminal_do (TViewport x y w h) t = terminal_set_viewport x y w h t"
| "terminal_do (TMove x y) t = terminal_move_viewport x y t"
| "terminal_do (TScroll n) t = terminal_scroll n t"
| "terminal_do TTick t = terminal_tick t"

fun width_ok :: "terminal_op \<Rightarrow> bool" where
  "width_ok (TViewport x y w h) \<longleftrightarrow> 0 \<le> w"
| "width_ok op \<longleftrightarrow> True"

lemma keeps_trans: "keeps_array t u \<Longrightarrow> keeps_array u v \<Longrightarrow> keeps_array t v"
  by (simp add: keeps_array_def)

lemma scroll_down_keeps: "grid_ok t \<Longrightarrow> keeps_array t (scroll_down t)"
  by (simp add: keeps_array_def grid_ok_def scroll_down_state)

lemma putchar_state:
  fixes t :: terminal
  assumes "ch \<noteq> CHR 0x0A" and "ch \<noteq> CHR 0x08"
  defines "u \<equiv> (if buf_col t \<ge> cols t then scroll_down t else t)"
  shows "screen_buf (terminal_putchar_s ch t) r c =
      (if r = buf_row u \<and> c = buf_col u then ch else screen_buf u r c)"
    and "buf_row (terminal_putchar_s ch t) = buf_row u"
    and "buf_col (terminal_putchar_s ch t) = buf_col u + 1"
    and "cols (terminal_putchar_s ch t) = cols u"
  using assms by (simp_all add: terminal_putchar_s_def Let_def screen_buf_set_cell flip: u_def)

lemma newline_state:
  "screen_buf (terminal_putchar_s (CHR 0x0A) t) = screen_buf (scroll_down t)"
  "buf_row (terminal_putchar_s (CHR 0x0A) t) = buf_row (scroll_down t)"
  "buf_col (terminal_putchar_s (CHR 0x0A) t) = buf_col (scroll_down t)"
  "cols (terminal_putchar_s (CHR 0x0A) t) = cols (scroll_down t)"
  by (simp_all add: terminal_putchar_s_def)

lemma backspace_state:
  "screen_buf (terminal_putchar_s (CHR 0x08) t) r c =
     (if 0 < buf_col t \<and> r = buf_row t \<and> c = buf_col t - 1 then NUL else screen_buf t r c)"
  "buf_row (terminal_putchar_s (CHR 0x08) t) = buf_row t"
  "buf_col (terminal_putchar_s (CHR 0x08) t) = (if 0 < buf_col t then buf_col t - 1 else buf_col t)"
  "cols (terminal_putchar_s (CHR 0x08) t) = cols t"
  by (simp_all add: terminal_putchar_s_def Let_def screen_buf_set_cell)

lemma putchar_keeps:
  assumes "grid_ok t"
  shows "keeps_array t (terminal_putchar_s ch t)"
proof -
  consider "ch = CHR 0x0A" | "ch = CHR 0x08" | "ch \<noteq> CHR 0x0A" "ch \<noteq> CHR 0x08" by blast
  then show ?thesis
  proof cases
    case 1
    with scroll_down_keeps [OF assms] show ?thesis by (simp add: keeps_array_def grid_ok_def newline_state)
  next
    case 2
    with assms show ?thesis by (auto simp: keeps_array_def grid_ok_def backspace_state in_array_def)
  next
    case 3
    define u where "u = (if buf_col t \<ge> cols t then scroll_down t else t)"
    have "keeps_array t u"
      using scroll_down_keeps [OF assms] assms by (simp add: u_def keeps_array_def)
    moreover have "buf_col u < 120"
      using assms by (auto simp: u_def grid_ok_def scroll_down_state)
    ultimately show ?thesis
      by (auto simp: keeps_array_def grid_ok_def putchar_state [OF 3, where t = t, folded u_def] in_array_def)
  qed
qed

lemma print_keeps: "grid_ok t \<Longrightarrow> keeps_array t (terminal_print_s s t)"
proof (induction s arbitrary: t)
  case Nil
  then show ?case by (simp add: terminal_print_s_def keeps_array_def)
next
  case (Cons c s)
  from putchar_keeps [OF Cons.prems] have k: "keeps_array t (terminal_putchar_s c t)" .
  then have "keeps_array (terminal_putchar_s c t) (terminal_print_s s (terminal_putchar_s c t))"
    by (intro Cons.IH) (simp add: keeps_array_def)
  with k show ?case by (metis fold_Cons comp_apply keeps_trans terminal_print_s_def)
qed

lemma clear_state:
  "screen_buf (terminal_clear t) r c = (if in_array r c then NUL else screen_buf t r c)"
  "buf_row (terminal_clear t) = 0" "buf_col (terminal_clear t) = 0" "cols (terminal_clear t) = cols t"
proof -
  have "cols (fold (\<lambda>r. fold (\<lambda>c. set_cell r c NUL) [0..MAX_COLS - 1]) [0..MAX_ROWS - 1] t) = cols t"
    using fold_frame [of "\<lambda>r. fold (\<lambda>c. set_cell r c NUL) [0..MAX_COLS - 1]" "[0..MAX_ROWS - 1]" t] by (simp add: fold_frame)
  then show "screen_buf (terminal_clear t) r c = (if in_array r c then NUL else screen_buf t r c)"
    "buf_row (terminal_clear t) = 0" "buf_col (terminal_clear t) = 0" "cols (terminal_clear t) = cols t"
    by (auto simp: terminal_clear_def Let_def fold_blank_rows in_array_def term_consts)
qed

lemma set_grid_state:
  "0 \<le> term_W t \<Longrightarrow> 0 \<le> cols (set_grid t) \<and> cols (set_grid t) \<le> 120"
  "cols (set_grid t) = min 120 (term_W t sdiv 8)"
  "screen_buf (set_grid t) = screen_buf t" "buf_row (set_grid t) = buf_row t" "buf_col (set_grid t) = buf_col t"
  by (simp_all add: set_grid_def Let_def term_consts sdiv_pos_nonneg)

lemma init_state:
  "screen_buf (terminal_init w h t) r c = (if in_array r c then NUL else screen_buf t r c)"
  "buf_row (terminal_init w h t) = 0" "buf_col (terminal_init w h t) = 0"
  "cols (terminal_init w h t) = min 120 (w sdiv 8)"
  by (simp_all add: terminal_init_def Let_def clear_state set_grid_state)

lemma viewport_keeps:
  assumes "grid_ok t" and "0 \<le> w"
  shows "keeps_array t (terminal_set_viewport x y w h t)"
proof -
  define u where "u = set_grid (t\<lparr>origin_x := x, origin_y := y, term_W := w, term_H := h\<rparr>)"
  have u: "screen_buf u = screen_buf t" "buf_row u = buf_row t" "buf_col u = buf_col t" "0 \<le> cols u" "cols u \<le> 120"
    using set_grid_state [of "t\<lparr>origin_x := x, origin_y := y, term_W := w, term_H := h\<rparr>"] assms(2) by (simp_all add: u_def)
  have "keeps_array t (clamp_cursor_to_grid u)"
    using assms(1) u by (simp add: keeps_array_def grid_ok_def clamp_cursor_to_grid_def Let_def term_consts)
  then show ?thesis
    by (simp add: terminal_set_viewport_def keeps_array_def grid_ok_def flip: u_def)
qed

lemma terminal_do_keeps:
  assumes "grid_ok t" and "width_ok op"
  shows "keeps_array t (terminal_do op t)"
proof (cases op)
  case (TPutchar c)
  with putchar_keeps [OF assms(1)] show ?thesis by simp
next
  case (TPrint s)
  with print_keeps [OF assms(1)] show ?thesis by simp
next
  case TClear
  with assms show ?thesis by (simp add: keeps_array_def grid_ok_def clear_state)
next
  case (TViewport x y w h)
  with viewport_keeps assms show ?thesis by simp
qed (use assms in \<open>simp_all add: keeps_array_def grid_ok_def terminal_move_viewport_def terminal_scroll_def
    terminal_tick_def Let_def\<close>)

text \<open>C17: After \<open>terminal_init\<close>, whatever is printed and however the viewport is resized, moved, scrolled and
  cleared (to any width that is not negative), the terminal never writes outside its 64 by 120
  array, and the cursor's row stays inside it; the grid is clamped to the array however large the
  framebuffer is.\<close>

theorem terminal_stays_in_array:
  assumes "0 \<le> width" and "list_all width_ok ops" and "\<not> in_array r c"
  shows "grid_ok (fold terminal_do ops (terminal_init width height t)) \<and>
     screen_buf (fold terminal_do ops (terminal_init width height t)) r c = screen_buf t r c"
proof -
  have "grid_ok u \<Longrightarrow> keeps_array u (fold terminal_do ops u)" for u
    using assms(2)
  proof (induction ops arbitrary: u)
    case Nil
    then show ?case by (simp add: keeps_array_def)
  next
    case (Cons op ops)
    from Cons.prems have k: "keeps_array u (terminal_do op u)" by (intro terminal_do_keeps) simp_all
    moreover from k Cons have "keeps_array (terminal_do op u) (fold terminal_do ops (terminal_do op u))"
      by (simp add: keeps_array_def)
    ultimately show ?case by (simp add: keeps_array_def)
  qed
  moreover have "grid_ok (terminal_init width height t)"
    using sdiv_pos_nonneg [OF assms(1), of 8] by (simp add: grid_ok_def init_state)
  ultimately show ?thesis using assms(3) by (simp add: keeps_array_def init_state)
qed

definition cold_terminal :: terminal where
  "cold_terminal = \<lparr>term_W = 0, term_H = 0, cols = 0, rows = 0, origin_x = 0, origin_y = 0,
     screen_buf = (\<lambda>r c. CHR ''x''), buf_row = 0, buf_col = 0, scroll_top = 0, blink_counter = 0,
     cursor_visible = True, calls = []\<rparr>"

theorem terminal_stays_in_array_witness:
  "screen_buf (fold terminal_do [TPrint (replicate 9000 (CHR ''a'')), TViewport 5 5 100 50, TPutchar (CHR ''b''), TTick]
     (terminal_init 1920 1080 cold_terminal)) 64 0 = CHR ''x''"
  using terminal_stays_in_array [of 1920 "[TPrint (replicate 9000 (CHR ''a'')), TViewport 5 5 100 50, TPutchar (CHR ''b''), TTick]"
      64 0 1080 cold_terminal]
  by (simp add: in_array_def cold_terminal_def del: fold_simps)

section \<open>The lines of text\<close>

text \<open>
  What the terminal promises: a list of lines of at most \<open>n\<close> characters, the last one being written,
  of which the newest 64 are kept.
\<close>

definition push_line :: "string list \<Rightarrow> string list" where
  "push_line ls = (if length ls = 64 then tl ls else ls) @ [[]]"

definition append_char :: "char \<Rightarrow> string list \<Rightarrow> string list" where
  "append_char ch ls = butlast ls @ [last ls @ [ch]]"

definition spec_putchar :: "nat \<Rightarrow> char \<Rightarrow> string list \<Rightarrow> string list" where
  "spec_putchar n ch ls =
     (if ch = CHR 0x0A then push_line ls
      else if ch = CHR 0x08 then butlast ls @ [butlast (last ls)]
      else append_char ch (if length (last ls) \<ge> n then push_line ls else ls))"

definition line :: "terminal \<Rightarrow> int \<Rightarrow> string" where
  "line t r = takeWhile (\<lambda>ch. ch \<noteq> NUL) (map (screen_buf t r) [0..119])"

definition text_lines :: "terminal \<Rightarrow> string list" where
  "text_lines t = map (line t) [0..buf_row t]"

definition text_ok :: "terminal \<Rightarrow> bool" where
  "text_ok t \<longleftrightarrow> grid_ok t \<and> 1 \<le> cols t \<and> buf_col t \<le> cols t \<and>
     (\<forall>r c. buf_row t < r \<longrightarrow> r < 64 \<longrightarrow> 0 \<le> c \<longrightarrow> c < 120 \<longrightarrow> screen_buf t r c = NUL) \<and>
     (\<forall>c. 0 \<le> c \<longrightarrow> c < 120 \<longrightarrow> (screen_buf t (buf_row t) c \<noteq> NUL \<longleftrightarrow> c < buf_col t))"

lemma takeWhile_prefix:
  assumes "\<And>c. 0 \<le> c \<Longrightarrow> c < 120 \<Longrightarrow> f c \<noteq> NUL \<longleftrightarrow> c < k" and "0 \<le> k" and "k \<le> 120"
  shows "takeWhile (\<lambda>ch. ch \<noteq> NUL) (map f [0..119]) = map f [0..k - 1]"
proof (cases "k = 120")
  case True
  have "takeWhile (\<lambda>ch. ch \<noteq> NUL) (map f [0..119]) = map f [0..119]"
    using assms(1) True by (intro takeWhile_eq_all_conv [THEN iffD2]) auto
  with True show ?thesis by simp
next
  case False
  then have k: "k \<le> 119" using assms(3) by simp
  have "[0..119] = [0..k - 1] @ [k..119]" using upto_split1 [of 0 k 119] assms(2) k by simp
  moreover have "[k..119] = k # [k + 1..119]" using k by (simp add: upto_rec1)
  moreover have "takeWhile (\<lambda>ch. ch \<noteq> NUL) (map f [0..k - 1] @ f k # zs) = map f [0..k - 1]" for zs
  proof (subst takeWhile_append2)
    show "x \<noteq> NUL" if "x \<in> set (map f [0..k - 1])" for x
    proof -
      from that obtain c where "x = f c" "0 \<le> c" "c < k" by auto
      with assms(1) [of c] k show ?thesis by simp
    qed
    show "map f [0..k - 1] @ takeWhile (\<lambda>ch. ch \<noteq> NUL) (f k # zs) = map f [0..k - 1]"
      using assms(1) [of k] assms(2) k by simp
  qed
  ultimately show ?thesis by (metis list.simps(9) map_append)
qed

lemma line_current: "text_ok t \<Longrightarrow> line t (buf_row t) = map (screen_buf t (buf_row t)) [0..buf_col t - 1]"
  unfolding line_def by (rule takeWhile_prefix) (auto simp: text_ok_def grid_ok_def)

lemma text_lines_split:
  assumes "text_ok t"
  shows "text_lines t = map (line t) [0..buf_row t - 1] @ [line t (buf_row t)]"
  using assms upto_rec2 [of 0 "buf_row t"] by (simp add: text_lines_def text_ok_def grid_ok_def)

lemma text_lines_facts:
  assumes "text_ok t"
  shows "length (text_lines t) = nat (buf_row t + 1)" and "length (last (text_lines t)) = nat (buf_col t)"
    and "last (text_lines t) = line t (buf_row t)" and "butlast (text_lines t) = map (line t) [0..buf_row t - 1]"
  using line_current [OF assms] assms by (simp_all add: text_lines_split text_ok_def grid_ok_def nat_add_distrib)

lemma line_cong: "(\<And>c. 0 \<le> c \<Longrightarrow> c < 120 \<Longrightarrow> screen_buf t r c = screen_buf u r' c) \<Longrightarrow> line t r = line u r'"
  unfolding line_def by (rule arg_cong [where f = "takeWhile _"], rule map_cong) auto

lemma scroll_down_text:
  assumes "text_ok t"
  shows "text_ok (scroll_down t)" and "text_lines (scroll_down t) = push_line (text_lines t)"
proof -
  have g: "grid_ok t" "1 \<le> cols t" using assms by (auto simp: text_ok_def)
  show ok: "text_ok (scroll_down t)"
    using assms by (auto simp: text_ok_def grid_ok_def scroll_down_state in_array_def)
  have cur: "line (scroll_down t) (buf_row (scroll_down t)) = []"
    unfolding line_current [OF ok] by (simp add: scroll_down_state)
  show "text_lines (scroll_down t) = push_line (text_lines t)"
  proof (cases "buf_row t = 63")
    case True
    have "line (scroll_down t) r = line t (r + 1)" if "0 \<le> r" "r < 63" for r
      using that True by (intro line_cong) (simp add: scroll_down_state in_array_def)
    then have "map (line (scroll_down t)) [0..62] = map (line t \<circ> (\<lambda>r. r + 1)) [0..62]" by (intro map_cong) auto
    also have "\<dots> = map (line t) (map (\<lambda>r. r + 1) [0..62])" by simp
    also have "map (\<lambda>r :: int. r + 1) [0..62] = [1..63]" by code_simp
    also have "map (line t) [1..63] = tl (text_lines t)" using True by (simp add: text_lines_def upto_rec1 [of 0])
    finally have "map (line (scroll_down t)) [0..62] = tl (text_lines t)" .
    moreover have "length (text_lines t) = 64" using True text_lines_facts [OF assms] by simp
    ultimately show ?thesis
      using cur text_lines_split [OF ok] True by (simp add: push_line_def scroll_down_state)
  next
    case False
    then have b: "buf_row (scroll_down t) = buf_row t + 1" using g by (simp add: scroll_down_state grid_ok_def)
    have "map (line (scroll_down t)) [0..buf_row t] = text_lines t"
      unfolding text_lines_def using False g by (intro map_cong line_cong) (auto simp: scroll_down_state grid_ok_def)
    moreover have "length (text_lines t) \<noteq> 64"
      using False g text_lines_facts(1) [OF assms] by (simp add: grid_ok_def)
    ultimately show ?thesis
      using cur text_lines_split [OF ok] b by (simp add: push_line_def)
  qed
qed

lemma putchar_text:
  assumes "text_ok t" and "ch \<noteq> NUL"
  shows "text_ok (terminal_putchar_s ch t) \<and>
     text_lines (terminal_putchar_s ch t) = spec_putchar (nat (cols t)) ch (text_lines t) \<and>
     cols (terminal_putchar_s ch t) = cols t"
proof -
  have g: "grid_ok t" "1 \<le> cols t" using assms by (auto simp: text_ok_def)
  consider "ch = CHR 0x0A" | "ch = CHR 0x08" | "ch \<noteq> CHR 0x0A" "ch \<noteq> CHR 0x08" by blast
  then show ?thesis
  proof cases
    case 1
    note s = scroll_down_text [OF assms(1)]
    have "text_ok (terminal_putchar_s ch t)" using s(1) 1 by (simp add: text_ok_def grid_ok_def newline_state)
    moreover have "text_lines (terminal_putchar_s ch t) = text_lines (scroll_down t)"
      using 1 by (simp add: text_lines_def line_def newline_state)
    ultimately show ?thesis using s(2) 1 by (simp add: spec_putchar_def newline_state scroll_down_state)
  next
    case 2
    note bs = backspace_state [of t]
    have ok: "text_ok (terminal_putchar_s ch t)"
      using assms(1) 2 by (auto simp: text_ok_def grid_ok_def bs)
    have l: "line (terminal_putchar_s ch t) (buf_row t) = butlast (line t (buf_row t))"
    proof (cases "0 < buf_col t")
      case True
      have "line (terminal_putchar_s ch t) (buf_row t) = map (screen_buf (terminal_putchar_s ch t) (buf_row t)) [0..buf_col t - 2]"
        using line_current [OF ok] 2 True by (simp add: bs)
      also have "\<dots> = map (screen_buf t (buf_row t)) [0..buf_col t - 2]"
        using 2 by (intro map_cong) (auto simp: bs)
      also have "\<dots> = butlast (line t (buf_row t))"
        using line_current [OF assms(1)] True upto_rec2 [of 0 "buf_col t - 1"] by simp
      finally show ?thesis .
    next
      case False
      then have "terminal_putchar_s ch t = t" using 2 by (simp add: terminal_putchar_s_def)
      moreover have "line t (buf_row t) = []" using False line_current [OF assms(1)] by simp
      ultimately show ?thesis by simp
    qed
    have "map (line (terminal_putchar_s ch t)) [0..buf_row t - 1] = map (line t) [0..buf_row t - 1]"
      using 2 by (intro map_cong line_cong) (auto simp: bs)
    then show ?thesis
      using ok l text_lines_split [OF ok] text_lines_facts [OF assms(1)] 2 by (simp add: spec_putchar_def bs)
  next
    case 3
    define u where "u = (if buf_col t \<ge> cols t then scroll_down t else t)"
    note p = putchar_state [OF 3, where t = t, folded u_def]
    have uok: "text_ok u" using assms(1) scroll_down_text by (simp add: u_def)
    have uc: "cols u = cols t" "buf_col u < cols t" using g assms(1)
      by (auto simp: u_def scroll_down_state text_ok_def)
    have ul: "text_lines u = (if length (last (text_lines t)) \<ge> nat (cols t) then push_line (text_lines t) else text_lines t)"
      using scroll_down_text(2) [OF assms(1)] text_lines_facts(2) [OF assms(1)] g assms(1)
      by (auto simp: u_def text_ok_def grid_ok_def)
    have ok: "text_ok (terminal_putchar_s ch t)"
      using uok uc assms(2) by (auto simp: text_ok_def grid_ok_def p)
    have c0: "0 \<le> buf_col u" using uok by (simp add: text_ok_def grid_ok_def)
    have "line (terminal_putchar_s ch t) (buf_row u) = map (screen_buf (terminal_putchar_s ch t) (buf_row u)) [0..buf_col u]"
      using line_current [OF ok] by (simp add: p)
    also have "\<dots> = map (screen_buf (terminal_putchar_s ch t) (buf_row u)) [0..buf_col u - 1] @ [ch]"
      using upto_rec2 [OF c0] by (simp add: p)
    also have "map (screen_buf (terminal_putchar_s ch t) (buf_row u)) [0..buf_col u - 1] = line u (buf_row u)"
      unfolding line_current [OF uok] by (rule map_cong) (auto simp: p)
    finally have l: "line (terminal_putchar_s ch t) (buf_row u) = line u (buf_row u) @ [ch]" .
    have "map (line (terminal_putchar_s ch t)) [0..buf_row u - 1] = map (line u) [0..buf_row u - 1]"
      by (intro map_cong line_cong) (auto simp: p)
    then have "text_lines (terminal_putchar_s ch t) = append_char ch (text_lines u)"
      using l text_lines_split [OF ok] text_lines_facts [OF uok] by (simp add: append_char_def p)
    then show ?thesis using ok 3 ul uc by (simp add: spec_putchar_def p)
  qed
qed

lemma init_text: "8 \<le> w \<Longrightarrow> text_ok (terminal_init w h t) \<and> text_lines (terminal_init w h t) = [[]]"
proof -
  assume w: "8 \<le> w"
  then have "1 \<le> w div 8" by simp
  then have ok: "text_ok (terminal_init w h t)"
    using w by (auto simp: text_ok_def grid_ok_def init_state in_array_def sdiv_nonneg)
  then show ?thesis using text_lines_split [OF ok] line_current [OF ok] by (simp add: init_state)
qed

text \<open>C15: The terminal shows text: on a screen at least one character wide, printing a string of non-zero
  characters leaves, row by row, the lines that an abstract terminal of the same width holds: lines
  are broken at the right edge and at newlines, a backspace takes back the last character of the
  current line, and once there are 64 lines the oldest makes room.\<close>

theorem terminal_refines_lines:
  assumes "8 \<le> width" and "list_all (\<lambda>ch. ch \<noteq> NUL) s"
  shows "text_lines (terminal_print_s s (terminal_init width height t)) =
     fold (spec_putchar (nat (min 120 (width div 8)))) s [[]]"
proof -
  have "text_ok u \<Longrightarrow> text_lines (fold terminal_putchar_s s u) = fold (spec_putchar (nat (cols u))) s (text_lines u)" for u
    using assms(2)
  proof (induction s arbitrary: u)
    case Nil
    then show ?case by simp
  next
    case (Cons ch s)
    with putchar_text [OF Cons.prems(1), of ch] show ?case by simp
  qed
  with init_text [OF assms(1), of height t] assms(1) show ?thesis
    by (simp add: terminal_print_s_def init_state sdiv_nonneg)
qed

theorem terminal_refines_lines_witness:
  "text_lines (terminal_print_s (''abc'' @ [CHR 0x08, CHR 0x0A] @ ''hello'') (terminal_init 32 100 cold_terminal)) =
     [''ab'', ''hell'', ''o'']"
proof -
  have h: "(8 :: int) \<le> 32" "list_all (\<lambda>ch. ch \<noteq> NUL) (''abc'' @ [CHR 0x08, CHR 0x0A] @ ''hello'')" by simp_all
  have e: "fold (spec_putchar (nat (min 120 (32 div 8)))) (''abc'' @ [CHR 0x08, CHR 0x0A] @ ''hello'') [[]] = [''ab'', ''hell'', ''o'']"
    by code_simp
  show ?thesis using terminal_refines_lines [OF h, of 100 cold_terminal] unfolding e .
qed

end
