(* ===== verification/Ports.thy ===== *)
theory Ports
  imports Prelude
begin

text \<open>
  Access to the I/O ports (\<open>src/io.h\<close>) as the drivers use it, the
  remapping of the interrupt controllers (\<open>src/pic.c\<close>) and the programming of the interval timer
  (\<open>timer_init\<close> of \<open>src/drivers/timer/timer.c\<close>). The state is the trace of the accesses so far. What
  a device answers is the device's: a \<open>device\<close> gives the byte, and a \<open>word_device\<close> the word, read from a port
  after a trace, and is an argument of every operation that reads.
\<close>

unbundle bit_operations_syntax

datatype io_event = Out8 u16 u8 | In8 u16 u8 | Out16 u16 u16 | In16 u16 u16 | IoWait

type_synonym device = "io_event list \<Rightarrow> u16 \<Rightarrow> u8"
type_synonym word_device = "io_event list \<Rightarrow> u16 \<Rightarrow> u16"

record ports =
  trace :: "io_event list"

definition outb :: "u16 \<Rightarrow> u8 \<Rightarrow> 'a ports_scheme \<Rightarrow> 'a ports_scheme" where
  "outb port v s = s\<lparr>trace := trace s @ [Out8 port v]\<rparr>"

definition inb :: "device \<Rightarrow> u16 \<Rightarrow> 'a ports_scheme \<Rightarrow> u8 \<times> 'a ports_scheme" where
  "inb dev port s =
     (let v = dev (trace s) port in (v, s\<lparr>trace := trace s @ [In8 port v]\<rparr>))"

definition outw :: "u16 \<Rightarrow> u16 \<Rightarrow> 'a ports_scheme \<Rightarrow> 'a ports_scheme" where
  "outw port v s = s\<lparr>trace := trace s @ [Out16 port v]\<rparr>"

definition inw :: "word_device \<Rightarrow> u16 \<Rightarrow> 'a ports_scheme \<Rightarrow> u16 \<times> 'a ports_scheme" where
  "inw dev port s =
     (let v = dev (trace s) port in (v, s\<lparr>trace := trace s @ [In16 port v]\<rparr>))"

definition io_wait :: "'a ports_scheme \<Rightarrow> 'a ports_scheme" where
  "io_wait s = s\<lparr>trace := trace s @ [IoWait]\<rparr>"

text \<open>The bytes that the byte accesses of a trace send to one port, in order.\<close>

fun sent_to :: "u16 \<Rightarrow> io_event list \<Rightarrow> u8 list" where
  "sent_to port [] = []"
| "sent_to port (Out8 p v # es) = (if p = port then v # sent_to port es else sent_to port es)"
| "sent_to port (In8 p v # es) = sent_to port es"
| "sent_to port (Out16 p w # es) = sent_to port es"
| "sent_to port (In16 p w # es) = sent_to port es"
| "sent_to port (IoWait # es) = sent_to port es"

lemma sent_to_append [simp]: "sent_to port (es @ fs) = sent_to port es @ sent_to port fs"
  by (induction port es rule: sent_to.induct) auto

lemma trace_outb [simp]: "trace (outb port v s) = trace s @ [Out8 port v]"
  by (simp add: outb_def)

lemma trace_io_wait [simp]: "trace (io_wait s) = trace s @ [IoWait]"
  by (simp add: io_wait_def)

lemma inb_pair:
  "inb dev port s = (dev (trace s) port, s\<lparr>trace := trace s @ [In8 port (dev (trace s) port)]\<rparr>)"
  by (simp add: inb_def Let_def)

section \<open>The interrupt controllers\<close>

definition PIC1_CMD :: u16 where "PIC1_CMD = 0x20"
definition PIC1_DATA :: u16 where "PIC1_DATA = 0x21"
definition PIC2_CMD :: u16 where "PIC2_CMD = 0xA0"
definition PIC2_DATA :: u16 where "PIC2_DATA = 0xA1"
definition PIC_EOI :: u8 where "PIC_EOI = 0x20"
definition IRQ_BASE :: u8 where "IRQ_BASE = 0x20"

lemmas pic_ports = PIC1_CMD_def PIC1_DATA_def PIC2_CMD_def PIC2_DATA_def PIC_EOI_def IRQ_BASE_def

definition pic_init :: "'a ports_scheme \<Rightarrow> 'a ports_scheme" where
  "pic_init s =
     (let s = io_wait (outb PIC1_CMD 0x11 s);
          s = io_wait (outb PIC2_CMD 0x11 s);
          s = io_wait (outb PIC1_DATA IRQ_BASE s);
          s = io_wait (outb PIC2_DATA (IRQ_BASE + 8) s);
          s = io_wait (outb PIC1_DATA 0x04 s);
          s = io_wait (outb PIC2_DATA 0x02 s);
          s = io_wait (outb PIC1_DATA 0x01 s);
          s = io_wait (outb PIC2_DATA 0x01 s);
          s = outb PIC1_DATA 0xFF s
      in outb PIC2_DATA 0xFF s)"

definition pic_send_eoi :: "u8 \<Rightarrow> 'a ports_scheme \<Rightarrow> 'a ports_scheme" where
  "pic_send_eoi irq s =
     (let s = (if irq \<ge> 8 then outb PIC2_CMD PIC_EOI s else s) in outb PIC1_CMD PIC_EOI s)"

text \<open>
  An 8259 as its documentation has it: a command byte with bit 4 set (ICW1) starts the
  initialisation, after which the next data bytes are the vector base, the cascade wiring and, when
  bit 0 of ICW1 asked for it, the mode; any later data byte is the interrupt mask.
\<close>

datatype pic_phase = PicReady | PicBase bool | PicWiring bool | PicMode

record pic_chip =
  pic_state :: pic_phase
  vector_base :: u8
  cascade :: u8
  irq_mask :: u8

fun pic_command :: "u8 \<Rightarrow> pic_chip \<Rightarrow> pic_chip" where
  "pic_command v c = (if bit v 4 then c\<lparr>pic_state := PicBase (bit v 0), irq_mask := 0\<rparr> else c)"

fun pic_data :: "u8 \<Rightarrow> pic_chip \<Rightarrow> pic_chip" where
  "pic_data v c =
     (case pic_state c of
        PicReady \<Rightarrow> c\<lparr>irq_mask := v\<rparr>
      | PicBase four \<Rightarrow> c\<lparr>vector_base := v, pic_state := PicWiring four\<rparr>
      | PicWiring four \<Rightarrow> c\<lparr>cascade := v, pic_state := (if four then PicMode else PicReady)\<rparr>
      | PicMode \<Rightarrow> c\<lparr>pic_state := PicReady\<rparr>)"

fun pic_chip_run :: "u16 \<Rightarrow> u16 \<Rightarrow> io_event list \<Rightarrow> pic_chip \<Rightarrow> pic_chip" where
  "pic_chip_run cmd data [] c = c"
| "pic_chip_run cmd data (Out8 p v # es) c =
     pic_chip_run cmd data es
       (if p = cmd then pic_command v c else if p = data then pic_data v c else c)"
| "pic_chip_run cmd data (In8 p v # es) c = pic_chip_run cmd data es c"
| "pic_chip_run cmd data (Out16 p w # es) c = pic_chip_run cmd data es c"
| "pic_chip_run cmd data (In16 p w # es) c = pic_chip_run cmd data es c"
| "pic_chip_run cmd data (IoWait # es) c = pic_chip_run cmd data es c"

lemma pic_chip_run_append [simp]:
  "pic_chip_run cmd data (es @ fs) c = pic_chip_run cmd data fs (pic_chip_run cmd data es c)"
  by (induction cmd data es c rule: pic_chip_run.induct) auto

lemma trace_pic_init:
  "trace (pic_init s) = trace s @
     [Out8 0x20 0x11, IoWait, Out8 0xA0 0x11, IoWait, Out8 0x21 0x20, IoWait, Out8 0xA1 0x28, IoWait,
      Out8 0x21 0x04, IoWait, Out8 0xA1 0x02, IoWait, Out8 0x21 0x01, IoWait, Out8 0xA1 0x01, IoWait,
      Out8 0x21 0xFF, Out8 0xA1 0xFF]"
  by (simp add: pic_init_def Let_def pic_ports)

section \<open>The interval timer\<close>

definition PIT_COMMAND :: u16 where "PIT_COMMAND = 0x43"
definition PIT_CHANNEL0 :: u16 where "PIT_CHANNEL0 = 0x40"
definition PIT_BASE_FREQ :: u32 where "PIT_BASE_FREQ = 1193182"

text \<open>A frequency of 0 is a division by zero: \<open>None\<close>.\<close>

definition timer_init :: "device \<Rightarrow> u32 \<Rightarrow> 'a ports_scheme \<Rightarrow> 'a ports_scheme option" where
  "timer_init dev frequency s =
     (if frequency = 0 then None
      else
        (let divisor = ucast (PIT_BASE_FREQ div frequency) :: u16;
             s = outb PIT_COMMAND 0x36 s;
             s = outb PIT_CHANNEL0 (ucast (divisor AND 0xFF)) s;
             s = outb PIT_CHANNEL0 (ucast (drop_bit 8 divisor)) s;
             (msk, s) = inb dev PIC1_DATA s
         in Some (outb PIC1_DATA (msk AND NOT 1) s)))"

end
