(* ===== verification/Framebuffer.thy ===== *)
theory Framebuffer
  imports Machine Kmalloc Multiboot Font8x8 Ports
begin

text \<open>
  The pixel operations of \<open>src/framebuffer.c\<close> on the machine's memory: with a back buffer, pixels are
  32-bit words of \<open>draw_buf\<close>, and \<open>fb_present\<close> copies what changed to the device; without one they are
  written to the device, \<open>fb_bpp / 8\<close> bytes each. Coordinates are C \<open>int\<close>s; the conversions to
  unsigned types are written out (\<open>of_int\<close>).
\<close>

unbundle bit_operations_syntax

record color =
  color_r :: u8
  color_g :: u8
  color_b :: u8

definition RGB :: "u8 \<Rightarrow> u8 \<Rightarrow> u8 \<Rightarrow> color" where
  "RGB r g b = \<lparr>color_r = r, color_g = g, color_b = b\<rparr>"

definition fb_pixel_value :: "machine \<Rightarrow> color \<Rightarrow> u32" where
  "fb_pixel_value m c =
     push_bit (unat (r_pos m)) (ucast (color_r c)) OR push_bit (unat (g_pos m)) (ucast (color_g c)) OR
     push_bit (unat (b_pos m)) (ucast (color_b c))"

definition fb_color :: "machine \<Rightarrow> u32 \<Rightarrow> color" where
  "fb_color m px =
     RGB (ucast (drop_bit (unat (r_pos m)) px AND 0xFF)) (ucast (drop_bit (unat (g_pos m)) px AND 0xFF))
       (ucast (drop_bit (unat (b_pos m)) px AND 0xFF))"

definition poke_bytes :: "u64 \<Rightarrow> u8 list \<Rightarrow> machine \<Rightarrow> machine" where
  "poke_bytes a bs m = m\<lparr>mem := store_bytes (mem m) a bs\<rparr>"

text \<open>The fields of the framebuffer tag, by their offsets.\<close>

definition fb_init :: "u64 \<Rightarrow> machine \<Rightarrow> (int \<times> machine) option" where
  "fb_init mb2_info m =
     (case mb2_find_tag (mem m) mb2_info MB2_TAG_FB of
        None \<Rightarrow> None
      | Some fb \<Rightarrow>
          if fb = 0 then Some (-1, m)
          else if mem m (fb + 29) \<noteq> 1 then Some (-2, m)
          else if mem m (fb + 28) \<noteq> 32 \<and> mem m (fb + 28) \<noteq> 24 then Some (-3, m)
          else if load32 (mem m) (fb + 20) = 0 \<or> load32 (mem m) (fb + 24) = 0 then Some (-4, m)
          else if load32 (mem m) (fb + 16) = 0 then Some (-5, m)
          else Some (0, m\<lparr>fb_addr := load64 (mem m) (fb + 8), fb_pitch := load32 (mem m) (fb + 16),
                 fb_w := load32 (mem m) (fb + 20), fb_h := load32 (mem m) (fb + 24), fb_bpp := mem m (fb + 28),
                 r_pos := mem m (fb + 32), g_pos := mem m (fb + 34), b_pos := mem m (fb + 36)\<rparr>))"

text \<open>\<open>draw_buf[i] = 0; display_buf[i] = 0;\<close> for the first \<open>n\<close> indices.\<close>

definition clear_buffers :: "nat \<Rightarrow> machine \<Rightarrow> machine" where
  "clear_buffers n m =
     fold (\<lambda>i m. poke_bytes (display_buf m + 4 * of_nat i) (le_bytes 4 (0 :: u32))
                   (poke_bytes (draw_buf m + 4 * of_nat i) (le_bytes 4 (0 :: u32)) m)) [0..<n] m"

definition fb_enable_backbuffer :: "machine \<Rightarrow> machine" where
  "fb_enable_backbuffer m =
     (if draw_buf m \<noteq> 0 \<and> display_buf m \<noteq> 0 then m
      else
        (let tot = ucast (fb_w m) * ucast (fb_h m) :: u64;
             bytes = tot * 4 in
         if tot = 0 \<or> bytes = 0 then m
         else
           (let (new_draw, m) = kmalloc bytes m;
                (new_display, m) = kmalloc bytes m in
            if new_draw = 0 \<or> new_display = 0 then m\<lparr>draw_buf := 0, display_buf := 0\<rparr>
            else
              (let m = m\<lparr>draw_buf := new_draw, display_buf := new_display\<rparr>
               in (clear_buffers (unat tot) m)\<lparr>fb_force_full := True\<rparr>))))"

definition fb_width :: "machine \<Rightarrow> int" where
  "fb_width m = sint (fb_w m)"

definition fb_height :: "machine \<Rightarrow> int" where
  "fb_height m = sint (fb_h m)"

text \<open>The two polling loops of the retrace bit; a retrace that never comes is \<open>None\<close>.\<close>

partial_function (option) wait_retrace :: "device \<Rightarrow> bool \<Rightarrow> ports \<Rightarrow> ports option" where
  "wait_retrace dev while_set s =
     (let (v, s) = inb dev 0x3DA s in
      if (v AND 0x08 \<noteq> 0) = while_set then wait_retrace dev while_set s else Some s)"

definition fb_wait_vsync :: "device \<Rightarrow> ports \<Rightarrow> ports option" where
  "fb_wait_vsync dev s =
     (case wait_retrace dev True s of None \<Rightarrow> None | Some s \<Rightarrow> wait_retrace dev False s)"

section \<open>Pixels\<close>

definition off_screen :: "machine \<Rightarrow> int \<Rightarrow> int \<Rightarrow> bool" where
  "off_screen m x y \<longleftrightarrow> (of_int x :: u32) \<ge> fb_w m \<or> (of_int y :: u32) \<ge> fb_h m"

definition draw_address :: "machine \<Rightarrow> int \<Rightarrow> int \<Rightarrow> u64" where
  "draw_address m x y = draw_buf m + 4 * (of_int y * ucast (fb_w m) + of_int x)"

definition device_address :: "machine \<Rightarrow> int \<Rightarrow> int \<Rightarrow> u64" where
  "device_address m x y = fb_addr m + of_int y * ucast (fb_pitch m) + of_int x * ucast (fb_bpp m div 8)"

definition fb_put_pixel :: "int \<Rightarrow> int \<Rightarrow> color \<Rightarrow> machine \<Rightarrow> machine" where
  "fb_put_pixel x y c m =
     (if off_screen m x y then m
      else
        (let px = fb_pixel_value m c in
         if draw_buf m \<noteq> 0 then poke_bytes (draw_address m x y) (le_bytes 4 px) m
         else poke_bytes (device_address m x y) (le_bytes (unat (fb_bpp m div 8)) px) m))"

definition fb_get_pixel :: "int \<Rightarrow> int \<Rightarrow> machine \<Rightarrow> color" where
  "fb_get_pixel x y m =
     (if off_screen m x y then RGB 0 0 0
      else if draw_buf m \<noteq> 0 then fb_color m (load32 (mem m) (draw_address m x y))
      else fb_color m (le_word (load_bytes (mem m) (device_address m x y) (unat (fb_bpp m div 8)))))"

section \<open>Shapes and text\<close>

definition fb_fill_rect :: "int \<Rightarrow> int \<Rightarrow> int \<Rightarrow> int \<Rightarrow> color \<Rightarrow> machine \<Rightarrow> machine" where
  "fb_fill_rect x y w h c m =
     (if w \<le> 0 \<or> h \<le> 0 then m
      else fold (\<lambda>dy. fold (\<lambda>dx. fb_put_pixel (x + dx) (y + dy) c) [0..w - 1]) [0..h - 1] m)"

definition fb_clear :: "color \<Rightarrow> machine \<Rightarrow> machine" where
  "fb_clear c m =
     (let px = fb_pixel_value m c in
      if draw_buf m \<noteq> 0 then
        fold (\<lambda>i m. poke_bytes (draw_buf m + 4 * of_nat i) (le_bytes 4 px) m)
          [0..<unat (ucast (fb_w m) * ucast (fb_h m) :: u64)] m
      else
        fold (\<lambda>y. fold (\<lambda>x. fb_put_pixel (int x) (int y) c) [0..<unat (fb_w m)]) [0..<unat (fb_h m)] m)"

text \<open>The image is a list of pixels, or null (\<open>None\<close>).\<close>

definition fb_draw_image :: "int \<Rightarrow> int \<Rightarrow> int \<Rightarrow> int \<Rightarrow> color list option \<Rightarrow> machine \<Rightarrow> machine" where
  "fb_draw_image x y w h pixels m =
     (case pixels of
        None \<Rightarrow> m
      | Some ps \<Rightarrow>
          if w \<le> 0 \<or> h \<le> 0 then m
          else fold (\<lambda>dy. fold (\<lambda>dx. fb_put_pixel (x + dx) (y + dy) (ps ! nat (dy * w + dx))) [0..w - 1])
                 [0..h - 1] m)"

definition glyph_of :: "char \<Rightarrow> u8 list" where
  "glyph_of ch = (let idx = of_char ch :: nat in font8x8_basic ! (if idx < 32 \<or> idx > 127 then of_char (CHR ''?'') else idx))"

definition glyph_bit :: "u8 list \<Rightarrow> int \<Rightarrow> int \<Rightarrow> bool" where
  "glyph_bit glyph row col \<longleftrightarrow> bit (glyph ! nat row) (nat col)"

definition fb_draw_char :: "int \<Rightarrow> int \<Rightarrow> char \<Rightarrow> color \<Rightarrow> color \<Rightarrow> machine \<Rightarrow> machine" where
  "fb_draw_char x y ch fg bg m =
     (let glyph = glyph_of ch in
      fold (\<lambda>row. fold (\<lambda>col. fb_put_pixel (x + col) (y + row) (if glyph_bit glyph row col then fg else bg)) [0..7])
        [0..7] m)"

fun draw_chars :: "(int \<Rightarrow> char \<Rightarrow> machine \<Rightarrow> machine) \<Rightarrow> int \<Rightarrow> string \<Rightarrow> machine \<Rightarrow> machine" where
  "draw_chars draw i [] m = m"
| "draw_chars draw i (c # s) m = draw_chars draw (i + 1) s (draw i c m)"

definition fb_draw_string :: "int \<Rightarrow> int \<Rightarrow> string option \<Rightarrow> color \<Rightarrow> color \<Rightarrow> machine \<Rightarrow> machine" where
  "fb_draw_string x y s fg bg m =
     (case s of None \<Rightarrow> m | Some s \<Rightarrow> draw_chars (\<lambda>i c. fb_draw_char (x + i * 8) y c fg bg) 0 s m)"

text \<open>The digits of an \<open>int\<close>, as both number printers build them.\<close>

definition int_text :: "int \<Rightarrow> string" where
  "int_text n =
     (let u = (if n < 0 then (of_int (- n) :: u32) else of_int n);
          digits = (if u = 0 then ''0'' else decimal_loop (unat u) [])
      in if n < 0 then CHR ''-'' # digits else digits)"

definition fb_draw_int :: "int \<Rightarrow> int \<Rightarrow> int \<Rightarrow> color \<Rightarrow> color \<Rightarrow> machine \<Rightarrow> machine" where
  "fb_draw_int x y n fg bg m = fb_draw_string x y (Some (int_text n)) fg bg m"

definition fb_draw_char_ex ::
  "int \<Rightarrow> int \<Rightarrow> char \<Rightarrow> color \<Rightarrow> color \<Rightarrow> int \<Rightarrow> bool \<Rightarrow> machine \<Rightarrow> machine" where
  "fb_draw_char_ex x y ch fg bg scale transparent m =
     (let scale = (if scale < 1 then 1 else scale);
          glyph = glyph_of ch in
      fold (\<lambda>row. fold (\<lambda>col m.
          (let on = glyph_bit glyph row col in
           if \<not> on \<and> transparent then m
           else fold (\<lambda>sy. fold (\<lambda>sx. fb_put_pixel (x + col * scale + sx) (y + row * scale + sy) (if on then fg else bg))
                  [0..scale - 1]) [0..scale - 1] m)) [0..7]) [0..7] m)"

definition fb_draw_string_ex ::
  "int \<Rightarrow> int \<Rightarrow> string option \<Rightarrow> color \<Rightarrow> color \<Rightarrow> int \<Rightarrow> bool \<Rightarrow> machine \<Rightarrow> machine" where
  "fb_draw_string_ex x y s fg bg scale transparent m =
     (case s of None \<Rightarrow> m
      | Some s \<Rightarrow>
          (let scale = (if scale < 1 then 1 else scale); advance = 8 * scale in
           draw_chars (\<lambda>i c. fb_draw_char_ex (x + i * advance) y c fg bg scale transparent) 0 s m))"

definition fb_draw_int_ex ::
  "int \<Rightarrow> int \<Rightarrow> int \<Rightarrow> color \<Rightarrow> color \<Rightarrow> int \<Rightarrow> bool \<Rightarrow> machine \<Rightarrow> machine" where
  "fb_draw_int_ex x y n fg bg scale transparent m =
     fb_draw_string_ex x y (Some (int_text n)) fg bg scale transparent m"

definition fb_text_width :: "string option \<Rightarrow> int \<Rightarrow> int" where
  "fb_text_width s scale =
     (case s of None \<Rightarrow> 0 | Some s \<Rightarrow> if scale < 1 then 0 else int (length s) * 8 * scale)"

section \<open>Presenting the back buffer\<close>

definition display_address :: "machine \<Rightarrow> int \<Rightarrow> int \<Rightarrow> u64" where
  "display_address m x y = display_buf m + 4 * (of_int y * ucast (fb_w m) + of_int x)"

definition blit_pixel :: "int \<Rightarrow> int \<Rightarrow> machine \<Rightarrow> machine" where
  "blit_pixel col row m =
     (let src = load32 (mem m) (draw_address m col row) in
      if fb_force_full m \<or> src \<noteq> load32 (mem m) (display_address m col row) then
        poke_bytes (display_address m col row) (le_bytes 4 src)
          (poke_bytes (device_address m col row) (le_bytes (if fb_bpp m = 32 then 4 else unat (fb_bpp m div 8)) src) m)
      else m)"

definition blit_rect :: "int \<Rightarrow> int \<Rightarrow> int \<Rightarrow> int \<Rightarrow> machine \<Rightarrow> machine" where
  "blit_rect x y w h m =
     (if draw_buf m = 0 \<or> display_buf m = 0 \<or> fb_addr m = 0 then m
      else
        (let (w, x) = (if x < 0 then (w + x, 0) else (w, x));
             (h, y) = (if y < 0 then (h + y, 0) else (h, y)) in
         if x \<ge> sint (fb_w m) \<or> y \<ge> sint (fb_h m) then m
         else
           (let w = (if x + w > sint (fb_w m) then sint (fb_w m) - x else w);
                h = (if y + h > sint (fb_h m) then sint (fb_h m) - y else h) in
            if w \<le> 0 \<or> h \<le> 0 then m
            else fold (\<lambda>row. fold (\<lambda>col. blit_pixel (x + col) row) [0..w - 1]) [y..y + h - 1] m)))"

type_synonym fb_rect = "int \<times> int \<times> int \<times> int"

definition fb_present_rects :: "fb_rect list option \<Rightarrow> int \<Rightarrow> machine \<Rightarrow> machine" where
  "fb_present_rects rects count m =
     (case rects of
        None \<Rightarrow> m
      | Some rs \<Rightarrow>
          if draw_buf m = 0 \<or> display_buf m = 0 \<or> count \<le> 0 then m
          else (fold (\<lambda>(x, y, w, h). blit_rect x y w h) (take (nat count) rs) m)\<lparr>fb_force_full := False\<rparr>)"

definition fb_present_s :: "machine \<Rightarrow> machine" where
  "fb_present_s m =
     (if draw_buf m = 0 \<or> display_buf m = 0 then m
      else fb_present_rects (Some [(0, 0, sint (fb_w m), sint (fb_h m))]) 1 m)"

section \<open>Surfaces\<close>

text \<open>
  Where a pixel of the surface being drawn on lies and how many bytes it takes, and the conditions under which
  distinct pixels do not share bytes: rows fit in the stride and the surface in the address space.
\<close>

definition pixel_address :: "machine \<Rightarrow> int \<Rightarrow> int \<Rightarrow> u64" where
  "pixel_address m x y = (if draw_buf m \<noteq> 0 then draw_address m x y else device_address m x y)"

definition pixel_bytes :: "machine \<Rightarrow> nat" where
  "pixel_bytes m = (if draw_buf m \<noteq> 0 then 4 else unat (fb_bpp m div 8))"

definition raw_pixel :: "machine \<Rightarrow> int \<Rightarrow> int \<Rightarrow> u8 list" where
  "raw_pixel m x y = load_bytes (mem m) (pixel_address m x y) (pixel_bytes m)"

definition surface_base :: "machine \<Rightarrow> u64" where
  "surface_base m = (if draw_buf m \<noteq> 0 then draw_buf m else fb_addr m)"

definition stride :: "machine \<Rightarrow> nat" where
  "stride m = (if draw_buf m \<noteq> 0 then 4 * unat (fb_w m) else unat (fb_pitch m))"

definition surface_ok :: "machine \<Rightarrow> bool" where
  "surface_ok m \<longleftrightarrow>
     unat (fb_w m) < 2 ^ 31 \<and> unat (fb_h m) < 2 ^ 31 \<and> 3 \<le> pixel_bytes m \<and> pixel_bytes m \<le> 4 \<and>
     pixel_bytes m * unat (fb_w m) \<le> stride m \<and> unat (surface_base m) + stride m * unat (fb_h m) \<le> 2 ^ 64"

definition visible :: "machine \<Rightarrow> int \<Rightarrow> int \<Rightarrow> bool" where
  "visible m x y \<longleftrightarrow> 0 \<le> x \<and> nat x < unat (fb_w m) \<and> 0 \<le> y \<and> nat y < unat (fb_h m)"

text \<open>The range of a C \<open>int\<close>.\<close>

definition c_int :: "int \<Rightarrow> bool" where
  "c_int x \<longleftrightarrow> - (2 ^ 31) \<le> x \<and> x < 2 ^ 31"

lemma u32_ge_c_int:
  assumes "c_int x" and "unat (w :: u32) < 2 ^ 31"
  shows "w \<le> (of_int x :: u32) \<longleftrightarrow> \<not> (0 \<le> x \<and> nat x < unat w)"
proof -
  have u: "uint (of_int x :: u32) = x mod 2 ^ 32" by (simp add: uint_word_of_int)
  have i: "uint w = int (unat w)" by simp
  have "unat w < 2147483648" using assms(2) by simp
  then have w: "uint w < 2147483648" unfolding i by linarith
  have n: "nat x < unat w \<longleftrightarrow> x < uint w" if "0 \<le> x" using that unfolding i by linarith
  show ?thesis
  proof (cases "0 \<le> x")
    case True
    then have "x mod 2 ^ 32 = x" using assms(1) by (intro mod_pos_pos_trivial) (simp_all add: c_int_def)
    then have "w \<le> (of_int x :: u32) \<longleftrightarrow> uint w \<le> x" by (simp only: word_le_def u)
    with True n show ?thesis by auto
  next
    case False
    have "(x + 2 ^ 32) mod 2 ^ 32 = x + 2 ^ 32" using False assms(1) by (intro mod_pos_pos_trivial) (simp_all add: c_int_def)
    moreover have "(x + 2 ^ 32) mod 2 ^ 32 = x mod 2 ^ 32" by (rule mod_add_self2)
    ultimately have "uint (of_int x :: u32) = x + 2 ^ 32" using u by simp
    moreover have "uint w \<le> x + 2 ^ 32" using w assms(1) by (simp add: c_int_def)
    ultimately show ?thesis using False by (simp add: word_le_def)
  qed
qed

lemma off_screen_visible:
  assumes "surface_ok m" and "c_int x" and "c_int y"
  shows "off_screen m x y \<longleftrightarrow> \<not> visible m x y"
proof -
  have "unat (fb_w m) < 2 ^ 31" "unat (fb_h m) < 2 ^ 31" using assms(1) by (simp_all add: surface_ok_def)
  note w = u32_ge_c_int [OF assms(2) this(1)] u32_ge_c_int [OF assms(3) this(2)]
  show ?thesis unfolding off_screen_def visible_def w by blast
qed

lemma apart_words:
  fixes a b :: u64
  assumes "unat a + n \<le> unat b" and "unat b + k \<le> 2 ^ 64" and "0 < n"
  shows "n \<le> unat (b - a)" and "k \<le> unat (a - b)"
proof -
  have "a \<le> b" using assms(1) by (simp add: word_le_nat_alt)
  then have d: "unat (b - a) = unat b - unat a" by (simp add: unat_sub)
  then show "n \<le> unat (b - a)" using assms(1) by simp
  have "a \<noteq> b" using assms(1,3) by auto
  from unat_diff_both [OF this] d assms(1,2) show "k \<le> unat (a - b)" by simp
qed

lemma pixel_address_nat:
  assumes "surface_ok m" and "visible m x y"
  shows "unat (pixel_address m x y) = unat (surface_base m) + nat y * stride m + nat x * pixel_bytes m"
    and "nat y * stride m + nat x * pixel_bytes m + pixel_bytes m \<le> stride m * unat (fb_h m)"
proof -
  have x: "nat x < unat (fb_w m)" "0 \<le> x" and y: "nat y < unat (fb_h m)" "0 \<le> y"
    using assms(2) by (auto simp: visible_def)
  have "nat x * pixel_bytes m + pixel_bytes m = Suc (nat x) * pixel_bytes m" by simp
  also have "\<dots> \<le> unat (fb_w m) * pixel_bytes m" using x by (intro mult_le_mono1) simp
  also have "\<dots> \<le> stride m" using assms(1) by (simp add: surface_ok_def mult.commute)
  finally have r: "nat x * pixel_bytes m + pixel_bytes m \<le> stride m" .
  have "nat y * stride m + stride m = Suc (nat y) * stride m" by simp
  also have "\<dots> \<le> unat (fb_h m) * stride m" using y by (intro mult_le_mono1) simp
  finally have "nat y * stride m + stride m \<le> stride m * unat (fb_h m)" by (simp add: mult.commute)
  with r show b: "nat y * stride m + nat x * pixel_bytes m + pixel_bytes m \<le> stride m * unat (fb_h m)" by simp
  have "pixel_address m x y = surface_base m + of_nat (nat y * stride m + nat x * pixel_bytes m)"
  proof (cases "draw_buf m = 0")
    case True
    have "(ucast (fb_bpp m div 8) :: u64) = of_nat (unat (fb_bpp m div 8))" "(ucast (fb_pitch m) :: u64) = of_nat (unat (fb_pitch m))"
      by simp_all
    with True x y show ?thesis
      by (simp add: pixel_address_def device_address_def surface_base_def stride_def pixel_bytes_def del: of_nat_unat)
  next
    case False
    with x y show ?thesis
      by (simp add: pixel_address_def draw_address_def surface_base_def stride_def pixel_bytes_def algebra_simps)
  qed
  moreover have "unat (surface_base m) + (nat y * stride m + nat x * pixel_bytes m) < 2 ^ 64"
    using b assms(1) by (simp add: surface_ok_def)
  ultimately show "unat (pixel_address m x y) = unat (surface_base m) + nat y * stride m + nat x * pixel_bytes m"
    using unat_plus_small [of "surface_base m" "nat y * stride m + nat x * pixel_bytes m"]
    by (simp only: add.assoc)
qed

lemma pixels_apart_step:
  assumes "surface_ok m" and "visible m x y" and "visible m x' y'"
    and "y < y' \<or> y = y' \<and> x < x'"
  shows "pixel_bytes m \<le> unat (pixel_address m x' y' - pixel_address m x y)"
    and "pixel_bytes m \<le> unat (pixel_address m x y - pixel_address m x' y')"
proof -
  note a = pixel_address_nat [OF assms(1,2)] and a' = pixel_address_nat [OF assms(1,3)]
  have x: "nat x < unat (fb_w m)" using assms(2) by (auto simp: visible_def)
  have "Suc (nat x) * pixel_bytes m \<le> unat (fb_w m) * pixel_bytes m" using x by (intro mult_le_mono1) simp
  also have "\<dots> \<le> stride m" using assms(1) by (simp add: surface_ok_def mult.commute)
  finally have r: "nat x * pixel_bytes m + pixel_bytes m \<le> stride m" by simp
  have "nat y * stride m + nat x * pixel_bytes m + pixel_bytes m \<le> nat y' * stride m + nat x' * pixel_bytes m"
    using assms(4)
  proof
    assume "y < y'"
    then have "Suc (nat y) * stride m \<le> nat y' * stride m" using assms(2) unfolding visible_def by (intro mult_le_mono1) linarith
    with r show ?thesis by simp
  next
    assume e: "y = y' \<and> x < x'"
    then have "Suc (nat x) * pixel_bytes m \<le> nat x' * pixel_bytes m" using assms(2) unfolding visible_def by (intro mult_le_mono1) linarith
    with e show ?thesis by simp
  qed
  then have g: "unat (pixel_address m x y) + pixel_bytes m \<le> unat (pixel_address m x' y')" using a a' by simp
  have t: "unat (pixel_address m x' y') + pixel_bytes m \<le> 2 ^ 64" using a' assms(1) by (simp add: surface_ok_def)
  have "0 < pixel_bytes m" using assms(1) by (simp add: surface_ok_def)
  from apart_words [OF g t this] show "pixel_bytes m \<le> unat (pixel_address m x' y' - pixel_address m x y)"
    and "pixel_bytes m \<le> unat (pixel_address m x y - pixel_address m x' y')" by simp_all
qed

lemma pixels_apart:
  assumes "surface_ok m" and "visible m x y" and "visible m x' y'" and "(x, y) \<noteq> (x', y')"
  shows "pixel_bytes m \<le> unat (pixel_address m x' y' - pixel_address m x y) \<and>
    pixel_bytes m \<le> unat (pixel_address m x y - pixel_address m x' y')"
proof -
  have "y < y' \<or> y = y' \<and> x < x' \<or> y' < y \<or> y' = y \<and> x' < x" using assms(4) by auto
  then show ?thesis
    using pixels_apart_step [OF assms(1-3)] pixels_apart_step [OF assms(1,3,2)] by blast
qed

section \<open>Writing pixels\<close>

lemma put_pixel_form:
  "fb_put_pixel x y c m =
     (if off_screen m x y then m
      else poke_bytes (pixel_address m x y) (le_bytes (pixel_bytes m) (fb_pixel_value m c)) m)"
  by (simp add: fb_put_pixel_def pixel_address_def pixel_bytes_def Let_def)

text \<open>A change of memory leaves the surface where it is.\<close>

lemma poke_surface [simp]:
  "surface_ok (poke_bytes a bs m) = surface_ok m" "visible (poke_bytes a bs m) = visible m"
  "pixel_address (poke_bytes a bs m) = pixel_address m" "pixel_bytes (poke_bytes a bs m) = pixel_bytes m"
  "fb_pixel_value (poke_bytes a bs m) = fb_pixel_value m" "off_screen (poke_bytes a bs m) = off_screen m"
  "fb_color (poke_bytes a bs m) = fb_color m"
  by (auto simp: poke_bytes_def surface_ok_def visible_def pixel_address_def pixel_bytes_def stride_def
      surface_base_def draw_address_def device_address_def fb_pixel_value_def off_screen_def fb_color_def fun_eq_iff)

lemma put_surface [simp]:
  "surface_ok (fb_put_pixel x y c m) = surface_ok m" "visible (fb_put_pixel x y c m) = visible m"
  "pixel_bytes (fb_put_pixel x y c m) = pixel_bytes m"
  "fb_pixel_value (fb_put_pixel x y c m) = fb_pixel_value m" "off_screen (fb_put_pixel x y c m) = off_screen m"
  "fb_color (fb_put_pixel x y c m) = fb_color m"
  by (simp_all add: put_pixel_form)

lemma raw_put_pixel:
  assumes "surface_ok m" and "c_int x" and "c_int y" and "visible m px py"
  shows "raw_pixel (fb_put_pixel x y c m) px py =
     (if px = x \<and> py = y then le_bytes (pixel_bytes m) (fb_pixel_value m c) else raw_pixel m px py)"
proof (cases "visible m x y")
  case False
  then have "fb_put_pixel x y c m = m" using off_screen_visible [OF assms(1-3)] by (simp add: put_pixel_form)
  with False assms(4) show ?thesis by auto
next
  case True
  then have p: "fb_put_pixel x y c m = poke_bytes (pixel_address m x y) (le_bytes (pixel_bytes m) (fb_pixel_value m c)) m"
    using off_screen_visible [OF assms(1-3)] by (simp add: put_pixel_form)
  have n: "pixel_bytes m \<le> 4" using assms(1) by (simp add: surface_ok_def)
  show ?thesis
  proof (cases "px = x \<and> py = y")
    case True
    then show ?thesis unfolding p raw_pixel_def poke_surface using n by (simp add: poke_bytes_def load_store_bytes_same)
  next
    case False
    then have "pixel_bytes m \<le> unat (pixel_address m px py - pixel_address m x y) \<and>
        pixel_bytes m \<le> unat (pixel_address m x y - pixel_address m px py)"
      using pixels_apart [OF assms(1) True assms(4)] by auto
    then have "load_bytes (store_bytes (mem m) (pixel_address m x y) (le_bytes (pixel_bytes m) (fb_pixel_value m c)))
        (pixel_address m px py) (pixel_bytes m) = load_bytes (mem m) (pixel_address m px py) (pixel_bytes m)"
      using n by (intro load_store_bytes_apart) simp_all
    with False show ?thesis unfolding p raw_pixel_def poke_surface by (auto simp: poke_bytes_def)
  qed
qed

section \<open>Painting a rectangle\<close>

text \<open>The drawing routines put pixels over a rectangle, row by row, with a colour for each.\<close>

lemma paint_row_surface:
  "surface_ok (fold (\<lambda>dx. fb_put_pixel (X dx) (Y dx) (f dx)) xs m) = surface_ok m \<and>
   visible (fold (\<lambda>dx. fb_put_pixel (X dx) (Y dx) (f dx)) xs m) = visible m \<and>
   pixel_bytes (fold (\<lambda>dx. fb_put_pixel (X dx) (Y dx) (f dx)) xs m) = pixel_bytes m \<and>
   fb_pixel_value (fold (\<lambda>dx. fb_put_pixel (X dx) (Y dx) (f dx)) xs m) = fb_pixel_value m \<and>
   fb_color (fold (\<lambda>dx. fb_put_pixel (X dx) (Y dx) (f dx)) xs m) = fb_color m"
  by (induction xs arbitrary: m) simp_all

lemma paint_rows_surface:
  "surface_ok (fold (\<lambda>dy. fold (\<lambda>dx. fb_put_pixel (x + dx) (y + dy) (f dx dy)) xs) ys m) = surface_ok m \<and>
   visible (fold (\<lambda>dy. fold (\<lambda>dx. fb_put_pixel (x + dx) (y + dy) (f dx dy)) xs) ys m) = visible m \<and>
   fb_color (fold (\<lambda>dy. fold (\<lambda>dx. fb_put_pixel (x + dx) (y + dy) (f dx dy)) xs) ys m) = fb_color m"
proof (induction ys arbitrary: m)
  case Nil
  then show ?case by simp
next
  case (Cons dy ys)
  then show ?case using paint_row_surface [of "\<lambda>dx. x + dx" "\<lambda>_. y + dy" "\<lambda>dx. f dx dy" xs m] by simp
qed

lemma raw_paint_row:
  assumes "surface_ok m" and "c_int y" and "\<forall>dx \<in> set xs. c_int (x + dx)" and "visible m px py"
  shows "raw_pixel (fold (\<lambda>dx. fb_put_pixel (x + dx) y (f dx)) xs m) px py =
     (if py = y \<and> px - x \<in> set xs then le_bytes (pixel_bytes m) (fb_pixel_value m (f (px - x))) else raw_pixel m px py)"
  using assms
proof (induction xs arbitrary: m)
  case Nil
  then show ?case by simp
next
  case (Cons dx xs)
  from Cons.prems show ?case by (auto simp: Cons.IH raw_put_pixel)
qed

lemma raw_paint_rows:
  assumes "surface_ok m" and "\<forall>dy \<in> set ys. c_int (y + dy)" and "\<forall>dx \<in> set xs. c_int (x + dx)" and "visible m px py"
  shows "raw_pixel (fold (\<lambda>dy. fold (\<lambda>dx. fb_put_pixel (x + dx) (y + dy) (f dx dy)) xs) ys m) px py =
     (if py - y \<in> set ys \<and> px - x \<in> set xs
      then le_bytes (pixel_bytes m) (fb_pixel_value m (f (px - x) (py - y))) else raw_pixel m px py)"
  using assms
proof (induction ys arbitrary: m)
  case Nil
  then show ?case by simp
next
  case (Cons dy ys)
  note row = paint_row_surface [of "\<lambda>dx. x + dx" "\<lambda>_. y + dy" "\<lambda>dx. f dx dy" xs m]
  have s: "surface_ok (fold (\<lambda>dx. fb_put_pixel (x + dx) (y + dy) (f dx dy)) xs m)" using row Cons.prems by simp
  have ys: "\<forall>dy \<in> set ys. c_int (y + dy)" and c: "c_int (y + dy)" using Cons.prems by simp_all
  have v: "visible (fold (\<lambda>dx. fb_put_pixel (x + dx) (y + dy) (f dx dy)) xs m) px py" using row Cons.prems by simp
  show ?case
    using Cons.IH [OF s ys Cons.prems(3) v] raw_paint_row [OF Cons.prems(1) c Cons.prems(3,4), of "\<lambda>dx. f dx dy"] row
    by auto
qed

text \<open>Reading back what the bytes of a pixel encode: the three channels must not overlap.\<close>

definition channels_ok :: "machine \<Rightarrow> bool" where
  "channels_ok m \<longleftrightarrow> (r_pos m, g_pos m, b_pos m) \<in>
     {(16, 8, 0), (0, 8, 16), (16, 0, 8), (0, 16, 8), (8, 16, 0), (8, 0, 16)}"

definition apart8 :: "nat \<Rightarrow> nat \<Rightarrow> bool" where
  "apart8 p q \<longleftrightarrow> p + 8 \<le> q \<or> q + 8 \<le> p"

lemma channel_bits:
  fixes a b c :: u8
  assumes "apart8 p q" and "apart8 p r" and "p \<le> 24"
  shows "ucast (drop_bit p (push_bit p (ucast a) OR push_bit q (ucast b) OR push_bit r (ucast c) :: u32) AND 0xFF) = a"
proof -
  have m: "(0xFF :: u32) = mask 8" by (simp add: mask_eq_exp_minus_1)
  have "\<not> bit d (p + n - k)" if "apart8 p k" "k \<le> p + n" "n < 8" for d :: u8 and k n
    using that bit_imp_le_length [of d "p + n - k"] by (auto simp: apart8_def)
  then show ?thesis
    unfolding m using assms by (intro bit_word_eqI) (auto simp: bit_simps)
qed

lemma pixel_value_low:
  assumes "channels_ok m"
  shows "take_bit 24 (fb_pixel_value m c) = fb_pixel_value m c"
  using assms unfolding channels_ok_def fb_pixel_value_def
  by (intro bit_word_eqI) (auto simp: bit_simps dest: bit_imp_le_length)

lemma fb_color_pixel_value:
  assumes "channels_ok m"
  shows "fb_color m (fb_pixel_value m c) = c"
proof -
  define r g b where "r = unat (r_pos m)" and "g = unat (g_pos m)" and "b = unat (b_pos m)"
  have a: "apart8 r g" "apart8 r b" "apart8 g r" "apart8 g b" "apart8 b r" "apart8 b g" "r \<le> 24" "g \<le> 24" "b \<le> 24"
    using assms unfolding channels_ok_def r_def g_def b_def apart8_def by auto
  define px where "px = fb_pixel_value m c"
  have R: "px = push_bit r (ucast (color_r c)) OR push_bit g (ucast (color_g c)) OR push_bit b (ucast (color_b c))"
    by (simp add: px_def fb_pixel_value_def r_def g_def b_def or.assoc)
  have G: "px = push_bit g (ucast (color_g c)) OR push_bit r (ucast (color_r c)) OR push_bit b (ucast (color_b c))"
    unfolding R by (simp only: or.commute or.left_commute)
  have B: "px = push_bit b (ucast (color_b c)) OR push_bit r (ucast (color_r c)) OR push_bit g (ucast (color_g c))"
    unfolding R by (simp only: or.commute or.left_commute or.assoc)
  have "ucast (drop_bit r px AND 0xFF) = color_r c" unfolding R by (rule channel_bits) (use a in simp_all)
  moreover have "ucast (drop_bit g px AND 0xFF) = color_g c" unfolding G by (rule channel_bits) (use a in simp_all)
  moreover have "ucast (drop_bit b px AND 0xFF) = color_b c" unfolding B by (rule channel_bits) (use a in simp_all)
  ultimately show ?thesis by (simp add: fb_color_def RGB_def flip: px_def r_def g_def b_def)
qed

lemma get_pixel_raw:
  assumes "surface_ok m" and "c_int x" and "c_int y" and "visible m x y"
  shows "fb_get_pixel x y m = fb_color m (le_word (raw_pixel m x y))"
  using assms off_screen_visible [OF assms(1-3)]
  by (simp add: fb_get_pixel_def raw_pixel_def pixel_address_def pixel_bytes_def load32_def)

lemma le_word_pixel:
  assumes "surface_ok m" and "channels_ok m"
  shows "le_word (le_bytes (pixel_bytes m) (fb_pixel_value m c)) = fb_pixel_value m c"
proof -
  have "24 \<le> 8 * pixel_bytes m" using assms(1) by (simp add: surface_ok_def)
  then have "take_bit (8 * pixel_bytes m) (take_bit 24 (fb_pixel_value m c)) = take_bit 24 (fb_pixel_value m c)"
    by (simp add: min_absorb2)
  then show ?thesis using pixel_value_low [OF assms(2)] by (simp add: le_word_le_bytes_take)
qed

section \<open>Properties\<close>

lemma visible_c_int: "surface_ok m \<Longrightarrow> visible m x y \<Longrightarrow> c_int x \<and> c_int y"
  by (simp add: surface_ok_def visible_def c_int_def) linarith

lemma put_get_pixel:
  assumes "surface_ok m" and "channels_ok m" and "c_int x" and "c_int y" and "visible m px py"
  shows "fb_get_pixel px py (fb_put_pixel x y c m) = (if px = x \<and> py = y then c else fb_get_pixel px py m)"
proof -
  have p: "c_int px" "c_int py" using visible_c_int [OF assms(1,5)] by simp_all
  note get = get_pixel_raw [OF _ p]
  show ?thesis
    using get [of m] get [of "fb_put_pixel x y c m"] raw_put_pixel [OF assms(1,3,4,5)] assms
    by (simp add: le_word_pixel fb_color_pixel_value)
qed

text \<open>A pixel that is put on the screen is read back with its colour, and every other pixel keeps the
  colour it had, whether the back buffer is in use or the pixels go straight to a 24 or 32 bit
  device; coordinates off the screen, negative ones included, change nothing.\<close>

theorem fb_put_get_pixel:
  assumes "surface_ok m" and "channels_ok m" and "c_int x" and "c_int y" and "visible m px py"
  shows "fb_get_pixel px py (fb_put_pixel x y c m) = (if px = x \<and> py = y then c else fb_get_pixel px py m)"
  using assms by (rule put_get_pixel)

text \<open>\<open>fb_fill_rect\<close> colours exactly the pixels of the rectangle that are on the screen and no others:
  it clips on all four sides, and an empty or negative size draws nothing.\<close>

theorem fb_fill_rect_exact:
  assumes "surface_ok m" and "channels_ok m" and "visible m px py"
    and "c_int x" and "c_int (x + w)" and "c_int y" and "c_int (y + h)"
  shows "fb_get_pixel px py (fb_fill_rect x y w h c m) =
     (if x \<le> px \<and> px < x + w \<and> y \<le> py \<and> py < y + h then c else fb_get_pixel px py m)"
proof (cases "w \<le> 0 \<or> h \<le> 0")
  case True
  then show ?thesis by (auto simp: fb_fill_rect_def)
next
  case False
  have p: "c_int px" "c_int py" using visible_c_int [OF assms(1,3)] by simp_all
  define m' where "m' = fold (\<lambda>dy. fold (\<lambda>dx. fb_put_pixel (x + dx) (y + dy) c) [0..w - 1]) [0..h - 1] m"
  have ys: "\<forall>dy \<in> set [0..h - 1]. c_int (y + dy)" and xs: "\<forall>dx \<in> set [0..w - 1]. c_int (x + dx)"
    using assms(4-7) by (auto simp: c_int_def)
  have raw: "raw_pixel m' px py = (if py - y \<in> set [0..h - 1] \<and> px - x \<in> set [0..w - 1]
      then le_bytes (pixel_bytes m) (fb_pixel_value m c) else raw_pixel m px py)"
    unfolding m'_def by (rule raw_paint_rows [OF assms(1) ys xs assms(3)])
  have "surface_ok m' = surface_ok m \<and> visible m' = visible m \<and> fb_color m' = fb_color m"
    unfolding m'_def by (rule paint_rows_surface)
  then have s: "surface_ok m'" "visible m' px py" "fb_color m' = fb_color m" using assms by simp_all
  have "fb_get_pixel px py m' = fb_color m (le_word (raw_pixel m' px py))"
    using get_pixel_raw [OF s(1) p s(2)] s(3) by simp
  moreover have "py - y \<in> set [0..h - 1] \<and> px - x \<in> set [0..w - 1] \<longleftrightarrow> x \<le> px \<and> px < x + w \<and> y \<le> py \<and> py < y + h"
    by auto
  ultimately have "fb_get_pixel px py m' = (if x \<le> px \<and> px < x + w \<and> y \<le> py \<and> py < y + h then c else fb_get_pixel px py m)"
    using get_pixel_raw [OF assms(1) p assms(3)] assms(1,2) raw by (simp add: le_word_pixel fb_color_pixel_value)
  moreover have "fb_fill_rect x y w h c m = m'" using False by (simp add: fb_fill_rect_def m'_def)
  ultimately show ?thesis by simp
qed

definition screen_4x2 :: machine where
  "screen_4x2 = \<lparr>pmm = undefined, mem = (\<lambda>_. 0), heap_used = 0, heap_total = 0, current_pml4 = 0,
     kernel_pml4 = 0, kernel_cr3 = 0, cr3 = 0, invalidated = [], fb_addr = 0xE0000000, fb_pitch = 16, fb_w = 4,
     fb_h = 2, fb_bpp = 24, r_pos = 16, g_pos = 8, b_pos = 0, draw_buf = 0, display_buf = 0, fb_force_full = False\<rparr>"

lemma screen_4x2_ok:
  "surface_ok screen_4x2" "channels_ok screen_4x2" "visible screen_4x2 3 1" "visible screen_4x2 0 1"
  by (simp_all add: surface_ok_def channels_ok_def visible_def pixel_bytes_def stride_def surface_base_def screen_4x2_def
      unat_div)

theorem fb_put_get_pixel_witness:
  "fb_get_pixel 3 1 (fb_put_pixel 3 1 (RGB 10 20 30) screen_4x2) = RGB 10 20 30"
  using fb_put_get_pixel [OF screen_4x2_ok(1,2), of 3 1 3 1 "RGB 10 20 30"] screen_4x2_ok(3) by (simp add: c_int_def)

theorem fb_fill_rect_exact_witness:
  "fb_get_pixel 3 1 (fb_fill_rect 2 (-5) 100 7 (RGB 10 20 30) screen_4x2) = RGB 10 20 30 \<and>
   fb_get_pixel 0 1 (fb_fill_rect 2 (-5) 100 7 (RGB 10 20 30) screen_4x2) = fb_get_pixel 0 1 screen_4x2"
  using fb_fill_rect_exact [OF screen_4x2_ok(1,2,3), of 2 100 "-5" 7 "RGB 10 20 30"]
    fb_fill_rect_exact [OF screen_4x2_ok(1,2,4), of 2 100 "-5" 7 "RGB 10 20 30"] by (simp add: c_int_def)

end
