(* ===== verification/Descriptors.thy ===== *)
theory Descriptors
  imports Ports
begin

text \<open>
  The segment descriptors and the task state segment of \<open>src/gdt.c\<close>, and the interrupt gates of
  \<open>src/idt.c\<close>. The addresses the linker chooses (\<open>&gdt\<close>, \<open>&tss\<close>, \<open>idt\<close>, the stubs of isr.s) are
  arguments. What the processor makes of a descriptor is written as decoding functions, after its manual.
\<close>

unbundle bit_operations_syntax

section \<open>Segments\<close>

record tss =
  reserved0 :: u32
  rsp0 :: u64
  rsp1 :: u64
  rsp2 :: u64
  reserved1 :: u64
  ist1 :: u64
  ist2 :: u64
  ist3 :: u64
  ist4 :: u64
  ist5 :: u64
  ist6 :: u64
  ist7 :: u64
  reserved2 :: u64
  reserved3 :: u16
  iomap_base :: u16

definition GDT_KERNEL_CODE :: u16 where "GDT_KERNEL_CODE = 0x08"
definition GDT_KERNEL_DATA :: u16 where "GDT_KERNEL_DATA = 0x10"
definition GDT_TSS :: u16 where "GDT_TSS = 0x28"

definition TSS_SIZE :: u64 where "TSS_SIZE = 104"

text \<open>The tables of the program and the registers that point into them.\<close>

record segments =
  gdt :: "u64 list"
  task :: tss
  stack_top :: u64
  gdtr_limit :: u16
  gdtr_base :: u64
  cs_reg :: u16
  data_regs :: u16
  task_reg :: u16

definition gdt_set_entry :: "nat \<Rightarrow> u32 \<Rightarrow> u32 \<Rightarrow> u8 \<Rightarrow> u8 \<Rightarrow> segments \<Rightarrow> segments" where
  "gdt_set_entry index base limit access granularity s =
     (let e = 0;
          e = e OR ucast (limit AND 0xFFFF);
          e = e OR push_bit 16 (ucast (base AND 0xFFFFFF));
          e = e OR push_bit 40 (ucast access);
          e = e OR push_bit 48 (ucast (drop_bit 16 limit AND 0x0F));
          e = e OR push_bit 52 (ucast (granularity AND 0x0F));
          e = e OR push_bit 56 (ucast (drop_bit 24 base AND 0xFF))
      in s\<lparr>gdt := (gdt s)[index := e]\<rparr>)"

definition gdt_set_tss :: "u64 \<Rightarrow> segments \<Rightarrow> segments" where
  "gdt_set_tss base s =
     (let limit = TSS_SIZE - 1;
          e = 0;
          e = e OR (limit AND 0xFFFF);
          e = e OR push_bit 16 (base AND 0xFFFFFF);
          e = e OR push_bit 40 0x89;
          e = e OR push_bit 48 (drop_bit 16 limit AND 0x0F);
          e = e OR push_bit 56 (drop_bit 24 base AND 0xFF);
          f = drop_bit 32 base AND 0xFFFFFFFF
      in s\<lparr>gdt := (gdt s)[5 := e, 6 := f]\<rparr>)"

definition gdt_init :: "u64 \<Rightarrow> u64 \<Rightarrow> segments \<Rightarrow> segments" where
  "gdt_init gdt_address tss_address s =
     (let s = gdt_set_entry 1 0 0xFFFFF 0x9A 0xA s;
          s = gdt_set_entry 2 0 0xFFFFF 0x92 0xC s;
          s = gdt_set_entry 3 0 0xFFFFF 0xFA 0xA s;
          s = gdt_set_entry 4 0 0xFFFFF 0xF2 0xC s;
          s = s\<lparr>task := (task s)\<lparr>rsp0 := stack_top s, rsp1 := 0, rsp2 := 0, ist1 := 0, ist2 := 0, ist3 := 0,
                 ist4 := 0, ist5 := 0, ist6 := 0, ist7 := 0, iomap_base := ucast TSS_SIZE\<rparr>\<rparr>;
          s = gdt_set_tss tss_address s;
          s = s\<lparr>gdtr_limit := 7 * 8 - 1, gdtr_base := gdt_address\<rparr>;
          s = s\<lparr>cs_reg := 0x08\<rparr>;
          s = s\<lparr>data_regs := 0x10\<rparr>
      in s\<lparr>task_reg := GDT_TSS\<rparr>)"

definition tss_set_rsp0 :: "u64 \<Rightarrow> segments \<Rightarrow> segments" where
  "tss_set_rsp0 sp s = s\<lparr>task := (task s)\<lparr>rsp0 := sp\<rparr>\<rparr>"

definition gdt_kernel_stack :: "segments \<Rightarrow> u64" where
  "gdt_kernel_stack s = stack_top s"

subsection \<open>As the processor reads them\<close>

text \<open>\<open>bits_of e lo n\<close> is the field of \<open>n\<close> bits from bit \<open>lo\<close> on.\<close>

definition bits_of :: "u64 \<Rightarrow> nat \<Rightarrow> nat \<Rightarrow> u64" where
  "bits_of e lo n = take_bit n (drop_bit lo e)"

definition desc_base :: "u64 \<Rightarrow> u64" where
  "desc_base e = bits_of e 16 24 OR push_bit 24 (bits_of e 56 8)"

definition desc_limit :: "u64 \<Rightarrow> u64" where
  "desc_limit e = bits_of e 0 16 OR push_bit 16 (bits_of e 48 4)"

definition desc_access :: "u64 \<Rightarrow> u64" where
  "desc_access e = bits_of e 40 8"

definition desc_flags :: "u64 \<Rightarrow> u64" where
  "desc_flags e = bits_of e 52 4"

definition desc_dpl :: "u64 \<Rightarrow> u64" where
  "desc_dpl e = bits_of e 45 2"

text \<open>A system descriptor of 64-bit mode takes two entries, the second with the upper half of the base.\<close>

definition system_base :: "u64 \<Rightarrow> u64 \<Rightarrow> u64" where
  "system_base lo hi = desc_base lo OR push_bit 32 (bits_of hi 0 32)"

lemma u64_masks:
  "(0xFFFF :: u64) = mask 16" "(0xFFFFFF :: u64) = mask 24" "(0x0F :: u64) = mask 4" "(0xFF :: u64) = mask 8"
  "(0xFFFFFFFF :: u64) = mask 32" "(0xFFFF :: u32) = mask 16" "(0xFFFFFF :: u32) = mask 24"
  "(0x0F :: u32) = mask 4" "(0xFF :: u32) = mask 8" "(0x0F :: u8) = mask 4"
  by (simp_all add: mask_eq_exp_minus_1)

text \<open>The entry \<open>gdt_set_entry\<close> stores.\<close>

definition entry_word :: "u32 \<Rightarrow> u32 \<Rightarrow> u8 \<Rightarrow> u8 \<Rightarrow> u64" where
  "entry_word base limit access granularity =
     ucast (limit AND 0xFFFF) OR push_bit 16 (ucast (base AND 0xFFFFFF)) OR push_bit 40 (ucast access) OR
     push_bit 48 (ucast (drop_bit 16 limit AND 0x0F)) OR push_bit 52 (ucast (granularity AND 0x0F)) OR
     push_bit 56 (ucast (drop_bit 24 base AND 0xFF))"

lemma gdt_set_entry_word:
  "gdt_set_entry i base limit access granularity s = s\<lparr>gdt := (gdt s)[i := entry_word base limit access granularity]\<rparr>"
  by (simp add: gdt_set_entry_def entry_word_def or.assoc)

text \<open>Pieces of a word, each \<open>n\<close> bits wide and shifted to its place, and how a field sees them.\<close>

definition piece :: "nat \<Rightarrow> nat \<Rightarrow> u64 \<Rightarrow> u64" where
  "piece k n z = push_bit k (take_bit n z)"

lemma bits_of_or [simp]: "bits_of (a OR b) lo n = bits_of a lo n OR bits_of b lo n"
  by (simp add: bits_of_def)

lemma piece_below [simp]: "k + m \<le> lo \<Longrightarrow> bits_of (piece k m z) lo n = 0"
  unfolding bits_of_def piece_def by (rule bit_word_eqI) (auto simp: bit_simps)

lemma piece_above [simp]: "lo + n \<le> k \<Longrightarrow> bits_of (piece k m z) lo n = 0"
  unfolding bits_of_def piece_def by (rule bit_word_eqI) (auto simp: bit_simps)

lemma piece_same [simp]: "k + n \<le> 64 \<Longrightarrow> bits_of (piece k n z) k n = take_bit n z"
  unfolding bits_of_def piece_def by (rule bit_word_eqI) (auto simp: bit_simps)

lemma entry_word_pieces:
  "entry_word base limit access granularity =
     piece 0 16 (ucast limit) OR piece 16 24 (ucast base) OR piece 40 8 (ucast access) OR
     piece 48 4 (ucast (drop_bit 16 limit)) OR piece 52 4 (ucast granularity) OR piece 56 8 (ucast (drop_bit 24 base))"
proof -
  have "ucast (x AND mask n :: u32) = (take_bit n (ucast x) :: u64)" for x :: u32 and n
    by (rule bit_word_eqI) (auto simp: bit_simps dest: bit_imp_le_length)
  moreover have "ucast (x AND mask n :: u8) = (take_bit n (ucast x) :: u64)" for x :: u8 and n
    by (rule bit_word_eqI) (auto simp: bit_simps dest: bit_imp_le_length)
  moreover have "(ucast access :: u64) = take_bit 8 (ucast access)"
    by (rule bit_word_eqI) (auto simp: bit_simps dest: bit_imp_le_length)
  ultimately show ?thesis unfolding entry_word_def u64_masks piece_def by simp
qed

lemma joined_base: "take_bit 24 (ucast b) OR push_bit 24 (take_bit 8 (ucast (drop_bit 24 b))) = (ucast (b :: u32) :: u64)"
proof (rule bit_word_eqI)
  fix n assume "n < LENGTH(64)"
  show "bit (take_bit 24 (ucast b) OR push_bit 24 (take_bit 8 (ucast (drop_bit 24 b))) :: u64) n = bit (ucast b :: u64) n"
    by (cases "n < 24") (auto simp: bit_simps dest: bit_imp_le_length)
qed

lemma joined_limit:
  "take_bit 16 (ucast l) OR push_bit 16 (take_bit 4 (ucast (drop_bit 16 l))) = (ucast (take_bit 20 (l :: u32)) :: u64)"
proof (rule bit_word_eqI)
  fix n assume "n < LENGTH(64)"
  show "bit (take_bit 16 (ucast l) OR push_bit 16 (take_bit 4 (ucast (drop_bit 16 l))) :: u64) n =
      bit (ucast (take_bit 20 l) :: u64) n"
    by (cases "n < 16") (auto simp: bit_simps)
qed

lemma entry_word_fields:
  "desc_base (entry_word base limit access granularity) = ucast base"
  "desc_limit (entry_word base limit access granularity) = ucast (take_bit 20 limit)"
  "desc_access (entry_word base limit access granularity) = ucast access"
  "desc_flags (entry_word base limit access granularity) = ucast (take_bit 4 granularity)"
proof -
  have "take_bit 8 (ucast access) = (ucast access :: u64)"
    by (rule bit_word_eqI) (auto simp: bit_simps dest: bit_imp_le_length)
  moreover have "take_bit 4 (ucast granularity) = (ucast (take_bit 4 granularity) :: u64)"
    by (rule bit_word_eqI) (auto simp: bit_simps)
  ultimately show "desc_base (entry_word base limit access granularity) = ucast base"
    "desc_limit (entry_word base limit access granularity) = ucast (take_bit 20 limit)"
    "desc_access (entry_word base limit access granularity) = ucast access"
    "desc_flags (entry_word base limit access granularity) = ucast (take_bit 4 granularity)"
    unfolding desc_base_def desc_limit_def desc_access_def desc_flags_def entry_word_pieces
    by (simp_all add: joined_base joined_limit)
qed

text \<open>The first half of the task state segment's descriptor.\<close>

lemma gdt_set_tss_entries:
  "gdt_set_tss base s =
     s\<lparr>gdt := (gdt s)[5 := piece 0 16 103 OR piece 16 24 base OR piece 40 8 0x89 OR piece 56 8 (drop_bit 24 base),
                6 := take_bit 32 (drop_bit 32 base)]\<rparr>"
proof -
  have "(103 AND 65535 :: u64) = piece 0 16 103" "(push_bit 40 137 :: u64) = piece 40 8 137"
    "(drop_bit 16 103 AND 15 :: u64) = 0" "piece 48 4 0 = 0"
    by (simp_all add: piece_def)
  moreover have "push_bit k (x AND mask n) = piece k n x" "x AND mask n = take_bit n x" for k n x
    by (simp_all add: piece_def take_bit_eq_mask)
  ultimately show ?thesis
    by (simp add: gdt_set_tss_def TSS_SIZE_def Let_def u64_masks or.assoc)
qed

section \<open>Gates\<close>

record idt_entry =
  offset_low :: u16
  selector :: u16
  ist :: u8
  type_attr :: u8
  offset_mid :: u16
  offset_high :: u32
  reserved :: u32

definition IDT_ENTRIES :: nat where "IDT_ENTRIES = 256"
definition USER_INT_GATE :: u8 where "USER_INT_GATE = 0xEE"
definition INT_GATE :: u8 where "INT_GATE = 0x8E"
definition CODE_SEG :: u16 where "CODE_SEG = 0x08"

record idt_state = ports +
  idt :: "idt_entry list"
  idtr_limit :: u16
  idtr_base :: u64
  interrupts_on :: bool

definition set_gate :: "nat \<Rightarrow> u64 \<Rightarrow> idt_entry list \<Rightarrow> idt_entry list" where
  "set_gate n handler t =
     (let addr = handler in
      t[n := \<lparr>offset_low = ucast (addr AND 0xFFFF), selector = CODE_SEG, ist = 0, type_attr = INT_GATE,
              offset_mid = ucast (drop_bit 16 addr AND 0xFFFF), offset_high = ucast (drop_bit 32 addr AND 0xFFFFFFFF),
              reserved = 0\<rparr>])"

definition idt_init :: "u64 \<Rightarrow> (nat \<Rightarrow> u64) \<Rightarrow> idt_state \<Rightarrow> idt_state" where
  "idt_init idt_address isr_stubs s =
     (let s = pic_init s;
          t = fold (\<lambda>i. set_gate i (isr_stubs i)) [0..<IDT_ENTRIES] (idt s);
          t = t[0x80 := (t ! 0x80)\<lparr>type_attr := USER_INT_GATE\<rparr>]
      in s\<lparr>idt := t, idtr_limit := 256 * 16 - 1, idtr_base := idt_address, interrupts_on := True\<rparr>)"

definition gate_offset :: "idt_entry \<Rightarrow> u64" where
  "gate_offset g = ucast (offset_low g) OR push_bit 16 (ucast (offset_mid g)) OR push_bit 32 (ucast (offset_high g))"

text \<open>The type-and-attributes byte: present in bit 7, privilege in bits 5 and 6, type in the low four.\<close>

definition gate_present :: "idt_entry \<Rightarrow> bool" where
  "gate_present g \<longleftrightarrow> bit (type_attr g) 7"

definition gate_dpl :: "idt_entry \<Rightarrow> u8" where
  "gate_dpl g = take_bit 2 (drop_bit 5 (type_attr g))"

definition gate_type :: "idt_entry \<Rightarrow> u8" where
  "gate_type g = take_bit 4 (type_attr g)"

lemma split_offset:
  "(ucast (ucast (a AND 0xFFFF) :: u16) :: u64) OR push_bit 16 (ucast (ucast (drop_bit 16 a AND 0xFFFF) :: u16)) OR
     push_bit 32 (ucast (ucast (drop_bit 32 a AND 0xFFFFFFFF) :: u32)) = (a :: u64)"
proof (rule bit_word_eqI)
  fix n assume "n < LENGTH(64)"
  then consider "n < 16" | "16 \<le> n" "n < 32" | "32 \<le> n" "n < 64" by force
  then show "bit ((ucast (ucast (a AND 0xFFFF) :: u16) :: u64) OR push_bit 16 (ucast (ucast (drop_bit 16 a AND 0xFFFF) :: u16)) OR
     push_bit 32 (ucast (ucast (drop_bit 32 a AND 0xFFFFFFFF) :: u32))) n = bit a n"
    unfolding u64_masks by cases (auto simp: bit_simps)
qed

lemma fold_set_gate:
  "length (fold (\<lambda>i. set_gate i (f i)) [0..<n] t) = length t \<and>
   (\<forall>k < length t. fold (\<lambda>i. set_gate i (f i)) [0..<n] t ! k = (if k < n then set_gate k (f k) t ! k else t ! k))"
proof (induction n)
  case 0
  then show ?case by simp
next
  case (Suc n)
  then show ?case by (auto simp: set_gate_def nth_list_update Let_def less_Suc_eq)
qed

section \<open>Properties\<close>

lemma desc_dpl_entry: "desc_dpl (entry_word base limit access granularity) = take_bit 2 (drop_bit 5 (ucast access))"
proof -
  have "desc_dpl e = take_bit 2 (drop_bit 5 (desc_access e))" for e
    unfolding desc_dpl_def desc_access_def bits_of_def by (rule bit_word_eqI) (auto simp: bit_simps)
  then show ?thesis by (simp add: entry_word_fields)
qed

lemma tss_base:
  "system_base (piece 0 16 103 OR piece 16 24 base OR piece 40 8 0x89 OR piece 56 8 (drop_bit 24 base))
     (take_bit 32 (drop_bit 32 base)) = base"
proof (rule bit_word_eqI)
  fix n assume "n < LENGTH(64)"
  then consider "n < 24" | "24 \<le> n" "n < 32" | "32 \<le> n" "n < 64" by force
  then show "bit (system_base (piece 0 16 103 OR piece 16 24 base OR piece 40 8 0x89 OR piece 56 8 (drop_bit 24 base))
     (take_bit 32 (drop_bit 32 base))) n = bit base n"
    unfolding system_base_def desc_base_def
    by cases (auto simp: bits_of_def [of "take_bit 32 _"] bit_simps)
qed

text \<open>The processor reads back from a descriptor what \<open>gdt_set_entry\<close> was given: the base, the low 20 bits of
  the limit, the access byte and the four flags, however the arguments overlap in the packed word;
  the other descriptors stay as they were.\<close>

theorem gdt_entry_roundtrip:
  assumes "index < length (gdt s)" and "k \<noteq> index"
  shows "(let s' = gdt_set_entry index base limit access granularity s; e = gdt s' ! index in
     desc_base e = ucast base \<and> desc_limit e = ucast (take_bit 20 limit) \<and> desc_access e = ucast access \<and>
     desc_flags e = ucast (take_bit 4 granularity) \<and> gdt s' ! k = gdt s ! k)"
  using assms by (simp add: gdt_set_entry_word entry_word_fields Let_def)

definition blank_segments :: segments where
  "blank_segments = \<lparr>gdt = replicate 7 0, task = \<lparr>reserved0 = 0, rsp0 = 0, rsp1 = 0, rsp2 = 0, reserved1 = 0, ist1 = 0,
     ist2 = 0, ist3 = 0, ist4 = 0, ist5 = 0, ist6 = 0, ist7 = 0, reserved2 = 0, reserved3 = 0, iomap_base = 0\<rparr>,
     stack_top = 0x180000, gdtr_limit = 0, gdtr_base = 0, cs_reg = 0, data_regs = 0, task_reg = 0\<rparr>"

theorem gdt_entry_roundtrip_witness:
  "desc_base (gdt (gdt_set_entry 3 0x12345678 0xABCDE 0xFA 0xA blank_segments) ! 3) = 0x12345678"
  using gdt_entry_roundtrip [of 3 blank_segments 0 "0x12345678" "0xABCDE" "0xFA" "0xA"]
  by (simp add: Let_def blank_segments_def)

text \<open>After \<open>gdt_init\<close> the table holds flat segments, kernel code and data at privilege 0 and user code and data at
  privilege 3, and a task state segment descriptor for the whole 64-bit address of the program's
  segment, whose ring 0 stack is the kernel's; the null entry is untouched, and the selectors the
  kernel loads are those of its own privilege 0 entries.\<close>

theorem gdt_init_segments:
  assumes "length (gdt s) = 7"
  shows "(let s' = gdt_init gdt_address tss_address s; g = gdt s' in
     g ! 0 = gdt s ! 0 \<and>
     map desc_base [g ! 1, g ! 2, g ! 3, g ! 4] = [0, 0, 0, 0] \<and>
     map desc_limit [g ! 1, g ! 2, g ! 3, g ! 4] = [0xFFFFF, 0xFFFFF, 0xFFFFF, 0xFFFFF] \<and>
     map desc_access [g ! 1, g ! 2, g ! 3, g ! 4] = [0x9A, 0x92, 0xFA, 0xF2] \<and>
     map desc_flags [g ! 1, g ! 2, g ! 3, g ! 4] = [0xA, 0xC, 0xA, 0xC] \<and>
     map desc_dpl [g ! 1, g ! 2, g ! 3, g ! 4] = [0, 0, 3, 3] \<and>
     system_base (g ! 5) (g ! 6) = tss_address \<and> desc_limit (g ! 5) = 103 \<and> desc_access (g ! 5) = 0x89 \<and>
     rsp0 (task s') = stack_top s \<and> cs_reg s' = 8 * 1 \<and> data_regs s' = 8 * 2 \<and> task_reg s' = 8 * 5)"
proof -
  define e where "e = piece 0 16 103 OR piece 16 24 tss_address OR piece 40 8 0x89 OR piece 56 8 (drop_bit 24 tss_address)"
  have l: "desc_limit e = 103" "desc_access e = 0x89"
    by (simp_all add: e_def desc_limit_def desc_access_def)
  have b: "system_base e (take_bit 32 (drop_bit 32 tss_address)) = tss_address" unfolding e_def by (rule tss_base)
  show ?thesis
    using assms
    by (simp add: gdt_init_def gdt_set_entry_word gdt_set_tss_entries Let_def entry_word_fields desc_dpl_entry
        GDT_TSS_def l b flip: e_def)
qed

theorem gdt_init_segments_witness:
  "map desc_dpl (map ((!) (gdt (gdt_init 0x1000 0x2000 blank_segments))) [1, 2, 3, 4]) = [0, 0, 3, 3]"
proof -
  have "length (gdt blank_segments) = 7" by (simp add: blank_segments_def)
  from gdt_init_segments [OF this, of "0x1000" "0x2000"] show ?thesis by (simp add: Let_def)
qed

text \<open>C35: After \<open>idt_init\<close> every one of the 256 vectors has a present interrupt gate into the kernel's code segment
  whose three offset pieces make up the address of the vector's own stub, and 0x80 is the only one
  that a program at privilege 3 may call.\<close>

theorem idt_init_gates:
  assumes "length (idt s) = 256" and "n < 256"
  shows "(let g = idt (idt_init idt_address isr_stubs s) ! n in
     gate_offset g = isr_stubs n \<and> selector g = CODE_SEG \<and> gate_present g \<and> gate_type g = 0xE \<and> ist g = 0 \<and>
     gate_dpl g = (if n = 0x80 then 3 else 0))"
proof -
  define t where "t = fold (\<lambda>i. set_gate i (isr_stubs i)) [0..<256] (idt (pic_init s))"
  have "idt (pic_init s) = idt s"
    by (simp add: pic_init_def Let_def outb_def io_wait_def)
  then have t: "length t = 256" "k < 256 \<Longrightarrow> t ! k = set_gate k (isr_stubs k) (idt s) ! k" for k
    using fold_set_gate [of isr_stubs 256 "idt s"] assms(1) by (simp_all add: t_def)
  have gate: "gate_offset (set_gate k (isr_stubs k) (idt s) ! k) = isr_stubs k"
    "selector (set_gate k (isr_stubs k) (idt s) ! k) = CODE_SEG" "ist (set_gate k (isr_stubs k) (idt s) ! k) = 0"
    "type_attr (set_gate k (isr_stubs k) (idt s) ! k) = INT_GATE" if "k < 256" for k
    using that assms(1) split_offset [of "isr_stubs k"] by (simp_all add: set_gate_def gate_offset_def Let_def)
  have i: "idt (idt_init idt_address isr_stubs s) = t[0x80 := (t ! 0x80)\<lparr>type_attr := USER_INT_GATE\<rparr>]"
    by (simp add: idt_init_def Let_def IDT_ENTRIES_def t_def)
  have a: "gate_offset (g\<lparr>type_attr := v\<rparr>) = gate_offset g" for g v by (simp add: gate_offset_def)
  have tys: "bit INT_GATE 7" "bit USER_INT_GATE 7" "take_bit 4 INT_GATE = 0xE" "take_bit 4 USER_INT_GATE = 0xE"
    "take_bit 2 (drop_bit 5 INT_GATE) = 0" "take_bit 2 (drop_bit 5 USER_INT_GATE) = 3"
    by (simp_all add: INT_GATE_def USER_INT_GATE_def)
  show ?thesis
    unfolding i Let_def gate_present_def gate_type_def gate_dpl_def
    using t gate [OF assms(2)] assms(2) tys by (auto simp: nth_list_update a)
qed

definition blank_idt :: idt_state where
  "blank_idt = \<lparr>trace = [], idt = replicate 256 \<lparr>offset_low = 0, selector = 0, ist = 0, type_attr = 0, offset_mid = 0,
     offset_high = 0, reserved = 0\<rparr>, idtr_limit = 0, idtr_base = 0, interrupts_on = False\<rparr>"

theorem idt_init_gates_witness:
  "gate_dpl (idt (idt_init 0 (\<lambda>n. 0x100000 + of_nat n) blank_idt) ! 0x80) = 3 \<and>
   gate_offset (idt (idt_init 0 (\<lambda>n. 0x100000 + of_nat n) blank_idt) ! 33) = 0x100021"
proof -
  have l: "length (idt blank_idt) = 256" by (simp add: blank_idt_def)
  show ?thesis
    using idt_init_gates [OF l, of "0x80" 0 "\<lambda>n. 0x100000 + of_nat n"] idt_init_gates [OF l, of 33 0 "\<lambda>n. 0x100000 + of_nat n"]
    by (simp add: Let_def)
qed

text \<open>After \<open>pic_init\<close> two controllers that follow the 8259's protocol, in whatever state they were, deliver IRQ
  0 to 7 at vectors 32 to 39 and IRQ 8 to 15 at vectors 40 to 47, clear of the processor's
  exceptions, are wired to each other over line 2, and mask every line.\<close>

theorem pic_init_remaps:
  assumes "trace s = []"
  shows "(let c = pic_chip_run PIC1_CMD PIC1_DATA (trace (pic_init s)) c1;
          d = pic_chip_run PIC2_CMD PIC2_DATA (trace (pic_init s)) c2 in
     pic_state c = PicReady \<and> vector_base c = 32 \<and> cascade c = 4 \<and> irq_mask c = 0xFF \<and>
     pic_state d = PicReady \<and> vector_base d = 40 \<and> cascade d = 2 \<and> irq_mask d = 0xFF)"
  using assms by (simp add: trace_pic_init Let_def pic_ports)

theorem pic_init_remaps_witness:
  "vector_base (pic_chip_run PIC2_CMD PIC2_DATA (trace (pic_init blank_idt))
     \<lparr>pic_state = PicMode, vector_base = 8, cascade = 0, irq_mask = 0\<rparr>) = 40"
proof -
  have "trace blank_idt = []" by (simp add: blank_idt_def)
  from pic_init_remaps [OF this] show ?thesis unfolding Let_def by blast
qed

end
