(* ===== verification/Keyboard.thy ===== *)
theory Keyboard
  imports Ports
begin

text \<open>
  The keyboard driver, \<open>src/drivers/keyboard/keyboard.c\<close>: the scan code tables, the modifier keys,
  the interrupt handler and the character ring buffer. The handler hands the characters it decodes
  to the shell (\<open>shell_input\<close>); here it returns them. The ring buffer is shown to implement a
  bounded queue, whose contract is the locale \<open>bounded_queue\<close>.
\<close>

unbundle bit_operations_syntax

record keyboard = ports +
  vga :: "nat \<Rightarrow> u16"
  buf :: string
  buf_head :: u8
  buf_tail :: u8
  keyboard_irq_count :: u64
  shift :: bool
  caps :: bool

definition PS2_DATA :: u16 where "PS2_DATA = 0x60"
definition PS2_STATUS :: u16 where "PS2_STATUS = 0x64"

definition sc_ascii :: string where
  "sc_ascii =
     [CHR 0x00, CHR 0x00] @ ''1234567890-='' @ [CHR 0x08] @
     [CHR 0x09] @ ''qwertyuiop[]'' @ [CHR 0x0A, CHR 0x00] @
     ''asdfghjkl;'' @ [CHR 0x27, CHR 0x60, CHR 0x00, CHR 0x5C] @ ''z'' @
     ''xcvbnm,./'' @ [CHR 0x00] @ ''*'' @ [CHR 0x00] @ '' '' @ [CHR 0x00] @
     replicate 69 (CHR 0x00)"

definition sc_ascii_shift :: string where
  "sc_ascii_shift =
     [CHR 0x00, CHR 0x00] @ ''!@#$%^&*()_+'' @ [CHR 0x08] @
     [CHR 0x09] @ ''QWERTYUIOP{}'' @ [CHR 0x0A, CHR 0x00] @
     ''ASDFGHJKL:'' @ [CHR 0x22, CHR 0x7E, CHR 0x00, CHR 0x7C] @ ''Z'' @
     ''XCVBNM<>?'' @ [CHR 0x00] @ ''*'' @ [CHR 0x00] @ '' '' @ [CHR 0x00] @
     replicate 69 (CHR 0x00)"

section \<open>The ring buffer\<close>

definition buf_push :: "char \<Rightarrow> 'a keyboard_scheme \<Rightarrow> 'a keyboard_scheme" where
  "buf_push c s =
     (let next = buf_head s + 1 in
      if next \<noteq> buf_tail s then s\<lparr>buf := (buf s)[unat (buf_head s) := c], buf_head := next\<rparr> else s)"

definition keyboard_getchar :: "'a keyboard_scheme \<Rightarrow> char \<times> 'a keyboard_scheme" where
  "keyboard_getchar s =
     (if buf_tail s = buf_head s then (CHR 0x00, s)
      else (buf s ! unat (buf_tail s), s\<lparr>buf_tail := buf_tail s + 1\<rparr>))"

section \<open>The interrupt\<close>

definition keyboard_handler :: "device \<Rightarrow> 'a keyboard_scheme \<Rightarrow> char option \<times> 'a keyboard_scheme" where
  "keyboard_handler dev s =
     (let s = s\<lparr>keyboard_irq_count := keyboard_irq_count s + 1\<rparr>;
          (sc, s) = inb dev PS2_DATA s;
          s = s\<lparr>vga := (vga s)(0 := 0x0F00 OR 0x4B)\<rparr>
      in if sc AND 0x80 \<noteq> 0 then
           (let released = sc AND 0x7F in
            (None, if released = 0x2A \<or> released = 0x36 then s\<lparr>shift := False\<rparr> else s))
         else if sc = 0x2A \<or> sc = 0x36 then (None, s\<lparr>shift := True\<rparr>)
         else if sc = 0x3A then (None, s\<lparr>caps := \<not> caps s\<rparr>)
         else if sc \<ge> 128 then (None, s)
         else
           (let c = (if shift s \<noteq> caps s then sc_ascii_shift ! unat sc else sc_ascii ! unat sc)
            in (if c \<noteq> CHR 0x00 then Some c else None, s)))"

definition keyboard_init :: "device \<Rightarrow> 'a keyboard_scheme \<Rightarrow> 'a keyboard_scheme" where
  "keyboard_init dev s =
     (let (msk, s) = inb dev 0x21 s in outb 0x21 (msk AND NOT 2) s)"

section \<open>Bounded queues\<close>

text \<open>
  The contract of a queue of bounded capacity over a state: \<open>put\<close> appends unless the queue is full,
  \<open>get\<close> takes the oldest element, or answers \<open>none\<close>.
\<close>

datatype 'c queue_op = Put 'c | Get

fun queue_run :: "('c \<Rightarrow> 's \<Rightarrow> 's) \<Rightarrow> ('s \<Rightarrow> 'c \<times> 's) \<Rightarrow> 'c queue_op list \<Rightarrow> 's \<Rightarrow> 'c list \<times> 's" where
  "queue_run put get [] s = ([], s)"
| "queue_run put get (Put c # ops) s = queue_run put get ops (put c s)"
| "queue_run put get (Get # ops) s =
     (let (c, s) = get s; (out, s) = queue_run put get ops s in (c # out, s))"

definition spec_put :: "nat \<Rightarrow> 'c \<Rightarrow> 'c list \<Rightarrow> 'c list" where
  "spec_put cap c q = (if length q < cap then q @ [c] else q)"

definition spec_get :: "'c \<Rightarrow> 'c list \<Rightarrow> 'c \<times> 'c list" where
  "spec_get none q = (case q of [] \<Rightarrow> (none, []) | c # q \<Rightarrow> (c, q))"

locale bounded_queue =
  fixes put :: "'c \<Rightarrow> 's \<Rightarrow> 's"
    and get :: "'s \<Rightarrow> 'c \<times> 's"
    and contents :: "'s \<Rightarrow> 'c list"
    and valid :: "'s \<Rightarrow> bool"
    and cap :: nat
    and none :: 'c
  assumes put_valid: "valid s \<Longrightarrow> valid (put c s)"
    and put_contents: "valid s \<Longrightarrow> contents (put c s) = spec_put cap c (contents s)"
    and get_valid: "valid s \<Longrightarrow> valid (snd (get s))"
    and get_contents: "valid s \<Longrightarrow> (fst (get s), contents (snd (get s))) = spec_get none (contents s)"
begin

lemma run_refines:
  "valid s \<Longrightarrow> valid (snd (queue_run put get ops s)) \<and>
     (fst (queue_run put get ops s), contents (snd (queue_run put get ops s))) =
       queue_run (spec_put cap) (spec_get none) ops (contents s)"
proof (induction ops arbitrary: s)
  case Nil
  then show ?case by simp
next
  case (Cons x ops)
  show ?case
  proof (cases x)
    case (Put c)
    then show ?thesis using Cons.IH [of "put c s"] Cons.prems by (simp add: put_valid put_contents)
  next
    case Get
    obtain c t where g: "get s = (c, t)" by (cases "get s")
    have t: "valid t" and c: "spec_get none (contents s) = (c, contents t)"
      using get_valid [OF Cons.prems] get_contents [OF Cons.prems] g by simp_all
    obtain out u where r: "queue_run put get ops t = (out, u)" by (cases "queue_run put get ops t")
    with Cons.IH [OF t] have "valid u" "queue_run (spec_put cap) (spec_get none) ops (contents t) = (out, contents u)"
      by simp_all
    with Get g c r show ?thesis by simp
  qed
qed

lemma spec_bounded:
  "length q \<le> cap \<Longrightarrow> length (snd (queue_run (spec_put cap) (spec_get none) ops q)) \<le> cap"
proof (induction ops arbitrary: q)
  case Nil
  then show ?case by simp
next
  case (Cons x ops)
  show ?case
  proof (cases x)
    case (Put c)
    have "length (spec_put cap c q) \<le> cap" using Cons.prems by (simp add: spec_put_def)
    with Put Cons.IH show ?thesis by simp
  next
    case Get
    obtain c q' where g: "spec_get none q = (c, q')" by (cases "spec_get none q")
    then have "length q' \<le> cap" using Cons.prems by (auto simp: spec_get_def split: list.splits)
    with Get g Cons.IH [of q'] show ?thesis by (simp add: case_prod_beta)
  qed
qed

end

text \<open>The characters waiting in the ring, oldest first.\<close>

definition pending :: "'a keyboard_scheme \<Rightarrow> string" where
  "pending s = map (\<lambda>i. buf s ! ((unat (buf_tail s) + i) mod 256)) [0..<unat (buf_head s - buf_tail s)]"

definition ring_valid :: "'a keyboard_scheme \<Rightarrow> bool" where
  "ring_valid s \<longleftrightarrow> length (buf s) = 256"

lemma u8_offset: "unat (h :: u8) = (unat t + unat (h - t)) mod 256"
proof -
  have "h = t + (h - t)" by simp
  then have "unat h = unat (t + (h - t))" by (rule arg_cong)
  then show ?thesis by (simp only: unat_word_ariths) simp
qed

lemma u8_room: "(h + 1 = (t :: u8)) \<longleftrightarrow> unat (h - t) = 255"
proof -
  have "h + 1 = t \<longleftrightarrow> h - t = - 1"
  proof
    assume "h + 1 = t"
    then have "t = h + 1" by (rule sym)
    then show "h - t = - 1" by simp
  next
    assume "h - t = - 1"
    then have "h = t + - 1" by (simp only: diff_eq_eq add.commute)
    then show "h + 1 = t" by simp
  qed
  also have "\<dots> \<longleftrightarrow> unat (h - t) = unat (- 1 :: u8)" by (simp only: word_unat_eq_iff)
  finally show ?thesis by (simp add: unsigned_minus_1_eq_mask mask_eq_exp_minus_1)
qed

lemma ring_slots_distinct:
  fixes t i n :: nat
  assumes "i < n" and "n < 256"
  shows "(t + n) mod 256 \<noteq> (t + i) mod 256"
proof
  assume "(t + n) mod 256 = (t + i) mod 256"
  then have "256 dvd (t + n) - (t + i)" using assms by (subst (asm) mod_eq_dvd_iff_nat) simp_all
  then have "256 dvd n - i" by simp
  then show False using assms nat_dvd_not_less [of "n - i" 256] by simp
qed

lemma ring_push:
  assumes "ring_valid s"
  shows "pending (buf_push c s) = spec_put 255 c (pending s)"
proof (cases "buf_head s + 1 = buf_tail s")
  case True
  then have "unat (buf_head s - buf_tail s) = 255" by (simp add: u8_room)
  with True show ?thesis by (simp add: buf_push_def spec_put_def pending_def)
next
  case False
  define n where "n = unat (buf_head s - buf_tail s)"
  have n: "n < 255" using False u8_room [of "buf_head s" "buf_tail s"] unat_less_u8 [of "buf_head s - buf_tail s"]
    by (simp add: n_def)
  have hd: "unat (buf_head s) = (unat (buf_tail s) + n) mod 256" unfolding n_def by (rule u8_offset)
  have "buf_head s + 1 - buf_tail s = (buf_head s - buf_tail s) + 1" by simp
  then have n': "unat (buf_head s + 1 - buf_tail s) = Suc n"
    using n by (simp only: unat_word_ariths n_def [symmetric]) simp
  have ne: "unat (buf_head s) \<noteq> (unat (buf_tail s) + i) mod 256" if "i < n" for i
    unfolding hd by (rule ring_slots_distinct) (use that n in simp_all)
  show ?thesis
    using False n assms
    by (simp add: buf_push_def spec_put_def pending_def n' ring_valid_def flip: n_def)
       (simp add: ne hd [symmetric] unat_less_u8)
qed

lemma ring_get:
  assumes "ring_valid s"
  shows "(fst (keyboard_getchar s), pending (snd (keyboard_getchar s))) = spec_get (CHR 0x00) (pending s)"
proof (cases "buf_tail s = buf_head s")
  case True
  then show ?thesis by (simp add: keyboard_getchar_def spec_get_def pending_def)
next
  case False
  define n where "n = unat (buf_head s - (buf_tail s + 1))"
  have "buf_head s - buf_tail s = (buf_head s - (buf_tail s + 1)) + 1" by simp
  moreover have "(buf_head s - (buf_tail s + 1)) + 1 \<noteq> 0" using False by simp
  ultimately have n: "unat (buf_head s - buf_tail s) = Suc n" by (metis add.commute n_def unatSuc)
  have t: "(unat (buf_tail s + 1) + i) mod 256 = (unat (buf_tail s) + Suc i) mod 256" for i
    by (simp only: unat_word_ariths) (simp add: mod_add_left_eq)
  have "pending s = buf s ! unat (buf_tail s) # pending (snd (keyboard_getchar s))"
    using False unat_less_u8 [of "buf_tail s"]
    by (simp add: pending_def keyboard_getchar_def n t map_Suc_upt [symmetric] upt_conv_Cons del: upt_Suc flip: n_def)
  then show ?thesis using False by (simp add: spec_get_def keyboard_getchar_def)
qed

interpretation ring: bounded_queue buf_push keyboard_getchar pending ring_valid 255 "CHR 0x00"
  by unfold_locales
     (simp_all add: ring_push ring_get, simp_all add: ring_valid_def buf_push_def keyboard_getchar_def Let_def)

section \<open>Runs of the interrupt handler\<close>

text \<open>\<open>n\<close> keyboard interrupts in a row and the characters they hand to the shell.\<close>

primrec keyboard_run :: "device \<Rightarrow> nat \<Rightarrow> 'a keyboard_scheme \<Rightarrow> string \<times> 'a keyboard_scheme" where
  "keyboard_run dev 0 s = ([], s)"
| "keyboard_run dev (Suc n) s =
     (let (typed, s) = keyboard_run dev n s; (c, s) = keyboard_handler dev s
      in (typed @ (case c of None \<Rightarrow> [] | Some c \<Rightarrow> [c]), s))"

text \<open>
  What a sequence of scan codes means: whether a shift key is held (the last shift event is a press),
  whether caps lock is on (an odd number of presses), and the text typed.
\<close>

definition shift_press :: "u8 \<Rightarrow> bool" where
  "shift_press sc \<longleftrightarrow> sc = 0x2A \<or> sc = 0x36"

definition shift_release :: "u8 \<Rightarrow> bool" where
  "shift_release sc \<longleftrightarrow> sc = 0xAA \<or> sc = 0xB6"

definition shift_held :: "u8 list \<Rightarrow> bool" where
  "shift_held scs \<longleftrightarrow>
     (\<exists>xs m ys. scs = xs @ m # ys \<and> shift_press m \<and> \<not> list_ex shift_release ys)"

definition caps_on :: "u8 list \<Rightarrow> bool" where
  "caps_on scs \<longleftrightarrow> odd (length (filter ((=) 0x3A) scs))"

definition key_text :: "bool \<Rightarrow> u8 \<Rightarrow> string" where
  "key_text upper sc =
     (if sc < 128 then
        (let c = (if upper then sc_ascii_shift else sc_ascii) ! unat sc in
         if c = CHR 0x00 then [] else [c])
      else [])"

definition typed_text :: "u8 list \<Rightarrow> string" where
  "typed_text scs =
     concat (map (\<lambda>i. key_text (shift_held (take i scs) \<noteq> caps_on (take i scs)) (scs ! i)) [0..<length scs])"

lemma shift_held_Nil: "\<not> shift_held []"
  by (simp add: shift_held_def)

lemma shift_held_snoc:
  "shift_held (scs @ [sc]) \<longleftrightarrow> shift_press sc \<or> (shift_held scs \<and> \<not> shift_release sc)"
proof
  assume "shift_held (scs @ [sc])"
  then obtain xs m ys where e: "scs @ [sc] = xs @ m # ys" and m: "shift_press m" "\<not> list_ex shift_release ys"
    unfolding shift_held_def by blast
  show "shift_press sc \<or> (shift_held scs \<and> \<not> shift_release sc)"
  proof (cases ys rule: rev_cases)
    case Nil
    with e m show ?thesis by simp
  next
    case (snoc zs z)
    with e have "scs = xs @ m # zs" "sc = z" by simp_all
    with m snoc show ?thesis unfolding shift_held_def by auto
  qed
next
  assume "shift_press sc \<or> (shift_held scs \<and> \<not> shift_release sc)"
  then show "shift_held (scs @ [sc])"
  proof
    assume "shift_press sc"
    then show ?thesis unfolding shift_held_def by (intro exI [of _ scs] exI [of _ sc] exI [of _ "[]"]) simp
  next
    assume h: "shift_held scs \<and> \<not> shift_release sc"
    then obtain xs m ys where "scs = xs @ m # ys" "shift_press m" "\<not> list_ex shift_release ys"
      unfolding shift_held_def by blast
    with h show ?thesis
      unfolding shift_held_def by (intro exI [of _ xs] exI [of _ m] exI [of _ "ys @ [sc]"]) simp
  qed
qed

lemma caps_on_snoc: "caps_on (scs @ [sc]) \<longleftrightarrow> (caps_on scs \<noteq> (sc = 0x3A))"
  by (auto simp: caps_on_def)

lemma typed_text_snoc:
  "typed_text (scs @ [sc]) = typed_text scs @ key_text (shift_held scs \<noteq> caps_on scs) sc"
  by (simp add: typed_text_def nth_append, rule arg_cong [where f = concat], rule map_cong) simp_all

lemma sc_tables:
  "sc_ascii ! 42 = CHR 0x00" "sc_ascii ! 54 = CHR 0x00" "sc_ascii ! 58 = CHR 0x00"
  "sc_ascii_shift ! 42 = CHR 0x00" "sc_ascii_shift ! 54 = CHR 0x00" "sc_ascii_shift ! 58 = CHR 0x00"
  by code_simp+

lemma u8_top_bit: "(sc :: u8) AND 0x80 \<noteq> 0 \<longleftrightarrow> 128 \<le> unat sc"
proof -
  have "sc AND 0x80 \<noteq> 0 \<longleftrightarrow> bit sc 7"
    using and_exp_eq_0_iff_not_bit [of sc 7] by simp
  also have "\<dots> \<longleftrightarrow> bit (unat sc) 7" by (simp add: bit_unsigned_iff)
  also have "\<dots> \<longleftrightarrow> odd (unat sc div 128)" by (simp add: bit_iff_odd)
  also have "\<dots> \<longleftrightarrow> 128 \<le> unat sc"
  proof (cases "128 \<le> unat sc")
    case True
    then have "unat sc div 128 = 1" using unat_less_u8 [of sc] by (intro div_nat_eqI) simp_all
    with True show ?thesis by simp
  qed simp
  finally show ?thesis .
qed

lemma unat_low_seven: "unat ((sc :: u8) AND 0x7F) = unat sc mod 128"
proof -
  have "(0x7F :: u8) = mask 7" by (simp add: mask_eq_exp_minus_1)
  then have "sc AND 0x7F = take_bit 7 sc" by (simp only: take_bit_eq_mask)
  then show ?thesis by (simp only: unsigned_take_bit_eq) (simp add: take_bit_eq_mod)
qed

lemma released_shift:
  assumes "128 \<le> unat sc"
  shows "(sc AND 0x7F = 0x2A \<or> sc AND 0x7F = 0x36) \<longleftrightarrow> shift_release sc"
proof -
  have m: "unat sc mod 128 = unat sc - 128"
    using assms unat_less_u8 [of sc] by (simp add: le_mod_geq)
  have e: "sc AND 0x7F = 0x2A \<longleftrightarrow> unat sc = 170" "sc AND 0x7F = 0x36 \<longleftrightarrow> unat sc = 182"
    using assms by (auto simp: word_unat_eq_iff unat_low_seven m)
  then show ?thesis by (simp add: shift_release_def word_unat_eq_iff)
qed

text \<open>One interrupt, in terms of the scan code it reads.\<close>

lemma keyboard_handler_step:
  assumes "sc = dev (trace s) 0x60" and "keyboard_handler dev s = (r, t)"
  shows "(case r of None \<Rightarrow> [] | Some c \<Rightarrow> [c]) = key_text (shift s \<noteq> caps s) sc \<and>
     trace t = trace s @ [In8 0x60 sc] \<and>
     shift t = (shift_press sc \<or> (shift s \<and> \<not> shift_release sc)) \<and>
     caps t = (caps s \<noteq> (sc = 0x3A))"
proof -
  note h = assms(2) [symmetric, unfolded keyboard_handler_def inb_pair PS2_DATA_def Let_def prod.case]
  have small: "sc < 128 \<longleftrightarrow> unat sc < 128" "128 \<le> sc \<longleftrightarrow> 128 \<le> unat sc"
    by (simp_all add: word_less_nat_alt word_le_nat_alt)
  consider "128 \<le> unat sc" | "sc = 0x2A" | "sc = 0x36" | "sc = 0x3A"
    | "unat sc < 128" "sc \<noteq> 0x2A" "sc \<noteq> 0x36" "sc \<noteq> 0x3A" by fastforce
  then show ?thesis
  proof cases
    case 1
    then have "sc \<noteq> 0x2A" "sc \<noteq> 0x36" "sc \<noteq> 0x3A" by (auto simp: word_unat_eq_iff)
    with 1 h show ?thesis
      by (auto simp: assms(1) [symmetric] u8_top_bit released_shift small key_text_def shift_press_def)
  next
    case 5
    then have "\<not> shift_release sc" by (auto simp: shift_release_def)
    with 5 h show ?thesis
      by (auto simp: assms(1) [symmetric] u8_top_bit small key_text_def shift_press_def Let_def)
  qed (use h in \<open>auto simp: assms(1) [symmetric] u8_top_bit small key_text_def shift_press_def
      shift_release_def sc_tables\<close>)
qed

text \<open>C32: However many keys are pressed and released, the keyboard handler reads one scan code per interrupt,
  and what it hands to the shell is the text those codes type: each make code below 128 gives the
  character of the plain or of the shifted table, the shifted one when exactly one of \<open>a shift key's
  last event was a press\<close> and \<open>caps lock was pressed an odd number of times\<close> holds; break codes,
  the modifiers themselves and codes without a character give nothing.\<close>

theorem keyboard_types_text:
  "\<exists>scs. length scs = n \<and>
     trace (snd (keyboard_run dev n (s\<lparr>shift := False, caps := False\<rparr>))) = trace s @ map (In8 0x60) scs \<and>
     fst (keyboard_run dev n (s\<lparr>shift := False, caps := False\<rparr>)) = typed_text scs \<and>
     shift (snd (keyboard_run dev n (s\<lparr>shift := False, caps := False\<rparr>))) = shift_held scs \<and>
     caps (snd (keyboard_run dev n (s\<lparr>shift := False, caps := False\<rparr>))) = caps_on scs"
proof (induction n)
  case 0
  show ?case by (simp add: typed_text_def shift_held_Nil caps_on_def)
next
  case (Suc n)
  obtain typed t where r: "keyboard_run dev n (s\<lparr>shift := False, caps := False\<rparr>) = (typed, t)" by (rule prod.exhaust)
  with Suc obtain scs where scs: "length scs = n" "trace t = trace s @ map (In8 0x60) scs"
      "typed = typed_text scs" "shift t = shift_held scs" "caps t = caps_on scs" by auto
  obtain c u where h: "keyboard_handler dev t = (c, u)" by (rule prod.exhaust)
  note step = keyboard_handler_step [OF refl h]
  show ?case
    by (rule exI [of _ "scs @ [dev (trace t) 0x60]"])
       (use r h scs step in \<open>simp add: typed_text_snoc shift_held_snoc caps_on_snoc\<close>)
qed

text \<open>C13: The character buffer is a bounded queue: whatever sequence of insertions and removals is run on
  it, from an empty buffer of 256 bytes and any position of the indices, the characters taken out
  are those of an abstract queue that holds at most 255 characters, drops insertions when it is full
  and answers 0 when it is empty, and the characters left in the ring are the queue's.\<close>

theorem keyboard_buffer_is_queue:
  assumes "length (buf s) = 256" and "buf_head s = buf_tail s"
  shows "(fst (queue_run buf_push keyboard_getchar ops s),
      pending (snd (queue_run buf_push keyboard_getchar ops s))) =
    queue_run (spec_put 255) (spec_get (CHR 0x00)) ops [] \<and>
    length (pending (snd (queue_run buf_push keyboard_getchar ops s))) \<le> 255"
proof -
  have v: "ring_valid s" and p: "pending s = []" using assms by (simp_all add: ring_valid_def pending_def)
  have r: "(fst (queue_run buf_push keyboard_getchar ops s),
      pending (snd (queue_run buf_push keyboard_getchar ops s))) =
    queue_run (spec_put 255) (spec_get (CHR 0x00)) ops []"
    using ring.run_refines [OF v, of ops] p by simp
  moreover have "length (snd (queue_run (spec_put 255) (spec_get (CHR 0x00)) ops [])) \<le> 255"
    by (rule ring.spec_bounded) simp
  ultimately show ?thesis by (metis snd_conv)
qed

definition empty_keyboard :: keyboard where
  "empty_keyboard = \<lparr>trace = [], vga = (\<lambda>_. 0), buf = replicate 256 (CHR 0x00), buf_head = 250, buf_tail = 250,
     keyboard_irq_count = 0, shift = False, caps = False\<rparr>"

theorem keyboard_buffer_is_queue_witness:
  "fst (queue_run buf_push keyboard_getchar [Put (CHR ''a''), Put (CHR ''b''), Get, Get, Get] empty_keyboard) =
     [CHR ''a'', CHR ''b'', CHR 0x00]"
proof -
  have "queue_run (spec_put 255) (spec_get (CHR 0x00)) [Put (CHR ''a''), Put (CHR ''b''), Get, Get, Get] [] =
      ([CHR ''a'', CHR ''b'', CHR 0x00], [])"
    by (simp add: spec_put_def spec_get_def)
  moreover have "length (buf empty_keyboard) = 256" "buf_head empty_keyboard = buf_tail empty_keyboard"
    by (simp_all add: empty_keyboard_def)
  ultimately show ?thesis
    using keyboard_buffer_is_queue [of empty_keyboard "[Put (CHR ''a''), Put (CHR ''b''), Get, Get, Get]"]
    by (metis prod.inject)
qed

end
