(* ===== verification/Mouse.thy ===== *)
theory Mouse
  imports Keyboard C_Division
begin

text \<open>
  The PS/2 mouse driver, \<open>src/drivers/mouse/mouse.c\<close>: the controller handshake and the device set-up
  (\<open>mouse_init\<close>), the assembly of packets by the interrupt handler, and \<open>mouse_tick\<close>, which turns a
  packet into a movement of the pointer. The size of the screen (\<open>fb_width()\<close>, \<open>fb_height()\<close>) is an
  argument, \<open>packet\<close> the C array of four bytes. The state extends that of the keyboard: both devices
  sit behind the same controller ports.
\<close>

unbundle bit_operations_syntax

record input = keyboard +
  mouse_irq_count :: u64
  mouse_x :: int
  mouse_y :: int
  packet :: "u8 list"
  packet_index :: u8
  packet_ready :: bool
  packet_size :: int
  scroll_accum :: int
  buttons :: u8

definition PS2_COMMAND :: u16 where "PS2_COMMAND = 0x64"
definition PS2_TIMEOUT :: nat where "PS2_TIMEOUT = 100000"

section \<open>The controller\<close>

fun mouse_poll_write :: "device \<Rightarrow> nat \<Rightarrow> 'a ports_scheme \<Rightarrow> int \<times> 'a ports_scheme" where
  "mouse_poll_write dev 0 s = (-1, s)"
| "mouse_poll_write dev (Suc n) s =
     (let (v, s) = inb dev PS2_STATUS s in
      if v AND 0x02 = 0 then (0, s) else mouse_poll_write dev n s)"

fun mouse_poll_read :: "device \<Rightarrow> nat \<Rightarrow> 'a ports_scheme \<Rightarrow> int \<times> 'a ports_scheme" where
  "mouse_poll_read dev 0 s = (-1, s)"
| "mouse_poll_read dev (Suc n) s =
     (let (v, s) = inb dev PS2_STATUS s in
      if v AND 0x01 \<noteq> 0 then (0, s) else mouse_poll_read dev n s)"

definition mouse_wait_write :: "device \<Rightarrow> 'a ports_scheme \<Rightarrow> int \<times> 'a ports_scheme" where
  "mouse_wait_write dev s = mouse_poll_write dev PS2_TIMEOUT s"

definition mouse_wait_read :: "device \<Rightarrow> 'a ports_scheme \<Rightarrow> int \<times> 'a ports_scheme" where
  "mouse_wait_read dev s = mouse_poll_read dev PS2_TIMEOUT s"

definition mouse_write :: "device \<Rightarrow> u8 \<Rightarrow> 'a ports_scheme \<Rightarrow> int \<times> 'a ports_scheme" where
  "mouse_write dev data s =
     (let (r, s) = mouse_wait_write dev s in
      if r \<noteq> 0 then (-1, s)
      else
        (let s = outb PS2_COMMAND 0xD4 s; (r, s) = mouse_wait_write dev s in
         if r \<noteq> 0 then (-1, s) else (0, outb PS2_DATA data s)))"

text \<open>A read that times out leaves \<open>*out\<close> alone: \<open>None\<close>.\<close>

definition mouse_read :: "device \<Rightarrow> 'a ports_scheme \<Rightarrow> u8 option \<times> 'a ports_scheme" where
  "mouse_read dev s =
     (let (r, s) = mouse_wait_read dev s in
      if r \<noteq> 0 then (None, s) else (let (v, s) = inb dev PS2_DATA s in (Some v, s)))"

text \<open>\<open>mouse_write(v); mouse_read(&ack);\<close> with both results ignored.\<close>

definition mouse_send :: "device \<Rightarrow> u8 \<Rightarrow> 'a ports_scheme \<Rightarrow> 'a ports_scheme" where
  "mouse_send dev data s = snd (mouse_read dev (snd (mouse_write dev data s)))"

text \<open>The three rates that switch the wheel on, and the request for the device's id.\<close>

definition mouse_identify :: "device \<Rightarrow> 'a input_scheme \<Rightarrow> 'a input_scheme" where
  "mouse_identify dev s =
     (let s = mouse_send dev 0xF3 s;
          s = mouse_send dev 200 s;
          s = mouse_send dev 0xF3 s;
          s = mouse_send dev 100 s;
          s = mouse_send dev 0xF3 s;
          s = mouse_send dev 80 s;
          s = mouse_send dev 0xF2 s;
          (device_id, s) = mouse_read dev s
      in if device_id = Some 3 then s\<lparr>packet_size := 4\<rparr> else s)"

definition mouse_init :: "device \<Rightarrow> int \<Rightarrow> int \<Rightarrow> 'a input_scheme \<Rightarrow> 'a input_scheme" where
  "mouse_init dev width height s =
     (let (r, s) = mouse_wait_write dev s in
      if r \<noteq> 0 then s
      else
        (let s = outb PS2_COMMAND 0xA8 s; (r, s) = mouse_wait_write dev s in
         if r \<noteq> 0 then s
         else
           (let s = outb PS2_COMMAND 0x60 s; (r, s) = mouse_wait_write dev s in
            if r \<noteq> 0 then s
            else
              (let s = outb PS2_DATA 0x47 s; (r, s) = mouse_write dev 0xF6 s in
               if r \<noteq> 0 then s
               else
                 (let (ack, s) = mouse_read dev s in
                  if ack = None then s
                  else
                    (let s = mouse_identify dev s; (r, s) = mouse_write dev 0xF4 s in
                     if r \<noteq> 0 then s
                     else
                       (let (ack, s) = mouse_read dev s in
                        if ack = None then s
                        else
                          (let (slave_mask, s) = inb dev 0xA1 s;
                               s = outb 0xA1 (slave_mask AND NOT 0x10) s;
                               (master_mask, s) = inb dev 0x21 s;
                               s = outb 0x21 (master_mask AND NOT 0x04) s
                           in s\<lparr>mouse_x := width sdiv 2, mouse_y := height sdiv 2\<rparr>))))))))"

section \<open>Packets\<close>

definition mouse_handler :: "device \<Rightarrow> 'a input_scheme \<Rightarrow> 'a input_scheme" where
  "mouse_handler dev s =
     (let s = s\<lparr>mouse_irq_count := mouse_irq_count s + 1\<rparr>;
          (byte, s) = inb dev PS2_DATA s
      in if packet_index s = 0 \<and> byte AND 0x08 = 0 then s
         else
           (let s = s\<lparr>packet := (packet s)[unat (packet_index s) := byte],
                     packet_index := packet_index s + 1\<rparr>
            in if uint (packet_index s) = packet_size s
               then s\<lparr>packet_index := 0, packet_ready := True\<rparr> else s))"

definition mouse_tick :: "int \<Rightarrow> int \<Rightarrow> 'a input_scheme \<Rightarrow> int \<times> 'a input_scheme" where
  "mouse_tick width height s =
     (if \<not> packet_ready s then (0, s)
      else
        (let s = s\<lparr>packet_ready := False\<rparr>;
             new_buttons = packet s ! 0 AND 0x07;
             dx = sint (packet s ! 1);
             dy = - sint (packet s ! 2);
             dx = (if packet s ! 0 AND 0x40 \<noteq> 0 then 0 else dx);
             dy = (if packet s ! 0 AND 0x80 \<noteq> 0 then 0 else dy);
             new_x = mouse_x s + dx;
             new_y = mouse_y s + dy;
             new_x = (if new_x < 0 then 0 else new_x);
             new_y = (if new_y < 0 then 0 else new_y);
             new_x = (if new_x \<ge> width then width - 1 else new_x);
             new_y = (if new_y \<ge> height then height - 1 else new_y);
             dz = (if packet_size s = 4 then sint (packet s ! 3) else 0);
             s = (if dz \<noteq> 0 then s\<lparr>scroll_accum := scroll_accum s + dz\<rparr> else s)
         in if new_x = mouse_x s \<and> new_y = mouse_y s \<and> new_buttons = buttons s \<and> dz = 0 then (0, s)
            else (1, s\<lparr>mouse_x := new_x, mouse_y := new_y, buttons := new_buttons\<rparr>)))"

definition mouse_get_scroll :: "'a input_scheme \<Rightarrow> int \<times> 'a input_scheme" where
  "mouse_get_scroll s = (scroll_accum s, s\<lparr>scroll_accum := 0\<rparr>)"

definition mouse_get_x :: "'a input_scheme \<Rightarrow> int" where "mouse_get_x s = mouse_x s"
definition mouse_get_y :: "'a input_scheme \<Rightarrow> int" where "mouse_get_y s = mouse_y s"
definition mouse_left :: "'a input_scheme \<Rightarrow> u8" where "mouse_left s = buttons s AND 1"
definition mouse_right :: "'a input_scheme \<Rightarrow> u8" where "mouse_right s = buttons s AND 2"
definition mouse_middle :: "'a input_scheme \<Rightarrow> u8" where "mouse_middle s = buttons s AND 4"

record mouse_state =
  state_x :: int
  state_y :: int
  state_left :: u8
  state_right :: u8
  state_middle :: u8

definition mouse_get_state :: "'a input_scheme \<Rightarrow> mouse_state" where
  "mouse_get_state s =
     \<lparr>state_x = mouse_x s, state_y = mouse_y s, state_left = mouse_left s,
       state_right = mouse_right s, state_middle = mouse_middle s\<rparr>"

section \<open>Properties\<close>

text \<open>The pointer is on the screen, and the packet buffer is indexed inside its four bytes.\<close>

definition mouse_ok :: "int \<Rightarrow> int \<Rightarrow> 'a input_scheme \<Rightarrow> bool" where
  "mouse_ok width height s \<longleftrightarrow>
     0 \<le> mouse_x s \<and> mouse_x s < width \<and> 0 \<le> mouse_y s \<and> mouse_y s < height \<and>
     (packet_size s = 3 \<or> packet_size s = 4) \<and> uint (packet_index s) < packet_size s \<and>
     length (packet s) = 4"

datatype mouse_event = MouseIrq | MouseTick | MouseScroll

fun mouse_step :: "device \<Rightarrow> int \<Rightarrow> int \<Rightarrow> mouse_event \<Rightarrow> 'a input_scheme \<Rightarrow> 'a input_scheme" where
  "mouse_step dev width height MouseIrq s = mouse_handler dev s"
| "mouse_step dev width height MouseTick s = snd (mouse_tick width height s)"
| "mouse_step dev width height MouseScroll s = snd (mouse_get_scroll s)"

text \<open>Bringing a coordinate back on the screen, as \<open>mouse_tick\<close> does.\<close>

definition on_screen :: "int \<Rightarrow> int \<Rightarrow> int" where
  "on_screen limit v = max 0 (min (limit - 1) v)"

lemma uint_u8_step:
  assumes "uint (i :: u8) < 4"
  shows "uint (i + 1) = uint i + 1"
  using assms by (simp add: uint_word_ariths)

lemma mouse_handler_ok:
  assumes "mouse_ok width height s"
  shows "mouse_ok width height (mouse_handler dev s)"
proof -
  have "uint (packet_index s) < 4" using assms by (auto simp: mouse_ok_def)
  from uint_u8_step [OF this] assms show ?thesis
    by (auto simp: mouse_ok_def mouse_handler_def inb_pair Let_def)
qed

lemma mouse_clip:
  "0 < w \<Longrightarrow> (if w \<le> (if v < 0 then 0 else v) then w - 1 else (if v < 0 then 0 else v)) = on_screen w v"
  by (simp add: on_screen_def)

lemma mouse_tick_clipped:
  assumes "packet_ready s" and "0 < width" and "0 < height"
  defines "X \<equiv> on_screen width (mouse_x s + (if packet s ! 0 AND 0x40 \<noteq> 0 then 0 else sint (packet s ! 1)))"
    and "Y \<equiv> on_screen height (mouse_y s + (if packet s ! 0 AND 0x80 \<noteq> 0 then 0 else - sint (packet s ! 2)))"
    and "dz \<equiv> (if packet_size s = 4 then sint (packet s ! 3) else 0)"
  shows "mouse_tick width height s =
     (let t = (if dz \<noteq> 0 then s\<lparr>packet_ready := False, scroll_accum := scroll_accum s + dz\<rparr> else s\<lparr>packet_ready := False\<rparr>) in
      if X = mouse_x s \<and> Y = mouse_y s \<and> packet s ! 0 AND 0x07 = buttons s \<and> dz = 0 then (0, t)
      else (1, t\<lparr>mouse_x := X, mouse_y := Y, buttons := packet s ! 0 AND 0x07\<rparr>))"
proof -
  have e: "mouse_x (if d \<noteq> 0 then s\<lparr>packet_ready := False, scroll_accum := scroll_accum s + d\<rparr> else s\<lparr>packet_ready := False\<rparr>) = mouse_x s"
    "mouse_y (if d \<noteq> 0 then s\<lparr>packet_ready := False, scroll_accum := scroll_accum s + d\<rparr> else s\<lparr>packet_ready := False\<rparr>) = mouse_y s"
    "buttons (if d \<noteq> 0 then s\<lparr>packet_ready := False, scroll_accum := scroll_accum s + d\<rparr> else s\<lparr>packet_ready := False\<rparr>) = buttons s"
    for d by simp_all
  have sel: "mouse_x (s\<lparr>packet_ready := False\<rparr>) = mouse_x s" "mouse_y (s\<lparr>packet_ready := False\<rparr>) = mouse_y s"
    "packet (s\<lparr>packet_ready := False\<rparr>) = packet s" "packet_size (s\<lparr>packet_ready := False\<rparr>) = packet_size s"
    "scroll_accum (s\<lparr>packet_ready := False\<rparr>) = scroll_accum s"
    by simp_all
  show ?thesis
    using assms(1)
    by (simp only: mouse_tick_def Let_def X_def Y_def dz_def mouse_clip [OF assms(2)] mouse_clip [OF assms(3)]
        not_True_eq_False if_False sel e cong: if_cong)
qed

lemma mouse_tick_moves:
  assumes "packet_ready s" and "0 < width" and "0 < height"
  shows "mouse_x (snd (mouse_tick width height s)) =
      on_screen width (mouse_x s + (if packet s ! 0 AND 0x40 \<noteq> 0 then 0 else sint (packet s ! 1)))"
    and "mouse_y (snd (mouse_tick width height s)) =
      on_screen height (mouse_y s + (if packet s ! 0 AND 0x80 \<noteq> 0 then 0 else - sint (packet s ! 2)))"
    and "buttons (snd (mouse_tick width height s)) = packet s ! 0 AND 0x07"
    and "scroll_accum (snd (mouse_tick width height s)) =
      scroll_accum s + (if packet_size s = 4 then sint (packet s ! 3) else 0)"
  unfolding mouse_tick_clipped [OF assms] by (simp_all add: Let_def del: One_nat_def)

lemma mouse_tick_frame [simp]:
  "packet_size (snd (mouse_tick width height s)) = packet_size s"
  "packet_index (snd (mouse_tick width height s)) = packet_index s"
  "packet (snd (mouse_tick width height s)) = packet s"
  by (simp_all add: mouse_tick_def Let_def del: One_nat_def)

lemma mouse_step_ok:
  assumes "mouse_ok width height s"
  shows "mouse_ok width height (mouse_step dev width height e s)"
proof (cases e)
  case MouseIrq
  with assms mouse_handler_ok show ?thesis by simp
next
  case MouseTick
  have "0 < width" "0 < height" using assms by (auto simp: mouse_ok_def)
  note moves = mouse_tick_moves [OF _ this]
  show ?thesis
  proof (cases "packet_ready s")
    case False
    with MouseTick assms show ?thesis by (simp add: mouse_tick_def)
  next
    case True
    have "0 \<le> on_screen l v \<and> on_screen l v < l" if "0 < l" for l v
      using that by (simp add: on_screen_def)
    then show ?thesis
      using MouseTick assms \<open>0 < width\<close> \<open>0 < height\<close> unfolding mouse_ok_def
      by (simp add: moves [OF True])
  qed
next
  case MouseScroll
  with assms show ?thesis by (simp add: mouse_get_scroll_def mouse_ok_def)
qed

text \<open>C33: Whatever bytes the mouse sends and however its interrupts, the polling of \<open>mouse_tick\<close> and the
  reading of the wheel interleave, the pointer stays inside the screen and the packet assembly never
  indexes outside the four bytes of \<open>packet\<close>: the next byte goes to a position below \<open>packet_size\<close>,
  which is 3 or 4.\<close>

theorem mouse_stays_on_screen:
  assumes "mouse_ok width height s"
  shows "mouse_ok width height (fold (mouse_step dev width height) events s)"
  using assms by (induction events arbitrary: s) (simp_all add: mouse_step_ok)

definition mouse_at_rest :: input where
  "mouse_at_rest = \<lparr>trace = [], vga = (\<lambda>_. 0), buf = replicate 256 (CHR 0x00), buf_head = 0, buf_tail = 0,
     keyboard_irq_count = 0, shift = False, caps = False, mouse_irq_count = 0, mouse_x = 100, mouse_y = 1,
     packet = [0, 0, 0, 0], packet_index = 0, packet_ready = False, packet_size = 3, scroll_accum = 0,
     buttons = 0\<rparr>"

theorem mouse_stays_on_screen_witness:
  "mouse_ok 640 480 (fold (mouse_step (\<lambda>_ _. 0x7F) 640 480)
     [MouseIrq, MouseIrq, MouseIrq, MouseTick, MouseScroll] mouse_at_rest)"
  by (rule mouse_stays_on_screen) (simp add: mouse_ok_def mouse_at_rest_def)

text \<open>The interrupt that finds the byte \<open>b\<close> in the data port.\<close>

definition mouse_byte :: "u8 \<Rightarrow> 'a input_scheme \<Rightarrow> 'a input_scheme" where
  "mouse_byte b s = mouse_handler (\<lambda>_ _. b) s"

lemma mouse_byte_stray:
  "packet_index s = 0 \<Longrightarrow> b AND 0x08 = 0 \<Longrightarrow>
     packet_index (mouse_byte b s) = 0 \<and> packet (mouse_byte b s) = packet s \<and>
     packet_size (mouse_byte b s) = packet_size s \<and> mouse_x (mouse_byte b s) = mouse_x s \<and>
     mouse_y (mouse_byte b s) = mouse_y s \<and> scroll_accum (mouse_byte b s) = scroll_accum s"
  by (simp add: mouse_byte_def mouse_handler_def inb_pair Let_def)

lemma mouse_strays:
  "packet_index s = 0 \<Longrightarrow> list_all (\<lambda>b. b AND 0x08 = 0) bs \<Longrightarrow>
     packet_index (fold mouse_byte bs s) = 0 \<and> packet (fold mouse_byte bs s) = packet s \<and>
     packet_size (fold mouse_byte bs s) = packet_size s \<and> mouse_x (fold mouse_byte bs s) = mouse_x s \<and>
     mouse_y (fold mouse_byte bs s) = mouse_y s \<and> scroll_accum (fold mouse_byte bs s) = scroll_accum s"
  by (induction bs arbitrary: s) (simp_all add: mouse_byte_stray)

lemma mouse_packet:
  assumes "packet_index s = 0" and "length (packet s) = 4" and "packet_size s = 3" and "a AND 0x08 \<noteq> 0"
  shows "(let t = mouse_byte c (mouse_byte b (mouse_byte a s)) in
     packet_ready t \<and> packet_index t = 0 \<and> packet_size t = 3 \<and> packet t ! 0 = a \<and> packet t ! 1 = b \<and> packet t ! 2 = c \<and>
     mouse_x t = mouse_x s \<and> mouse_y t = mouse_y s \<and> scroll_accum t = scroll_accum s)"
  using assms by (simp add: mouse_byte_def mouse_handler_def inb_pair Let_def)

text \<open>The driver finds the packet boundary and moves the pointer as the packet says: bytes without
  the always-set bit 3 are skipped until a packet starts, and the next three bytes, then polled,
  move the pointer by the two signed displacements (up being positive in the packet and towards
  smaller \<open>y\<close> on the screen; a displacement flagged as overflown counts as 0), clipped to the
  screen, set the buttons and leave the wheel alone.\<close>

theorem mouse_packet_moves_pointer:
  assumes "packet_index s = 0" and "length (packet s) = 4" and "packet_size s = 3"
    and "0 < width" and "0 < height" and "list_all (\<lambda>b. b AND 0x08 = 0) strays" and "a AND 0x08 \<noteq> 0"
  shows "(let t = snd (mouse_tick width height (fold mouse_byte (strays @ [a, b, c]) s)) in
     mouse_x t = on_screen width (mouse_x s + (if a AND 0x40 \<noteq> 0 then 0 else sint b)) \<and>
     mouse_y t = on_screen height (mouse_y s - (if a AND 0x80 \<noteq> 0 then 0 else sint c)) \<and>
     buttons t = a AND 0x07 \<and> scroll_accum t = scroll_accum s \<and> packet_index t = 0)"
proof -
  define u where "u = fold mouse_byte strays s"
  note u = mouse_strays [OF assms(1,6), folded u_def]
  have f: "fold mouse_byte (strays @ [a, b, c]) s = mouse_byte c (mouse_byte b (mouse_byte a u))"
    by (simp add: u_def)
  define p where "p = mouse_byte c (mouse_byte b (mouse_byte a u))"
  have p: "packet_ready p" "packet_index p = 0" "packet_size p = 3" "packet p ! 0 = a" "packet p ! 1 = b"
      "packet p ! 2 = c" "mouse_x p = mouse_x s" "mouse_y p = mouse_y s" "scroll_accum p = scroll_accum s"
    using mouse_packet [of u a c b] u assms by (simp_all add: Let_def p_def)
  show ?thesis
    unfolding f p_def [symmetric] Let_def
    by (simp only: mouse_tick_moves [OF p(1) assms(4,5)] p mouse_tick_frame) simp
qed

theorem mouse_packet_moves_pointer_witness:
  "(let t = snd (mouse_tick 640 480 (fold mouse_byte ([0x01, 0x42] @ [0x09, 0xFE, 0x10]) mouse_at_rest)) in
     mouse_x t = 98 \<and> mouse_y t = 0 \<and> buttons t = 1)"
proof -
  have h: "packet_index mouse_at_rest = 0" "length (packet mouse_at_rest) = 4" "packet_size mouse_at_rest = 3"
      "(0 :: int) < 640" "(0 :: int) < 480" "list_all (\<lambda>b. b AND 0x08 = 0) [0x01, 0x42 :: u8]" "(0x09 :: u8) AND 0x08 \<noteq> 0"
    by (simp_all add: mouse_at_rest_def)
  have v: "on_screen 640 (mouse_x mouse_at_rest + (if (0x09 :: u8) AND 0x40 \<noteq> 0 then 0 else sint (0xFE :: u8))) = 98"
      "on_screen 480 (mouse_y mouse_at_rest - (if (0x09 :: u8) AND 0x80 \<noteq> 0 then 0 else sint (0x10 :: u8))) = 0"
      "(0x09 :: u8) AND 0x07 = 1"
    by (simp_all add: mouse_at_rest_def on_screen_def)
  show ?thesis using mouse_packet_moves_pointer [OF h, of "0xFE" "0x10"] unfolding Let_def v by blast
qed

end
