(* ===== verification/Interrupts.thy ===== *)
theory Interrupts
  imports Process Syscalls Mouse Clock
begin

text \<open>
  The common interrupt handler, \<open>isr_handler\<close> of \<open>src/idt.c\<close>: the system call gate, the exception
  screen, and the dispatch of the hardware interrupts to the timer and scheduler, the keyboard and
  the mouse. The state puts together what those components keep. What the keyboard calls with a
  character, \<open>shell_input\<close>, acts on more than that state: it is a parameter here (\<open>sh\<close>), called at the place
  of the call, and \<open>Startup\<close> instantiates it with the shell. It may not return (\<open>None\<close>): then nor does the handler.
\<close>

unbundle bit_operations_syntax

record platform = input +
  kern :: kernel
  clk :: clock

datatype isr_outcome = Returned "interrupt_frame option" | Halted

definition on_kern :: "(kernel \<Rightarrow> kernel) \<Rightarrow> 'a platform_scheme \<Rightarrow> 'a platform_scheme" where
  "on_kern f s = s\<lparr>kern := f (kern s)\<rparr>"

definition exc_names :: "string list" where
  "exc_names =
     [''Division Error'', ''Debug'', ''NMI'', ''Breakpoint'', ''Overflow'', ''Bound Range'', ''Invalid Opcode'',
      ''Device Not Available'', ''Double Fault'', ''Coprocessor Seg Overrun'', ''Invalid TSS'',
      ''Segment Not Present'', ''Stack Fault'', ''General Protection Fault'', ''Page Fault'', ''Reserved'',
      ''x87 FPU Error'', ''Alignment Check'', ''Machine Check'', ''SIMD Exception'', ''Virtualization'',
      ''Control Protection'', ''Reserved'', ''Reserved'', ''Reserved'', ''Reserved'', ''Reserved'', ''Reserved'',
      ''Hypervisor Injection'', ''VMM Communication'', ''Security Exception'', ''Reserved'']"

section \<open>The text screen\<close>

fun vga_puts :: "string \<Rightarrow> nat \<Rightarrow> u16 \<Rightarrow> (nat \<Rightarrow> u16) \<Rightarrow> (nat \<Rightarrow> u16)" where
  "vga_puts [] col attr v = v"
| "vga_puts (c # s) col attr v = vga_puts s (col + 1) attr (v(col := attr OR of_char c))"

text \<open>\<open>0x\<close>, then the sixteen digits from the top nibble down (\<open>n\<close> nibbles are left).\<close>

fun vga_nibbles :: "nat \<Rightarrow> u64 \<Rightarrow> nat \<Rightarrow> (nat \<Rightarrow> u16) \<Rightarrow> (nat \<Rightarrow> u16)" where
  "vga_nibbles 0 w col v = v"
| "vga_nibbles (Suc n) w col v =
     vga_nibbles n w (col + 1) (v(col := 0x0F00 OR of_char (hex_char (unat (drop_bit (4 * n) w AND 0xF)))))"

definition vga_puthex :: "u64 \<Rightarrow> nat \<Rightarrow> (nat \<Rightarrow> u16) \<Rightarrow> (nat \<Rightarrow> u16)" where
  "vga_puthex w col v =
     vga_nibbles 16 w (col + 2) (v(col := 0x0F00 OR of_char (CHR ''0''), col + 1 := 0x0F00 OR of_char (CHR ''x'')))"

definition term_puthex64 :: "u64 \<Rightarrow> kernel \<Rightarrow> kernel" where
  "term_puthex64 w k = print_k (''0x'' @ hex_loop 16 w []) k"

definition exception_vga :: "nat \<Rightarrow> interrupt_frame \<Rightarrow> (nat \<Rightarrow> u16) \<Rightarrow> (nat \<Rightarrow> u16)" where
  "exception_vga n fr v =
     (let v = fold (\<lambda>i v. v(i := 0x4F00 OR of_char (CHR '' ''))) [80..<160] v;
          v = vga_puts ''EXCEPTION #'' 80 0x4F00 v;
          v = v(91 := 0x4F00 OR (of_nat (48 + n div 10)));
          v = v(92 := 0x4F00 OR (of_nat (48 + n mod 10)));
          v = vga_puts ''  '' 93 0x4F00 v;
          v = vga_puts (exc_names ! n) 95 0x4F00 v;
          v = vga_puts ''  ERR='' 120 0x4F00 v;
          v = vga_puthex (error_code fr) 126 v;
          v = vga_puts ''  RIP='' 144 0x4F00 v
      in vga_puthex (rip fr) 150 v)"

definition exception_report :: "nat \<Rightarrow> interrupt_frame \<Rightarrow> kernel \<Rightarrow> kernel" where
  "exception_report n fr k =
     (let k = print_k ''\<newline>!! CPU EXCEPTION #'' k;
          k = print_k [char_of (48 + n div 10), char_of (48 + n mod 10)] k;
          k = print_k ''  '' k;
          k = print_k (exc_names ! n) k;
          k = print_k ''\<newline>ERR='' k;
          k = term_puthex64 (error_code fr) k;
          k = print_k ''  RIP='' k;
          k = term_puthex64 (rip fr) k;
          k = print_k ''  CS='' k;
          k = term_puthex64 (cs fr) k;
          k = print_k ''\<newline>'' k
      in present_k k)"

section \<open>Dispatch\<close>

text \<open>
  The hardware interrupts, without the end-of-interrupt: the frame to return to and the state. The last statement of
  \<open>keyboard_handler\<close> calls the shell with the character, if there is one.
\<close>

definition irq_dispatch ::
  "device \<Rightarrow> (char \<Rightarrow> 'a platform_scheme \<Rightarrow> 'a platform_scheme option) \<Rightarrow> nat \<Rightarrow> interrupt_frame \<Rightarrow> 'a platform_scheme \<Rightarrow>
     (interrupt_frame option \<times> 'a platform_scheme) option" where
  "irq_dispatch dev sh irq fr s =
     (if irq = 0 then
        (let s = s\<lparr>clk := timer_handler (clk s)\<rparr>; (f, k) = scheduler_tick (Some fr) (kern s)
         in Some (f, s\<lparr>kern := k\<rparr>))
      else if irq = 1 then
        (let (c, s) = keyboard_handler dev s in
         map_option (Pair (Some fr)) (case c of None \<Rightarrow> Some s | Some k \<Rightarrow> sh k s))
      else if irq = 12 then
        (let s = s\<lparr>vga := (vga s)(0 := 0x2F00 OR of_char (CHR ''M''))\<rparr> in Some (Some fr, mouse_handler dev s))
      else Some (Some fr, s))"

text \<open>
  \<open>None\<close> is a handler that never returns without halting by itself: a page fault inside the kernel while a system call
  reads the caller's buffer, or a shell that does not return.
\<close>

definition isr_handler ::
  "device \<Rightarrow> (char \<Rightarrow> 'a platform_scheme \<Rightarrow> 'a platform_scheme option) \<Rightarrow> u64 \<Rightarrow> interrupt_frame option \<Rightarrow>
     'a platform_scheme \<Rightarrow> (isr_outcome \<times> 'a platform_scheme) option" where
  "isr_handler dev sh exit_return f s =
     (case f of
        None \<Rightarrow> Some (Returned None, s)
      | Some fr \<Rightarrow>
          (let n = int_num fr in
           if n = 0x80 then
             (let s = on_kern (say_k ''\<newline>SYSCALL 80\<newline>'') s in
              case syscall_handler exit_return (Some fr) (kern s) of
                None \<Rightarrow> None
              | Some (f, k) \<Rightarrow> Some (Returned f, on_kern (say_k ''SYSCALL RETURNED\<newline>'') (s\<lparr>kern := k\<rparr>)))
           else if n < 32 then
             Some (Halted, on_kern (exception_report (unat n) fr) (s\<lparr>vga := exception_vga (unat n) fr (vga s)\<rparr>))
           else if n \<ge> 0x20 \<and> n < 0x30 then
             (let irq = unat (n - 0x20) in
              case irq_dispatch dev sh irq fr s of
                None \<Rightarrow> None
              | Some (f, s) \<Rightarrow> Some (Returned f, pic_send_eoi (of_nat irq) s))
           else Some (Returned (Some fr), s)))"

section \<open>Properties\<close>

lemma pic_send_eoi_frame [simp]:
  "kern (pic_send_eoi irq s) = kern s" "clk (pic_send_eoi irq s) = clk s"
  by (simp_all add: pic_send_eoi_def Let_def outb_def)

lemma sent_to_eoi:
  "sent_to 0x20 (trace (pic_send_eoi irq s)) = sent_to 0x20 (trace s) @ [PIC_EOI]"
  "sent_to 0xA0 (trace (pic_send_eoi irq s)) = sent_to 0xA0 (trace s) @ (if 8 \<le> irq then [PIC_EOI] else [])"
  by (simp_all add: pic_send_eoi_def Let_def pic_ports)

text \<open>What a scan code does to the state before the shell is called, what a byte of the mouse does to the packet under
  assembly, and the writes of an acknowledgement: slave first, for the lines from 8 on.\<close>

definition key_arrives :: "u8 \<Rightarrow> 'a platform_scheme \<Rightarrow> 'a platform_scheme" where
  "key_arrives sc s =
     s\<lparr>keyboard_irq_count := keyboard_irq_count s + 1, trace := trace s @ [In8 0x60 sc], vga := (vga s)(0 := 0x0F4B),
       shift := (shift_press sc \<or> (shift s \<and> \<not> shift_release sc)), caps := (caps s \<noteq> (sc = 0x3A))\<rparr>"

definition mouse_byte_arrives :: "u8 \<Rightarrow> 'a platform_scheme \<Rightarrow> 'a platform_scheme" where
  "mouse_byte_arrives b s =
     (let i = packet_index s;
          s = s\<lparr>mouse_irq_count := mouse_irq_count s + 1, trace := trace s @ [In8 0x60 b], vga := (vga s)(0 := 0x2F4D)\<rparr>
      in if i = 0 \<and> \<not> bit b 3 then s
         else s\<lparr>packet := (packet s)[unat i := b],
                packet_index := (if uint (i + 1) = packet_size s then 0 else i + 1),
                packet_ready := (uint (i + 1) = packet_size s \<or> packet_ready s)\<rparr>)"

definition acknowledged :: "nat \<Rightarrow> 'a platform_scheme \<Rightarrow> 'a platform_scheme" where
  "acknowledged irq s =
     s\<lparr>trace := trace s @ (if 8 \<le> irq then [Out8 0xA0 0x20] else []) @ [Out8 0x20 0x20]\<rparr>"

lemma eoi_acknowledged: "irq < 16 \<Longrightarrow> pic_send_eoi (of_nat irq) s = acknowledged irq s"
  by (simp add: pic_send_eoi_def acknowledged_def outb_def pic_ports word_le_nat_alt unat_of_nat)

lemma keyboard_handler_arrives:
  assumes "sc = dev (trace s) 0x60"
  shows "keyboard_handler dev s =
     (case key_text (shift s \<noteq> caps s) sc of [] \<Rightarrow> None | k # _ \<Rightarrow> Some k, key_arrives sc s)"
proof -
  obtain r t where h: "keyboard_handler dev s = (r, t)" by (rule prod.exhaust)
  note k = keyboard_handler_step [OF assms h]
  have t: "t = s\<lparr>keyboard_irq_count := keyboard_irq_count s + 1, trace := trace t, vga := (vga s)(0 := 0x0F4B),
      shift := shift t, caps := caps t\<rparr>"
    using h by (auto simp: keyboard_handler_def inb_pair Let_def split: if_splits)
  have r: "r = (case key_text (shift s \<noteq> caps s) sc of [] \<Rightarrow> None | k # _ \<Rightarrow> Some k)"
    using k [THEN conjunct1, symmetric] by (cases r) (simp_all only: list.case option.case)
  have "t = key_arrives sc s" by (subst t) (use k in \<open>simp add: key_arrives_def\<close>)
  then show ?thesis using h r by simp
qed

lemma mouse_handler_byte:
  "mouse_handler dev (s\<lparr>vga := (vga s)(0 := 0x2F4D)\<rparr>) = mouse_byte_arrives (dev (trace s) 0x60) s"
proof -
  have b: "x AND 0x08 = 0 \<longleftrightarrow> \<not> bit x 3" for x :: u8
    using and_exp_eq_0_iff_not_bit [of x 3] by simp
  show ?thesis
    by (simp add: mouse_handler_def mouse_byte_arrives_def inb_pair b PS2_DATA_def Let_def)
qed

text \<open>C26: What each of the sixteen hardware interrupts does, in full, acknowledgement included. The timer's counts a tick,
  lets the scheduler choose the frame to return to and is acknowledged. The keyboard's reads one scan code, with
  its effect on shift and caps lock, and if the code gives a character calls the shell with it;
  only when the shell has returned is the interrupt acknowledged, and if it does not return neither does the handler. The
  mouse's adds the byte it reads to the packet, which is ready when complete; a first byte without bit 3 is dropped. Every
  other line is only acknowledged. All but the timer's return to the interrupted code. The acknowledgement is one write of
  0x20 to the master controller, after one to the slave when the line is one of the slave's.\<close>

theorem isr_handler_hardware:
  assumes "int_num fr = 0x20 + of_nat irq" and "irq < 16"
  shows "isr_handler dev sh exit_return (Some fr) s =
     (if irq = 0 then
        (let (f, k) = scheduler_tick (Some fr) (kern s)
         in Some (Returned f, acknowledged 0 (s\<lparr>clk := (clk s)\<lparr>timer_ticks := timer_ticks (clk s) + 1\<rparr>, kern := k\<rparr>)))
      else if irq = 1 then
        (let sc = dev (trace s) 0x60 in
         case key_text (shift s \<noteq> caps s) sc of
           [] \<Rightarrow> Some (Returned (Some fr), acknowledged 1 (key_arrives sc s))
         | k # _ \<Rightarrow> (case sh k (key_arrives sc s) of None \<Rightarrow> None | Some t \<Rightarrow> Some (Returned (Some fr), acknowledged 1 t)))
      else if irq = 12 then Some (Returned (Some fr), acknowledged 12 (mouse_byte_arrives (dev (trace s) 0x60) s))
      else Some (Returned (Some fr), acknowledged irq s))"
proof -
  have u: "unat (of_nat irq :: u64) = irq" using assms(2) by (simp add: unat_of_nat)
  have "unat (0x20 + of_nat irq :: u64) = 0x20 + irq" using u assms(2) by (simp add: unat_word_ariths)
  then have n: "0x20 + of_nat irq \<noteq> (0x80 :: u64)" "\<not> 0x20 + of_nat irq < (32 :: u64)" "0x20 + of_nat irq < (0x30 :: u64)"
    "0x20 \<le> (0x20 + of_nat irq :: u64)"
    using assms(2) by (auto simp: word_unat_eq_iff word_less_nat_alt word_le_nat_alt)
  have h: "isr_handler dev sh exit_return (Some fr) s =
      (case irq_dispatch dev sh irq fr s of None \<Rightarrow> None | Some (f, t) \<Rightarrow> Some (Returned f, acknowledged irq t))"
    using n by (simp add: isr_handler_def assms(1) Let_def u eoi_acknowledged [OF assms(2)] cong: option.case_cong)
  have m: "(0x2F00 OR of_char (CHR ''M'') :: u16) = 0x2F4D" by code_simp
  show ?thesis
    unfolding h irq_dispatch_def m mouse_handler_byte keyboard_handler_arrives [OF refl] timer_handler_def
    by (auto simp: Let_def mouse_handler_byte split: prod.splits list.splits option.splits)
qed

definition idle_platform :: "kernel \<Rightarrow> platform" where
  "idle_platform k = \<lparr>trace = [], vga = (\<lambda>_. 0), buf = replicate 256 (CHR 0x00), buf_head = 0, buf_tail = 0,
     keyboard_irq_count = 0, shift = False, caps = False, mouse_irq_count = 0, mouse_x = 100, mouse_y = 1,
     packet = [0, 0, 0, 0], packet_index = 0, packet_ready = False, packet_size = 3, scroll_accum = 0,
     buttons = 0, kern = k, clk = \<lparr>timer_ticks = 0, clock_offset = 0\<rparr>\<rparr>"

text \<open>The key A, with a shell that does not return, and with one that does; and a line of the slave.\<close>

theorem isr_handler_hardware_witness:
  "\<forall>k. isr_handler (\<lambda>_ _. 0x1E) (\<lambda>_ _. None) 0 (Some (zero_frame\<lparr>int_num := 0x21\<rparr>)) (idle_platform k) = None \<and>
       map_option (\<lambda>(f, t). trace t)
         (isr_handler (\<lambda>_ _. 0x1E) (\<lambda>c s. Some (outb 0x3F8 (of_char c) s)) 0 (Some (zero_frame\<lparr>int_num := 0x21\<rparr>)) (idle_platform k)) =
       Some [In8 0x60 0x1E, Out8 0x3F8 0x61, Out8 0x20 0x20]"
proof
  fix k
  have i: "int_num (zero_frame\<lparr>int_num := 0x21\<rparr>) = 0x20 + of_nat 1" "(1 :: nat) < 16" by simp_all
  have kt: "key_text False 0x1E = ''a''" "(of_char (CHR ''a'') :: u8) = 0x61" by code_simp+
  note w = isr_handler_hardware [OF i, of "\<lambda>_ _. 0x1E" _ 0 "idle_platform k"]
  have sc: "shift (idle_platform k) = False" "caps (idle_platform k) = False" "trace (idle_platform k) = []"
    by (simp_all add: idle_platform_def)
  show "isr_handler (\<lambda>_ _. 0x1E) (\<lambda>_ _. None) 0 (Some (zero_frame\<lparr>int_num := 0x21\<rparr>)) (idle_platform k) = None \<and>
       map_option (\<lambda>(f, t). trace t)
         (isr_handler (\<lambda>_ _. 0x1E) (\<lambda>c s. Some (outb 0x3F8 (of_char c) s)) 0 (Some (zero_frame\<lparr>int_num := 0x21\<rparr>)) (idle_platform k)) =
       Some [In8 0x60 0x1E, Out8 0x3F8 0x61, Out8 0x20 0x20]"
    unfolding w by (simp add: kt sc Let_def key_arrives_def acknowledged_def)
qed

text \<open>What the exception report puts out.\<close>

definition exception_log :: "nat \<Rightarrow> interrupt_frame \<Rightarrow> display_call list" where
  "exception_log n fr =
     map TerminalPrint [''\<newline>!! CPU EXCEPTION #'', [char_of (48 + n div 10), char_of (48 + n mod 10)], ''  '', exc_names ! n,
       ''\<newline>ERR='', ''0x'' @ hex_loop 16 (error_code fr) [], ''  RIP='', ''0x'' @ hex_loop 16 (rip fr) [],
       ''  CS='', ''0x'' @ hex_loop 16 (cs fr) [], ''\<newline>''] @ [FbPresent]"

lemma exception_report_log:
  "exception_report n fr k = on_mach (on_pmm (\<lambda>p. p\<lparr>display := display p @ exception_log n fr\<rparr>)) k"
  by (simp add: exception_report_def exception_log_def Let_def print_k_def present_k_def print_m_def present_m_def
      on_mach_def on_pmm_def terminal_print_def fb_present_def term_puthex64_def)

text \<open>An exception stops the machine: the handler never returns, and the only things it changes are the text
  screen and the log, which names the exception and gives the error code, the instruction pointer
  and the code segment. A vector that is neither an exception, nor the system call gate, nor one of
  the sixteen hardware lines changes nothing and returns to the interrupted code.\<close>

theorem isr_handler_other_vectors:
  assumes "int_num fr \<noteq> 0x80" and "\<not> (0x20 \<le> int_num fr \<and> int_num fr < 0x30)"
  shows "isr_handler dev sh exit_return (Some fr) s =
     (if int_num fr < 32
      then Some (Halted, s\<lparr>vga := exception_vga (unat (int_num fr)) fr (vga s),
               kern := on_mach (on_pmm (\<lambda>p. p\<lparr>display := display p @ exception_log (unat (int_num fr)) fr\<rparr>)) (kern s)\<rparr>)
      else Some (Returned (Some fr), s))"
  using assms by (auto simp: isr_handler_def Let_def on_kern_def exception_report_log)

theorem isr_handler_other_vectors_witness:
  "\<forall>k. \<exists>t. isr_handler (\<lambda>_ _. 0) (\<lambda>_. Some) 0 (Some (zero_frame\<lparr>int_num := 14, rip := 0x401234\<rparr>)) (idle_platform k) = Some (Halted, t)"
proof
  fix k
  have "int_num (zero_frame\<lparr>int_num := 14, rip := 0x401234\<rparr>) \<noteq> 0x80"
    "\<not> (0x20 \<le> int_num (zero_frame\<lparr>int_num := 14, rip := 0x401234\<rparr>) \<and> int_num (zero_frame\<lparr>int_num := 14, rip := 0x401234\<rparr>) < 0x30)"
    by simp_all
  from isr_handler_other_vectors [OF this, of "\<lambda>_ _. 0" "\<lambda>_. Some" 0 "idle_platform k"]
  show "\<exists>t. isr_handler (\<lambda>_ _. 0) (\<lambda>_. Some) 0 (Some (zero_frame\<lparr>int_num := 14, rip := 0x401234\<rparr>)) (idle_platform k) = Some (Halted, t)"
    by simp
qed

end
