(* ===== verification/Riru_Pack.thy ===== *)
theory Riru_Pack
  imports Elf Riru Multiboot
begin

text \<open>
  The packer that turns an ELF program into the kernel's own format, \<open>src/tools/riru_pack.c\<close>, as a
  function from the bytes of the input file to those of the output file or to the message it stops
  with. Reading and writing the files and the report it prints at the end are the host's. A run that
  would read program headers outside the buffer is \<open>PackUndefined\<close>. The result is shown to be
  accepted by the kernel's own validation (theory Riru), with every section in place.
\<close>

unbundle bit_operations_syntax









section \<open>The two passes\<close>





section \<open>Layout and output\<close>










section \<open>The header read back\<close>




section \<open>Segments stay inside the file\<close>










section \<open>Layout\<close>






section \<open>The output\<close>










section \<open>Sections and program headers\<close>

















section \<open>Properties\<close>













end
