(* ===== verification/Present.thy ===== *)
theory Present
  imports Framebuffer
begin

text \<open>
  Presenting the back buffer, \<open>blit_rect\<close> and \<open>fb_present\<close> of \<open>src/framebuffer.c\<close> (the definitions are in
  theory Framebuffer): the copy skips the pixels that the record of the last copy, \<open>display_buf\<close>, says are on the
  device already. The contract is that afterwards the device shows the whole back buffer.
\<close>

section \<open>The three surfaces\<close>

definition display_surface :: "machine \<Rightarrow> machine" where
  "display_surface m = m\<lparr>draw_buf := display_buf m\<rparr>"

definition device_surface :: "machine \<Rightarrow> machine" where
  "device_surface m = m\<lparr>draw_buf := 0\<rparr>"

definition surfaces_apart :: "machine \<Rightarrow> machine \<Rightarrow> bool" where
  "surfaces_apart s t \<longleftrightarrow>
     unat (surface_base s) + stride s * unat (fb_h s) \<le> unat (surface_base t) \<or>
     unat (surface_base t) + stride t * unat (fb_h t) \<le> unat (surface_base s)"

text \<open>Both buffers and the device are there, and they do not overlap.\<close>

definition presenting :: "machine \<Rightarrow> bool" where
  "presenting m \<longleftrightarrow> draw_buf m \<noteq> 0 \<and> display_buf m \<noteq> 0 \<and> fb_addr m \<noteq> 0 \<and>
     surface_ok m \<and> surface_ok (display_surface m) \<and> surface_ok (device_surface m) \<and>
     surfaces_apart m (display_surface m) \<and> surfaces_apart m (device_surface m) \<and>
     surfaces_apart (display_surface m) (device_surface m)"

definition device_bytes :: "machine \<Rightarrow> nat" where
  "device_bytes m = unat (fb_bpp m div 8)"

definition back_pixel :: "machine \<Rightarrow> int \<Rightarrow> int \<Rightarrow> u32" where
  "back_pixel m x y = load32 (mem m) (draw_address m x y)"

definition shadow_pixel :: "machine \<Rightarrow> int \<Rightarrow> int \<Rightarrow> u32" where
  "shadow_pixel m x y = load32 (mem m) (display_address m x y)"

definition device_pixel :: "machine \<Rightarrow> int \<Rightarrow> int \<Rightarrow> u8 list" where
  "device_pixel m x y = load_bytes (mem m) (device_address m x y) (device_bytes m)"

text \<open>The device shows what the record says, unless the next copy is a full one.\<close>

definition in_step :: "machine \<Rightarrow> int \<Rightarrow> int \<Rightarrow> bool" where
  "in_step m x y \<longleftrightarrow> fb_force_full m \<or> device_pixel m x y = le_bytes (device_bytes m) (shadow_pixel m x y)"

definition shown :: "machine \<Rightarrow> int \<Rightarrow> int \<Rightarrow> bool" where
  "shown m x y \<longleftrightarrow> shadow_pixel m x y = back_pixel m x y \<and>
     device_pixel m x y = le_bytes (device_bytes m) (back_pixel m x y)"

lemma display_surface_simps [simp]:
  "visible (display_surface m) = visible m"
  "display_buf m \<noteq> 0 \<Longrightarrow> pixel_address (display_surface m) x y = display_address m x y"
  "display_buf m \<noteq> 0 \<Longrightarrow> pixel_bytes (display_surface m) = 4"
  by (simp_all add: display_surface_def visible_def pixel_address_def draw_address_def display_address_def
      pixel_bytes_def fun_eq_iff)

lemma device_surface_simps [simp]:
  "visible (device_surface m) = visible m"
  "pixel_address (device_surface m) x y = device_address m x y"
  "pixel_bytes (device_surface m) = device_bytes m"
  by (simp_all add: device_surface_def visible_def pixel_address_def device_address_def pixel_bytes_def
      device_bytes_def fun_eq_iff)

lemma poke_present [simp]:
  "presenting (poke_bytes a bs m) = presenting m" "device_bytes (poke_bytes a bs m) = device_bytes m"
  "draw_address (poke_bytes a bs m) = draw_address m" "display_address (poke_bytes a bs m) = display_address m"
  "device_address (poke_bytes a bs m) = device_address m" "fb_force_full (poke_bytes a bs m) = fb_force_full m"
  "fb_bpp (poke_bytes a bs m) = fb_bpp m" "fb_w (poke_bytes a bs m) = fb_w m" "fb_h (poke_bytes a bs m) = fb_h m"
  "draw_buf (poke_bytes a bs m) = draw_buf m" "display_buf (poke_bytes a bs m) = display_buf m"
  "fb_addr (poke_bytes a bs m) = fb_addr m" "mem (poke_bytes a bs m) = store_bytes (mem m) a bs"
  by (simp_all add: poke_bytes_def presenting_def device_bytes_def draw_address_def display_address_def
      device_address_def display_surface_def device_surface_def surfaces_apart_def surface_ok_def surface_base_def
      stride_def pixel_bytes_def fun_eq_iff)

section \<open>Reading one surface after writing another\<close>

lemma reads_apart:
  assumes "surface_ok s" and "surface_ok t" and "surfaces_apart s t \<or> surfaces_apart t s"
    and "visible s x y" and "visible t x' y'" and "length bs = pixel_bytes s"
  shows "load_bytes (store_bytes M (pixel_address s x y) bs) (pixel_address t x' y') (pixel_bytes t) =
    load_bytes M (pixel_address t x' y') (pixel_bytes t)"
proof -
  note a = pixel_address_nat [OF assms(1,4)] and b = pixel_address_nat [OF assms(2,5)]
  have k: "0 < pixel_bytes s" "0 < pixel_bytes t" "pixel_bytes t \<le> 4" using assms(1,2) by (simp_all add: surface_ok_def)
  have top: "unat (pixel_address s x y) + pixel_bytes s \<le> 2 ^ 64" "unat (pixel_address t x' y') + pixel_bytes t \<le> 2 ^ 64"
    using a b assms(1,2) by (simp_all add: surface_ok_def)
  have "unat (pixel_address s x y) + pixel_bytes s \<le> unat (pixel_address t x' y') \<or>
      unat (pixel_address t x' y') + pixel_bytes t \<le> unat (pixel_address s x y)"
    using a b assms(3) unfolding surfaces_apart_def by linarith
  then have "pixel_bytes s \<le> unat (pixel_address t x' y' - pixel_address s x y) \<and>
      pixel_bytes t \<le> unat (pixel_address s x y - pixel_address t x' y')"
    using apart_words [OF _ top(2) k(1)] apart_words [OF _ top(1) k(2)] by blast
  then show ?thesis using k assms(6) by (intro load_store_bytes_apart) simp_all
qed

lemma reads_other:
  assumes "surface_ok s" and "visible s x y" and "visible s x' y'" and "(x, y) \<noteq> (x', y')" and "length bs = pixel_bytes s"
  shows "load_bytes (store_bytes M (pixel_address s x y) bs) (pixel_address s x' y') (pixel_bytes s) =
    load_bytes M (pixel_address s x' y') (pixel_bytes s)"
  using pixels_apart [OF assms(1-4)] assms(1,5) by (intro load_store_bytes_apart) (simp_all add: surface_ok_def)

text \<open>One pixel of the copy.\<close>

lemma presentingD:
  assumes "presenting m"
  shows "surface_ok m" "surface_ok (display_surface m)" "surface_ok (device_surface m)"
    "surfaces_apart m (display_surface m)" "surfaces_apart m (device_surface m)"
    "surfaces_apart (display_surface m) (device_surface m)"
    "draw_buf m \<noteq> 0" "display_buf m \<noteq> 0" "fb_addr m \<noteq> 0"
    "pixel_bytes m = 4" "pixel_address m x y = draw_address m x y" "device_bytes m \<le> 4"
proof -
  show s: "surface_ok m" "surface_ok (display_surface m)" "surface_ok (device_surface m)"
    "surfaces_apart m (display_surface m)" "surfaces_apart m (device_surface m)"
    "surfaces_apart (display_surface m) (device_surface m)" "draw_buf m \<noteq> 0" "display_buf m \<noteq> 0" "fb_addr m \<noteq> 0"
    using assms by (simp_all add: presenting_def)
  show "pixel_bytes m = 4" "pixel_address m x y = draw_address m x y"
    using s(7) by (simp_all add: pixel_bytes_def pixel_address_def)
  show "device_bytes m \<le> 4" using s(3) by (simp add: surface_ok_def)
qed

lemma write_device:
  assumes "presenting m" and "visible m x y" and "visible m x' y'" and "length bs = device_bytes m"
  shows "back_pixel (poke_bytes (device_address m x y) bs m) x' y' = back_pixel m x' y'"
    and "shadow_pixel (poke_bytes (device_address m x y) bs m) x' y' = shadow_pixel m x' y'"
    and "device_pixel (poke_bytes (device_address m x y) bs m) x' y' = (if x = x' \<and> y = y' then bs else device_pixel m x' y')"
proof -
  note p = presentingD [OF assms(1)]
  note r = reads_apart [OF p(3), of _ x y x' y' bs "mem m"] and o = reads_other [OF p(3), of x y x' y' bs "mem m"]
  show "back_pixel (poke_bytes (device_address m x y) bs m) x' y' = back_pixel m x' y'"
    using r [of m] p(1,5,10,11) assms by (simp add: back_pixel_def load32_def)
  show "shadow_pixel (poke_bytes (device_address m x y) bs m) x' y' = shadow_pixel m x' y'"
    using r [of "display_surface m"] p(2,6,8) assms by (simp add: shadow_pixel_def load32_def)
  show "device_pixel (poke_bytes (device_address m x y) bs m) x' y' = (if x = x' \<and> y = y' then bs else device_pixel m x' y')"
    using o p(12) assms by (auto simp: device_pixel_def load_store_bytes_same)
qed

lemma write_shadow:
  assumes "presenting m" and "visible m x y" and "visible m x' y'"
  shows "back_pixel (poke_bytes (display_address m x y) (le_bytes 4 (v :: u32)) m) x' y' = back_pixel m x' y'"
    and "shadow_pixel (poke_bytes (display_address m x y) (le_bytes 4 v) m) x' y' =
      (if x = x' \<and> y = y' then v else shadow_pixel m x' y')"
    and "device_pixel (poke_bytes (display_address m x y) (le_bytes 4 v) m) x' y' = device_pixel m x' y'"
proof -
  note p = presentingD [OF assms(1)]
  note r = reads_apart [OF p(2), of _ x y x' y' "le_bytes 4 v" "mem m"]
    and o = reads_other [OF p(2), of x y x' y' "le_bytes 4 v" "mem m"]
  show "back_pixel (poke_bytes (display_address m x y) (le_bytes 4 v) m) x' y' = back_pixel m x' y'"
    using r [of m] p(1,4,8,10,11) assms by (simp add: back_pixel_def load32_def)
  show "shadow_pixel (poke_bytes (display_address m x y) (le_bytes 4 v) m) x' y' =
      (if x = x' \<and> y = y' then v else shadow_pixel m x' y')"
    using o p(8) assms by (auto simp: shadow_pixel_def load32_def load_store_bytes_same le_word_le_bytes_take take_bit_word_eq_self)
  show "device_pixel (poke_bytes (display_address m x y) (le_bytes 4 v) m) x' y' = device_pixel m x' y'"
    using r [of "device_surface m"] p(3,6,8) assms by (simp add: device_pixel_def)
qed

section \<open>The copy\<close>

lemma blit_pixel_form:
  "blit_pixel x y m =
     (if fb_force_full m \<or> back_pixel m x y \<noteq> shadow_pixel m x y then
        poke_bytes (display_address m x y) (le_bytes 4 (back_pixel m x y))
          (poke_bytes (device_address m x y) (le_bytes (device_bytes m) (back_pixel m x y)) m)
      else m)"
proof -
  have "(if fb_bpp m = 32 then 4 else unat (fb_bpp m div 8)) = device_bytes m"
    by (simp add: device_bytes_def)
  then show ?thesis by (simp add: blit_pixel_def back_pixel_def shadow_pixel_def Let_def)
qed

lemma blit_pixel_layout [simp]:
  "presenting (blit_pixel x y m) = presenting m" "visible (blit_pixel x y m) = visible m"
  "device_bytes (blit_pixel x y m) = device_bytes m" "fb_force_full (blit_pixel x y m) = fb_force_full m"
  by (simp_all add: blit_pixel_form)

lemma blit_write:
  assumes "presenting m" and "visible m x y" and "visible m x' y'"
  shows "back_pixel (poke_bytes (display_address m x y) (le_bytes 4 (v :: u32))
      (poke_bytes (device_address m x y) (le_bytes (device_bytes m) v) m)) x' y' = back_pixel m x' y'"
    and "shadow_pixel (poke_bytes (display_address m x y) (le_bytes 4 v)
      (poke_bytes (device_address m x y) (le_bytes (device_bytes m) v) m)) x' y' =
      (if x = x' \<and> y = y' then v else shadow_pixel m x' y')"
    and "device_pixel (poke_bytes (display_address m x y) (le_bytes 4 v)
      (poke_bytes (device_address m x y) (le_bytes (device_bytes m) v) m)) x' y' =
      (if x = x' \<and> y = y' then le_bytes (device_bytes m) v else device_pixel m x' y')"
  using write_shadow [of "poke_bytes (device_address m x y) (le_bytes (device_bytes m) v) m" x y x' y' v]
    write_device [OF assms, of "le_bytes (device_bytes m) v"] assms
  by simp_all

lemma blit_pixel_reads:
  assumes "presenting m" and "visible m x y" and "visible m x' y'"
  shows "back_pixel (blit_pixel x y m) x' y' = back_pixel m x' y'"
    and "in_step m x y \<Longrightarrow> in_step m x' y' \<Longrightarrow> in_step (blit_pixel x y m) x' y'"
    and "in_step m x y \<Longrightarrow> x = x' \<and> y = y' \<or> shown m x' y' \<Longrightarrow> shown (blit_pixel x y m) x' y'"
  using assms
  by (auto simp: blit_pixel_form in_step_def shown_def blit_write)

lemma blit_all:
  assumes "presenting m" and "\<And>p. p \<in> set ps \<Longrightarrow> visible m (fst p) (snd p)" and "\<And>x y. visible m x y \<Longrightarrow> in_step m x y"
    and "visible m x y"
  shows "back_pixel (fold (\<lambda>(x, y). blit_pixel x y) ps m) x y = back_pixel m x y \<and>
    ((x, y) \<in> set ps \<or> shown m x y \<longrightarrow> shown (fold (\<lambda>(x, y). blit_pixel x y) ps m) x y)"
  using assms
proof (induction ps arbitrary: m)
  case Nil
  then show ?case by simp
next
  case (Cons p ps)
  obtain a b where p: "p = (a, b)" by (cases p)
  have v: "visible m a b" using Cons.prems(2) [of p] p by simp
  have s: "in_step m a b" using Cons.prems(3) v by blast
  note r = blit_pixel_reads [OF Cons.prems(1) v]
  have "back_pixel (fold (\<lambda>(x, y). blit_pixel x y) ps (blit_pixel a b m)) x y = back_pixel (blit_pixel a b m) x y \<and>
    ((x, y) \<in> set ps \<or> shown (blit_pixel a b m) x y \<longrightarrow>
      shown (fold (\<lambda>(x, y). blit_pixel x y) ps (blit_pixel a b m)) x y)"
    using Cons.prems r(2) s by (intro Cons.IH) simp_all
  then show ?case using p r(1) [OF Cons.prems(4)] r(3) [OF Cons.prems(4) s] by auto
qed

lemma blit_all_device_bytes: "device_bytes (fold (\<lambda>(x, y). blit_pixel x y) ps m) = device_bytes m"
  by (induction ps arbitrary: m) auto

text \<open>The rectangle of the whole screen is not clipped.\<close>

definition screen_points :: "machine \<Rightarrow> (int \<times> int) list" where
  "screen_points m = concat (map (\<lambda>y. map (\<lambda>x. (x, y)) [0..sint (fb_w m) - 1]) [0..sint (fb_h m) - 1])"

lemma fold_rows: "fold (\<lambda>y. fold (\<lambda>x. g x y) xs) ys m = fold (\<lambda>(x, y). g x y) (concat (map (\<lambda>y. map (\<lambda>x. (x, y)) xs) ys)) m"
proof (induction ys arbitrary: m)
  case Nil
  then show ?case by simp
next
  case (Cons y ys)
  have "fold (\<lambda>(x, y). g x y) (map (\<lambda>x. (x, y)) xs) m = fold (\<lambda>x. g x y) xs m"
    by (induction xs arbitrary: m) simp_all
  with Cons show ?case by simp
qed

lemma sint_small_u32: "unat (w :: u32) < 2 ^ 31 \<Longrightarrow> sint w = int (unat w)"
  by (simp add: sint_uint signed_take_bit_int_eq_self uint_nat del: of_nat_unat)

lemma screen_points_visible:
  assumes "surface_ok m"
  shows "(x, y) \<in> set (screen_points m) \<longleftrightarrow> visible m x y"
proof -
  have w: "sint (fb_w m) = int (unat (fb_w m))" "sint (fb_h m) = int (unat (fb_h m))"
    using assms by (simp_all only: surface_ok_def sint_small_u32)
  show ?thesis unfolding screen_points_def visible_def w by (auto simp: image_iff simp del: of_nat_unat)
qed

lemma fb_present_form:
  assumes "presenting m" and "visible m x y"
  shows "fb_present_s m = (fold (\<lambda>(x, y). blit_pixel x y) (screen_points m) m)\<lparr>fb_force_full := False\<rparr>"
proof -
  note p = presentingD [OF assms(1)]
  have w: "sint (fb_w m) = int (unat (fb_w m))" "sint (fb_h m) = int (unat (fb_h m))"
    using p(1) by (simp_all only: surface_ok_def sint_small_u32)
  have "0 < int (unat (fb_w m))" "0 < int (unat (fb_h m))"
    using assms(2) unfolding visible_def by linarith+
  then show ?thesis using p(7-9)
    by (simp add: fb_present_s_def fb_present_rects_def blit_rect_def screen_points_def fold_rows w del: of_nat_unat)
qed

section \<open>Properties\<close>

text \<open>C31: After \<open>fb_present\<close> the device shows every pixel of the back buffer, although only the pixels that
  differ from the record of the last copy are written: it is enough that the record was true before
  (or that a full copy was forced).\<close>

theorem fb_present_shows_back_buffer:
  assumes "presenting m" and "\<And>x y. visible m x y \<Longrightarrow> in_step m x y" and "visible m x y"
  shows "device_pixel (fb_present_s m) x y = le_bytes (device_bytes m) (back_pixel m x y)"
proof -
  define m' where "m' = fold (\<lambda>(x, y). blit_pixel x y) (screen_points m) m"
  have s: "surface_ok m" using assms(1) by (rule presentingD)
  have "shown m' x y \<and> back_pixel m' x y = back_pixel m x y"
    using blit_all [OF assms(1) _ assms(2,3), of "screen_points m"] screen_points_visible [OF s] assms(3)
    by (auto simp: m'_def)
  moreover have "device_bytes m' = device_bytes m"
    unfolding m'_def by (rule blit_all_device_bytes)
  moreover have "device_pixel (m'\<lparr>fb_force_full := False\<rparr>) x y = device_pixel m' x y"
    by (simp add: device_pixel_def device_address_def device_bytes_def)
  ultimately show ?thesis by (simp add: fb_present_form [OF assms(1,3)] shown_def flip: m'_def)
qed

text \<open>Drawing leaves the device in step with the record.\<close>

lemma put_pixel_in_step:
  assumes "presenting m" and "c_int x" and "c_int y" and "visible m x' y'"
  shows "in_step (fb_put_pixel x y c m) x' y' = in_step m x' y'"
proof (cases "visible m x y")
  case False
  then show ?thesis using presentingD(1) [OF assms(1)] off_screen_visible [OF _ assms(2,3)] by (simp add: fb_put_pixel_def)
next
  case True
  note p = presentingD [OF assms(1)]
  have "length (le_bytes (pixel_bytes m) (fb_pixel_value m c)) = pixel_bytes m" by simp
  note r = reads_apart [OF p(1) _ _ True _ this, of _ x' y' "mem m"]
  show ?thesis
    using r [of "display_surface m"] r [of "device_surface m"] p assms(4)
    by (simp add: put_pixel_form in_step_def shadow_pixel_def device_pixel_def load32_def)
qed

definition screen_2x1 :: machine where
  "screen_2x1 = \<lparr>pmm = undefined, mem = (\<lambda>_. 0), heap_used = 0, heap_total = 0, current_pml4 = 0,
     kernel_pml4 = 0, kernel_cr3 = 0, cr3 = 0, invalidated = [], fb_addr = 0xE0000000, fb_pitch = 6, fb_w = 2,
     fb_h = 1, fb_bpp = 24, r_pos = 16, g_pos = 8, b_pos = 0, draw_buf = 0x1000, display_buf = 0x2000,
     fb_force_full = True\<rparr>"

lemma screen_2x1_ok: "presenting screen_2x1" "visible screen_2x1 1 0" "fb_force_full screen_2x1"
  by (simp_all add: presenting_def surface_ok_def visible_def pixel_bytes_def stride_def surface_base_def screen_2x1_def
      unat_div surfaces_apart_def display_surface_def device_surface_def)

theorem fb_present_shows_back_buffer_witness:
  "device_pixel (fb_present_s (fb_put_pixel 1 0 (RGB 10 20 30) screen_2x1)) 1 0 = [30, 20, 10]"
proof -
  have "\<And>x y. in_step (fb_put_pixel 1 0 (RGB 10 20 30) screen_2x1) x y"
    using screen_2x1_ok(3) by (simp add: in_step_def put_pixel_form)
  then have "device_pixel (fb_present_s (fb_put_pixel 1 0 (RGB 10 20 30) screen_2x1)) 1 0 =
      le_bytes 3 (back_pixel (fb_put_pixel 1 0 (RGB 10 20 30) screen_2x1) 1 0)"
    using fb_present_shows_back_buffer [of "fb_put_pixel 1 0 (RGB 10 20 30) screen_2x1" 1 0] screen_2x1_ok
    by (simp add: put_pixel_form device_bytes_def unat_div) (simp add: screen_2x1_def unat_div)
  moreover have "back_pixel (fb_put_pixel 1 0 (RGB 10 20 30) screen_2x1) 1 0 = 0x0A141E"
    by (simp add: back_pixel_def fb_put_pixel_def off_screen_def screen_2x1_def Let_def draw_address_def poke_bytes_def
        load32_def load_store_bytes_same le_word_le_bytes_take fb_pixel_value_def RGB_def word_le_nat_alt)
  ultimately show ?thesis by (simp add: numeral_3_eq_3)
qed

end
