(* ===== verification/Ui_Layout.thy ===== *)
theory Ui_Layout
  imports Framebuffer C_Division
begin

text \<open>
  The drawing layer of the desktop, \<open>src/gui/ui_layout.c\<close>: places given in thousandths of the screen, the
  scale of the design, blending, and the translucent and rounded shapes. C \<open>int\<close>s are integers (their overflow
  is undefined in C) and their division is \<open>sdiv\<close>, which truncates.
\<close>

definition UI_DESIGN_W :: int where "UI_DESIGN_W = 1440"
definition UI_DESIGN_H :: int where "UI_DESIGN_H = 900"
definition UI_BG_VOID :: color where "UI_BG_VOID = RGB 5 5 16"

section \<open>Places\<close>

definition ui_pm :: "machine \<Rightarrow> int \<Rightarrow> int \<Rightarrow> int \<Rightarrow> int \<Rightarrow> fb_rect" where
  "ui_pm m x_pm y_pm w_pm h_pm =
     (let fw = fb_width m; fh = fb_height m in
      ((fw * x_pm) sdiv 1000, (fh * y_pm) sdiv 1000, (fw * w_pm) sdiv 1000, (fh * h_pm) sdiv 1000))"

definition ui_pm_right :: "machine \<Rightarrow> int \<Rightarrow> int \<Rightarrow> int \<Rightarrow> int \<Rightarrow> fb_rect" where
  "ui_pm_right m right_pm top_pm w_pm h_pm =
     (let fw = fb_width m; fh = fb_height m; w = (fw * w_pm) sdiv 1000; h = (fh * h_pm) sdiv 1000 in
      (fw - (fw * right_pm) sdiv 1000 - w, (fh * top_pm) sdiv 1000, w, h))"

definition ui_pm_bottom :: "machine \<Rightarrow> int \<Rightarrow> int \<Rightarrow> int \<Rightarrow> int \<Rightarrow> fb_rect" where
  "ui_pm_bottom m left_pm bottom_pm w_pm h_pm =
     (let fw = fb_width m; fh = fb_height m; w = (fw * w_pm) sdiv 1000; h = (fh * h_pm) sdiv 1000 in
      ((fw * left_pm) sdiv 1000, fh - (fh * bottom_pm) sdiv 1000 - h, w, h))"

definition ui_pm_bottom_right :: "machine \<Rightarrow> int \<Rightarrow> int \<Rightarrow> int \<Rightarrow> int \<Rightarrow> fb_rect" where
  "ui_pm_bottom_right m right_pm bottom_pm w_pm h_pm =
     (let fw = fb_width m; fh = fb_height m; w = (fw * w_pm) sdiv 1000; h = (fh * h_pm) sdiv 1000 in
      (fw - (fw * right_pm) sdiv 1000 - w, fh - (fh * bottom_pm) sdiv 1000 - h, w, h))"

definition ui_pm_bottom_center :: "machine \<Rightarrow> int \<Rightarrow> int \<Rightarrow> int \<Rightarrow> fb_rect" where
  "ui_pm_bottom_center m bottom_pm w_pm h_pm =
     (let fw = fb_width m; fh = fb_height m; w = (fw * w_pm) sdiv 1000; h = (fh * h_pm) sdiv 1000 in
      ((fw - w) sdiv 2, fh - (fh * bottom_pm) sdiv 1000 - h, w, h))"

definition ui_scale_pm :: "machine \<Rightarrow> int" where
  "ui_scale_pm m =
     (let fw = fb_width m; fh = fb_height m in
      if fw \<le> 0 \<or> fh \<le> 0 then 1000
      else
        (let sx = (fw * 1000) sdiv UI_DESIGN_W;
             sy = (fh * 1000) sdiv UI_DESIGN_H;
             s = (if sx < sy then sx else sy);
             s = (if s < 600 then 600 else s)
         in if s > 1600 then 1600 else s))"

definition ui_scaled :: "machine \<Rightarrow> int \<Rightarrow> int" where
  "ui_scaled m base_px = (let v = (base_px * ui_scale_pm m) sdiv 1000 in if v < 1 then 1 else v)"

definition ui_font_scale :: "machine \<Rightarrow> int" where
  "ui_font_scale m = (if ui_scale_pm m \<ge> 1250 then 2 else 1)"

section \<open>Blending\<close>

definition clamp255 :: "int \<Rightarrow> int" where
  "clamp255 v = (if v < 0 then 0 else if v > 255 then 255 else v)"

text \<open>The expression for one channel, which \<open>ui_blend\<close> has three times.\<close>

definition blend_channel :: "u8 \<Rightarrow> u8 \<Rightarrow> int \<Rightarrow> u8" where
  "blend_channel bg fg alpha_pm = of_int (clamp255 (uint bg + ((uint fg - uint bg) * alpha_pm) sdiv 1000))"

definition ui_blend :: "color \<Rightarrow> color \<Rightarrow> int \<Rightarrow> color" where
  "ui_blend bg fg alpha_pm =
     (let alpha_pm = (if alpha_pm < 0 then 0 else alpha_pm);
          alpha_pm = (if alpha_pm > 1000 then 1000 else alpha_pm)
      in \<lparr>color_r = blend_channel (color_r bg) (color_r fg) alpha_pm,
          color_g = blend_channel (color_g bg) (color_g fg) alpha_pm,
          color_b = blend_channel (color_b bg) (color_b fg) alpha_pm\<rparr>)"

section \<open>Shapes\<close>

definition rounded_mask :: "int \<Rightarrow> int \<Rightarrow> int \<Rightarrow> int \<Rightarrow> int \<Rightarrow> bool" where
  "rounded_mask dx dy w h r =
     (if r \<le> 0 then True
      else if dx < r \<and> dy < r then
        (let ox = r - 1 - dx; oy = r - 1 - dy in ox * ox + oy * oy \<le> r * r)
      else if dx \<ge> w - r \<and> dy < r then
        (let ox = dx - (w - r); oy = r - 1 - dy in ox * ox + oy * oy \<le> r * r)
      else if dx < r \<and> dy \<ge> h - r then
        (let ox = r - 1 - dx; oy = dy - (h - r) in ox * ox + oy * oy \<le> r * r)
      else if dx \<ge> w - r \<and> dy \<ge> h - r then
        (let ox = dx - (w - r); oy = dy - (h - r) in ox * ox + oy * oy \<le> r * r)
      else True)"

text \<open>\<open>color_t under = fb_get_pixel(x, y); fb_put_pixel(x, y, ui_blend(under, tint, alpha_pm));\<close>\<close>

definition blend_pixel :: "int \<Rightarrow> int \<Rightarrow> color \<Rightarrow> int \<Rightarrow> machine \<Rightarrow> machine" where
  "blend_pixel x y tint alpha_pm m =
     (let under = fb_get_pixel x y m in fb_put_pixel x y (ui_blend under tint alpha_pm) m)"

definition ui_fill_glass :: "int \<Rightarrow> int \<Rightarrow> int \<Rightarrow> int \<Rightarrow> color \<Rightarrow> int \<Rightarrow> machine \<Rightarrow> machine" where
  "ui_fill_glass x y w h tint alpha_pm m =
     (if w \<le> 0 \<or> h \<le> 0 then m
      else fold (\<lambda>dy. fold (\<lambda>dx. blend_pixel (x + dx) (y + dy) tint alpha_pm) [0..w - 1]) [0..h - 1] m)"

definition ui_fill_rounded_glass :: "int \<Rightarrow> int \<Rightarrow> int \<Rightarrow> int \<Rightarrow> int \<Rightarrow> color \<Rightarrow> int \<Rightarrow> machine \<Rightarrow> machine" where
  "ui_fill_rounded_glass x y w h radius tint alpha_pm m =
     (if w \<le> 0 \<or> h \<le> 0 then m
      else fold (\<lambda>dy. fold (\<lambda>dx m. if \<not> rounded_mask dx dy w h radius then m
                                   else blend_pixel (x + dx) (y + dy) tint alpha_pm m) [0..w - 1]) [0..h - 1] m)"

definition ui_draw_rounded_border :: "int \<Rightarrow> int \<Rightarrow> int \<Rightarrow> int \<Rightarrow> int \<Rightarrow> color \<Rightarrow> machine \<Rightarrow> machine" where
  "ui_draw_rounded_border x y w h radius c m =
     (if w \<le> 0 \<or> h \<le> 0 then m
      else
        (let m = fold (\<lambda>dx m.
               (let m = (if rounded_mask dx 0 w h radius then fb_put_pixel (x + dx) y c m else m)
                in if rounded_mask dx (h - 1) w h radius then fb_put_pixel (x + dx) (y + h - 1) c m else m)) [0..w - 1] m
         in fold (\<lambda>dy m.
               (let m = (if rounded_mask 0 dy w h radius then fb_put_pixel x (y + dy) c m else m)
                in if rounded_mask (w - 1) dy w h radius then fb_put_pixel (x + w - 1) (y + dy) c m else m)) [0..h - 1] m))"

definition ui_draw_rounded_border_alpha ::
  "int \<Rightarrow> int \<Rightarrow> int \<Rightarrow> int \<Rightarrow> int \<Rightarrow> color \<Rightarrow> int \<Rightarrow> machine \<Rightarrow> machine" where
  "ui_draw_rounded_border_alpha x y w h radius c alpha_pm m =
     (if w \<le> 0 \<or> h \<le> 0 then m
      else
        (let m = fold (\<lambda>dx m.
               (let m = (if rounded_mask dx 0 w h radius then blend_pixel (x + dx) y c alpha_pm m else m)
                in if rounded_mask dx (h - 1) w h radius then blend_pixel (x + dx) (y + h - 1) c alpha_pm m else m))
               [0..w - 1] m
         in fold (\<lambda>dy m.
               (let m = (if rounded_mask 0 dy w h radius then blend_pixel x (y + dy) c alpha_pm m else m)
                in if rounded_mask (w - 1) dy w h radius then blend_pixel (x + w - 1) (y + dy) c alpha_pm m else m))
               [0..h - 1] m))"

definition ui_draw_glow_border :: "int \<Rightarrow> int \<Rightarrow> int \<Rightarrow> int \<Rightarrow> int \<Rightarrow> color \<Rightarrow> machine \<Rightarrow> machine" where
  "ui_draw_glow_border x y w h radius c m =
     ui_draw_rounded_border x y w h radius c
       (ui_draw_rounded_border (x - 1) (y - 1) (w + 2) (h + 2) (radius + 1) (ui_blend UI_BG_VOID c 250) m)"

definition ui_draw_glow_border_alpha ::
  "int \<Rightarrow> int \<Rightarrow> int \<Rightarrow> int \<Rightarrow> int \<Rightarrow> color \<Rightarrow> int \<Rightarrow> machine \<Rightarrow> machine" where
  "ui_draw_glow_border_alpha x y w h radius c alpha_pm m =
     (let outer_alpha = (250 * alpha_pm) sdiv 1000 in
      ui_draw_rounded_border_alpha x y w h radius c alpha_pm
        (ui_draw_rounded_border_alpha (x - 1) (y - 1) (w + 2) (h + 2) (radius + 1) c outer_alpha m))"

definition ui_draw_top_accent :: "int \<Rightarrow> int \<Rightarrow> int \<Rightarrow> color \<Rightarrow> int \<Rightarrow> machine \<Rightarrow> machine" where
  "ui_draw_top_accent x y w c thickness m =
     (let thickness = (if thickness < 1 then 1 else thickness) in fb_fill_rect x y w thickness c m)"

definition ui_fill_circle :: "int \<Rightarrow> int \<Rightarrow> int \<Rightarrow> color \<Rightarrow> machine \<Rightarrow> machine" where
  "ui_fill_circle cx cy r c m =
     fold (\<lambda>dy. fold (\<lambda>dx m. if dx * dx + dy * dy \<le> r * r then fb_put_pixel (cx + dx) (cy + dy) c m else m) [- r..r])
       [- r..r] m"

definition ui_draw_progress :: "int \<Rightarrow> int \<Rightarrow> int \<Rightarrow> int \<Rightarrow> int \<Rightarrow> color \<Rightarrow> color \<Rightarrow> machine \<Rightarrow> machine" where
  "ui_draw_progress x y w h percent fill track m =
     (let percent = (if percent < 0 then 0 else percent);
          percent = (if percent > 100 then 100 else percent);
          radius = h sdiv 2;
          m = ui_fill_rounded_glass x y w h radius track 1000 m;
          fw = (w * percent) sdiv 100
      in if fw > 0 then ui_fill_rounded_glass x y fw h radius fill 1000 m else m)"

section \<open>What blending gives\<close>

lemma sdiv_neg: "a < 0 \<Longrightarrow> 0 < b \<Longrightarrow> a sdiv b = - ((- a) div (b :: int))"
  by (simp add: signed_divide_int_def)

lemma part_between:
  assumes "0 \<le> (d :: int)" and "0 \<le> a" and "a \<le> 1000"
  shows "0 \<le> d * a div 1000 \<and> d * a div 1000 \<le> d"
proof -
  have "d * a \<le> d * 1000" using assms by (intro mult_left_mono) simp_all
  then have "d * a div 1000 \<le> d * 1000 div 1000" by (intro zdiv_mono1) simp_all
  moreover have "0 \<le> d * a div 1000" using assms by (simp add: pos_imp_zdiv_nonneg_iff)
  ultimately show ?thesis by simp
qed

lemma blend_between:
  assumes "0 \<le> a" and "a \<le> 1000"
  shows "min b f \<le> b + ((f - b) * a) sdiv 1000 \<and> b + ((f - b) * a) sdiv 1000 \<le> max b (f :: int)"
proof (cases "0 \<le> (f - b) * a")
  case True
  show ?thesis
  proof (cases "f < b")
    case True
    then have "a = 0" using \<open>0 \<le> (f - b) * a\<close> assms(1) by (simp add: zero_le_mult_iff)
    then show ?thesis by (simp add: sdiv_nonneg)
  next
    case False
    then show ?thesis using part_between [of "f - b" a] assms True by (simp add: sdiv_nonneg)
  qed
next
  case False
  then have "f < b" using assms(1) mult_nonneg_nonneg [of "f - b" a] by linarith
  then show ?thesis using part_between [of "b - f" a] assms False
    by (simp add: sdiv_neg left_diff_distrib)
qed

lemma uint_blend_channel:
  assumes "0 \<le> a" and "a \<le> 1000"
  shows "uint (blend_channel bg fg a) = uint bg + ((uint fg - uint bg) * a) sdiv 1000"
proof -
  define v where "v = uint bg + ((uint fg - uint bg) * a) sdiv 1000"
  have "0 \<le> min (uint bg) (uint fg)" "max (uint bg) (uint fg) < 256"
    using uint_bounded [of bg] uint_bounded [of fg] by simp_all
  then have v: "0 \<le> v" "v < 256" using blend_between [OF assms, of "uint bg" "uint fg"] unfolding v_def by linarith+
  then have "clamp255 v = v" by (simp add: clamp255_def)
  then show ?thesis using v by (simp add: blend_channel_def uint_word_of_int_eq take_bit_int_eq_self flip: v_def)
qed

lemma blend_channel_ends: "blend_channel bg fg 0 = bg" "blend_channel bg fg 1000 = fg"
proof -
  have d: "(d * 1000) sdiv 1000 = d" for d :: int
    by (cases "d < 0") (simp_all add: sdiv_nonneg sdiv_neg flip: mult_minus_left)
  show "blend_channel bg fg 1000 = fg" using uint_blend_channel [of 1000 bg fg] unfolding d by (simp add: word_uint_eq_iff)
  show "blend_channel bg fg 0 = bg" using uint_blend_channel [of 0 bg fg] by (simp add: word_uint_eq_iff sdiv_nonneg)
qed

lemma ui_blend_opaque: "ui_blend bg fg 1000 = fg"
  by (simp add: ui_blend_def blend_channel_ends)

lemma ui_blend_transparent: "ui_blend bg fg 0 = bg"
  by (simp add: ui_blend_def blend_channel_ends)

section \<open>Painting point by point\<close>

text \<open>A loop over the points of a rectangle is a loop over the list of them, none of which occurs twice.\<close>

definition points :: "int list \<Rightarrow> int list \<Rightarrow> (int \<times> int) list" where
  "points xs ys = concat (map (\<lambda>dy. map (\<lambda>dx. (dx, dy)) xs) ys)"

lemma fold_points: "fold (\<lambda>dy. fold (\<lambda>dx. g dx dy) xs) ys m = fold (\<lambda>(dx, dy). g dx dy) (points xs ys) m"
proof (induction ys arbitrary: m)
  case Nil
  then show ?case by (simp add: points_def)
next
  case (Cons dy ys)
  have "fold (\<lambda>(dx, dy). g dx dy) (map (\<lambda>dx. (dx, dy)) xs) m = fold (\<lambda>dx. g dx dy) xs m"
    by (induction xs arbitrary: m) simp_all
  with Cons show ?case by (simp add: points_def)
qed

lemma set_points [simp]: "set (points xs ys) = set xs \<times> set ys"
  by (auto simp: points_def)

lemma distinct_points: "distinct xs \<Longrightarrow> distinct ys \<Longrightarrow> distinct (points xs ys)"
  by (induction ys) (auto simp: points_def distinct_map inj_on_def)

definition repaint :: "int \<Rightarrow> int \<Rightarrow> (int \<Rightarrow> int \<Rightarrow> bool) \<Rightarrow> (color \<Rightarrow> color) \<Rightarrow> int \<times> int \<Rightarrow> machine \<Rightarrow> machine" where
  "repaint x y P F p m =
     (if P (fst p) (snd p) then fb_put_pixel (x + fst p) (y + snd p) (F (fb_get_pixel (x + fst p) (y + snd p) m)) m else m)"

lemma put_channels: "channels_ok (fb_put_pixel x y c m) = channels_ok m"
  by (simp add: put_pixel_form poke_bytes_def channels_ok_def)

lemma repaint_surface [simp]:
  "surface_ok (repaint x y P F p m) = surface_ok m" "channels_ok (repaint x y P F p m) = channels_ok m"
  "visible (repaint x y P F p m) = visible m"
  by (simp_all add: repaint_def put_channels)

lemma get_repaint:
  assumes "surface_ok m" and "channels_ok m" and "c_int (x + fst p)" and "c_int (y + snd p)" and "visible m px py"
  shows "fb_get_pixel px py (repaint x y P F p m) =
    (if P (fst p) (snd p) \<and> (px - x, py - y) = p then F (fb_get_pixel px py m) else fb_get_pixel px py m)"
proof (cases "P (fst p) (snd p)")
  case True
  have "(px = x + fst p \<and> py = y + snd p) \<longleftrightarrow> (px - x, py - y) = p" by (cases p) auto
  then show ?thesis using True put_get_pixel [OF assms] by (auto simp: repaint_def)
next
  case False
  then show ?thesis by (simp add: repaint_def)
qed

lemma get_repaint_all:
  assumes "surface_ok m" and "channels_ok m" and "visible m px py" and "distinct ps"
    and "\<And>p. p \<in> set ps \<Longrightarrow> c_int (x + fst p) \<and> c_int (y + snd p)"
  shows "fb_get_pixel px py (fold (repaint x y P F) ps m) =
    (if (px - x, py - y) \<in> set ps \<and> P (px - x) (py - y) then F (fb_get_pixel px py m) else fb_get_pixel px py m)"
  using assms
proof (induction ps arbitrary: m)
  case Nil
  then show ?case by simp
next
  case (Cons p ps)
  have "fb_get_pixel px py (fold (repaint x y P F) ps (repaint x y P F p m)) =
    (if (px - x, py - y) \<in> set ps \<and> P (px - x) (py - y)
     then F (fb_get_pixel px py (repaint x y P F p m)) else fb_get_pixel px py (repaint x y P F p m))"
    using Cons.prems by (intro Cons.IH) simp_all
  then show ?case using Cons.prems get_repaint [of m x p y px py P F] by auto
qed

lemma get_repaint_rect:
  assumes "surface_ok m" and "channels_ok m" and "visible m px py" and "distinct xs" and "distinct ys"
    and "\<And>dx. dx \<in> set xs \<Longrightarrow> c_int (x + dx)" and "\<And>dy. dy \<in> set ys \<Longrightarrow> c_int (y + dy)"
  shows "fb_get_pixel px py (fold (\<lambda>dy. fold (\<lambda>dx. repaint x y P F (dx, dy)) xs) ys m) =
    (if px - x \<in> set xs \<and> py - y \<in> set ys \<and> P (px - x) (py - y) then F (fb_get_pixel px py m) else fb_get_pixel px py m)"
proof -
  have "fold (\<lambda>dy. fold (\<lambda>dx. repaint x y P F (dx, dy)) xs) ys m = fold (repaint x y P F) (points xs ys) m"
    unfolding fold_points by (simp add: case_prod_beta')
  moreover have "\<And>p. p \<in> set (points xs ys) \<Longrightarrow> c_int (x + fst p) \<and> c_int (y + snd p)" using assms(6,7) by auto
  ultimately show ?thesis
    using get_repaint_all [OF assms(1-3) distinct_points [OF assms(4,5)], of x y P F] by simp
qed

lemma rounded_glass_repaint:
  "(\<lambda>m. if \<not> rounded_mask dx dy w h r then m else blend_pixel (x + dx) (y + dy) tint a m) =
   repaint x y (\<lambda>dx dy. rounded_mask dx dy w h r) (\<lambda>c. ui_blend c tint a) (dx, dy)"
  by (auto simp: repaint_def blend_pixel_def)

lemma circle_repaint:
  "(\<lambda>m. if dx * dx + dy * dy \<le> r * r then fb_put_pixel (x + dx) (y + dy) c m else m) =
   repaint x y (\<lambda>dx dy. dx * dx + dy * dy \<le> r * r) (\<lambda>_. c) (dx, dy)"
  by (auto simp: repaint_def)

section \<open>Properties\<close>

text \<open>C38: A translucent rounded panel blends its tint over exactly the pixels of the rectangle that lie on
  the screen and inside the rounded corners, each of them once, and leaves every other pixel
  alone.\<close>

theorem ui_fill_rounded_glass_exact:
  assumes "surface_ok m" and "channels_ok m" and "visible m px py"
    and "c_int x" and "c_int (x + w)" and "c_int y" and "c_int (y + h)"
  shows "fb_get_pixel px py (ui_fill_rounded_glass x y w h radius tint alpha_pm m) =
     (if x \<le> px \<and> px < x + w \<and> y \<le> py \<and> py < y + h \<and> rounded_mask (px - x) (py - y) w h radius
      then ui_blend (fb_get_pixel px py m) tint alpha_pm else fb_get_pixel px py m)"
proof (cases "w \<le> 0 \<or> h \<le> 0")
  case True
  then show ?thesis by (auto simp: ui_fill_rounded_glass_def)
next
  case False
  have "\<And>d. d \<in> set [0..w - 1] \<Longrightarrow> c_int (x + d)" "\<And>d. d \<in> set [0..h - 1] \<Longrightarrow> c_int (y + d)"
    using assms(4-7) by (auto simp: c_int_def)
  from get_repaint_rect [OF assms(1-3) distinct_upto distinct_upto this]
  show ?thesis using False unfolding ui_fill_rounded_glass_def rounded_glass_repaint by auto
qed

text \<open>A filled circle covers exactly the visible points within its radius.\<close>

theorem ui_fill_circle_exact:
  assumes "surface_ok m" and "channels_ok m" and "visible m px py"
    and "c_int (cx - r)" and "c_int (cx + r)" and "c_int (cy - r)" and "c_int (cy + r)" and "0 \<le> r"
  shows "fb_get_pixel px py (ui_fill_circle cx cy r c m) =
     (if (px - cx) * (px - cx) + (py - cy) * (py - cy) \<le> r * r then c else fb_get_pixel px py m)"
proof -
  have "\<And>d. d \<in> set [- r..r] \<Longrightarrow> c_int (cx + d)" "\<And>d. d \<in> set [- r..r] \<Longrightarrow> c_int (cy + d)"
    using assms(4-7) by (auto simp: c_int_def)
  then have g: "fb_get_pixel px py (fold (\<lambda>dy. fold (\<lambda>dx. repaint cx cy P F (dx, dy)) [- r..r]) [- r..r] m) =
    (if px - cx \<in> set [- r..r] \<and> py - cy \<in> set [- r..r] \<and> P (px - cx) (py - cy)
     then F (fb_get_pixel px py m) else fb_get_pixel px py m)" for P F
    by (intro get_repaint_rect [OF assms(1-3) distinct_upto distinct_upto])
  have *: "\<bar>d\<bar> \<le> r" if "d * d + e * e \<le> r * r" for d e :: int
  proof (rule ccontr)
    assume "\<not> \<bar>d\<bar> \<le> r"
    then have "r * r < \<bar>d\<bar> * \<bar>d\<bar>" using assms(8) by (intro mult_strict_mono') simp_all
    then show False using that zero_le_square [of e] by (simp add: abs_mult_self_eq)
  qed
  have "px - cx \<in> set [- r..r] \<and> py - cy \<in> set [- r..r]" if "(px - cx) * (px - cx) + (py - cy) * (py - cy) \<le> r * r"
    using that * [of "px - cx" "py - cy"] * [of "py - cy" "px - cx"] by (simp add: add.commute abs_le_iff)
  then show ?thesis unfolding ui_fill_circle_def circle_repaint g by auto
qed

theorem ui_fill_rounded_glass_exact_witness:
  "fb_get_pixel 0 1 (ui_fill_rounded_glass (-3) 0 7 2 2 (RGB 100 0 40) 500 screen_4x2) =
     ui_blend (fb_get_pixel 0 1 screen_4x2) (RGB 100 0 40) 500 \<and>
   fb_get_pixel 3 1 (ui_fill_rounded_glass (-4) (-5) 8 7 4 (RGB 100 0 40) 500 screen_4x2) = fb_get_pixel 3 1 screen_4x2"
  using ui_fill_rounded_glass_exact [OF screen_4x2_ok(1,2,4), of "-3" 7 0 2 2 "RGB 100 0 40" 500]
    ui_fill_rounded_glass_exact [OF screen_4x2_ok(1,2,3), of "-4" 8 "-5" 7 4 "RGB 100 0 40" 500]
  by (simp add: c_int_def rounded_mask_def)

end
