(* ===== verification/Nanofs_Image.thy ===== *)
theory Nanofs_Image
  imports Fs_Data
begin

text \<open>
  The tool that builds the disk image, \<open>src/tools/nanofs_img.c\<close>, and what the kernel makes of the image. The
  image file is a function from sectors to their bytes; what was never written is a hole, which reads as zeros.
  Reading the input file and opening the image are the host's: their results are arguments. A step returns \<open>Inl\<close>
  when the process exits with status 1, with the image as it was left.
\<close>

record image =
  image_sectors :: "u32 \<Rightarrow> u8 list"
  image_write_ok :: "u32 \<Rightarrow> bool"

definition blank_image :: image where
  "blank_image = \<lparr>image_sectors = (\<lambda>_. replicate 512 0), image_write_ok = (\<lambda>_. True)\<rparr>"

definition and_then :: "'a + 'a \<Rightarrow> ('a \<Rightarrow> 'a + 'a) \<Rightarrow> 'a + 'a" where
  "and_then r f = (case r of Inl a \<Rightarrow> Inl a | Inr a \<Rightarrow> f a)"

definition img_write_sector :: "u32 \<Rightarrow> u8 list \<Rightarrow> image \<Rightarrow> image + image" where
  "img_write_sector sector data img =
     (if image_write_ok img sector then Inr (img\<lparr>image_sectors := (image_sectors img)(sector := data)\<rparr>) else Inl img)"

text \<open>
  \<open>TOTAL_SECTORS\<close> is \<open>((4096 * 1024 * 1024) / 512)\<close>, whose product overflows \<open>int\<close>: its value is the
  compiler's, and a parameter (\<open>tot\<close>) here.
\<close>

definition create_empty_disk :: "u32 \<Rightarrow> image \<Rightarrow> image + image" where
  "create_empty_disk tot img =
     fold (\<lambda>i r. and_then r (img_write_sector (of_nat i) (replicate 512 0))) [0..<unat tot] (Inr img)"

definition create_superblock :: "u32 \<Rightarrow> image \<Rightarrow> image + image" where
  "create_superblock tot img =
     (let sb = \<lparr>sb_magic = FS_MAGIC @ replicate (8 - length FS_MAGIC) 0, sb_version = FS_VERSION,
                sb_total_sectors = tot, sb_inode_count = 1\<rparr>
      in img_write_sector 0 (encode_superblock sb @ replicate 492 0) img)"

definition hello_riru :: "u8 list" where
  "hello_riru = [104, 101, 108, 108, 111, 46, 114, 105, 114, 117]"

definition create_inode_table :: "nat \<Rightarrow> image \<Rightarrow> image + image" where
  "create_inode_table riru_size img =
     (let inode = \<lparr>node_name = strncpy hello_riru (FS_NAME_MAX - 1) @ [0], node_parent = 0,
                   node_blocks = [FS_DATA_START, 0, 0, 0], node_size = of_nat riru_size,
                   node_is_directory = 0, node_pad = 0\<rparr>
      in img_write_sector FS_INODE_TABLE_START (encode_inode inode @ replicate 458 0) img)"

fun write_riru_loop :: "nat list \<Rightarrow> nat \<Rightarrow> u8 list \<Rightarrow> image \<Rightarrow> image + image" where
  "write_riru_loop [] offset riru img = Inr img"
| "write_riru_loop (block # blocks) offset riru img =
     (if offset < length riru then
        (let remaining = length riru - offset;
             chunk = (if remaining > 511 then 511 else remaining);
             sector = take chunk (drop offset riru) @ replicate (512 - chunk) 0
         in and_then (img_write_sector (FS_DATA_START + of_nat block) sector img)
              (write_riru_loop blocks (offset + chunk) riru))
      else Inr img)"

definition write_riru :: "u8 list \<Rightarrow> image \<Rightarrow> image + image" where
  "write_riru riru img =
     (if length riru = 0 then Inl img
      else if length riru > FS_MAX_BLOCKS * 511 then Inl img
      else write_riru_loop [0..<FS_MAX_BLOCKS] 0 riru img)"

text \<open>\<open>riru_file\<close> is what \<open>read_file\<close> returned and \<open>disk_file\<close> what \<open>fopen\<close> did.\<close>

definition nanofs_img :: "u32 \<Rightarrow> u8 list option \<Rightarrow> image option \<Rightarrow> int \<times> image option" where
  "nanofs_img tot riru_file disk_file =
     (case riru_file of None \<Rightarrow> (1, None)
      | Some riru \<Rightarrow>
          (case disk_file of None \<Rightarrow> (1, None)
           | Some img \<Rightarrow>
               (case and_then (and_then (and_then (create_empty_disk tot img) (create_superblock tot))
                       (create_inode_table (length riru))) (write_riru riru) of
                  Inl img \<Rightarrow> (1, Some img)
                | Inr img \<Rightarrow> (0, Some img))))"

section \<open>The image that is written\<close>

definition writable :: "image \<Rightarrow> bool" where
  "writable img \<longleftrightarrow> image_write_ok img = (\<lambda>_. True)"

lemma write_sector_ok:
  "writable img \<Longrightarrow> img_write_sector k bs img = Inr (img\<lparr>image_sectors := (image_sectors img)(k := bs)\<rparr>)"
  by (simp add: img_write_sector_def writable_def)

lemma create_empty_disk_blank: "create_empty_disk tot blank_image = Inr blank_image"
proof -
  have "and_then (Inr blank_image) (img_write_sector k (replicate 512 0)) = Inr blank_image" for k
    by (simp add: and_then_def img_write_sector_def blank_image_def fun_upd_idem)
  then have "fold (\<lambda>i r. and_then r (img_write_sector (of_nat i) (replicate 512 0))) is (Inr blank_image) = Inr blank_image"
    for "is" :: "nat list" by (induction "is") simp_all
  then show ?thesis by (simp add: create_empty_disk_def)
qed

lemma write_riru_loop_ok:
  assumes "writable img"
  shows "\<exists>img'. write_riru_loop bs off riru img = Inr img' \<and> writable img' \<and>
    (\<forall>k. (\<forall>b \<in> set bs. k \<noteq> FS_DATA_START + of_nat b) \<longrightarrow> image_sectors img' k = image_sectors img k) \<and>
    ((\<forall>k. length (image_sectors img k) = 512) \<longrightarrow> (\<forall>k. length (image_sectors img' k) = 512))"
  using assms
proof (induction bs arbitrary: off img)
  case Nil
  then show ?case by simp
next
  case (Cons b bs)
  show ?case
  proof (cases "off < length riru")
    case False
    then show ?thesis using Cons.prems by simp
  next
    case True
    define c where "c = (if length riru - off > 511 then 511 else length riru - off)"
    define sec where "sec = take c (drop off riru) @ replicate (512 - c) 0"
    define img1 where "img1 = img\<lparr>image_sectors := (image_sectors img)(FS_DATA_START + of_nat b := sec)\<rparr>"
    have "length sec = 512" using True by (auto simp: sec_def c_def)
    moreover have "writable img1" using Cons.prems by (simp add: img1_def writable_def)
    moreover have "write_riru_loop (b # bs) off riru img = write_riru_loop bs (off + c) riru img1"
      using True write_sector_ok [OF Cons.prems] by (simp add: and_then_def img1_def sec_def c_def Let_def)
    ultimately show ?thesis using Cons.IH [of img1 "off + c"] by (fastforce simp: img1_def)
  qed
qed

text \<open>The first data sector and the three others of the file.\<close>

lemma write_riru_ok:
  assumes "writable img" and "0 < length riru" and "length riru \<le> 2044" and "\<And>k. length (image_sectors img k) = 512"
  obtains img' where "write_riru riru img = Inr img'" and "\<And>k. length (image_sectors img' k) = 512"
    and "\<And>k. k < 9 \<Longrightarrow> image_sectors img' k = image_sectors img k"
    and "take 511 (image_sectors img' 9) = take 511 riru @ replicate (511 - length riru) 0"
proof -
  define c where "c = (if length riru > 511 then 511 else length riru)"
  define sec where "sec = take c riru @ replicate (512 - c) 0"
  define img1 where "img1 = img\<lparr>image_sectors := (image_sectors img)(9 := sec)\<rparr>"
  have l: "length sec = 512" by (auto simp: sec_def c_def)
  have "writable img1" using assms(1) by (simp add: img1_def writable_def)
  from write_riru_loop_ok [OF this, of "[1, 2, 3]" c riru] obtain img' where
    w: "write_riru_loop [1, 2, 3] c riru img1 = Inr img'"
    "\<forall>k. (\<forall>b \<in> set [1, 2, 3]. k \<noteq> FS_DATA_START + of_nat b) \<longrightarrow> image_sectors img' k = image_sectors img1 k"
    "\<forall>k. length (image_sectors img' k) = 512"
    using assms(4) l by (auto simp: img1_def)
  have "[0..<FS_MAX_BLOCKS] = 0 # [1, 2, 3]" by (simp add: FS_MAX_BLOCKS_def upt_rec)
  then have "write_riru riru img = Inr img'"
    using assms w(1) write_sector_ok [OF assms(1)]
    by (simp add: write_riru_def FS_MAX_BLOCKS_def FS_DATA_START_def and_then_def img1_def sec_def c_def Let_def)
  moreover have keep: "image_sectors img' k = image_sectors img1 k" if "k \<notin> {10, 11, 12}" for k
    using w(2) that by (simp add: FS_DATA_START_def)
  have "image_sectors img' k = image_sectors img k" if "k < 9" for k
  proof -
    have "k \<noteq> 9 \<and> k \<notin> {10, 11, 12}" using that by auto
    then show ?thesis using keep [of k] by (simp add: img1_def)
  qed
  moreover have "take 511 (image_sectors img' 9) = take 511 riru @ replicate (511 - length riru) 0"
    using keep [of 9] by (auto simp: img1_def sec_def c_def take_replicate min_def)
  ultimately show ?thesis using that w(3) by blast
qed

section \<open>The image as the kernel sees it\<close>

definition attached :: "image \<Rightarrow> disk" where
  "attached img = \<lparr>sectors = image_sectors img, read_status = (\<lambda>_. 0), write_status = (\<lambda>_. 0), stale = []\<rparr>"

definition hello_inode :: "nat \<Rightarrow> fs_inode" where
  "hello_inode n = \<lparr>node_name = hello_riru @ replicate 18 0, node_parent = 0, node_blocks = [9, 0, 0, 0],
     node_size = of_nat n, node_is_directory = 0, node_pad = 0\<rparr>"

lemma hello_name: "strncpy hello_riru 27 @ [0] = hello_riru @ replicate 18 0"
proof -
  have "cstr hello_riru = hello_riru" "length hello_riru = 10" by (simp_all add: hello_riru_def)
  moreover have "replicate 18 (0 :: u8) = 0 # replicate 17 0" using replicate_Suc [of 17 "0 :: u8"] by simp
  ultimately show ?thesis by (simp add: strncpy_eq replicate_append_same)
qed

lemma encode_hello: "length (encode_inode (hello_inode n)) = 54" "decode_inode (encode_inode (hello_inode n)) = hello_inode n"
  by (simp_all add: encode_inode_def decode_inode_def hello_inode_def hello_riru_def upt_rec take_bit_word_eq_self
      le_word_le_bytes_take nth_append)

lemma image_written:
  assumes "0 < length riru" and "length riru \<le> 2044"
  obtains img where "nanofs_img tot (Some riru) (Some blank_image) = (0, Some img)"
    and "disk_ok (attached img)"
    and "sectors (attached img) 0 = FS_MAGIC @ 0 # le_bytes 4 FS_VERSION @ le_bytes 4 tot @ le_bytes 4 (1 :: u32) @ replicate 492 0"
    and "sectors (attached img) 1 = encode_inode (hello_inode (length riru)) @ replicate 458 0"
    and "take 511 (sectors (attached img) 9) = take 511 riru @ replicate (511 - length riru) 0"
proof -
  define sb where "sb = FS_MAGIC @ 0 # le_bytes 4 FS_VERSION @ le_bytes 4 tot @ le_bytes 4 (1 :: u32) @ replicate 492 0"
  define tab where "tab = encode_inode (hello_inode (length riru)) @ replicate 458 0"
  define img where "img = blank_image\<lparr>image_sectors := ((\<lambda>_. replicate 512 0)(0 := sb))(1 := tab)\<rparr>"
  have l: "length sb = 512" "length tab = 512" using encode_hello(1) by (simp_all add: sb_def tab_def FS_MAGIC_def)
  have w: "writable blank_image" "writable (blank_image\<lparr>image_sectors := f\<rparr>)" for f by (simp_all add: writable_def blank_image_def)
  have s: "create_superblock tot blank_image = Inr (blank_image\<lparr>image_sectors := (\<lambda>_. replicate 512 0)(0 := sb)\<rparr>)"
    using write_sector_ok [OF w(1)]
    by (simp add: create_superblock_def encode_superblock_def sb_def FS_MAGIC_def) (simp add: blank_image_def)
  have t: "create_inode_table (length riru) (blank_image\<lparr>image_sectors := f\<rparr>) = Inr (blank_image\<lparr>image_sectors := f(1 := tab)\<rparr>)" for f
    using write_sector_ok [OF w(2)] hello_name
    by (simp add: create_inode_table_def tab_def hello_inode_def FS_NAME_MAX_def FS_DATA_START_def FS_INODE_TABLE_START_def)
  have "writable img" "\<And>k. length (image_sectors img k) = 512" using w(2) l by (simp_all add: img_def)
  from write_riru_ok [OF this(1) assms this(2)] obtain img' where
    r: "write_riru riru img = Inr img'" "\<And>k. length (image_sectors img' k) = 512"
    "\<And>k. k < 9 \<Longrightarrow> image_sectors img' k = image_sectors img k"
    "take 511 (image_sectors img' 9) = take 511 riru @ replicate (511 - length riru) 0" by blast
  have "nanofs_img tot (Some riru) (Some blank_image) = (0, Some img')"
    using r(1) by (simp add: nanofs_img_def and_then_def create_empty_disk_blank s t img_def)
  moreover have "disk_ok (attached img')" using r(2) by (simp add: disk_ok_def attached_def)
  moreover have "sectors (attached img') 0 = sb" "sectors (attached img') 1 = tab"
    using r(3) [of 0] r(3) [of 1] by (simp_all add: attached_def img_def)
  ultimately show ?thesis using that r(4) by (simp add: attached_def sb_def tab_def)
qed

lemma hello_found:
  assumes "disk_ok (disk s)" and "sectors (disk s) 1 = encode_inode (hello_inode n) @ replicate 458 0"
  shows "inode_read 1 s = hello_inode n" and "lookup hello_riru 0 s = 1"
proof -
  show i: "inode_read 1 s = hello_inode n"
    using assms encode_hello [of n]
    by (simp add: inode_read_def disk_read_def disk_ok_def inode_sector_def inode_slot_def FS_MAX_INODES_def
        INODES_PER_SECTOR_def INODE_BYTES_def FS_INODE_TABLE_START_def lba28_def)
  have "strcmp (hello_riru @ replicate 18 0) hello_riru = 0" by (simp add: strcmp_zero_iff hello_riru_def)
  then have "first_index (\<lambda>ino. \<not> name_free (inode_read (of_nat ino) s) \<and> node_parent (inode_read (of_nat ino) s) = 0 \<and>
      strcmp (node_name (inode_read (of_nat ino) s)) hello_riru = 0) 1 (FS_MAX_INODES + 1) = Some 1"
    using i by (simp add: first_index_Some FS_MAX_INODES_def name_free_def hello_inode_def) (simp add: hello_riru_def)
  then show "lookup hello_riru 0 s = 1" by (simp add: lookup_def found_def Let_def)
qed

section \<open>Properties\<close>

text \<open>C27: The kernel mounts the image that the tool builds and finds the program in it, but of a program longer
  than 511 bytes it reads only the first 511, although the tool writes up to four sectors of it: the
  inode names the first sector only.\<close>

theorem nanofs_image_in_kernel:
  assumes "0 < length riru" and "length riru \<le> 2044" and "length riru \<le> length buf" and "length buf < 2 ^ 32"
  shows "\<exists>img s. nanofs_img tot (Some riru) (Some blank_image) = (0, Some img) \<and>
    fs_mount (fs_initial (attached img)) = (1, s) \<and> mounted_total_sectors s = tot \<and>
    fs_read (Some hello_riru) (Some buf) (of_nat (length buf)) s =
      (int (min 511 (length riru)), Some (take 511 riru @ drop (min 511 (length riru)) buf))"
proof -
  obtain img where img: "nanofs_img tot (Some riru) (Some blank_image) = (0, Some img)" and ok: "disk_ok (attached img)"
    and s0: "sectors (attached img) 0 = FS_MAGIC @ 0 # le_bytes 4 FS_VERSION @ le_bytes 4 tot @ le_bytes 4 (1 :: u32) @ replicate 492 0"
    and s1: "sectors (attached img) 1 = encode_inode (hello_inode (length riru)) @ replicate 458 0"
    and s9: "take 511 (sectors (attached img) 9) = take 511 riru @ replicate (511 - length riru) 0"
    using image_written [OF assms(1,2)] by blast
  define s where "s = (fs_initial (attached img))\<lparr>current_dir := 0, mounted_total_sectors := tot\<rparr>"
  have s: "disk s = attached img" "current_dir s = 0" by (simp_all add: s_def fs_initial_def)
  have mount: "fs_mount (fs_initial (attached img)) = (1, s)"
    using ok s0 by (simp add: fs_mount_def disk_read_def disk_ok_def lba28_small fs_initial_def decode_superblock_def
        strcmp_zero_iff FS_VERSION_def FS_MAGIC_def s_def le_word_le_bytes_take take_bit_word_eq_self Let_def)
  note hello = hello_found [of s, unfolded s(1), OF ok s1]
  have n: "unat (of_nat (length riru) :: u32) = length riru" "unat (of_nat (length buf) :: u32) = length buf"
    using assms by (simp_all add: unat_of_nat)
  then have nl: "\<not> (of_nat (length buf) :: u32) < of_nat (length riru)"
    using assms(3) by (simp add: word_less_nat_alt del: of_nat_unat)
  have "take (length riru) (take 511 (sectors (attached img) 9)) = take 511 riru"
    unfolding s9 by (cases "length riru \<le> 511") (simp_all add: min_def)
  then have "read_loop [9, 0, 0, 0] 0 (length riru) (attached img) buf =
      (min 511 (length riru), take 511 riru @ drop (min 511 (length riru)) buf)"
    using read_loop_result [OF ok, of "[9, 0, 0, 0]" 0 "length riru" buf] assms(3)
    by (simp add: Let_def min.commute)
  then have "fs_read (Some hello_riru) (Some buf) (of_nat (length buf)) s =
      (int (min 511 (length riru)), Some (take 511 riru @ drop (min 511 (length riru)) buf))"
    using hello nl n by (simp add: fs_read_def s hello_inode_def Let_def del: read_loop.simps)
  then show ?thesis using img mount by (auto simp: s_def)
qed

theorem nanofs_image_in_kernel_witness:
  "\<exists>img s. nanofs_img 0 (Some (replicate 600 7)) (Some blank_image) = (0, Some img) \<and>
    fs_mount (fs_initial (attached img)) = (1, s) \<and> mounted_total_sectors s = 0 \<and>
    fs_read (Some hello_riru) (Some (replicate 1024 0)) 1024 s = (511, Some (replicate 511 7 @ replicate 513 0))"
  using nanofs_image_in_kernel [of "replicate 600 7" "replicate 1024 0" 0] by simp

end
