(* ===== verification/Wallpaper.thy ===== *)
theory Wallpaper
  imports Nanofs_Image Heap
begin

text \<open>
  The desktop picture: \<open>src/tools/wallpaper_pack.c\<close>, which writes it into the disk image, and
  \<open>src/gui/wallpaper.c\<close>, which reads it from the disk into a heap block; the format is
  \<open>src/wallpaper_layout.h\<close>. \<open>write_sector\<close> of the tool is the one of \<open>nanofs_img.c\<close> (theory Nanofs_Image).
  The picture file, \<open>malloc\<close> and \<open>fopen\<close> are the host's and are arguments, as are the numbers \<open>strtol\<close> read.
\<close>

definition WALLPAPER_MAGIC :: "u8 list" where "WALLPAPER_MAGIC = [87, 80, 66, 77, 80, 48, 49]"
definition WALLPAPER_HEADER_SECTOR :: u32 where "WALLPAPER_HEADER_SECTOR = 100000"
definition WALLPAPER_DATA_START_SECTOR :: u32 where "WALLPAPER_DATA_START_SECTOR = WALLPAPER_HEADER_SECTOR + 1"
definition WALLPAPER_DISK_SECTORS :: u32 where "WALLPAPER_DISK_SECTORS = 131072"
definition WALLPAPER_MAX_BYTES :: u32 where
  "WALLPAPER_MAX_BYTES = (WALLPAPER_DISK_SECTORS - WALLPAPER_DATA_START_SECTOR) * 512"

record wallpaper_header =
  wp_magic :: "u8 list"
  wp_width :: u32
  wp_height :: u32
  wp_size_bytes :: u32

definition encode_wallpaper :: "wallpaper_header \<Rightarrow> u8 list" where
  "encode_wallpaper h = wp_magic h @ le_bytes 4 (wp_width h) @ le_bytes 4 (wp_height h) @ le_bytes 4 (wp_size_bytes h)"

definition decode_wallpaper :: "u8 list \<Rightarrow> wallpaper_header" where
  "decode_wallpaper bs = \<lparr>wp_magic = take 8 bs, wp_width = le_word (take 4 (drop 8 bs)),
     wp_height = le_word (take 4 (drop 12 bs)), wp_size_bytes = le_word (take 4 (drop 16 bs))\<rparr>"

section \<open>The tool\<close>

function pack_loop :: "u32 \<Rightarrow> nat \<Rightarrow> u8 list \<Rightarrow> image \<Rightarrow> image + image" where
  "pack_loop sector offset pixels img =
     (if offset < length pixels then
        (let chunk = length pixels - offset;
             chunk = (if chunk > 512 then 512 else chunk);
             buffer = take chunk (drop offset pixels) @ replicate (512 - chunk) 0
         in case img_write_sector sector buffer img of
              Inl img \<Rightarrow> Inl img
            | Inr img \<Rightarrow> pack_loop (sector + 1) (offset + chunk) pixels img)
      else Inr img)"
  by pat_completeness auto
termination
  by (relation "measure (\<lambda>(sector, offset, pixels, img). length pixels - offset)") auto

declare pack_loop.simps [simp del]

text \<open>\<open>rgb_file\<close> is the contents of the picture file, if it could be opened; \<open>allocated\<close>, whether \<open>malloc\<close> gave memory.\<close>

definition wallpaper_pack :: "int \<Rightarrow> int \<Rightarrow> u8 list option \<Rightarrow> bool \<Rightarrow> image option \<Rightarrow> int \<times> image option" where
  "wallpaper_pack width height rgb_file allocated disk_file =
     (if width \<le> 0 \<or> height \<le> 0 then (1, None)
      else
        (let expected_size = of_int (width * height * 3) :: u32 in
         if expected_size > WALLPAPER_MAX_BYTES then (1, None)
         else
           (case rgb_file of None \<Rightarrow> (1, None)
            | Some rgb \<Rightarrow>
                if \<not> allocated then (1, None)
                else
                  (let pixels = take (unat expected_size) rgb;
                       got = length pixels;
                       extra = (length rgb > unat expected_size) in
                   if got \<noteq> unat expected_size \<or> extra then (1, None)
                   else
                     (case disk_file of None \<Rightarrow> (1, None)
                      | Some img \<Rightarrow>
                          (let hdr = \<lparr>wp_magic = WALLPAPER_MAGIC @ [0], wp_width = of_int width, wp_height = of_int height,
                                      wp_size_bytes = expected_size\<rparr>
                           in case and_then (img_write_sector WALLPAPER_HEADER_SECTOR (encode_wallpaper hdr @ replicate 492 0) img)
                                     (pack_loop WALLPAPER_DATA_START_SECTOR 0 pixels) of
                                Inl img \<Rightarrow> (1, Some img)
                              | Inr img \<Rightarrow> (0, Some img)))))))"

section \<open>The kernel\<close>

text \<open>The loop over the sectors: \<open>None\<close> when a sector could not be read. \<open>offset\<close> and the size are 32 bits wide.\<close>

function load_loop :: "u32 \<Rightarrow> u32 \<Rightarrow> u32 \<Rightarrow> disk \<Rightarrow> u64 \<Rightarrow> memory \<Rightarrow> memory option \<times> memory" where
  "load_loop sector offset sz d pixels mm =
     (if offset < sz then
        (let (rc, buffer) = disk_read sector d in
         if rc \<noteq> 0 then (None, mm)
         else
           (let chunk = sz - offset;
                chunk = (if chunk > 512 then 512 else chunk)
            in load_loop (sector + 1) (offset + chunk) sz d pixels
                 (store_bytes mm (pixels + ucast offset) (take (unat chunk) buffer))))
      else (Some mm, mm))"
  by pat_completeness auto
termination
proof (relation "measure (\<lambda>(sector, offset, sz, d, pixels, mm). unat (sz - offset))", goal_cases)
  case 1
  then show ?case by simp
next
  case (2 sector offset sz d pixels mm r rc buffer c chunk)
  have pos: "0 < unat (sz - offset)" using 2(1) by (simp add: unat_gt_0)
  have "unat chunk \<le> unat (sz - offset)" "0 < unat chunk"
    using 2(5,6) pos by (auto simp: word_less_nat_alt)
  moreover have e: "sz - (offset + chunk) = (sz - offset) - chunk" by simp
  ultimately have "unat (sz - (offset + chunk)) = unat (sz - offset) - unat chunk"
    unfolding e by (intro unat_sub) (simp add: word_le_nat_alt)
  then show ?case using pos \<open>0 < unat chunk\<close> by simp
qed

declare load_loop.simps [simp del]

text \<open>The result is the status, the machine, and the arguments of \<open>gui_set_background\<close> when it is called.\<close>

definition wallpaper_load :: "disk \<Rightarrow> machine \<Rightarrow> int \<times> machine \<times> (u64 \<times> int \<times> int) option" where
  "wallpaper_load d m =
     (let (rc, header_sector) = disk_read WALLPAPER_HEADER_SECTOR d in
      if rc \<noteq> 0 then (-1, m, None)
      else
        (let hdr = decode_wallpaper header_sector in
         if take 7 (wp_magic hdr) \<noteq> WALLPAPER_MAGIC then (-1, m, None)
         else if wp_width hdr = 0 \<or> wp_height hdr = 0 then (-2, m, None)
         else if ucast (wp_width hdr) * ucast (wp_height hdr) * 3 \<noteq> (ucast (wp_size_bytes hdr) :: u64) then (-2, m, None)
         else if wp_size_bytes hdr = 0 \<or> wp_size_bytes hdr > WALLPAPER_MAX_BYTES then (-2, m, None)
         else
           (let (pixels, m) = kmalloc (ucast (wp_size_bytes hdr)) m in
            if pixels = 0 then (-2, m, None)
            else
              (case load_loop WALLPAPER_DATA_START_SECTOR 0 (wp_size_bytes hdr) d pixels (mem m) of
                 (None, mm) \<Rightarrow> (-2, kfree pixels (m\<lparr>mem := mm\<rparr>), None)
               | (Some _, mm) \<Rightarrow>
                   (0, m\<lparr>mem := mm\<rparr>, Some (pixels, sint (wp_width hdr), sint (wp_height hdr)))))))"

section \<open>The sectors of the picture\<close>

text \<open>The sectors from \<open>sector\<close> on hold the bytes of the picture from \<open>offset\<close> on.\<close>

definition holds :: "(u32 \<Rightarrow> u8 list) \<Rightarrow> u8 list \<Rightarrow> bool" where
  "holds f pixels \<longleftrightarrow> (\<forall>k. k * 512 < length pixels \<longrightarrow>
     take (min 512 (length pixels - k * 512)) (f (100001 + of_nat k)) =
     take (min 512 (length pixels - k * 512)) (drop (k * 512) pixels))"

lemma pack_loop_sectors:
  assumes "writable img" and "length pixels \<le> 31071 * 512"
    and "\<And>j. j < k \<Longrightarrow> j * 512 < length pixels \<Longrightarrow> take (min 512 (length pixels - j * 512)) (image_sectors img (100001 + of_nat j)) =
      take (min 512 (length pixels - j * 512)) (drop (j * 512) pixels)"
    and "min (k * 512) (length pixels) = offset"
  shows "\<exists>img'. pack_loop (100001 + of_nat k) offset pixels img = Inr img' \<and> holds (image_sectors img') pixels \<and>
    (\<forall>s. s < 100001 \<longrightarrow> image_sectors img' s = image_sectors img s)"
  using assms
proof (induction "length pixels - offset" arbitrary: k offset img rule: less_induct)
  case less
  show ?case
  proof (cases "offset < length pixels")
    case False
    then have "length pixels \<le> k * 512" using less.prems(4) by linarith
    then have "holds (image_sectors img) pixels" using less.prems(3) unfolding holds_def by fastforce
    then show ?thesis using False by (subst pack_loop.simps) simp
  next
    case True
    then have off: "offset = k * 512" using less.prems(4) by linarith
    define c where "c = min 512 (length pixels - offset)"
    define sec where "sec = take c (drop offset pixels) @ replicate (512 - c) 0"
    define img1 where "img1 = img\<lparr>image_sectors := (image_sectors img)(100001 + of_nat k := sec)\<rparr>"
    have k: "k < 31071" using True off less.prems(2) by linarith
    have ne: "(of_nat j :: u32) \<noteq> of_nat k" if "j < k" for j
      using that k by (simp add: word_unat_eq_iff unat_of_nat)
    have "(if length pixels - offset > 512 then 512 else length pixels - offset) = c" by (simp add: c_def)
    then have step: "pack_loop (100001 + of_nat k) offset pixels img =
        pack_loop (100001 + of_nat (Suc k)) (offset + c) pixels img1"
      using True write_sector_ok [OF less.prems(1)]
      by (subst pack_loop.simps) (simp add: img1_def sec_def add.assoc add.commute [of 1])
    have w: "writable img1" using less.prems(1) by (simp add: img1_def writable_def)
    have l: "length (take c (drop offset pixels)) = c" by (simp add: c_def)
    have h: "take (min 512 (length pixels - j * 512)) (image_sectors img1 (100001 + of_nat j)) =
      take (min 512 (length pixels - j * 512)) (drop (j * 512) pixels)" if "j < Suc k" "j * 512 < length pixels" for j
    proof (cases "j = k")
      case True
      then show ?thesis using l by (simp add: img1_def sec_def c_def off)
    next
      case False
      then show ?thesis using that less.prems(3) [of j] ne [of j] by (simp add: img1_def)
    qed
    have "min (Suc k * 512) (length pixels) = offset + c" using off True by (simp add: c_def)
    moreover have "length pixels - (offset + c) < length pixels - offset" using True by (simp add: c_def)
    ultimately obtain img' where
      "pack_loop (100001 + of_nat (Suc k)) (offset + c) pixels img1 = Inr img'" "holds (image_sectors img') pixels"
      "\<forall>s. s < 100001 \<longrightarrow> image_sectors img' s = image_sectors img1 s"
      using less.hyps [OF _ w less.prems(2) h] by blast
    moreover have "image_sectors img1 s = image_sectors img s" if "s < 100001" for s
    proof -
      have "unat (100001 + of_nat k :: u32) = 100001 + k" using k by (simp add: unat_word_ariths unat_of_nat)
      then have "s \<noteq> 100001 + of_nat k" using that by (auto simp: word_less_nat_alt)
      then show ?thesis by (simp add: img1_def)
    qed
    ultimately show ?thesis using step by auto
  qed
qed

section \<open>Reading it back\<close>

lemma store_bytes_append: "store_bytes mm a (xs @ ys) = store_bytes (store_bytes mm a xs) (a + of_nat (length xs)) ys"
  by (induction xs arbitrary: mm a) (simp_all add: add.assoc add.commute [of 1])

lemma ucast_small: "n < 2 ^ 32 \<Longrightarrow> (ucast (of_nat n :: u32) :: u64) = of_nat n"
  by (simp add: unsigned_of_nat take_bit_nat_eq_self)

lemma load_loop_stores:
  assumes "holds (image_sectors img) pixels" and "length pixels \<le> 31071 * 512"
    and "min (k * 512) (length pixels) = offset"
  shows "load_loop (100001 + of_nat k) (of_nat offset) (of_nat (length pixels)) (attached img) p (store_bytes mm p (take offset pixels)) =
    (Some (store_bytes mm p pixels), store_bytes mm p pixels)"
  using assms(3)
proof (induction "length pixels - offset" arbitrary: k offset rule: less_induct)
  case less
  have u: "unat (of_nat (length pixels) :: u32) = length pixels" "unat (of_nat offset :: u32) = offset"
    using assms(2) less.prems by (auto simp: unat_of_nat)
  then have lt: "(of_nat offset :: u32) < of_nat (length pixels) \<longleftrightarrow> offset < length pixels"
    by (simp add: word_less_nat_alt del: of_nat_unat)
  show ?case
  proof (cases "offset < length pixels")
    case False
    then show ?thesis using lt by (subst load_loop.simps) simp
  next
    case True
    then have off: "offset = k * 512" using less.prems by linarith
    have k: "k < 31071" using True off assms(2) by linarith
    define c where "c = min 512 (length pixels - offset)"
    have d: "(of_nat (length pixels) :: u32) - of_nat offset = of_nat (length pixels - offset)"
      using True by (simp add: of_nat_diff)
    have "unat (of_nat (length pixels - offset) :: u32) = length pixels - offset"
      using assms(2) by (simp add: unat_of_nat)
    then have c: "(if (of_nat (length pixels - offset) :: u32) > 512 then 512 else of_nat (length pixels - offset)) = (of_nat c :: u32)"
      by (simp add: c_def word_less_nat_alt min_def)
    have uc: "unat (of_nat c :: u32) = c" by (simp add: c_def unat_of_nat)
    have "unat (100001 + of_nat k :: u32) = 100001 + k" using k by (simp add: unat_word_ariths unat_of_nat)
    then have r: "disk_read (100001 + of_nat k) (attached img) = (0, image_sectors img (100001 + of_nat k))"
      using k by (simp add: disk_read_def attached_def lba28_small)
    have t: "take c (image_sectors img (100001 + of_nat k)) = take c (drop offset pixels)"
      using assms(1) True off by (auto simp: holds_def c_def)
    have l: "length (take offset pixels) = offset" using True by simp
    have "take (offset + c) pixels = take offset pixels @ take c (drop offset pixels)" by (simp add: take_add)
    then have s: "store_bytes (store_bytes mm p (take offset pixels)) (p + of_nat offset) (take c (drop offset pixels)) =
        store_bytes mm p (take (offset + c) pixels)"
      using store_bytes_append [of mm p "take offset pixels" "take c (drop offset pixels)"] l by simp
    have uo: "(ucast (of_nat offset :: u32) :: u64) = of_nat offset"
      using True assms(2) by (intro ucast_small) simp
    have "(100001 + of_nat k + 1 :: u32) = 100001 + of_nat (Suc k)" "(of_nat offset + of_nat c :: u32) = of_nat (offset + c)"
      by simp_all
    then have step: "load_loop (100001 + of_nat k) (of_nat offset) (of_nat (length pixels)) (attached img) p (store_bytes mm p (take offset pixels)) =
      load_loop (100001 + of_nat (Suc k)) (of_nat (offset + c)) (of_nat (length pixels)) (attached img) p
        (store_bytes mm p (take (offset + c) pixels))"
      using lt True unfolding load_loop.simps [of "100001 + of_nat k"] r d
      by (simp only: if_True if_False prod.case c uc t uo s Let_def not_not simp_thms)
    have "min (Suc k * 512) (length pixels) = offset + c" using off True by (simp add: c_def)
    moreover have "length pixels - (offset + c) < length pixels - offset" using True by (simp add: c_def)
    ultimately show ?thesis unfolding step by (intro less.hyps)
  qed
qed

lemma wallpaper_header_roundtrip:
  "length (wp_magic h) = 8 \<Longrightarrow> decode_wallpaper (encode_wallpaper h @ rest) = h"
  by (simp add: decode_wallpaper_def encode_wallpaper_def le_word_le_bytes_take take_bit_word_eq_self)

lemma WALLPAPER_values:
  "WALLPAPER_HEADER_SECTOR = 100000" "WALLPAPER_DATA_START_SECTOR = 100001" "unat WALLPAPER_MAX_BYTES = 31071 * 512"
  by (simp_all add: WALLPAPER_HEADER_SECTOR_def WALLPAPER_DATA_START_SECTOR_def WALLPAPER_MAX_BYTES_def WALLPAPER_DISK_SECTORS_def)

lemma pack_image:
  fixes a b :: nat
  assumes "0 < a" and "0 < b" and "length rgb = a * b * 3" and "length rgb \<le> 31071 * 512" and "writable img0"
  obtains img where "wallpaper_pack (int a) (int b) (Some rgb) True (Some img0) = (0, Some img)"
    and "\<And>s. s < 100000 \<Longrightarrow> image_sectors img s = image_sectors img0 s"
    and "holds (image_sectors img) rgb"
    and "decode_wallpaper (image_sectors img 100000) =
      \<lparr>wp_magic = WALLPAPER_MAGIC @ [0], wp_width = of_nat a, wp_height = of_nat b, wp_size_bytes = of_nat (length rgb)\<rparr>"
proof -
  define hdr where "hdr = \<lparr>wp_magic = WALLPAPER_MAGIC @ [0], wp_width = of_nat a :: u32, wp_height = of_nat b :: u32,
    wp_size_bytes = of_nat (length rgb) :: u32\<rparr>"
  define img1 where "img1 = img0\<lparr>image_sectors := (image_sectors img0)(100000 := encode_wallpaper hdr @ replicate 492 0)\<rparr>"
  have w: "writable img1" using assms(5) by (simp add: img1_def writable_def)
  from pack_loop_sectors [OF this assms(4), of 0 0] obtain img where
    p: "pack_loop 100001 0 rgb img1 = Inr img" "holds (image_sectors img) rgb"
    "\<forall>s. s < 100001 \<longrightarrow> image_sectors img s = image_sectors img1 s" by auto
  have e: "(of_int (int a * int b * 3) :: u32) = of_nat (length rgb)" using assms(3) by simp
  have u: "unat (of_nat (length rgb) :: u32) = length rgb" using assms(4) by (simp add: unat_of_nat)
  then have m: "\<not> (of_nat (length rgb) :: u32) > WALLPAPER_MAX_BYTES"
    using assms(4) WALLPAPER_values(3) by (simp add: word_less_nat_alt del: of_nat_unat)
  have "wallpaper_pack (int a) (int b) (Some rgb) True (Some img0) = (0, Some img)"
    using assms(1,2) p(1) write_sector_ok [OF assms(5)] m u unfolding wallpaper_pack_def e WALLPAPER_values
    by (simp add: and_then_def img1_def hdr_def Let_def)
  moreover have "decode_wallpaper (image_sectors img 100000) = hdr"
    using p(3) wallpaper_header_roundtrip [of hdr] by (simp add: img1_def) (simp add: hdr_def WALLPAPER_MAGIC_def)
  moreover have "image_sectors img s = image_sectors img0 s" if "s < 100000" for s
  proof -
    have "s < 100001" using that by (simp add: word_less_nat_alt)
    then show ?thesis using p(3) that by (auto simp: img1_def)
  qed
  ultimately show ?thesis using that p(2) by (simp add: hdr_def)
qed

section \<open>Properties\<close>

text \<open>C39: A picture that the tool writes into an image is what the kernel loads from it: its bytes are in the
  heap block that is handed to the desktop, with its width and height; and the sectors below the picture's,
  which hold the file system, are left as they were.\<close>

theorem wallpaper_pack_load:
  fixes a b :: nat
  assumes "0 < a" and "0 < b" and "length rgb = a * b * 3" and "length rgb \<le> 31071 * 512" and "writable img0"
    and "fst (kmalloc (of_nat (length rgb)) m) \<noteq> 0"
  shows "\<exists>img m'. wallpaper_pack (int a) (int b) (Some rgb) True (Some img0) = (0, Some img) \<and>
    (\<forall>s. s < 100000 \<longrightarrow> image_sectors img s = image_sectors img0 s) \<and>
    wallpaper_load (attached img) m = (0, m', Some (fst (kmalloc (of_nat (length rgb)) m), int a, int b)) \<and>
    load_bytes (mem m') (fst (kmalloc (of_nat (length rgb)) m)) (length rgb) = rgb"
proof -
  obtain img where img: "wallpaper_pack (int a) (int b) (Some rgb) True (Some img0) = (0, Some img)"
    "\<And>s. s < 100000 \<Longrightarrow> image_sectors img s = image_sectors img0 s" "holds (image_sectors img) rgb"
    and hdr: "decode_wallpaper (image_sectors img 100000) =
      \<lparr>wp_magic = WALLPAPER_MAGIC @ [0], wp_width = of_nat a, wp_height = of_nat b, wp_size_bytes = of_nat (length rgb)\<rparr>"
    using pack_image [OF assms(1-5)] by blast
  obtain p m1 where k: "kmalloc (of_nat (length rgb)) m = (p, m1)" by (cases "kmalloc (of_nat (length rgb)) m")
  have "a * 1 \<le> a * (b * 3)" "b * 1 \<le> b * (a * 3)" using assms(1,2) by (intro mult_le_mono2; simp)+
  moreover have "length rgb = a * (b * 3)" "length rgb = b * (a * 3)" using assms(3) by (simp_all only: ac_simps)
  ultimately have "a \<le> length rgb" "b \<le> length rgb" by (simp_all only: mult_1_right)
  then have ab: "a < 2 ^ 31" "b < 2 ^ 31" using assms(4) by simp_all
  then have nz: "(of_nat a :: u32) \<noteq> 0" "(of_nat b :: u32) \<noteq> 0" using assms(1,2) by (simp_all add: word_unat_eq_iff unat_of_nat)
  have si: "sint (of_nat a :: u32) = int a" "sint (of_nat b :: u32) = int b"
    using ab by (simp_all add: signed_of_nat signed_take_bit_int_eq_self)
  have u: "unat (of_nat (length rgb) :: u32) = length rgb" using assms(4) by (simp add: unat_of_nat)
  moreover have "0 < length rgb" using assms(1-3) by simp
  ultimately have m: "\<not> (of_nat (length rgb) :: u32) > WALLPAPER_MAX_BYTES" "(of_nat (length rgb) :: u32) \<noteq> 0"
    using assms(4) WALLPAPER_values(3) by (simp_all add: word_less_nat_alt word_unat_eq_iff del: of_nat_unat)
  have uc: "(ucast (of_nat a :: u32) :: u64) = of_nat a" "(ucast (of_nat b :: u32) :: u64) = of_nat b"
    "(ucast (of_nat (length rgb) :: u32) :: u64) = of_nat (length rgb)"
    using ab assms(4) by (intro ucast_small; simp)+
  have "of_nat a * of_nat b * 3 = (of_nat (length rgb) :: u64)" using assms(3) by simp
  moreover have "disk_read 100000 (attached img) = (0, image_sectors img 100000)"
    by (simp add: disk_read_def attached_def lba28_small)
  moreover have "load_loop 100001 0 (of_nat (length rgb)) (attached img) p (mem m1) =
      (Some (store_bytes (mem m1) p rgb), store_bytes (mem m1) p rgb)"
    using load_loop_stores [OF img(3) assms(4), of 0 0 p "mem m1"] by simp
  ultimately have "wallpaper_load (attached img) m = (0, m1\<lparr>mem := store_bytes (mem m1) p rgb\<rparr>, Some (p, int a, int b))"
    using assms(6) k nz m unfolding wallpaper_load_def WALLPAPER_values
    by (simp add: hdr uc si WALLPAPER_MAGIC_def Let_def)
  moreover have "load_bytes (mem (m1\<lparr>mem := store_bytes (mem m1) p rgb\<rparr>)) p (length rgb) = rgb"
    using assms(4) by (simp add: load_store_bytes_same)
  ultimately show ?thesis using img(1,2) k by auto
qed

lemma heap_sample_block: "fst (kmalloc 3 heap_sample) \<noteq> 0"
proof -
  have s: "pmm heap_sample = pmm_sample" "heap_used heap_sample = 0" by (simp_all add: heap_sample_def)
  have "free_set pmm_sample \<noteq> {}" by (simp add: pmm_sample_free_set)
  then obtain q where "q \<in> free_set pmm_sample" by blast
  then have "{q..<q + 1} \<subseteq> free_set pmm_sample" by auto
  moreover have "unat (kmalloc_pages 3) = 1" using unat_kmalloc_pages [of 3] by simp
  ultimately have "\<exists>q. free_run (pmm heap_sample) q (unat (kmalloc_pages 3))" by (auto simp: free_run_def s)
  then obtain a where a: "page_aligned a" "fst (kmalloc 3 heap_sample) = a + 24"
    using kmalloc_cases [of heap_sample 3 "fst (kmalloc 3 heap_sample)" "snd (kmalloc 3 heap_sample)"] s pmm_sample_inv
    by auto
  have "unat (a + 24) = unat a + 24"
    using page_aligned_room [OF a(1)] by (subst unat_add_lem [THEN iffD1]) simp_all
  then show ?thesis using a(2) by auto
qed

theorem wallpaper_pack_load_witness:
  "\<exists>img m'. wallpaper_pack 1 1 (Some [10, 20, 30]) True (Some blank_image) = (0, Some img) \<and>
    wallpaper_load (attached img) heap_sample = (0, m', Some (fst (kmalloc 3 heap_sample), 1, 1)) \<and>
    load_bytes (mem m') (fst (kmalloc 3 heap_sample)) 3 = [10, 20, 30]"
proof -
  have w: "writable blank_image" by (simp add: writable_def blank_image_def)
  have n: "length [10, 20, 30 :: u8] = 3" "(of_nat 3 :: u64) = 3" "int 1 = 1" by simp_all
  have l: "3 = 1 * 1 * (3 :: nat)" "(3 :: nat) \<le> 31071 * 512" "(0 :: nat) < 1" by simp_all
  show ?thesis
    using wallpaper_pack_load [of 1 1 "[10, 20, 30]" blank_image heap_sample, unfolded n, OF l(3,3,1,2) w heap_sample_block]
    by blast
qed


end
