(* ===== verification/Shell.thy ===== *)
theory Shell
  imports Wallpaper Process Clock Ports
begin

text \<open>
  The shell, \<open>src/terminal/shell.c\<close>: the editor of the line that is being typed, the parsers and printers of the
  commands, their dispatch and what each does. Characters are bytes and C strings lists of them without the
  terminating zero; C \<open>int\<close>s are integers, whose overflow is undefined in C. \<open>None\<close> is a call that does not return
  (\<open>reboot\<close>, \<open>shutdown\<close>, a path without end) or reads or writes outside a buffer. The zeros that cut the arguments
  into words are not written to \<open>cmd_buf\<close>, whose contents no later command reads. \<open>uninit\<close> is what the 2048 bytes of
  an uninitialised stack buffer hold. What the commands ask of the desktop and of the terminal, beyond printing, is
  logged with the number of display calls before it.
\<close>

unbundle bit_operations_syntax

definition CMD_MAX :: nat where "CMD_MAX = 256"

datatype ui_call = TerminalClear | GuiRestoreTerminal | GuiSetBgColor u8 u8 u8 | GuiSetBackground u64 int int

record shell =
  sh_kern :: kernel
  sh_clock :: clock
  system_width :: u32
  system_height :: u32
  system_timer_hz :: u32
  ui_log :: "(nat \<times> ui_call) list"
  cmd_buf :: "u8 list"
  cmd_len :: int

definition sh_fs :: "shell \<Rightarrow> nanofs" where
  "sh_fs s = fs (sh_kern s)"

definition set_fs :: "nanofs \<Rightarrow> shell \<Rightarrow> shell" where
  "set_fs f s = s\<lparr>sh_kern := (sh_kern s)\<lparr>fs := f\<rparr>\<rparr>"

definition shown_calls :: "shell \<Rightarrow> display_call list" where
  "shown_calls s = display (pmm (mach (sh_kern s)))"

definition ui :: "ui_call \<Rightarrow> shell \<Rightarrow> shell" where
  "ui c s = s\<lparr>ui_log := ui_log s @ [(length (shown_calls s), c)]\<rparr>"

text \<open>What the commands print: a literal, a string of the program, a character, or a number by \<open>print_uint\<close>.\<close>

datatype printed = Lit string | Str "u8 list" | Chr u8 | Num u64

fun emit1 :: "printed \<Rightarrow> kernel \<Rightarrow> kernel" where
  "emit1 (Lit t) k = print_k t k"
| "emit1 (Str t) k = print_k (map (\<lambda>c. char_of (unat c)) (cstr t)) k"
| "emit1 (Chr c) k = on_mach (on_pmm (terminal_putchar (char_of (unat c)))) k"
| "emit1 (Num n) k = on_mach (on_pmm (print_uint n)) k"

definition emit :: "printed list \<Rightarrow> shell \<Rightarrow> shell" where
  "emit os s = s\<lparr>sh_kern := fold emit1 os (sh_kern s)\<rparr>"

definition putchar_sh :: "u8 \<Rightarrow> shell \<Rightarrow> shell" where
  "putchar_sh c s = emit [Chr c] s"

section \<open>Printing and parsing\<close>

definition hex_digits :: "u8 list" where
  "hex_digits = [48, 49, 50, 51, 52, 53, 54, 55, 56, 57, 65, 66, 67, 68, 69, 70]"

definition print_hex8 :: "u8 \<Rightarrow> shell \<Rightarrow> shell" where
  "print_hex8 v s = emit [Chr (hex_digits ! unat (drop_bit 4 v AND 0xF)), Chr (hex_digits ! unat (v AND 0xF))] s"

fun str_eq :: "u8 list \<Rightarrow> u8 list \<Rightarrow> bool" where
  "str_eq [] b = (cchar b 0 = 0)"
| "str_eq (x # a) b =
     (if x \<noteq> 0 \<and> cchar b 0 \<noteq> 0 then if x \<noteq> cchar b 0 then False else str_eq a (tl b)
      else x = 0 \<and> cchar b 0 = 0)"

definition is_digit :: "u8 \<Rightarrow> bool" where
  "is_digit c \<longleftrightarrow> 48 \<le> c \<and> c \<le> 57"

text \<open>The loop over the digits, with the value so far; the rest of the string is returned with the value.\<close>

fun digits_loop :: "int \<Rightarrow> u8 list \<Rightarrow> int \<times> u8 list" where
  "digits_loop v [] = (v, [])"
| "digits_loop v (c # ks) = (if is_digit c then digits_loop (v * 10 + (uint c - 48)) ks else (v, c # ks))"

definition parse_color_channel :: "u8 list \<Rightarrow> (int \<times> u8 list) option" where
  "parse_color_channel s =
     (let s = dropWhile (\<lambda>c. c = 32) s in
      if \<not> is_digit (cchar s 0) then None
      else (let (v, s) = digits_loop 0 s in Some (if v > 255 then 255 else v, s)))"

definition parse_rgb :: "u8 list \<Rightarrow> (int \<times> int \<times> int) option" where
  "parse_rgb p =
     (case parse_color_channel p of None \<Rightarrow> None
      | Some (r, p) \<Rightarrow>
          (case parse_color_channel p of None \<Rightarrow> None
           | Some (g, p) \<Rightarrow>
               (case parse_color_channel p of None \<Rightarrow> None
                | Some (b, p) \<Rightarrow> Some (r, g, b))))"

definition parse_uint_field :: "u8 list \<Rightarrow> (int \<times> u8 list) option" where
  "parse_uint_field s =
     (let s = dropWhile (\<lambda>c. c = 32) s in
      if \<not> is_digit (cchar s 0) then None else Some (digits_loop 0 s))"

text \<open>\<open>print_uint\<close> is given the \<open>int\<close>, converted to 64 bits without sign.\<close>

definition print_2digit :: "int \<Rightarrow> shell \<Rightarrow> shell" where
  "print_2digit v s = emit ((if v < 10 then [Chr 48] else []) @ [Num (of_int v)]) s"

definition show_prompt :: "shell \<Rightarrow> shell option" where
  "show_prompt s =
     (case fs_get_pwd (sh_fs s) of
        Some (Some pwd) \<Rightarrow> Some (emit [Str pwd, Lit ''> ''] s)
      | _ \<Rightarrow> None)"

text \<open>The loop that cuts a string at its first space; the second part is null when there is none.\<close>

definition split_space :: "u8 list \<Rightarrow> u8 list \<times> u8 list option" where
  "split_space t =
     (takeWhile (\<lambda>c. c \<noteq> 32) t, if 32 \<in> set t then Some (tl (dropWhile (\<lambda>c. c \<noteq> 32) t)) else None)"

definition given :: "u8 list option \<Rightarrow> bool" where
  "given args \<longleftrightarrow> (case args of None \<Rightarrow> False | Some a \<Rightarrow> cchar a 0 \<noteq> 0)"

section \<open>System commands\<close>

definition cmd_help :: "shell \<Rightarrow> shell" where
  "cmd_help s = emit
     [Lit ''Commands:\<newline>'',
      Lit ''  System  : ver, help, clear, uptime, meminfo, usage, reboot, shutdown\<newline>'',
      Lit ''            time, time set <hh> <mm> <ss>\<newline>'',
      Lit ''  Disk    : diskread, diskwrite, format, mount\<newline>'',
      Lit ''  Files   : touch <name>, ls, cat <file>, write <file> <text>\<newline>'',
      Lit ''            append <file> <text>, rm <file>, mv <old> <new>\<newline>'',
      Lit ''            stat <name>\<newline>'',
      Lit ''  Dirs    : mkdir <name>, cd <dir>, pwd\<newline>'',
      Lit ''  Other   : say <text>, alloc\<newline>'',
      Lit ''  Desktop : bg <r> <g> <b>, bg default, bg image\<newline>'',
      Lit ''  Process : run <program>\<newline>'',
      Lit ''  Window  : show\<newline>''] s"

definition cmd_say :: "u8 list option \<Rightarrow> shell \<Rightarrow> shell" where
  "cmd_say args s = (if given args then emit [Str (the args), Chr 10] s else emit [Lit ''Usage: say <text>\<newline>''] s)"

definition cmd_uptime :: "shell \<Rightarrow> shell" where
  "cmd_uptime s = emit [Lit ''Uptime: '', Num (timer_get_ticks (sh_clock s) div 100), Lit '' seconds\<newline>''] s"

definition cmd_time :: "u8 list option \<Rightarrow> shell \<Rightarrow> shell" where
  "cmd_time args s =
     (if \<not> given args then
        (let (h, m, sec) = clock_get (sh_clock s) in
         emit [Chr 10] (print_2digit sec (emit [Chr 58] (print_2digit m (emit [Chr 58] (print_2digit h s))))))
      else
        (let (sub, rest) = split_space (the args) in
         if str_eq sub (map of_char ''set'') \<and> given rest then
           (case Option.bind (parse_uint_field (the rest)) (\<lambda>(h, p).
                 Option.bind (parse_uint_field p) (\<lambda>(m, p).
                 map_option (\<lambda>(sec, p). (h, m, sec)) (parse_uint_field p))) of
              Some (h, m, sec) \<Rightarrow> emit [Lit ''Time set\<newline>''] (s\<lparr>sh_clock := clock_set h m sec (sh_clock s)\<rparr>)
            | None \<Rightarrow> emit [Lit ''Usage: time set <hh> <mm> <ss>\<newline>''] s)
         else emit [Lit ''Usage: time\<newline>'', Lit ''       time set <hh> <mm> <ss>\<newline>''] s))"

definition cmd_meminfo :: "shell \<Rightarrow> shell" where
  "cmd_meminfo s = emit
     [Lit ''Framebuffer : '', Num (ucast (system_width s)), Chr 120, Num (ucast (system_height s)), Chr 10,
      Lit ''Timer       : '', Num (ucast (system_timer_hz s)), Lit '' Hz\<newline>'',
      Lit ''Ticks       : '', Num (timer_get_ticks (sh_clock s)), Chr 10,
      Lit ''Heap        : '', Num (kmalloc_used (mach (sh_kern s))), Lit '' / '',
      Num (kmalloc_total (mach (sh_kern s))), Lit '' bytes\<newline>''] s"

definition cmd_usage :: "shell \<Rightarrow> shell" where
  "cmd_usage s =
     (let total_ticks = timer_get_ticks (sh_clock s);
          busy = process_get_busy_ticks (sh_kern s);
          cpu_percent = (if total_ticks \<noteq> 0 then (busy * 100) div total_ticks else 0);
          all_pages = pmm_get_total_pages (pmm (mach (sh_kern s)));
          used_pages = all_pages - pmm_get_free_pages (pmm (mach (sh_kern s)));
          ram_percent = (if all_pages \<noteq> 0 then (used_pages * 100) div all_pages else 0);
          (used_sectors, total_sectors) = fs_disk_stats (sh_fs s);
          disk_free_kb = (ucast (total_sectors - used_sectors) * 512) div 1024;
          disk_total_kb = (ucast total_sectors * 512) div 1024;
          disk_percent = (if total_sectors \<noteq> 0 then (ucast used_sectors * 100) div ucast total_sectors else 0)
      in emit
        [Lit ''CPU  : '', Num cpu_percent, Lit ''%\<newline>'',
         Lit ''RAM  : '', Num (used_pages * 4), Lit '' / '', Num (all_pages * 4), Lit '' KB ('', Num ram_percent, Lit ''%)\<newline>'',
         Lit ''Disk : '', Num disk_free_kb, Lit '' KB free / '', Num disk_total_kb, Lit '' KB ('', Num disk_percent,
         Lit ''% used)\<newline>''] s)"

definition cmd_alloc :: "shell \<Rightarrow> shell" where
  "cmd_alloc s =
     (let (p, k) = of_mach (kmalloc 64) (sh_kern s); s = s\<lparr>sh_kern := k\<rparr> in
      if p \<noteq> 0 then emit [Lit ''Allocated 64 bytes\<newline>''] s else emit [Lit ''Out of memory\<newline>''] s)"

section \<open>Disk commands\<close>

definition cmd_diskread :: "shell \<Rightarrow> shell" where
  "cmd_diskread s =
     (let (rc, sector) = disk_read 0 (disk (sh_fs s)) in
      if rc \<noteq> 0 then emit [Lit ''Read failed\<newline>''] s
      else emit [Chr 10] (fold (\<lambda>i s. emit [Chr 32] (print_hex8 (sector ! i) s)) [0..<16] s))"

definition cmd_diskwrite :: "shell \<Rightarrow> shell" where
  "cmd_diskwrite s =
     (let sector = [78, 65, 78, 79, 79, 83] @ replicate 506 0;
          s = emit [Lit ''Writing sector 0...\<newline>''] s;
          (r, d) = disk_write 0 sector (disk (sh_fs s));
          s = set_fs ((sh_fs s)\<lparr>disk := d\<rparr>) s
      in emit [Lit ''ATA result: '',
           Lit (if r = 0 then ''SUCCESS\<newline>'' else if r = -1 then ''TIMEOUT\<newline>'' else if r = -2 then ''ATA ERROR\<newline>''
                else if r = -3 then ''DEVICE FAULT\<newline>'' else ''UNKNOWN ERROR\<newline>'')] s)"

definition cmd_format :: "shell \<Rightarrow> shell" where
  "cmd_format s = emit [Lit ''Disk formatted\<newline>''] (set_fs (fs_format (sh_fs s)) s)"

definition cmd_mount :: "shell \<Rightarrow> shell" where
  "cmd_mount s =
     (let (r, f) = fs_mount (sh_fs s); s = set_fs f s in
      if r \<noteq> 0 then emit [Lit ''Filesystem mounted\<newline>''] s else emit [Lit ''No filesystem found\<newline>''] s)"

section \<open>Files and directories\<close>

definition cmd_touch :: "u8 list option \<Rightarrow> shell \<Rightarrow> shell" where
  "cmd_touch args s =
     (if \<not> given args then emit [Lit ''Usage: touch <name>\<newline>''] s
      else
        (let (r, f) = fs_create args (sh_fs s) in
         emit [Lit (if r = 0 then ''File created\<newline>'' else if r = -1 then ''Already exists\<newline>''
                    else ''Inode table full\<newline>'')] (set_fs f s)))"

definition cmd_ls :: "shell \<Rightarrow> shell" where
  "cmd_ls s =
     (let files = fs_list (int FS_MAX_INODES) (sh_fs s) in
      if files = [] then emit [Lit ''(empty)\<newline>''] s
      else fold (\<lambda>node. emit
             ((if node_is_directory node \<noteq> 0 then [Lit ''[DIR]  '', Str (node_name node)]
               else [Lit ''[FILE] '', Str (node_name node), Lit ''  ('', Num (ucast (node_size node)), Lit '' B)''])
              @ [Chr 10])) files s)"

definition cmd_write :: "u8 list option \<Rightarrow> shell \<Rightarrow> shell" where
  "cmd_write args s =
     (if \<not> given args then emit [Lit ''Usage: write <file> <text>\<newline>''] s
      else
        (let (name, content) = split_space (the args) in
         if \<not> given content then emit [Lit ''Usage: write <file> <text>\<newline>''] s
         else
           (let (r, f) = fs_write (Some name) content (sh_fs s) in
            emit [Lit (if r = 0 then ''Written\<newline>'' else if r = -2 then ''Is a directory\<newline>''
                       else ''File not found\<newline>'')] (set_fs f s))))"

definition cmd_append :: "u8 list \<Rightarrow> u8 list option \<Rightarrow> shell \<Rightarrow> shell" where
  "cmd_append uninit args s =
     (if \<not> given args then emit [Lit ''Usage: append <file> <text>\<newline>''] s
      else
        (let (name, content) = split_space (the args) in
         if \<not> given content then emit [Lit ''Usage: append <file> <text>\<newline>''] s
         else
           (let (r, f) = fs_append uninit (Some name) content (sh_fs s) in
            emit [Lit (if r = 0 then ''Appended\<newline>'' else if r = -2 then ''Is a directory\<newline>''
                       else ''File not found\<newline>'')] (set_fs f s))))"

text \<open>The buffer is printed up to its first zero, which \<open>fs_read\<close> does not write.\<close>

definition cmd_cat :: "u8 list \<Rightarrow> u8 list option \<Rightarrow> shell \<Rightarrow> shell option" where
  "cmd_cat uninit args s =
     (if \<not> given args then Some (emit [Lit ''Usage: cat <file>\<newline>''] s)
      else
        (let (r, buffer) = fs_read args (Some uninit) 2048 (sh_fs s) in
         if r \<ge> 0 then (if 0 \<in> set (the buffer) then Some (emit [Str (the buffer), Chr 10] s) else None)
         else if r = -2 then Some (emit [Lit ''Is a directory\<newline>''] s)
         else Some (emit [Lit ''File not found\<newline>''] s)))"

definition cmd_rm :: "u8 list option \<Rightarrow> shell \<Rightarrow> shell" where
  "cmd_rm args s =
     (if \<not> given args then emit [Lit ''Usage: rm <file>\<newline>''] s
      else
        (let (r, f) = fs_delete (the args) (sh_fs s); s = set_fs f s in
         if r = 0 then emit [Lit ''Deleted\<newline>''] s
         else if r = -2 then
           emit [Lit (''Is a directory '' @ map char_of [226, 128, 147 :: nat] @ '' use rmdir\<newline>'')] s
         else emit [Lit ''File not found\<newline>''] s))"

definition cmd_mv :: "u8 list option \<Rightarrow> shell \<Rightarrow> shell" where
  "cmd_mv args s =
     (if \<not> given args then emit [Lit ''Usage: mv <old> <new>\<newline>''] s
      else
        (let (old_name, newname) = split_space (the args) in
         if \<not> given newname then emit [Lit ''Usage: mv <old> <new>\<newline>''] s
         else
           (let (r, f) = fs_rename old_name (the newname) (sh_fs s) in
            emit [Lit (if r = 0 then ''Renamed\<newline>'' else if r = -2 then ''Name already taken\<newline>''
                       else ''File not found\<newline>'')] (set_fs f s))))"

definition cmd_stat :: "u8 list option \<Rightarrow> shell \<Rightarrow> shell" where
  "cmd_stat args s =
     (if \<not> given args then emit [Lit ''Usage: stat <name>\<newline>''] s
      else
        (case fs_stat (the args) (Some zero_inode) (sh_fs s) of
           (r, node) \<Rightarrow>
             if r = 0 then
               emit [Lit ''Name : '', Str (node_name (the node)), Chr 10,
                     Lit ''Type : '', Lit (if node_is_directory (the node) \<noteq> 0 then ''directory'' else ''file''), Chr 10,
                     Lit ''Size : '', Num (ucast (node_size (the node))), Lit '' bytes\<newline>''] s
             else emit [Lit ''Not found\<newline>''] s))"

definition cmd_mkdir :: "u8 list option \<Rightarrow> shell \<Rightarrow> shell" where
  "cmd_mkdir args s =
     (if \<not> given args then emit [Lit ''Usage: mkdir <name>\<newline>''] s
      else
        (let (r, f) = fs_mkdir (the args) (sh_fs s) in
         emit [Lit (if r = 0 then ''Directory created\<newline>'' else if r = -1 then ''Already exists\<newline>''
                    else ''Inode table full\<newline>'')] (set_fs f s)))"

definition cmd_cd :: "u8 list option \<Rightarrow> shell \<Rightarrow> shell" where
  "cmd_cd args s =
     (if \<not> given args then emit [Lit ''Usage: cd <directory>\<newline>''] s
      else
        (let (r, f) = fs_change_dir (the args) (sh_fs s); s = set_fs f s in
         if r = -1 then emit [Lit ''Not found\<newline>''] s
         else if r = -2 then emit [Lit ''Not a directory\<newline>''] s
         else s))"

definition cmd_pwd :: "shell \<Rightarrow> shell option" where
  "cmd_pwd s =
     (case fs_get_pwd (sh_fs s) of
        Some (Some pwd) \<Rightarrow> Some (emit [Str pwd, Chr 10] s)
      | _ \<Rightarrow> None)"

section \<open>Desktop and processes\<close>

definition cmd_bg :: "u8 list option \<Rightarrow> shell \<Rightarrow> shell" where
  "cmd_bg args s =
     (if \<not> given args then
        emit [Lit ''Usage: bg <r> <g> <b>  (each 0-255)\<newline>'', Lit ''       bg default\<newline>'', Lit ''       bg image\<newline>''] s
      else if str_eq (the args) (map of_char ''default'') then
        emit [Lit ''Background reset\<newline>''] (ui (GuiSetBgColor 20 20 20) s)
      else if str_eq (the args) (map of_char ''image'') then
        (let (r, m, bg) = wallpaper_load (disk (sh_fs s)) (mach (sh_kern s));
             s = s\<lparr>sh_kern := (sh_kern s)\<lparr>mach := m\<rparr>\<rparr>;
             s = (case bg of None \<Rightarrow> s | Some (p, w, h) \<Rightarrow> ui (GuiSetBackground p w h) s)
         in emit [Lit (if r = 0 then ''Wallpaper loaded from disk\<newline>''
                       else if r = -1 then ''No wallpaper on disk (pack one with wallpaper_pack first)\<newline>''
                       else ''Wallpaper header on disk is invalid\<newline>'')] s)
      else
        (case parse_rgb (the args) of
           Some (r, g, b) \<Rightarrow>
             emit [Lit ''Background updated\<newline>''] (ui (GuiSetBgColor (of_int r) (of_int g) (of_int b)) s)
         | None \<Rightarrow> emit [Lit ''Usage: bg <r> <g> <b>  (each 0-255)\<newline>''] s))"

definition cmd_show :: "shell \<Rightarrow> shell" where
  "cmd_show s = emit [Lit ''Terminal shown\<newline>''] (ui GuiRestoreTerminal s)"

definition cmd_run :: "u8 list option \<Rightarrow> shell \<Rightarrow> shell option" where
  "cmd_run args s =
     (if \<not> given args then Some (emit [Lit ''Usage: run <program>\<newline>''] s)
      else
        (case process_exec args (sh_kern s) of
           None \<Rightarrow> None
         | Some (r, k) \<Rightarrow>
             (let s = s\<lparr>sh_kern := k\<rparr> in
              if r = -2 then Some (emit [Lit ''Process already running\<newline>''] s)
              else if r \<noteq> 0 then Some (emit [Lit ''Failed to start process\<newline>''] s)
              else Some s)))"

text \<open>\<open>reboot_system\<close> up to its last loop: the controller's answers are the device's.\<close>

partial_function (option) reboot_wait :: "device \<Rightarrow> ports \<Rightarrow> ports option" where
  "reboot_wait dev s = (let (v, s) = inb dev 0x64 s in if v AND 0x02 \<noteq> 0 then reboot_wait dev s else Some s)"

definition reboot_system :: "device \<Rightarrow> ports \<Rightarrow> ports option" where
  "reboot_system dev s = map_option (outb 0x64 0xFE) (reboot_wait dev s)"

text \<open>\<open>shutdown_system\<close> up to its last loop: the three ports on which emulators listen.\<close>

definition shutdown_system :: "ports \<Rightarrow> kernel \<Rightarrow> ports \<times> kernel" where
  "shutdown_system s k =
     (let k = print_k ''Shutting down...\<newline>'' k
      in (outw 0x4004 0x3400 (outw 0x604 0x2000 (outw 0xB004 0x2000 s)), k))"

section \<open>Dispatch\<close>

definition named :: "u8 list \<Rightarrow> string \<Rightarrow> bool" where
  "named cmd w \<longleftrightarrow> str_eq cmd (map of_char w)"

definition dispatch :: "u8 list \<Rightarrow> u8 list \<Rightarrow> u8 list option \<Rightarrow> shell \<Rightarrow> shell option" where
  "dispatch uninit cmd args s =
     (if named cmd ''ver'' then Some (emit [Lit ''Nano OS v0.2  |  NanoFS v2\<newline>''] s)
      else if named cmd ''help'' then Some (cmd_help s)
      else if named cmd ''clear'' then Some (ui TerminalClear s)
      else if named cmd ''say'' then Some (cmd_say args s)
      else if named cmd ''uptime'' then Some (cmd_uptime s)
      else if named cmd ''time'' then Some (cmd_time args s)
      else if named cmd ''reboot'' then None
      else if named cmd ''meminfo'' then Some (cmd_meminfo s)
      else if named cmd ''usage'' then Some (cmd_usage s)
      else if named cmd ''alloc'' then Some (cmd_alloc s)
      else if named cmd ''diskread'' then Some (cmd_diskread s)
      else if named cmd ''diskwrite'' then Some (cmd_diskwrite s)
      else if named cmd ''format'' then Some (cmd_format s)
      else if named cmd ''mount'' then Some (cmd_mount s)
      else if named cmd ''touch'' then Some (cmd_touch args s)
      else if named cmd ''ls'' then Some (cmd_ls s)
      else if named cmd ''write'' then Some (cmd_write args s)
      else if named cmd ''append'' then Some (cmd_append uninit args s)
      else if named cmd ''cat'' then cmd_cat uninit args s
      else if named cmd ''rm'' then Some (cmd_rm args s)
      else if named cmd ''mv'' then Some (cmd_mv args s)
      else if named cmd ''stat'' then Some (cmd_stat args s)
      else if named cmd ''mkdir'' then Some (cmd_mkdir args s)
      else if named cmd ''cd'' then Some (cmd_cd args s)
      else if named cmd ''pwd'' then cmd_pwd s
      else if named cmd ''shutdown'' then None
      else if named cmd ''bg'' then Some (cmd_bg args s)
      else if named cmd ''show'' then Some (cmd_show s)
      else if named cmd ''run'' then cmd_run args s
      else if cmd_len s \<noteq> 0 then Some (emit [Lit ''Unknown command: '', Str cmd, Chr 10] s)
      else Some s)"

definition execute_command :: "u8 list \<Rightarrow> shell \<Rightarrow> shell option" where
  "execute_command uninit s =
     (let s = s\<lparr>cmd_buf := (cmd_buf s)[nat (cmd_len s) := 0]\<rparr>;
          (cmd, args) = split_space (cstr (cmd_buf s));
          s = putchar_sh 10 s
      in case dispatch uninit cmd args s of
           None \<Rightarrow> None
         | Some s \<Rightarrow> show_prompt (s\<lparr>cmd_len := 0\<rparr>))"

section \<open>The line\<close>

definition shell_init :: "shell \<Rightarrow> shell option" where
  "shell_init s = show_prompt s"

definition shell_input :: "u8 list \<Rightarrow> u8 \<Rightarrow> shell \<Rightarrow> shell option" where
  "shell_input uninit c s =
     (if c = 10 then execute_command uninit s
      else if c = 8 then
        (if cmd_len s > 0 then Some (putchar_sh 8 (s\<lparr>cmd_len := cmd_len s - 1\<rparr>)) else Some s)
      else if cmd_len s \<ge> int CMD_MAX - 1 then Some s
      else Some (putchar_sh c (s\<lparr>cmd_buf := (cmd_buf s)[nat (cmd_len s) := c], cmd_len := cmd_len s + 1\<rparr>)))"

text \<open>The keyboard calls \<open>shell_input\<close> with one character after the other.\<close>

fun shell_feed :: "u8 list \<Rightarrow> u8 list \<Rightarrow> shell \<Rightarrow> shell option" where
  "shell_feed uninit [] s = Some s"
| "shell_feed uninit (c # ks) s =
     (case shell_input uninit c s of None \<Rightarrow> None | Some s \<Rightarrow> shell_feed uninit ks s)"

section \<open>The strings\<close>

lemma str_eq_cstr: "str_eq a b \<longleftrightarrow> cstr a = cstr b"
proof (induction a b rule: str_eq.induct)
  case (1 b)
  then show ?case by (cases b) (auto simp: cchar_def)
next
  case (2 x a b)
  then show ?case by (cases b) (auto simp: cchar_def)
qed

lemma digits_loop_append:
  "\<forall>c \<in> set ks. is_digit c \<Longrightarrow> rest = [] \<or> \<not> is_digit (hd rest) \<Longrightarrow>
    digits_loop v (ks @ rest) = (fold (\<lambda>c v. v * 10 + (uint c - 48)) ks v, rest)"
  by (induction ks arbitrary: v) (cases rest; auto)+

section \<open>The editor\<close>

text \<open>What the typist sees: a backspace takes the last character, and a line holds 255 of them.\<close>

fun edit :: "u8 list \<Rightarrow> u8 list \<Rightarrow> u8 list" where
  "edit l [] = l"
| "edit l (c # ks) =
     edit (if c = 8 then butlast l else if length l < 255 then l @ [c] else l) ks"

fun echo :: "u8 list \<Rightarrow> u8 list \<Rightarrow> u8 list" where
  "echo l [] = []"
| "echo l (c # ks) =
     (if c = 8 then (if l = [] then echo l ks else 8 # echo (butlast l) ks)
      else if length l < 255 then c # echo (l @ [c]) ks else echo l ks)"

definition line_ok :: "shell \<Rightarrow> bool" where
  "line_ok s \<longleftrightarrow> length (cmd_buf s) = CMD_MAX \<and> 0 \<le> cmd_len s \<and> cmd_len s < int CMD_MAX"

definition typed_line :: "shell \<Rightarrow> u8 list" where
  "typed_line s = take (nat (cmd_len s)) (cmd_buf s)"

lemma putchar_sh_simps [simp]:
  "cmd_buf (putchar_sh c s) = cmd_buf s" "cmd_len (putchar_sh c s) = cmd_len s" "sh_fs (putchar_sh c s) = sh_fs s"
  "shown_calls (putchar_sh c s) = shown_calls s @ [TerminalPutchar (char_of (unat c))]"
  by (simp_all add: putchar_sh_def emit_def shown_calls_def sh_fs_def on_mach_def on_pmm_def terminal_putchar_def)

lemma length_line: "line_ok s \<Longrightarrow> length (typed_line s) = nat (cmd_len s) \<and> nat (cmd_len s) \<le> 255"
  by (auto simp: typed_line_def line_ok_def CMD_MAX_def)

lemma input_edits:
  assumes "line_ok s" and "c \<noteq> 10"
  shows "\<exists>s'. shell_input uninit c s = Some s' \<and> line_ok s' \<and> typed_line s' = edit (typed_line s) [c] \<and> sh_fs s' = sh_fs s \<and>
    shown_calls s' = shown_calls s @ map (\<lambda>c. TerminalPutchar (char_of (unat c))) (echo (typed_line s) [c])"
proof (cases "c = 8")
  case True
  show ?thesis
  proof (cases "cmd_len s > 0")
    case False
    then have "typed_line s = []" by (simp add: typed_line_def)
    then show ?thesis using True False assms(1) by (simp add: shell_input_def)
  next
    case pos: True
    then have "typed_line s \<noteq> []" using length_line [OF assms(1)] by auto
    moreover have "take (nat (cmd_len s - 1)) (cmd_buf s) = butlast (typed_line s)"
      using length_line [OF assms(1)] assms(1) pos
      by (auto simp: typed_line_def butlast_conv_take line_ok_def CMD_MAX_def min_def nat_diff_distrib)
    ultimately show ?thesis using True pos assms(1)
      by (simp add: shell_input_def line_ok_def) (simp add: typed_line_def shown_calls_def sh_fs_def)
  qed
next
  case False
  have len: "length (typed_line s) = nat (cmd_len s)" using length_line [OF assms(1)] by simp
  show ?thesis
  proof (cases "length (typed_line s) < 255")
    case full: False
    then have "cmd_len s \<ge> int CMD_MAX - 1" using len by (simp add: CMD_MAX_def)
    moreover have "edit (typed_line s) [c] = typed_line s" "echo (typed_line s) [c] = []" using full False by simp_all
    ultimately show ?thesis using False assms by (simp add: shell_input_def)
  next
    case room: True
    have n: "nat (cmd_len s) < length (cmd_buf s)" using room len assms(1) by (simp add: line_ok_def CMD_MAX_def)
    have "take (nat (cmd_len s + 1)) ((cmd_buf s)[nat (cmd_len s) := c]) = typed_line s @ [c]"
      using n assms(1) by (simp add: typed_line_def line_ok_def nat_add_distrib take_Suc_conv_app_nth)
    then show ?thesis using False room len assms
      by (simp add: shell_input_def line_ok_def CMD_MAX_def) (simp add: typed_line_def shown_calls_def sh_fs_def)
  qed
qed

lemma edit_step: "edit l (c # ks) = edit (edit l [c]) ks" "echo l (c # ks) = echo l [c] @ echo (edit l [c]) ks"
  by simp_all

lemma feed_edits:
  assumes "line_ok s" and "10 \<notin> set ks"
  shows "\<exists>s'. shell_feed uninit ks s = Some s' \<and> line_ok s' \<and> typed_line s' = edit (typed_line s) ks \<and> sh_fs s' = sh_fs s \<and>
    shown_calls s' = shown_calls s @ map (\<lambda>c. TerminalPutchar (char_of (unat c))) (echo (typed_line s) ks)"
  using assms
proof (induction ks arbitrary: s)
  case Nil
  then show ?case by simp
next
  case (Cons c ks)
  have "c \<noteq> 10" using Cons.prems(2) by auto
  from input_edits [OF Cons.prems(1) this, of uninit] obtain s1 where
    1: "shell_input uninit c s = Some s1" "line_ok s1" "typed_line s1 = edit (typed_line s) [c]" "sh_fs s1 = sh_fs s"
    "shown_calls s1 = shown_calls s @ map (\<lambda>c. TerminalPutchar (char_of (unat c))) (echo (typed_line s) [c])" by blast
  have "10 \<notin> set ks" using Cons.prems(2) by simp
  from Cons.IH [OF 1(2) this] obtain s' where
    2: "shell_feed uninit ks s1 = Some s'" "line_ok s'" "typed_line s' = edit (typed_line s1) ks" "sh_fs s' = sh_fs s1"
    "shown_calls s' = shown_calls s1 @ map (\<lambda>c. TerminalPutchar (char_of (unat c))) (echo (typed_line s1) ks)" by blast
  have "shell_feed uninit (c # ks) s = Some s'" using 1(1) 2(1) by simp
  moreover have "typed_line s' = edit (typed_line s) (c # ks)" unfolding edit_step(1) [of "typed_line s" c ks] 2(3) 1(3) ..
  moreover have "shown_calls s' = shown_calls s @ map (\<lambda>c. TerminalPutchar (char_of (unat c))) (echo (typed_line s) (c # ks))"
    unfolding edit_step(2) [of "typed_line s" c ks] 2(5) 1(5) 1(3) by simp
  ultimately show ?case using 2(2,4) 1(4) by auto
qed

text \<open>Typing a text and a newline runs the command line that an editor with backspace, limited to 255 characters,
  makes of the text; the screen has shown every character that was accepted, and a backspace for every one taken
  back.\<close>

lemma shell_edits_line:
  assumes "line_ok s" and "10 \<notin> set ks"
  shows "\<exists>s'. shell_feed uninit (ks @ [10]) s = execute_command uninit s' \<and> line_ok s' \<and> typed_line s' = edit (typed_line s) ks \<and> sh_fs s' = sh_fs s \<and>
    shown_calls s' = shown_calls s @ map (\<lambda>c. TerminalPutchar (char_of (unat c))) (echo (typed_line s) ks)"
proof -
  obtain s' where s': "shell_feed uninit ks s = Some s'" "line_ok s'" "typed_line s' = edit (typed_line s) ks" "sh_fs s' = sh_fs s"
    "shown_calls s' = shown_calls s @ map (\<lambda>c. TerminalPutchar (char_of (unat c))) (echo (typed_line s) ks)"
    using feed_edits [OF assms] by blast
  have "shell_feed uninit (ks @ js) s = Option.bind (shell_feed uninit ks s) (shell_feed uninit js)" for js
    by (induction ks arbitrary: s) (auto split: option.splits)
  then have "shell_feed uninit (ks @ [10]) s = execute_command uninit s'"
    using s'(1) by (simp add: shell_input_def split: option.splits)
  then show ?thesis using s' by blast
qed

section \<open>From the line to the command\<close>

lemma executed_line:
  assumes "line_ok s" and "0 \<notin> set (typed_line s)"
  shows "cstr ((cmd_buf s)[nat (cmd_len s) := 0]) = typed_line s"
proof -
  have "nat (cmd_len s) < length (cmd_buf s)" using assms(1) by (auto simp: line_ok_def CMD_MAX_def)
  then show ?thesis using assms(2) by (simp add: upd_conv_take_nth_drop typed_line_def cstr_append_zero)
qed

lemma named_cstr: "named cmd w \<longleftrightarrow> cstr cmd = cstr (map of_char w)"
  by (simp add: named_def str_eq_cstr)

lemma emit_simps [simp]:
  "sh_fs (emit os s) = sh_fs s" "cmd_buf (emit os s) = cmd_buf s" "cmd_len (emit os s) = cmd_len s"
proof -
  have "fs (emit1 a k) = fs k" for a k by (cases a) (simp_all add: on_mach_def print_k_def)
  then have "fs (fold emit1 os k) = fs k" for k by (induction os arbitrary: k) simp_all
  then show "sh_fs (emit os s) = sh_fs s" by (simp add: emit_def sh_fs_def)
qed (simp_all add: emit_def)

lemma set_fs_simps [simp]:
  "sh_fs (set_fs f s) = f" "cmd_buf (set_fs f s) = cmd_buf s" "cmd_len (set_fs f s) = cmd_len s"
  by (simp_all add: set_fs_def sh_fs_def)

lemma sh_fs_len [simp]: "sh_fs (s\<lparr>cmd_len := n\<rparr>) = sh_fs s" "sh_fs (s\<lparr>cmd_buf := b\<rparr>) = sh_fs s"
  by (simp_all add: sh_fs_def)

lemma fs_create_dir: "current_dir (snd (fs_create name f)) = current_dir f"
  by (auto simp: fs_create_def inode_write_def Let_def split: option.splits)

lemma prompt_at_root:
  assumes "current_dir (sh_fs s) = 0"
  shows "show_prompt s = Some (emit [Str [47], Lit ''> ''] s)"
  using assms by (simp add: show_prompt_def fs_get_pwd_def)

lemma split_touch: "split_space (map of_char ''touch '' @ name) = (map of_char ''touch'', Some name)"
  by (simp add: split_space_def)

lemma dispatch_touch: "dispatch uninit (map of_char ''touch'') args s = Some (cmd_touch args s)"
  by (simp add: dispatch_def named_cstr)

section \<open>Properties\<close>

text \<open>C29: Whatever is typed, with whatever corrections, if it edits to \<open>touch\<close> and a name, the newline makes the file
  system create a file of that name and nothing else of it changes, and the shell is ready for the next line.\<close>

theorem shell_touch_creates:
  assumes "line_ok s" and "typed_line s = []" and "current_dir (sh_fs s) = 0"
    and "10 \<notin> set ks" and "edit [] ks = map of_char ''touch '' @ name" and "name \<noteq> []" and "0 \<notin> set name"
  shows "\<exists>s'. shell_feed uninit (ks @ [10]) s = Some s' \<and> sh_fs s' = snd (fs_create (Some name) (sh_fs s)) \<and>
    line_ok s' \<and> typed_line s' = []"
proof -
  obtain s1 where s1: "shell_feed uninit (ks @ [10]) s = execute_command uninit s1" "line_ok s1"
    "typed_line s1 = map of_char ''touch '' @ name" "sh_fs s1 = sh_fs s"
    using shell_edits_line [OF assms(1,4), of uninit] assms(2,5) by auto
  have "0 \<notin> set (typed_line s1)" unfolding s1(3) using assms(7) by simp
  then have l: "cstr ((cmd_buf s1)[nat (cmd_len s1) := 0]) = map of_char ''touch '' @ name"
    using executed_line [OF s1(2)] s1(3) by simp
  define s2 where "s2 = putchar_sh 10 (s1\<lparr>cmd_buf := (cmd_buf s1)[nat (cmd_len s1) := 0]\<rparr>)"
  have s2: "sh_fs s2 = sh_fs s" "length (cmd_buf s2) = CMD_MAX" using s1(2,4) by (simp_all add: s2_def line_ok_def)
  have g: "given (Some name)" using assms(6,7) by (cases name) (auto simp: given_def cchar_def)
  obtain r f where c: "fs_create (Some name) (sh_fs s) = (r, f)" by (cases "fs_create (Some name) (sh_fs s)")
  then have dir: "current_dir f = 0" using fs_create_dir [of "Some name" "sh_fs s"] assms(3) by simp
  define s3 where "s3 = cmd_touch (Some name) s2"
  have s3: "sh_fs s3 = f" "length (cmd_buf s3) = CMD_MAX" using s2 g c by (simp_all add: s3_def cmd_touch_def)
  have "execute_command uninit s1 = show_prompt (s3\<lparr>cmd_len := 0\<rparr>)"
    using l split_touch [of name] dispatch_touch [of uninit "Some name" s2]
    by (simp add: execute_command_def s3_def flip: s2_def)
  also have "\<dots> = Some (emit [Str [47], Lit ''> ''] (s3\<lparr>cmd_len := 0\<rparr>))"
    using s3(1) dir by (intro prompt_at_root) simp
  finally show ?thesis using s1(1) s3 c by (simp add: line_ok_def typed_line_def CMD_MAX_def)
qed

definition shell_sample :: shell where
  "shell_sample = \<lparr>sh_kern = undefined\<lparr>fs := fs_initial (attached blank_image)\<rparr>, sh_clock = \<lparr>timer_ticks = 0, clock_offset = 0\<rparr>,
     system_width = 1024, system_height = 768, system_timer_hz = 100, ui_log = [], cmd_buf = replicate 256 0, cmd_len = 0\<rparr>"

theorem shell_touch_creates_witness:
  "\<exists>s'. shell_feed [] (map of_char ''touck'' @ [8] @ map of_char ''h a'' @ [10]) shell_sample = Some s' \<and>
    sh_fs s' = snd (fs_create (Some [97]) (sh_fs shell_sample)) \<and> line_ok s' \<and> typed_line s' = []"
proof -
  have "line_ok shell_sample" "typed_line shell_sample = []" "current_dir (sh_fs shell_sample) = 0"
    by (simp_all add: line_ok_def typed_line_def shell_sample_def CMD_MAX_def sh_fs_def fs_initial_def)
  from shell_touch_creates [OF this, of "map of_char ''touck'' @ [8] @ map of_char ''h a''" "[97]" "[]"]
  show ?thesis by simp
qed

end
