(* ===== verification/Widgets.thy ===== *)
theory Widgets
  imports Ui_Layout Process Clock
begin

text \<open>
  The panels of the desktop, \<open>src/gui/gui.c\<close>: where they lie on the screen (\<open>recompute_layout\<close>), how they are
  drawn, and which of their items lies under a point. Drawing acts on the machine's memory through the operations
  of theories Framebuffer and Ui_Layout; what the panels show of the kernel and the clock is an argument.
\<close>

definition UI_GLASS_TINT :: color where "UI_GLASS_TINT = RGB 14 10 30"
definition UI_NEON_PURPLE :: color where "UI_NEON_PURPLE = RGB 150 70 230"
definition UI_NEON_MAGENTA :: color where "UI_NEON_MAGENTA = RGB 230 70 190"
definition UI_ELECTRIC_BLUE :: color where "UI_ELECTRIC_BLUE = RGB 80 150 255"
definition UI_TEXT_WHITE :: color where "UI_TEXT_WHITE = RGB 235 235 245"
definition UI_TEXT_LAVENDER :: color where "UI_TEXT_LAVENDER = RGB 195 175 225"
definition UI_TEXT_DIM :: color where "UI_TEXT_DIM = RGB 135 125 155"
definition UI_OK_GREEN :: color where "UI_OK_GREEN = RGB 70 210 150"
definition UI_WARN_AMBER :: color where "UI_WARN_AMBER = RGB 235 170 70"
definition UI_DANGER_RED :: color where "UI_DANGER_RED = RGB 225 80 100"

definition nav_items :: "string list" where
  "nav_items = [''Terminal'', ''Files'', ''Browser'', ''Settings'', ''Apps'', ''System Monitor'', ''Music'', ''Gallery'']"

definition NAV_ITEM_COUNT :: int where "NAV_ITEM_COUNT = 8"

definition quick_access_items :: "string list" where
  "quick_access_items = [''Documents'', ''Downloads'', ''Pictures'', ''Videos'', ''Music'', ''Projects'']"

definition QUICK_COLS :: int where "QUICK_COLS = 2"
definition QUICK_ROWS :: int where "QUICK_ROWS = 3"

definition dock_items :: "string list" where
  "dock_items = [''Terminal'', ''Files'', ''Browser'', ''Settings'', ''Apps'', ''Gallery'']"

definition DOCK_ITEM_COUNT :: int where "DOCK_ITEM_COUNT = 6"

record desktop_layout =
  lay_sidebar :: fb_rect
  lay_clock :: fb_rect
  lay_music :: fb_rect
  lay_quick :: fb_rect
  lay_notif :: fb_rect
  lay_dock :: fb_rect
  lay_wsw :: fb_rect

definition recompute_layout :: "machine \<Rightarrow> desktop_layout" where
  "recompute_layout m =
     (let fw = fb_width m; fh = fb_height m; gap = ui_scaled m 14;
          sidebar_y = (fh * 40) sdiv 1000;
          sidebar = ((fw * 10) sdiv 1000, sidebar_y, (fw * 150) sdiv 1000, fh - sidebar_y - (fh * 50) sdiv 1000);
          clock = ui_pm_right m 30 50 210 105;
          (clock_x, clock_y, clock_w, clock_h) = clock;
          col_w = (fw * 230) sdiv 1000;
          col_x = fw - (fw * 30) sdiv 1000 - col_w;
          music_h = (fh * 165) sdiv 1000;
          music_y = clock_y + clock_h + gap;
          quick_h = (fh * 220) sdiv 1000;
          quick_y = music_y + music_h + gap;
          notif_h = (fh * 150) sdiv 1000;
          notif_y = quick_y + quick_h + gap;
          notif_bottom_limit = fh - (fh * 30) sdiv 1000;
          notif_y = (if notif_y + notif_h > notif_bottom_limit then notif_bottom_limit - notif_h else notif_y)
      in \<lparr>lay_sidebar = sidebar, lay_clock = clock, lay_music = (col_x, music_y, col_w, music_h),
          lay_quick = (col_x, quick_y, col_w, quick_h), lay_notif = (col_x, notif_y, col_w, notif_h),
          lay_dock = ui_pm_bottom_center m 28 400 68, lay_wsw = ui_pm_bottom m 15 28 180 46\<rparr>)"

definition point_in_rect :: "int \<Rightarrow> int \<Rightarrow> fb_rect \<Rightarrow> bool" where
  "point_in_rect px py r = (let (x, y, w, h) = r in px \<ge> x \<and> px < x + w \<and> py \<ge> y \<and> py < y + h)"

section \<open>Clock\<close>

text \<open>\<open>'0' + n\<close>\<close>

definition digit_of :: "int \<Rightarrow> char" where
  "digit_of n = char_of (nat (48 + n))"

definition two_digits :: "int \<Rightarrow> string" where
  "two_digits n = [digit_of (n sdiv 10), digit_of (n smod 10)]"

definition format_clock :: "int \<Rightarrow> int \<Rightarrow> int \<Rightarrow> string" where
  "format_clock h m s = two_digits h @ '':'' @ two_digits m @ '':'' @ two_digits s"

text \<open>The eight characters \<open>format_clock\<close> puts into \<open>datebuf\<close> are not drawn.\<close>

definition draw_clock_widget :: "desktop_layout \<Rightarrow> clock \<Rightarrow> machine \<Rightarrow> machine" where
  "draw_clock_widget g c m =
     (let (x, y, w, h) = lay_clock g;
          fs = ui_font_scale m + 1;
          (hour, min, s) = clock_get c;
          hm = two_digits hour @ '':'' @ two_digits min;
          radius = ui_scaled m 18;
          m = ui_fill_rounded_glass x y w h radius UI_GLASS_TINT 740 m;
          m = ui_draw_glow_border x y w h radius UI_ELECTRIC_BLUE m;
          pad = ui_scaled m 16;
          m = fb_draw_string_ex (x + pad) (y + pad) (Some hm) UI_TEXT_WHITE UI_BG_VOID fs True m;
          sx = x + pad + fb_text_width (Some hm) fs + ui_scaled m 6;
          m = fb_draw_string_ex sx (y + pad) (Some (two_digits s)) UI_TEXT_DIM UI_BG_VOID (ui_font_scale m) True m
      in fb_draw_string (x + pad) (y + h - ui_scaled m 22) (Some ''SYSTEM TIME'') UI_TEXT_DIM UI_BG_VOID m)"

section \<open>Sidebar\<close>

definition draw_sidebar_header :: "fb_rect \<Rightarrow> machine \<Rightarrow> machine" where
  "draw_sidebar_header s m =
     (let (x, y, w, h) = s;
          pad = ui_scaled m 16; r = ui_scaled m 22; cx = x + pad + r; cy = y + pad + r;
          m = ui_fill_circle cx cy r UI_NEON_PURPLE m;
          fs = ui_font_scale m;
          m = fb_draw_char_ex (cx - 4 * fs) (cy - 4 * fs) CHR ''Q'' UI_TEXT_WHITE UI_BG_VOID fs True m;
          tx = cx + r + ui_scaled m 10;
          m = fb_draw_string_ex tx (y + pad) (Some ''QEMO OS'') UI_TEXT_WHITE UI_BG_VOID fs True m;
          m = fb_draw_string tx (y + pad + 8 * fs + ui_scaled m 4) (Some ''v1.0.0'') UI_TEXT_DIM UI_BG_VOID m
      in fb_fill_rect (x + pad) (cy + r + ui_scaled m 14) (w - pad * 2) (ui_scaled m 1) UI_TEXT_DIM m)"

definition nav_start_y :: "machine \<Rightarrow> fb_rect \<Rightarrow> int" where
  "nav_start_y m s = (let (x, y, w, h) = s in y + ui_scaled m 90)"

definition nav_item_h :: "machine \<Rightarrow> int" where
  "nav_item_h m = ui_scaled m 36"

definition draw_sidebar_nav :: "fb_rect \<Rightarrow> machine \<Rightarrow> machine" where
  "draw_sidebar_nav s m =
     (let (x, y, w, h) = s;
          y0 = nav_start_y m s; ih = nav_item_h m; pad = ui_scaled m 8;
          m = fold (\<lambda>i m.
            (let iy = y0 + i * ih; active = (i = 0);
                 m = (if active then ui_fill_rounded_glass (x + pad) iy (w - pad * 2) (ih - ui_scaled m 6) (ui_scaled m 10)
                                       UI_NEON_PURPLE 550 m else m);
                 fg = (if active then UI_TEXT_WHITE else UI_TEXT_LAVENDER)
             in fb_draw_string (x + pad + ui_scaled m 12) (iy + ih sdiv 2 - 6) (Some (nav_items ! nat i)) fg UI_BG_VOID m))
            [0..NAV_ITEM_COUNT - 1] m;
          sep_y = y0 + NAV_ITEM_COUNT * ih + ui_scaled m 6
      in fb_fill_rect (x + pad) sep_y (w - pad * 2) (ui_scaled m 1) UI_TEXT_DIM m)"

definition status_start_y :: "machine \<Rightarrow> fb_rect \<Rightarrow> int" where
  "status_start_y m s = nav_start_y m s + NAV_ITEM_COUNT * nav_item_h m + ui_scaled m 24"

definition status_row_h :: "machine \<Rightarrow> int" where
  "status_row_h m = ui_scaled m 42"

text \<open>A share in percent, converted to \<open>int\<close>; nothing of nothing is 0.\<close>

definition percent_of :: "u64 \<Rightarrow> u64 \<Rightarrow> int" where
  "percent_of part whole = (if whole \<noteq> 0 then sint (ucast ((part * 100) div whole) :: u32) else 0)"

definition draw_sidebar_status :: "clock \<Rightarrow> kernel \<Rightarrow> fb_rect \<Rightarrow> machine \<Rightarrow> machine" where
  "draw_sidebar_status c k s m =
     (let (x, y, w, h) = s;
          y0 = status_start_y m s; pad = ui_scaled m 16;
          m = fb_draw_string (x + pad) y0 (Some ''SYSTEM STATUS'') UI_TEXT_DIM UI_BG_VOID m;
          cpu_percent = percent_of (process_get_busy_ticks k) (timer_get_ticks c);
          total_pages = pmm_get_total_pages (pmm m);
          ram_percent = percent_of (total_pages - pmm_get_free_pages (pmm m)) total_pages;
          (used_sectors, total_sectors) = fs_disk_stats (fs k);
          disk_percent = percent_of (ucast used_sectors) (ucast total_sectors);
          labels = [''CPU Usage'', ''RAM Usage'', ''Storage''];
          percents = [cpu_percent, ram_percent, disk_percent];
          colors = [UI_ELECTRIC_BLUE, UI_OK_GREEN, UI_NEON_MAGENTA];
          rh = status_row_h m
      in fold (\<lambda>i m.
           (let ry = y0 + ui_scaled m 22 + i * rh;
                m = fb_draw_string (x + pad) ry (Some (labels ! nat i)) UI_TEXT_LAVENDER UI_BG_VOID m;
                m = fb_draw_int (x + w - pad - ui_scaled m 32) ry (percents ! nat i) UI_TEXT_DIM UI_BG_VOID m;
                m = fb_draw_char (x + w - pad - ui_scaled m 10) ry CHR ''%'' UI_TEXT_DIM UI_BG_VOID m
            in ui_draw_progress (x + pad) (ry + ui_scaled m 16) (w - pad * 2) (ui_scaled m 6) (percents ! nat i)
                 (colors ! nat i) (RGB 35 30 50) m)) [0..2] m)"

text \<open>The rectangles of restart, lock and off.\<close>

definition power_button_rects :: "machine \<Rightarrow> fb_rect \<Rightarrow> fb_rect \<times> fb_rect \<times> fb_rect" where
  "power_button_rects m s =
     (let (sx, sy, sw, sh) = s;
          pad = ui_scaled m 16;
          bw = (sw - pad * 2 - ui_scaled m 24) sdiv 3;
          bh = ui_scaled m 36;
          y = sy + sh - bh - ui_scaled m 14;
          restart_x = sx + pad;
          lock_x = restart_x + bw + ui_scaled m 12;
          off_x = lock_x + bw + ui_scaled m 12
      in ((restart_x, y, bw, bh), (lock_x, y, bw, bh), (off_x, y, bw, bh)))"

definition draw_power_button :: "fb_rect \<Rightarrow> char \<Rightarrow> color \<Rightarrow> machine \<Rightarrow> machine" where
  "draw_power_button r ch fg m =
     (let (x, y, w, h) = r;
          m = ui_fill_rounded_glass x y w h (ui_scaled m 8) UI_GLASS_TINT 700 m
      in fb_draw_char (x + w sdiv 2 - 4) (y + h sdiv 2 - 4) ch fg UI_BG_VOID m)"

definition draw_sidebar_power :: "fb_rect \<Rightarrow> machine \<Rightarrow> machine" where
  "draw_sidebar_power s m =
     (let (restart_r, lock_r, off_r) = power_button_rects m s;
          (x, y, w, h) = restart_r;
          m = fb_draw_string x (y - ui_scaled m 18) (Some ''POWER'') UI_TEXT_DIM UI_BG_VOID m
      in draw_power_button off_r CHR ''O'' UI_DANGER_RED
           (draw_power_button lock_r CHR ''L'' UI_TEXT_LAVENDER
             (draw_power_button restart_r CHR ''R'' UI_TEXT_LAVENDER m)))"

definition draw_sidebar :: "desktop_layout \<Rightarrow> clock \<Rightarrow> kernel \<Rightarrow> machine \<Rightarrow> machine" where
  "draw_sidebar g c k m =
     (let s = lay_sidebar g; (x, y, w, h) = s; radius = ui_scaled m 18;
          m = ui_fill_rounded_glass x y w h radius UI_GLASS_TINT 720 m;
          m = ui_draw_glow_border x y w h radius UI_NEON_PURPLE m
      in draw_sidebar_power s (draw_sidebar_status c k s (draw_sidebar_nav s (draw_sidebar_header s m))))"

section \<open>Right column\<close>

definition draw_panel_frame :: "fb_rect \<Rightarrow> string \<Rightarrow> machine \<Rightarrow> machine" where
  "draw_panel_frame r title m =
     (let (x, y, w, h) = r; radius = ui_scaled m 16;
          m = ui_fill_rounded_glass x y w h radius UI_GLASS_TINT 740 m;
          m = ui_draw_top_accent (x + radius sdiv 2) y (w - radius) UI_NEON_MAGENTA (ui_scaled m 2) m;
          m = ui_draw_glow_border x y w h radius UI_NEON_MAGENTA m
      in fb_draw_string (x + ui_scaled m 14) (y + ui_scaled m 14) (Some title) UI_TEXT_LAVENDER UI_BG_VOID m)"

definition draw_music_widget :: "desktop_layout \<Rightarrow> machine \<Rightarrow> machine" where
  "draw_music_widget g m =
     (let r = lay_music g; (x, y, w, h) = r;
          m = draw_panel_frame r ''NOW PLAYING'' m;
          pad = ui_scaled m 14; art = ui_scaled m 48; ay = y + ui_scaled m 38;
          m = ui_fill_rounded_glass (x + pad) ay art art (ui_scaled m 8) (RGB 40 20 60) 900 m;
          m = fb_draw_string (x + pad + art + ui_scaled m 10) (ay + ui_scaled m 6) (Some ''No media'') UI_TEXT_LAVENDER UI_BG_VOID m;
          m = fb_draw_string (x + pad + art + ui_scaled m 10) (ay + ui_scaled m 20) (Some ''playing'') UI_TEXT_DIM UI_BG_VOID m;
          by' = ay + art + ui_scaled m 14;
          m = ui_draw_progress (x + pad) by' (w - pad * 2) (ui_scaled m 4) 0 UI_NEON_PURPLE (RGB 35 30 50) m;
          m = fb_draw_string (x + pad) (by' + ui_scaled m 10) (Some ''--:--'') UI_TEXT_DIM UI_BG_VOID m;
          m = fb_draw_string (x + w - pad - ui_scaled m 40) (by' + ui_scaled m 10) (Some ''--:--'') UI_TEXT_DIM UI_BG_VOID m;
          cy = by' + ui_scaled m 30; cx = x + w sdiv 2; cr = ui_scaled m 12;
          m = ui_fill_circle (cx - ui_scaled m 36) cy (ui_scaled m 8) UI_TEXT_DIM m;
          m = ui_fill_circle cx cy cr UI_NEON_PURPLE m;
          m = fb_draw_char (cx - 3) (cy - 4) CHR ''>'' UI_TEXT_WHITE UI_NEON_PURPLE m
      in ui_fill_circle (cx + ui_scaled m 36) cy (ui_scaled m 8) UI_TEXT_DIM m)"

definition quick_tile_rect :: "machine \<Rightarrow> fb_rect \<Rightarrow> int \<Rightarrow> fb_rect" where
  "quick_tile_rect m r index =
     (let (x, y, w, h) = r;
          pad = ui_scaled m 14; gap = ui_scaled m 8;
          gx0 = x + pad; gy0 = y + ui_scaled m 38;
          tile_w = (w - pad * 2 - gap * (QUICK_COLS - 1)) sdiv QUICK_COLS;
          tile_h = (h - ui_scaled m 38 - pad - gap * (QUICK_ROWS - 1)) sdiv QUICK_ROWS;
          col = index smod QUICK_COLS; row = index sdiv QUICK_COLS
      in (gx0 + col * (tile_w + gap), gy0 + row * (tile_h + gap), tile_w, tile_h))"

definition draw_quick_access :: "desktop_layout \<Rightarrow> int \<Rightarrow> machine \<Rightarrow> machine" where
  "draw_quick_access g quick_hover m =
     (let r = lay_quick g; m = draw_panel_frame r ''QUICK ACCESS'' m
      in fold (\<lambda>i m.
           (let (x, y, w, h) = quick_tile_rect m r i;
                hovered = (i = quick_hover);
                fill = (if hovered then RGB 55 30 85 else RGB 30 20 45);
                fill_alpha = (if hovered then 880 else 780);
                border = (if hovered then UI_NEON_MAGENTA else ui_blend UI_BG_VOID UI_NEON_PURPLE 500);
                m = ui_fill_rounded_glass x y w h (ui_scaled m 10) fill fill_alpha m;
                m = (if hovered then ui_draw_glow_border x y w h (ui_scaled m 10) border m
                     else ui_draw_rounded_border x y w h (ui_scaled m 10) border m);
                label = (if hovered then UI_TEXT_WHITE else UI_TEXT_LAVENDER)
            in fb_draw_string (x + ui_scaled m 8) (y + h - ui_scaled m 18) (Some (quick_access_items ! nat i)) label UI_BG_VOID m))
         [0..QUICK_ROWS * QUICK_COLS - 1] m)"

definition MAX_NOTIFICATIONS :: nat where "MAX_NOTIFICATIONS = 4"

text \<open>The texts are \<open>notifications[0]\<close> up to \<open>notification_count\<close>.\<close>

definition draw_notifications :: "desktop_layout \<Rightarrow> string list \<Rightarrow> machine \<Rightarrow> machine" where
  "draw_notifications g notifications m =
     (let r = lay_notif g; (x, y, w, h) = r;
          m = draw_panel_frame r ''NOTIFICATIONS'' m;
          pad = ui_scaled m 14; y = y + ui_scaled m 38 in
      if notifications = [] then fb_draw_string (x + pad) y (Some ''No new notifications'') UI_TEXT_DIM UI_BG_VOID m
      else snd (fold (\<lambda>note (y, m).
             (let m = ui_fill_circle (x + pad + ui_scaled m 4) (y + ui_scaled m 6) (ui_scaled m 4) UI_OK_GREEN m;
                  m = fb_draw_string (x + pad + ui_scaled m 16) y (Some note) UI_TEXT_WHITE UI_BG_VOID m
              in (y + ui_scaled m 22, m))) (take MAX_NOTIFICATIONS notifications) (y, m)))"

section \<open>Dock\<close>

definition dock_item_rect :: "machine \<Rightarrow> fb_rect \<Rightarrow> int \<Rightarrow> fb_rect" where
  "dock_item_rect m dock index =
     (let (x, y, w, h) = dock;
          pad = ui_scaled m 10; gap = ui_scaled m 6;
          size = h - pad * 2;
          total_w = DOCK_ITEM_COUNT * size + (DOCK_ITEM_COUNT - 1) * gap;
          x0 = x + (w - total_w) sdiv 2
      in (x0 + index * (size + gap), y + pad, size, size))"

definition draw_dock :: "desktop_layout \<Rightarrow> int \<Rightarrow> machine \<Rightarrow> machine" where
  "draw_dock g dock_hover m =
     (let d = lay_dock g; (x, y, w, h) = d; radius = h sdiv 2;
          m = ui_fill_rounded_glass x y w h radius UI_GLASS_TINT 780 m;
          m = ui_draw_glow_border x y w h radius UI_NEON_MAGENTA m
      in fold (\<lambda>i m.
           (let item = dock_item_rect m d i;
                hovered = (i = dock_hover);
                (x, y, w, h) = (if hovered
                   then (case item of (x, y, w, h) \<Rightarrow> let grow = ui_scaled m 3 in (x - grow, y - grow, w + grow * 2, h + grow * 2))
                   else item);
                fill = (if hovered then RGB 70 35 105 else RGB 35 20 55);
                fill_alpha = (if hovered then 900 else 800);
                m = ui_fill_rounded_glass x y w h (ui_scaled m 10) fill fill_alpha m;
                m = (if hovered then ui_draw_glow_border x y w h (ui_scaled m 10) UI_NEON_MAGENTA m else m);
                glyph = (if hovered then UI_TEXT_WHITE else UI_TEXT_LAVENDER)
            in fb_draw_char (x + w sdiv 2 - 4) (y + h sdiv 2 - 4) (dock_items ! nat i ! 0) glyph UI_BG_VOID m))
         [0..DOCK_ITEM_COUNT - 1] m)"

definition draw_workspace_switcher :: "desktop_layout \<Rightarrow> machine \<Rightarrow> machine" where
  "draw_workspace_switcher g m =
     (let (wx, wy, ww, wh) = lay_wsw g; radius = wh sdiv 2;
          m = ui_fill_rounded_glass wx wy ww wh radius UI_GLASS_TINT 780 m;
          m = ui_draw_glow_border wx wy ww wh radius UI_NEON_PURPLE m;
          pad = ui_scaled m 6; gap = ui_scaled m 4; size = wh - pad * 2; x = wx + pad
      in snd (fold (\<lambda>i (x, m).
           (let active = (i = 0);
                fill = (if active then UI_NEON_PURPLE else RGB 30 25 45);
                m = ui_fill_rounded_glass x (wy + pad) size size (ui_scaled m 6) fill (if active then 950 else 700) m;
                m = fb_draw_char (x + size sdiv 2 - 4) (wy + pad + size sdiv 2 - 4)
                      (if i < 4 then char_of (nat (49 + i)) else CHR ''+'') UI_TEXT_WHITE UI_BG_VOID m
            in (x + (size + gap), m))) [0..4] (x, m)))"

section \<open>What lies under a point\<close>

text \<open>\<open>for (i = 0; i < n; i++) if (P(i)) return i; return -1;\<close>\<close>

definition first_hit :: "(int \<Rightarrow> bool) \<Rightarrow> int \<Rightarrow> int" where
  "first_hit P n = (case find P [0..n - 1] of Some i \<Rightarrow> i | None \<Rightarrow> -1)"

definition sidebar_nav_hit_test :: "machine \<Rightarrow> desktop_layout \<Rightarrow> int \<Rightarrow> int \<Rightarrow> int" where
  "sidebar_nav_hit_test m g mx my =
     (let s = lay_sidebar g; (x, y, w, h) = s in
      if mx < x \<or> mx \<ge> x + w then -1
      else
        (let y0 = nav_start_y m s; ih = nav_item_h m in
         first_hit (\<lambda>i. let iy = y0 + i * ih in my \<ge> iy \<and> my < iy + ih - ui_scaled m 6) NAV_ITEM_COUNT))"

definition dock_hit_test :: "machine \<Rightarrow> desktop_layout \<Rightarrow> int \<Rightarrow> int \<Rightarrow> int" where
  "dock_hit_test m g mx my =
     (let d = lay_dock g in
      if \<not> point_in_rect mx my d then -1
      else first_hit (\<lambda>i. point_in_rect mx my (dock_item_rect m d i)) DOCK_ITEM_COUNT)"

definition quick_hit_test :: "machine \<Rightarrow> desktop_layout \<Rightarrow> int \<Rightarrow> int \<Rightarrow> int" where
  "quick_hit_test m g mx my =
     (let r = lay_quick g in
      if \<not> point_in_rect mx my r then -1
      else first_hit (\<lambda>i. point_in_rect mx my (quick_tile_rect m r i)) (QUICK_ROWS * QUICK_COLS))"

end
