(* ===== verification/Windows.thy ===== *)
theory Windows
  imports Widgets Interrupts Terminal Present
begin

text \<open>
  The windows of the desktop and how they react to the pointer, \<open>src/gui/gui.c\<close> with the window record of
  \<open>src/gui/window.h\<close>: creation, the background under them, their drawing, and \<open>gui_update\<close>, which turns the
  state of the mouse into clicks, drags and scrolling. A session is the platform of theory Interrupts with
  the terminal and the desktop; the calls the terminal makes to the framebuffer (theory Terminal) are played
  back on the machine. A pointer to a window is its index (\<open>None\<close> for null), and the list \<open>windows\<close> is the
  array up to \<open>window_count\<close>, which never falls. \<open>None\<close> is an update that does not return: the machine is
  restarted or switched off.
\<close>

definition CURSOR_W :: int where "CURSOR_W = 8"
definition CURSOR_H :: int where "CURSOR_H = 8"
definition MAX_WINDOWS :: nat where "MAX_WINDOWS = 8"

datatype window_kind = WINDOW_KIND_TERMINAL

record window =
  win_x :: int
  win_y :: int
  win_w :: int
  win_h :: int
  win_dragging :: bool
  drag_offset_x :: int
  drag_offset_y :: int
  win_minimized :: bool
  win_closed :: bool
  win_maximized :: bool
  restore_x :: int
  restore_y :: int
  restore_w :: int
  restore_h :: int
  win_fading :: bool
  fade_start_tick :: u64
  win_used :: bool
  win_kind :: window_kind
  win_title :: string
  prev_x :: int
  prev_y :: int
  prev_w :: int
  prev_h :: int
  prev_visible :: bool

record desktop =
  prev_left :: bool
  gui_dirty :: bool
  prev_cursor_x :: int
  prev_cursor_y :: int
  cursor_bg :: "color list"
  first_draw :: bool
  last_clock_total :: int
  bg_pixels :: u64
  bg_width :: int
  bg_height :: int
  solid_bg_color :: color
  bg_scale_pm :: int
  bg_off_x :: int
  bg_off_y :: int
  windows :: "window list"
  terminal_window :: "nat option"
  notifications :: "string list"
  dock_hover :: int
  quick_hover :: int
  g_layout :: desktop_layout

text \<open>The initial values of the static variables.\<close>

definition desktop_at_boot :: desktop where
  "desktop_at_boot =
     \<lparr>prev_left = False, gui_dirty = True, prev_cursor_x = -1, prev_cursor_y = -1,
      cursor_bg = replicate (nat (CURSOR_W * CURSOR_H)) (RGB 0 0 0), first_draw = True, last_clock_total = -1, bg_pixels = 0,
      bg_width = 0, bg_height = 0, solid_bg_color = UI_BG_VOID, bg_scale_pm = 1000, bg_off_x = 0, bg_off_y = 0,
      windows = [], terminal_window = None, notifications = [], dock_hover = -1, quick_hover = -1,
      g_layout = \<lparr>lay_sidebar = (0, 0, 0, 0), lay_clock = (0, 0, 0, 0), lay_music = (0, 0, 0, 0),
        lay_quick = (0, 0, 0, 0), lay_notif = (0, 0, 0, 0), lay_dock = (0, 0, 0, 0), lay_wsw = (0, 0, 0, 0)\<rparr>\<rparr>"

record session = platform +
  terml :: terminal
  desk :: desktop
  timer_hz :: u32

definition screen :: "'a platform_scheme \<Rightarrow> machine" where
  "screen s = mach (kern s)"

definition on_display :: "(machine \<Rightarrow> machine) \<Rightarrow> 'a platform_scheme \<Rightarrow> 'a platform_scheme" where
  "on_display f s = on_kern (on_mach f) s"

definition on_desk :: "(desktop \<Rightarrow> desktop) \<Rightarrow> session \<Rightarrow> session" where
  "on_desk f s = s\<lparr>desk := f (desk s)\<rparr>"

section \<open>The terminal on the framebuffer\<close>

definition triple_color :: "nat \<times> nat \<times> nat \<Rightarrow> color" where
  "triple_color c = (case c of (r, g, b) \<Rightarrow> RGB (of_nat r) (of_nat g) (of_nat b))"

fun play_call :: "fb_call \<Rightarrow> machine \<Rightarrow> machine" where
  "play_call (FillRect x y w h c) m = fb_fill_rect x y w h (triple_color c) m"
| "play_call (DrawChar x y ch fg bg) m = fb_draw_char x y ch (triple_color fg) (triple_color bg) m"
| "play_call Present m = fb_present_s m"

text \<open>A terminal operation with the calls it makes.\<close>

definition on_terminal :: "(terminal \<Rightarrow> terminal) \<Rightarrow> session \<Rightarrow> session" where
  "on_terminal f s =
     (let t = f ((terml s)\<lparr>calls := []\<rparr>)
      in on_display (fold play_call (calls t)) (s\<lparr>terml := t\<lparr>calls := []\<rparr>\<rparr>))"

section \<open>Background\<close>

definition gui_set_background :: "u64 \<Rightarrow> int \<Rightarrow> int \<Rightarrow> desktop \<Rightarrow> desktop" where
  "gui_set_background pixels width height d =
     d\<lparr>bg_pixels := pixels, bg_width := width, bg_height := height, gui_dirty := True\<rparr>"

definition gui_set_bg_color :: "color \<Rightarrow> desktop \<Rightarrow> desktop" where
  "gui_set_bg_color c d = d\<lparr>bg_pixels := 0, solid_bg_color := c, gui_dirty := True\<rparr>"

definition recompute_wallpaper_fit :: "machine \<Rightarrow> desktop \<Rightarrow> desktop" where
  "recompute_wallpaper_fit m d =
     (if bg_pixels d = 0 \<or> bg_width d \<le> 0 \<or> bg_height d \<le> 0 then d
      else
        (let fw = fb_width m; fh = fb_height m;
             sx = (fw * 1000) sdiv bg_width d;
             sy = (fh * 1000) sdiv bg_height d;
             scale = (if sx > sy then sx else sy);
             scale = (if scale < 1 then 1000 else scale);
             scaled_w = (bg_width d * scale) sdiv 1000;
             scaled_h = (bg_height d * scale) sdiv 1000
         in d\<lparr>bg_scale_pm := scale, bg_off_x := (fw - scaled_w) sdiv 2, bg_off_y := (fh - scaled_h) sdiv 2\<rparr>))"

text \<open>\<open>bg_pixels[sy * bg_width + sx]\<close>, three bytes of memory.\<close>

definition bg_pixel :: "desktop \<Rightarrow> memory \<Rightarrow> int \<Rightarrow> int \<Rightarrow> color" where
  "bg_pixel d mm sx sy =
     (let a = bg_pixels d + 3 * ucast (of_int sy * of_int (bg_width d) :: u32) + 3 * of_int sx
      in RGB (mm a) (mm (a + 1)) (mm (a + 2)))"

definition clamp_index :: "int \<Rightarrow> int \<Rightarrow> int" where
  "clamp_index v n = (let v = (if v < 0 then 0 else v) in if v \<ge> n then n - 1 else v)"

definition draw_background_rect :: "desktop \<Rightarrow> fb_rect \<Rightarrow> machine \<Rightarrow> machine" where
  "draw_background_rect d r m =
     (let (x, y, w, h) = r in
      if w \<le> 0 \<or> h \<le> 0 then m
      else if bg_pixels d = 0 \<or> bg_width d \<le> 0 \<or> bg_height d \<le> 0 then fb_fill_rect x y w h (solid_bg_color d) m
      else fold (\<lambda>dy.
          (let sy = clamp_index (((y + dy - bg_off_y d) * 1000) sdiv bg_scale_pm d) (bg_height d) in
           fold (\<lambda>dx m.
             (let sx = clamp_index (((x + dx - bg_off_x d) * 1000) sdiv bg_scale_pm d) (bg_width d)
              in fb_put_pixel (x + dx) (y + dy) (bg_pixel d (mem m) sx sy) m)) [0..w - 1])) [0..h - 1] m)"

section \<open>Windows\<close>

text \<open>
  \<open>window_create\<close> writes the fields it names; the others of the slot, which was never used, are zero. The index
  of the window is returned with the state.
\<close>

definition window_create ::
  "window_kind \<Rightarrow> string \<Rightarrow> int \<Rightarrow> int \<Rightarrow> int \<Rightarrow> int \<Rightarrow> u64 \<Rightarrow> desktop \<Rightarrow> nat option \<times> desktop" where
  "window_create kind title x y w h ticks d =
     (if length (windows d) \<ge> MAX_WINDOWS then (None, d)
      else
        (let win = \<lparr>win_x = x, win_y = y, win_w = w, win_h = h, win_dragging = False, drag_offset_x = 0,
               drag_offset_y = 0, win_minimized = False, win_closed = False, win_maximized = False, restore_x = 0,
               restore_y = 0, restore_w = 0, restore_h = 0, win_fading = True, fade_start_tick = ticks,
               win_used = True, win_kind = kind, win_title = take 31 title, prev_x = 0, prev_y = 0, prev_w = 0,
               prev_h = 0, prev_visible = False\<rparr>
         in (Some (length (windows d)), d\<lparr>windows := windows d @ [win]\<rparr>)))"

definition window_visible :: "window \<Rightarrow> bool" where
  "window_visible w \<longleftrightarrow> win_used w \<and> \<not> win_minimized w \<and> \<not> win_closed w"

definition titlebar_height :: "machine \<Rightarrow> int" where
  "titlebar_height m = ui_scaled m 30"

definition window_btn_size :: "machine \<Rightarrow> int" where
  "window_btn_size m = ui_scaled m 11"

text \<open>The rectangles of close, maximise and minimise.\<close>

definition button_rects :: "machine \<Rightarrow> window \<Rightarrow> fb_rect \<times> fb_rect \<times> fb_rect" where
  "button_rects m w =
     (let th = titlebar_height m; bs = window_btn_size m; gap = ui_scaled m 9;
          y = win_y w + th sdiv 2 - bs sdiv 2;
          close_x = win_x w + win_w w - bs - ui_scaled m 14;
          max_x = close_x - (bs + gap);
          min_x = max_x - (bs + gap)
      in ((close_x, y, bs, bs), (max_x, y, bs, bs), (min_x, y, bs, bs)))"

definition window_opacity_pm :: "u32 \<Rightarrow> u64 \<Rightarrow> window \<Rightarrow> int \<times> window" where
  "window_opacity_pm hz ticks w =
     (if \<not> win_fading w then (1000, w)
      else if hz = 0 then (1000, w\<lparr>win_fading := False\<rparr>)
      else
        (let elapsed = ticks - fade_start_tick w;
             duration = ucast (hz div 4);
             duration = (if duration = 0 then 1 else duration) in
         if elapsed \<ge> duration then (1000, w\<lparr>win_fading := False\<rparr>)
         else (sint (ucast ((elapsed * 1000) div duration) :: u32), w)))"

definition draw_button :: "fb_rect \<Rightarrow> color \<Rightarrow> machine \<Rightarrow> machine" where
  "draw_button r c m = (let (x, y, w, h) = r; br = w sdiv 2 in ui_fill_circle (x + br) (y + br) br c m)"

definition draw_window :: "u32 \<Rightarrow> u64 \<Rightarrow> window \<Rightarrow> machine \<Rightarrow> window \<times> machine" where
  "draw_window hz ticks w m =
     (let th = titlebar_height m; radius = ui_scaled m 14;
          (opacity, w) = window_opacity_pm hz ticks w;
          glass_alpha = (780 * opacity) sdiv 1000;
          m = ui_fill_rounded_glass (win_x w) (win_y w) (win_w w) (win_h w) radius UI_GLASS_TINT glass_alpha m;
          m = ui_fill_glass (win_x w + radius sdiv 2) (win_y w) (win_w w - radius) (ui_scaled m 2) UI_NEON_PURPLE opacity m;
          m = ui_draw_glow_border_alpha (win_x w) (win_y w) (win_w w) (win_h w) radius UI_NEON_PURPLE opacity m in
      if opacity < 700 then (w, m)
      else
        (let fs = ui_font_scale m;
             m = fb_draw_string_ex (win_x w + ui_scaled m 16) (win_y w + th sdiv 2 - 4 * fs) (Some (win_title w))
                   UI_TEXT_WHITE UI_BG_VOID fs True m;
             (close_r, max_r, min_r) = button_rects m w
         in (w, draw_button close_r UI_DANGER_RED (draw_button max_r UI_OK_GREEN (draw_button min_r UI_WARN_AMBER m)))))"

definition terminal_content_rect :: "machine \<Rightarrow> window \<Rightarrow> fb_rect" where
  "terminal_content_rect m w =
     (let margin = ui_scaled m 10; th = titlebar_height m
      in (win_x w + margin, win_y w + th + margin, win_w w - margin * 2, win_h w - th - margin * 2))"

definition toggle_maximize :: "machine \<Rightarrow> desktop_layout \<Rightarrow> window \<Rightarrow> window" where
  "toggle_maximize m g w =
     (if win_maximized w then
        w\<lparr>win_x := restore_x w, win_y := restore_y w, win_w := restore_w w, win_h := restore_h w, win_maximized := False\<rparr>
      else
        (let w = w\<lparr>restore_x := win_x w, restore_y := win_y w, restore_w := win_w w, restore_h := win_h w\<rparr>;
             gap = ui_scaled m 14;
             (side_x, side_y, side_w, side_h) = lay_sidebar g;
             (dock_x, dock_y, dock_w, dock_h) = lay_dock g;
             x = side_x + side_w + gap
         in w\<lparr>win_x := x, win_y := gap, win_w := fb_width m - x - ui_scaled m 230 - gap, win_h := dock_y - gap * 2,
              win_maximized := True\<rparr>))"

text \<open>A text of up to 39 characters is kept; when the four places are taken, it is not.\<close>

definition gui_notify :: "string \<Rightarrow> desktop \<Rightarrow> desktop" where
  "gui_notify t d =
     (let d = (if length (notifications d) < MAX_NOTIFICATIONS then d\<lparr>notifications := notifications d @ [take 39 t]\<rparr> else d)
      in d\<lparr>gui_dirty := True\<rparr>)"

definition gui_restore_terminal :: "u64 \<Rightarrow> desktop \<Rightarrow> desktop" where
  "gui_restore_terminal ticks d =
     (case terminal_window d of
        None \<Rightarrow> d
      | Some i \<Rightarrow> d\<lparr>windows := (windows d)[i := (windows d ! i)\<lparr>win_minimized := False, win_closed := False,
                     win_fading := True, fade_start_tick := ticks\<rparr>], gui_dirty := True\<rparr>)"

definition gui_invalidate :: "desktop \<Rightarrow> desktop" where
  "gui_invalidate d = d\<lparr>gui_dirty := True\<rparr>"

section \<open>Reacting to the pointer\<close>

text \<open>The window that gets the events: the last visible one of the array.\<close>

definition top_window :: "window list \<Rightarrow> nat option" where
  "top_window ws = find (\<lambda>i. window_visible (ws ! i)) (rev [0..<length ws])"

text \<open>A click on a button or the title bar.\<close>

definition window_click :: "machine \<Rightarrow> desktop_layout \<Rightarrow> bool \<Rightarrow> int \<Rightarrow> int \<Rightarrow> window \<Rightarrow> bool \<times> window" where
  "window_click m g clicked mx my w =
     (let (close_r, max_r, min_r) = button_rects m w in
      if clicked \<and> point_in_rect mx my close_r then (True, w\<lparr>win_closed := True, win_dragging := False\<rparr>)
      else if clicked \<and> point_in_rect mx my max_r then (True, (toggle_maximize m g w)\<lparr>win_dragging := False\<rparr>)
      else if clicked \<and> point_in_rect mx my min_r then (True, w\<lparr>win_minimized := True, win_dragging := False\<rparr>)
      else
        (let th = titlebar_height m;
             inside_titlebar = (mx \<ge> win_x w \<and> mx < win_x w + win_w w \<and> my \<ge> win_y w \<and> my < win_y w + th) in
         if clicked \<and> inside_titlebar \<and> \<not> win_maximized w
         then (False, w\<lparr>win_dragging := True, drag_offset_x := mx - win_x w, drag_offset_y := my - win_y w\<rparr>)
         else (False, w)))"

definition window_drag :: "bool \<Rightarrow> int \<Rightarrow> int \<Rightarrow> window \<Rightarrow> bool \<times> window" where
  "window_drag left mx my w =
     (let w = (if \<not> left then w\<lparr>win_dragging := False\<rparr> else w) in
      if win_dragging w then
        (let new_x = mx - drag_offset_x w; new_y = my - drag_offset_y w in
         if new_x \<noteq> win_x w \<or> new_y \<noteq> win_y w then (True, w\<lparr>win_x := new_x, win_y := new_y\<rparr>) else (False, w))
      else (False, w))"

definition mark :: "bool \<Rightarrow> desktop \<Rightarrow> desktop" where
  "mark b d = (if b then d\<lparr>gui_dirty := True\<rparr> else d)"

definition update_clock :: "int \<Rightarrow> desktop \<Rightarrow> desktop" where
  "update_clock tot d = (if tot \<noteq> last_clock_total d then d\<lparr>last_clock_total := tot, gui_dirty := True\<rparr> else d)"

definition update_hover :: "machine \<Rightarrow> int \<Rightarrow> int \<Rightarrow> desktop \<Rightarrow> desktop" where
  "update_hover m mx my d =
     (let h = dock_hit_test m (g_layout d) mx my;
          d = (if h \<noteq> dock_hover d then d\<lparr>dock_hover := h, gui_dirty := True\<rparr> else d);
          h = quick_hit_test m (g_layout d) mx my
      in if h \<noteq> quick_hover d then d\<lparr>quick_hover := h, gui_dirty := True\<rparr> else d)"

text \<open>A click on the sidebar or the dock; \<open>None\<close> when a power button was hit.\<close>

definition click_panels :: "machine \<Rightarrow> u64 \<Rightarrow> int \<Rightarrow> int \<Rightarrow> desktop \<Rightarrow> desktop option" where
  "click_panels m ticks mx my d =
     (let d = (if sidebar_nav_hit_test m (g_layout d) mx my = 0 then gui_restore_terminal ticks d else d);
          d = (if dock_hit_test m (g_layout d) mx my = 0 then gui_restore_terminal ticks d else d);
          (restart_r, lock_r, off_r) = power_button_rects m (lay_sidebar (g_layout d)) in
      if point_in_rect mx my restart_r then None
      else if point_in_rect mx my off_r then None
      else Some d)"

text \<open>The wheel, for a terminal window.\<close>

definition wheel :: "int \<Rightarrow> int \<Rightarrow> session \<Rightarrow> session" where
  "wheel mx my s =
     (let (scroll, s) = mouse_get_scroll s in
      if scroll \<noteq> 0 \<and> terminal_contains mx my (terml s) then on_terminal (terminal_scroll scroll) s else s)"

definition update_window :: "nat \<Rightarrow> bool \<Rightarrow> mouse_state \<Rightarrow> session \<Rightarrow> session" where
  "update_window i clicked mouse s =
     (let w = windows (desk s) ! i; mx = state_x mouse; my = state_y mouse;
          (dirty1, w) = window_click (screen s) (g_layout (desk s)) clicked mx my w;
          (dirty2, w) = window_drag (state_left mouse \<noteq> 0) mx my w;
          s = on_desk (\<lambda>d. mark (dirty1 \<or> dirty2) (d\<lparr>windows := (windows d)[i := w]\<rparr>)) s
      in if win_kind w = WINDOW_KIND_TERMINAL then wheel mx my s else s)"

definition gui_update :: "session \<Rightarrow> session option" where
  "gui_update s =
     (let m = screen s;
          s = on_desk (\<lambda>d. d\<lparr>g_layout := recompute_layout m\<rparr>) s;
          mouse = mouse_get_state s; mx = state_x mouse; my = state_y mouse;
          clicked = (\<not> prev_left (desk s) \<and> state_left mouse \<noteq> 0);
          (ch, cm, cs) = clock_get (clk s);
          s = on_desk (update_clock (ch * 3600 + cm * 60 + cs)) s;
          s = on_desk (update_hover m mx my) s;
          s = on_desk (\<lambda>d. mark (list_ex win_fading (windows d)) d) s in
      case (if clicked then click_panels m (timer_get_ticks (clk s)) mx my (desk s) else Some (desk s)) of
        None \<Rightarrow> None
      | Some d \<Rightarrow>
          (let s = s\<lparr>desk := d\<rparr>;
               s = (case top_window (windows d) of None \<Rightarrow> s | Some i \<Rightarrow> update_window i clicked mouse s)
           in Some (on_desk (\<lambda>d. d\<lparr>prev_left := (state_left mouse \<noteq> 0)\<rparr>) s)))"

end
