(* ===== verification/Desktop.thy ===== *)
theory Desktop
  imports Windows
begin

text \<open>
  The frame of the desktop, \<open>gui_draw\<close> of \<open>src/gui/gui.c\<close>: what is painted, which rectangles are presented
  (the array \<open>dirty\<close>), and the pointer, which is painted over the picture after the pixels under it were saved.
\<close>

section \<open>Painting\<close>

definition draw_background_full :: "session \<Rightarrow> session" where
  "draw_background_full s =
     (let s = on_desk (recompute_wallpaper_fit (screen s)) s
      in on_display (\<lambda>m. draw_background_rect (desk s) (0, 0, fb_width m, fb_height m) m) s)"

text \<open>Sidebar, clock, music, quick access, notifications, dock and workspace switcher, in this order.\<close>

definition draw_panels :: "session \<Rightarrow> session" where
  "draw_panels s =
     (let g = g_layout (desk s); d = desk s in
      on_display (\<lambda>m. draw_workspace_switcher g (draw_dock g (dock_hover d)
        (draw_notifications g (notifications d) (draw_quick_access g (quick_hover d) (draw_music_widget g
        (draw_clock_widget g (clk s) (draw_sidebar g (clk s) (kern s) m))))))) s)"

definition grown :: "fb_rect \<Rightarrow> fb_rect" where
  "grown r = (let (x, y, w, h) = r in (x - 2, y - 2, w + 4, h + 4))"

definition sidebar_dirty_rect :: "machine \<Rightarrow> desktop_layout \<Rightarrow> fb_rect" where
  "sidebar_dirty_rect m g = (let (x, y, w, h) = lay_sidebar g in (x - 2, 0, w + 4, fb_height m))"

definition right_column_dirty_rect :: "machine \<Rightarrow> desktop_layout \<Rightarrow> fb_rect" where
  "right_column_dirty_rect m g =
     (let right_edge = fb_width m; left_edge = fst (lay_clock g) - ui_scaled m 10
      in (left_edge, 0, right_edge - left_edge, fb_height m))"

definition win_rect :: "window \<Rightarrow> fb_rect" where
  "win_rect w = (win_x w, win_y w, win_w w, win_h w)"

definition prev_rect :: "window \<Rightarrow> fb_rect" where
  "prev_rect w = (prev_x w, prev_y w, prev_w w, prev_h w)"

text \<open>The terminal's viewport follows its window; it is set up anew on the first frame and when the size changed.\<close>

definition follow_window :: "bool \<Rightarrow> window \<Rightarrow> session \<Rightarrow> session" where
  "follow_window fresh w s =
     (if win_kind w = WINDOW_KIND_TERMINAL then
        (let (cx, cy, cw, ch) = terminal_content_rect (screen s) w in
         if fresh \<or> \<not> prev_visible w \<or> prev_w w \<noteq> win_w w \<or> prev_h w \<noteq> win_h w
         then on_terminal (terminal_set_viewport cx cy cw ch) s
         else on_terminal (terminal_move_viewport cx cy) s)
      else s)"

definition remember :: "bool \<Rightarrow> window \<Rightarrow> window" where
  "remember shows_now w = w\<lparr>prev_x := win_x w, prev_y := win_y w, prev_w := win_w w, prev_h := win_h w, prev_visible := shows_now\<rparr>"

definition set_window :: "nat \<Rightarrow> window \<Rightarrow> session \<Rightarrow> session" where
  "set_window i w s = on_desk (\<lambda>d. d\<lparr>windows := (windows d)[i := w]\<rparr>) s"

definition paint_window :: "bool \<Rightarrow> nat \<Rightarrow> session \<Rightarrow> session" where
  "paint_window fresh i s =
     (let w = windows (desk s) ! i; shows_now = window_visible w;
          (w, s) = (if shows_now then
              (let (w, m) = draw_window (timer_hz s) (timer_get_ticks (clk s)) w (screen s)
               in (w, follow_window fresh w (on_display (\<lambda>_. m) s)))
            else (w, s))
      in set_window i (remember shows_now w) s)"

text \<open>A whole frame when something changed: the first one, and the later ones with what they add to \<open>dirty\<close>.\<close>

definition paint_first :: "session \<Rightarrow> fb_rect list \<times> session" where
  "paint_first s =
     (let s = draw_panels (draw_background_full (on_desk (\<lambda>d. d\<lparr>first_draw := False\<rparr>) s));
          s = fold (paint_window True) [0..<length (windows (desk s))] s
      in ([(0, 0, fb_width (screen s), fb_height (screen s))], s))"

definition paint_again :: "session \<Rightarrow> fb_rect list \<times> session" where
  "paint_again s =
     (let d = desk s; g = g_layout d; m = screen s;
          olds = filter prev_visible (windows d);
          s = fold (\<lambda>w. on_display (draw_background_rect d (prev_rect w))) olds s;
          s = draw_panels s;
          news = filter window_visible (windows d);
          s = fold (paint_window False) [0..<length (windows d)] s
      in (map prev_rect olds @ [sidebar_dirty_rect m g, right_column_dirty_rect m g, grown (lay_dock g), grown (lay_wsw g)]
            @ map win_rect news, s))"

section \<open>The pointer\<close>

definition erase_cursor :: "session \<Rightarrow> fb_rect list \<times> session" where
  "erase_cursor s =
     (let d = desk s; x = prev_cursor_x d; y = prev_cursor_y d in
      if x \<ge> 0 then
        ([(x, y, CURSOR_W, CURSOR_H)],
         on_display (fold (\<lambda>dy. fold (\<lambda>dx. fb_put_pixel (x + dx) (y + dy) (cursor_bg d ! nat (dy * CURSOR_W + dx)))
           [0..CURSOR_W - 1]) [0..CURSOR_H - 1]) s)
      else ([], s))"

definition draw_cursor :: "int \<Rightarrow> int \<Rightarrow> session \<Rightarrow> fb_rect list \<times> session" where
  "draw_cursor x y s =
     (let s = on_desk (\<lambda>d. d\<lparr>cursor_bg := concat (map (\<lambda>dy. map (\<lambda>dx. fb_get_pixel (x + dx) (y + dy) (screen s))
                [0..CURSOR_W - 1]) [0..CURSOR_H - 1])\<rparr>) s;
          s = on_display (fb_fill_rect x y CURSOR_W CURSOR_H (RGB 255 255 255)) s
      in ([(x, y, CURSOR_W, CURSOR_H)], on_desk (\<lambda>d. d\<lparr>prev_cursor_x := x, prev_cursor_y := y\<rparr>) s))"

section \<open>The frame\<close>

definition paint :: "session \<Rightarrow> fb_rect list \<times> session" where
  "paint s =
     (if gui_dirty (desk s) then
        (let s = on_desk (\<lambda>d. d\<lparr>gui_dirty := False\<rparr>) s;
             (dirty, s) = (if first_draw (desk s) then paint_first s else paint_again s)
         in (dirty, on_desk (\<lambda>d. d\<lparr>prev_cursor_x := -1\<rparr>) s))
      else ([], s))"

text \<open>The frame before it is presented, with the contents of \<open>dirty\<close>.\<close>

definition compose_frame :: "session \<Rightarrow> fb_rect list \<times> session" where
  "compose_frame s =
     (let mouse = mouse_get_state s;
          s = on_desk (\<lambda>d. d\<lparr>g_layout := recompute_layout (screen s)\<rparr>) s;
          (dirty1, s) = paint s;
          (dirty2, s) = erase_cursor s;
          (dirty3, s) = draw_cursor (state_x mouse) (state_y mouse) s
      in (dirty1 @ dirty2 @ dirty3, s))"

definition gui_draw :: "session \<Rightarrow> session" where
  "gui_draw s =
     (let (dirty, s) = compose_frame s in on_display (fb_present_rects (Some dirty) (int (length dirty))) s)"

text \<open>The size of the array \<open>dirty\<close>.\<close>

definition DIRTY_MAX :: nat where "DIRTY_MAX = MAX_WINDOWS * 2 + 12"

definition gui_init :: "session \<Rightarrow> session" where
  "gui_init s =
     (let s = s\<lparr>clk := clock_init (clk s)\<rparr>;
          s = on_desk (\<lambda>d. d\<lparr>g_layout := recompute_layout (screen s)\<rparr>) s;
          fw = fb_width (screen s); fh = fb_height (screen s)
      in on_desk (\<lambda>d.
           (let (win, d) = window_create WINDOW_KIND_TERMINAL ''Terminal'' ((fw * 175) sdiv 1000) ((fh * 60) sdiv 1000)
                             ((fw * 290) sdiv 1000) ((fh * 340) sdiv 1000) (timer_get_ticks (clk s)) d
            in (gui_notify ''System Ready'' (d\<lparr>terminal_window := win\<rparr>))\<lparr>gui_dirty := True\<rparr>)) s)"

end
