(* ===== verification/Cursor.thy ===== *)
theory Cursor
  imports Desktop
begin

text \<open>
  The pointer as an overlay: drawing it saves the pixels under it, and the next frame puts them back, so the
  picture under the pointer (\<open>scene\<close>) survives every movement.
\<close>

section \<open>Presenting leaves the picture alone\<close>

text \<open>Machines that differ in memory and in the force flag only have the same surfaces.\<close>

definition same_layout :: "machine \<Rightarrow> machine \<Rightarrow> bool" where
  "same_layout m m' \<longleftrightarrow> m' = m\<lparr>mem := mem m', fb_force_full := fb_force_full m'\<rparr>"

lemma same_layout_refl [simp]: "same_layout m m"
  by (simp add: same_layout_def)

lemma same_layout_trans: "same_layout a b \<Longrightarrow> same_layout b c \<Longrightarrow> same_layout a c"
  unfolding same_layout_def by (cases a, cases b, cases c) simp

lemma same_layout_poke [simp]: "same_layout m (poke_bytes a bs m)"
  by (simp add: same_layout_def poke_bytes_def)

lemma same_layout_force [simp]: "same_layout m (m\<lparr>fb_force_full := b\<rparr>)"
  by (simp add: same_layout_def)

lemma same_layout_facts:
  assumes "same_layout m m'"
  shows "surface_ok m' = surface_ok m" "channels_ok m' = channels_ok m" "visible m' = visible m"
    "presenting m' = presenting m" "draw_buf m' = draw_buf m" "fb_w m' = fb_w m" "fb_h m' = fb_h m"
    "off_screen m' = off_screen m" "fb_color m' = fb_color m" "draw_address m' = draw_address m"
proof -
  obtain f b where m': "m' = m\<lparr>mem := f, fb_force_full := b\<rparr>" using assms unfolding same_layout_def by blast
  show "surface_ok m' = surface_ok m" "channels_ok m' = channels_ok m" "visible m' = visible m"
    "presenting m' = presenting m" "draw_buf m' = draw_buf m" "fb_w m' = fb_w m" "fb_h m' = fb_h m"
    "off_screen m' = off_screen m" "fb_color m' = fb_color m" "draw_address m' = draw_address m"
    by (simp_all add: m' surface_ok_def channels_ok_def visible_def presenting_def pixel_bytes_def stride_def surface_base_def
        display_surface_def device_surface_def surfaces_apart_def off_screen_def fb_color_def draw_address_def fun_eq_iff)
qed

definition keeps_picture :: "machine \<Rightarrow> machine \<Rightarrow> bool" where
  "keeps_picture m m' \<longleftrightarrow> same_layout m m' \<and> (\<forall>x y. visible m x y \<longrightarrow> fb_get_pixel x y m' = fb_get_pixel x y m)"

lemma keeps_picture_refl [simp]: "keeps_picture m m"
  by (simp add: keeps_picture_def)

lemma keeps_picture_trans: "keeps_picture a b \<Longrightarrow> keeps_picture b c \<Longrightarrow> keeps_picture a c"
  using same_layout_trans same_layout_facts(3) unfolding keeps_picture_def by metis

lemma blit_keeps:
  assumes "presenting m" and "visible m x y"
  shows "keeps_picture m (blit_pixel x y m)"
proof -
  have s: "same_layout m (blit_pixel x y m)"
    by (auto simp: blit_pixel_form intro: same_layout_trans [OF same_layout_poke same_layout_poke])
  have "fb_get_pixel x' y' (blit_pixel x y m) = fb_get_pixel x' y' m" if "visible m x' y'" for x' y'
    using blit_pixel_reads(1) [OF assms that] same_layout_facts [OF s] presentingD(7) [OF assms(1)]
    by (simp add: fb_get_pixel_def back_pixel_def)
  with s show ?thesis by (simp add: keeps_picture_def)
qed

lemma blit_points_keep:
  assumes "presenting m" and "\<And>p. p \<in> set ps \<Longrightarrow> visible m (fst p) (snd p)"
  shows "keeps_picture m (fold (\<lambda>(x, y). blit_pixel x y) ps m)"
  using assms
proof (induction ps arbitrary: m)
  case Nil
  then show ?case by simp
next
  case (Cons p ps)
  have k: "keeps_picture m (blit_pixel (fst p) (snd p) m)" using Cons.prems by (intro blit_keeps) simp_all
  have "keeps_picture (blit_pixel (fst p) (snd p) m) (fold (\<lambda>(x, y). blit_pixel x y) ps (blit_pixel (fst p) (snd p) m))"
    using Cons.prems by (intro Cons.IH) simp_all
  with k show ?case by (simp add: split_def) (rule keeps_picture_trans)
qed

definition inside :: "fb_rect \<Rightarrow> int \<Rightarrow> int \<Rightarrow> bool" where
  "inside r px py \<longleftrightarrow> (case r of (x, y, w, h) \<Rightarrow> x \<le> px \<and> px < x + w \<and> y \<le> py \<and> py < y + h)"

lemma blit_rect_covers:
  assumes "presenting m"
  shows "\<exists>ps. blit_rect x y w h m = fold (\<lambda>(x, y). blit_pixel x y) ps m \<and> (\<forall>p \<in> set ps. visible m (fst p) (snd p)) \<and>
     (\<forall>px py. visible m px py \<longrightarrow> inside (x, y, w, h) px py \<longrightarrow> (px, py) \<in> set ps)"
proof -
  note p = presentingD [OF assms]
  have n: "sint (fb_w m) = int (unat (fb_w m))" "sint (fb_h m) = int (unat (fb_h m))"
    using p(1) by (simp_all only: surface_ok_def sint_small_u32)
  define x' y' where "x' = max x 0" and "y' = max y 0"
  define w' where "w' = (let w = (if x < 0 then w + x else w) in if x' + w > sint (fb_w m) then sint (fb_w m) - x' else w)"
  define h' where "h' = (let h = (if y < 0 then h + y else h) in if y' + h > sint (fb_h m) then sint (fb_h m) - y' else h)"
  define ps where "ps = (if x' \<ge> sint (fb_w m) \<or> y' \<ge> sint (fb_h m) \<or> w' \<le> 0 \<or> h' \<le> 0 then []
     else concat (map (\<lambda>row. map (\<lambda>col. (x' + col, row)) [0..w' - 1]) [y'..y' + h' - 1]))"
  have "fold (\<lambda>row. fold (\<lambda>col. blit_pixel (x' + col) row) ks) rs m =
      fold (\<lambda>(x, y). blit_pixel x y) (concat (map (\<lambda>row. map (\<lambda>col. (x' + col, row)) ks) rs)) m" for ks rs m
  proof (induction rs arbitrary: m)
    case Nil
    then show ?case by simp
  next
    case (Cons r rs)
    have "fold (\<lambda>(x, y). blit_pixel x y) (map (\<lambda>col. (x' + col, r)) ks) m = fold (\<lambda>col. blit_pixel (x' + col) r) ks m"
      by (induction ks arbitrary: m) simp_all
    with Cons show ?case by simp
  qed
  note fold_rect = this
  have "blit_rect x y w h m =
      (if x' \<ge> sint (fb_w m) \<or> y' \<ge> sint (fb_h m) then m
       else if w' \<le> 0 \<or> h' \<le> 0 then m
       else fold (\<lambda>row. fold (\<lambda>col. blit_pixel (x' + col) row) [0..w' - 1]) [y'..y' + h' - 1] m)"
    using p(7-9) unfolding blit_rect_def x'_def y'_def w'_def h'_def
    by (cases "x < 0"; cases "y < 0") (simp_all add: Let_def max_def)
  then have "blit_rect x y w h m = fold (\<lambda>(x, y). blit_pixel x y) ps m"
    unfolding ps_def fold_rect by (simp only: if_distrib [of "\<lambda>l. fold f l m" for f] fold_simps id_apply split: if_split) blast
  moreover have "visible m (fst p) (snd p)" if "p \<in> set ps" for p
  proof -
    have "x' + w' \<le> sint (fb_w m)" "y' + h' \<le> sint (fb_h m)" "0 \<le> x'" "0 \<le> y'"
      by (auto simp: w'_def h'_def x'_def y'_def Let_def)
    then have "0 \<le> fst p" "fst p < int (unat (fb_w m))" "0 \<le> snd p" "snd p < int (unat (fb_h m))"
      using that unfolding ps_def n [symmetric] by (auto split: if_splits)
    then show ?thesis unfolding visible_def by linarith
  qed
  moreover have "(px, py) \<in> set ps" if "visible m px py" "x \<le> px" "px < x + w" "y \<le> py" "py < y + h" for px py
  proof -
    have v: "0 \<le> px" "px < sint (fb_w m)" "0 \<le> py" "py < sint (fb_h m)" using that(1) unfolding visible_def n by linarith+
    then have b: "x' \<le> px" "px < x' + w'" "y' \<le> py" "py < y' + h'"
      using that(2-5) by (auto simp: x'_def y'_def w'_def h'_def Let_def)
    then have "\<not> (x' \<ge> sint (fb_w m) \<or> y' \<ge> sint (fb_h m) \<or> w' \<le> 0 \<or> h' \<le> 0)" using v by linarith
    then have "set ps = {(x' + col, row) | col row. col \<in> set [0..w' - 1] \<and> row \<in> set [y'..y' + h' - 1]}"
      unfolding ps_def by auto
    moreover have "(px, py) = (x' + (px - x'), py)" "px - x' \<in> set [0..w' - 1]" "py \<in> set [y'..y' + h' - 1]" using b by auto
    ultimately show ?thesis by blast
  qed
  ultimately show ?thesis by (intro exI [of _ ps]) (simp add: inside_def)
qed


lemma blit_rect_keeps: "presenting m \<Longrightarrow> keeps_picture m (blit_rect x y w h m)"
proof -
  assume p: "presenting m"
  obtain ps where "blit_rect x y w h m = fold (\<lambda>(x, y). blit_pixel x y) ps m" "\<forall>p \<in> set ps. visible m (fst p) (snd p)"
    using blit_rect_covers [OF p, of x y w h] by blast
  then show ?thesis using blit_points_keep [OF p, of ps] by simp
qed

lemma blit_rects_keep:
  "presenting m \<Longrightarrow> keeps_picture m (fold (\<lambda>(x, y, w, h). blit_rect x y w h) rs m)"
proof (induction rs arbitrary: m)
  case Nil
  then show ?case by simp
next
  case (Cons r rs)
  obtain x y w h where r: "r = (x, y, w, h)" by (cases r)
  have k: "keeps_picture m (blit_rect x y w h m)" using Cons.prems by (rule blit_rect_keeps)
  then have "presenting (blit_rect x y w h m)"
    using Cons.prems same_layout_facts(4) [of m "blit_rect x y w h m"] unfolding keeps_picture_def by blast
  from Cons.IH [OF this] k show ?case by (simp add: r) (rule keeps_picture_trans)
qed

lemma get_pixel_force: "fb_get_pixel x y (m\<lparr>fb_force_full := b\<rparr>) = fb_get_pixel x y m"
  by (simp add: fb_get_pixel_def off_screen_def fb_color_def draw_address_def device_address_def)

lemma present_rects_keep:
  assumes "draw_buf m = 0 \<or> presenting m"
  shows "keeps_picture m (fb_present_rects rs n m)"
proof (cases rs)
  case None
  then show ?thesis by (simp add: fb_present_rects_def)
next
  case (Some r)
  show ?thesis
  proof (cases "draw_buf m = 0 \<or> display_buf m = 0 \<or> n \<le> 0")
    case True
    then show ?thesis using Some by (simp add: fb_present_rects_def)
  next
    case False
    define m' where "m' = fold (\<lambda>(x, y, w, h). blit_rect x y w h) (take (nat n) r) m"
    have "keeps_picture m m'" unfolding m'_def using assms False by (intro blit_rects_keep) blast
    moreover have "keeps_picture m' (m'\<lparr>fb_force_full := False\<rparr>)" by (simp add: keeps_picture_def get_pixel_force)
    ultimately have "keeps_picture m (m'\<lparr>fb_force_full := False\<rparr>)" by (rule keeps_picture_trans)
    then show ?thesis using Some False by (simp add: fb_present_rects_def m'_def)
  qed
qed

section \<open>Painting a rectangle of given colours\<close>

lemma same_layout_put [simp]: "same_layout m (fb_put_pixel x y c m)"
  by (simp add: put_pixel_form)

lemma same_layout_fold:
  assumes "\<And>x m. same_layout m (f x m)"
  shows "same_layout m (fold f xs m)"
proof (induction xs arbitrary: m)
  case Nil
  then show ?case by simp
next
  case (Cons x xs)
  from same_layout_trans [OF assms Cons.IH] show ?case by simp
qed

lemma same_layout_paint: "same_layout m (fold (\<lambda>dy. fold (\<lambda>dx. fb_put_pixel (x + dx) (y + dy) (f dx dy)) xs) ys m)"
  by (intro same_layout_fold) simp

lemma get_paint_rect:
  assumes "surface_ok m" and "channels_ok m" and "visible m px py"
    and "\<forall>dx \<in> set xs. c_int (x + dx)" and "\<forall>dy \<in> set ys. c_int (y + dy)"
  shows "fb_get_pixel px py (fold (\<lambda>dy. fold (\<lambda>dx. fb_put_pixel (x + dx) (y + dy) (f dx dy)) xs) ys m) =
    (if px - x \<in> set xs \<and> py - y \<in> set ys then f (px - x) (py - y) else fb_get_pixel px py m)"
proof -
  define m' where "m' = fold (\<lambda>dy. fold (\<lambda>dx. fb_put_pixel (x + dx) (y + dy) (f dx dy)) xs) ys m"
  have l: "same_layout m m'" unfolding m'_def by (rule same_layout_paint)
  have p: "c_int px" "c_int py" using visible_c_int [OF assms(1,3)] by simp_all
  have "fb_get_pixel px py m' = fb_color m (le_word (raw_pixel m' px py))"
    using get_pixel_raw [of m' px py] p assms(1,3) same_layout_facts [OF l] by simp
  moreover have "raw_pixel m' px py = (if py - y \<in> set ys \<and> px - x \<in> set xs
      then le_bytes (pixel_bytes m) (fb_pixel_value m (f (px - x) (py - y))) else raw_pixel m px py)"
    unfolding m'_def by (rule raw_paint_rows [OF assms(1,5,4,3)])
  ultimately show ?thesis
    using get_pixel_raw [OF assms(1) p assms(3)] assms(1,2) by (auto simp: le_word_pixel fb_color_pixel_value m'_def)
qed

section \<open>A session's screen\<close>

lemma session_simps [simp]:
  "screen (on_display f s) = f (screen s)" "desk (on_display f s) = desk s" "mouse_get_state (on_display f s) = mouse_get_state s"
  "screen (on_desk g s) = screen s" "desk (on_desk g s) = g (desk s)" "mouse_get_state (on_desk g s) = mouse_get_state s"
  by (simp_all add: screen_def on_display_def on_kern_def on_mach_def on_desk_def mouse_get_state_def mouse_left_def
      mouse_right_def mouse_middle_def)

text \<open>Inside the square the pointer covers, and the colour that was saved there.\<close>

definition under_cursor :: "int \<Rightarrow> int \<Rightarrow> int \<Rightarrow> int \<Rightarrow> bool" where
  "under_cursor cx cy px py \<longleftrightarrow> cx \<le> px \<and> px < cx + CURSOR_W \<and> cy \<le> py \<and> py < cy + CURSOR_H"

definition scene :: "session \<Rightarrow> int \<Rightarrow> int \<Rightarrow> color" where
  "scene s px py =
     (let d = desk s; cx = prev_cursor_x d; cy = prev_cursor_y d in
      if cx \<ge> 0 \<and> under_cursor cx cy px py then cursor_bg d ! nat ((py - cy) * CURSOR_W + (px - cx))
      else fb_get_pixel px py (screen s))"

text \<open>A screen that can be drawn on and presented, and a pointer that is on it.\<close>

definition screen_ok :: "machine \<Rightarrow> bool" where
  "screen_ok m \<longleftrightarrow> surface_ok m \<and> channels_ok m \<and> (draw_buf m = 0 \<or> presenting m) \<and>
     unat (fb_w m) + 8 < 2 ^ 31 \<and> unat (fb_h m) + 8 < 2 ^ 31"

definition pointer_ok :: "machine \<Rightarrow> int \<Rightarrow> int \<Rightarrow> bool" where
  "pointer_ok m x y \<longleftrightarrow> 0 \<le> x \<and> x < int (unat (fb_w m)) \<and> 0 \<le> y \<and> y < int (unat (fb_h m))"

definition cursor_ok :: "session \<Rightarrow> bool" where
  "cursor_ok s \<longleftrightarrow> prev_cursor_x (desk s) < 0 \<or> pointer_ok (screen s) (prev_cursor_x (desk s)) (prev_cursor_y (desk s))"

lemma pointer_range:
  assumes "screen_ok m" and "pointer_ok m x y"
  shows "\<forall>dx \<in> set [0..CURSOR_W - 1]. c_int (x + dx)" and "\<forall>dy \<in> set [0..CURSOR_H - 1]. c_int (y + dy)"
  using assms unfolding screen_ok_def pointer_ok_def c_int_def CURSOR_W_def CURSOR_H_def
  by (auto simp del: of_nat_unat)

lemma screen_ok_same: "same_layout m m' \<Longrightarrow> screen_ok m' = screen_ok m"
  using same_layout_facts [of m m'] unfolding screen_ok_def by auto

lemma erase_cursor_screen:
  assumes "screen_ok (screen s)" and "cursor_ok s" and "visible (screen s) px py"
  shows "fb_get_pixel px py (screen (snd (erase_cursor s))) = scene s px py"
    and "same_layout (screen s) (screen (snd (erase_cursor s)))" and "desk (snd (erase_cursor s)) = desk s"
    and "mouse_get_state (snd (erase_cursor s)) = mouse_get_state s"
proof -
  define d where "d = desk s"
  define f where "f dx dy = cursor_bg d ! nat (dy * CURSOR_W + dx)" for dx dy
  have e: "screen (snd (erase_cursor s)) = (if prev_cursor_x d \<ge> 0 then
      fold (\<lambda>dy. fold (\<lambda>dx. fb_put_pixel (prev_cursor_x d + dx) (prev_cursor_y d + dy) (f dx dy)) [0..CURSOR_W - 1])
        [0..CURSOR_H - 1] (screen s) else screen s)"
    by (simp add: erase_cursor_def Let_def f_def d_def)
  show "same_layout (screen s) (screen (snd (erase_cursor s)))" unfolding e by (auto intro: same_layout_paint)
  show "desk (snd (erase_cursor s)) = desk s" "mouse_get_state (snd (erase_cursor s)) = mouse_get_state s"
    by (simp_all add: erase_cursor_def Let_def)
  show "fb_get_pixel px py (screen (snd (erase_cursor s))) = scene s px py"
  proof (cases "prev_cursor_x d \<ge> 0")
    case False
    then show ?thesis unfolding e by (simp add: scene_def d_def)
  next
    case True
    then have "pointer_ok (screen s) (prev_cursor_x d) (prev_cursor_y d)" using assms(2) by (simp add: cursor_ok_def d_def)
    note r = pointer_range [OF assms(1) this]
    have "surface_ok (screen s)" "channels_ok (screen s)" using assms(1) by (simp_all add: screen_ok_def)
    from get_paint_rect [OF this assms(3) r, of f] True show ?thesis unfolding e
      by (auto simp: scene_def under_cursor_def f_def d_def CURSOR_W_def CURSOR_H_def Let_def)
  qed
qed

lemma saved_pixel:
  assumes "0 \<le> dx" and "dx < 8" and "0 \<le> dy" and "dy < 8"
  shows "concat (map (\<lambda>dy. map (\<lambda>dx. g dx dy) [0..7]) [0..7]) ! nat (dy * 8 + dx) = g dx (dy :: int)"
proof -
  have u: "[0..7] = [0, 1, 2, 3, 4, 5, 6, 7 :: int]" by (simp add: upto.simps)
  have "dx \<in> {0, 1, 2, 3, 4, 5, 6, 7}" "dy \<in> {0, 1, 2, 3, 4, 5, 6, 7}" using assms by auto
  then show ?thesis unfolding u by auto
qed

lemma draw_cursor_screen:
  assumes "screen_ok (screen s)" and "pointer_ok (screen s) x y" and "visible (screen s) px py"
  shows "fb_get_pixel px py (screen (snd (draw_cursor x y s))) =
      (if under_cursor x y px py then RGB 255 255 255 else fb_get_pixel px py (screen s))"
    and "same_layout (screen s) (screen (snd (draw_cursor x y s)))"
    and "under_cursor x y px py \<Longrightarrow>
      cursor_bg (desk (snd (draw_cursor x y s))) ! nat ((py - y) * CURSOR_W + (px - x)) = fb_get_pixel px py (screen s)"
    and "prev_cursor_x (desk (snd (draw_cursor x y s))) = x" and "prev_cursor_y (desk (snd (draw_cursor x y s))) = y"
    and "gui_dirty (desk (snd (draw_cursor x y s))) = gui_dirty (desk s)"
proof -
  have m: "screen (snd (draw_cursor x y s)) = fold (\<lambda>dy. fold (\<lambda>dx. fb_put_pixel (x + dx) (y + dy) (RGB 255 255 255))
      [0..CURSOR_W - 1]) [0..CURSOR_H - 1] (screen s)"
    by (simp add: draw_cursor_def fb_fill_rect_def CURSOR_W_def CURSOR_H_def Let_def)
  show "same_layout (screen s) (screen (snd (draw_cursor x y s)))" unfolding m by (rule same_layout_paint)
  have "surface_ok (screen s)" "channels_ok (screen s)" using assms(1) by (simp_all add: screen_ok_def)
  from get_paint_rect [OF this assms(3) pointer_range [OF assms(1,2)], of "\<lambda>_ _. RGB 255 255 255"]
  show "fb_get_pixel px py (screen (snd (draw_cursor x y s))) =
      (if under_cursor x y px py then RGB 255 255 255 else fb_get_pixel px py (screen s))"
    unfolding m by (auto simp: under_cursor_def CURSOR_W_def CURSOR_H_def)
  show "prev_cursor_x (desk (snd (draw_cursor x y s))) = x" "prev_cursor_y (desk (snd (draw_cursor x y s))) = y"
    "gui_dirty (desk (snd (draw_cursor x y s))) = gui_dirty (desk s)"
    by (simp_all add: draw_cursor_def Let_def)
  assume "under_cursor x y px py"
  then have "0 \<le> px - x" "px - x < 8" "0 \<le> py - y" "py - y < 8"
    by (auto simp: under_cursor_def CURSOR_W_def CURSOR_H_def)
  from saved_pixel [OF this, of "\<lambda>dx dy. fb_get_pixel (x + dx) (y + dy) (screen s)"]
  show "cursor_bg (desk (snd (draw_cursor x y s))) ! nat ((py - y) * CURSOR_W + (px - x)) = fb_get_pixel px py (screen s)"
    by (simp add: draw_cursor_def CURSOR_W_def CURSOR_H_def Let_def)
qed

text \<open>A frame in which nothing but the pointer changed.\<close>

lemma clean_frame:
  assumes "screen_ok (screen s)" and "cursor_ok s" and "\<not> gui_dirty (desk s)"
    and "pointer_ok (screen s) (mouse_x s) (mouse_y s)"
  shows "\<And>px py. visible (screen s) px py \<Longrightarrow> scene (gui_draw s) px py = scene s px py"
    and "\<And>px py. visible (screen s) px py \<Longrightarrow> fb_get_pixel px py (screen (gui_draw s)) =
      (if under_cursor (mouse_x s) (mouse_y s) px py then RGB 255 255 255 else scene s px py)"
    and "same_layout (screen s) (screen (gui_draw s))" and "cursor_ok (gui_draw s)" and "\<not> gui_dirty (desk (gui_draw s))"
proof -
  define s0 where "s0 = on_desk (\<lambda>d. d\<lparr>g_layout := recompute_layout (screen s)\<rparr>) s"
  define s1 where "s1 = snd (erase_cursor s0)"
  define s2 where "s2 = snd (draw_cursor (mouse_x s) (mouse_y s) s1)"
  have 0: "screen s0 = screen s" "cursor_ok s0" "\<not> gui_dirty (desk s0)" "\<And>px py. scene s0 px py = scene s px py"
    using assms(2,3) by (simp_all add: s0_def cursor_ok_def scene_def Let_def)
  obtain rs n where g: "screen (gui_draw s) = fb_present_rects rs n (screen s2)" "desk (gui_draw s) = desk s2"
    using 0(3) by (simp add: gui_draw_def compose_frame_def paint_def mouse_get_state_def split_def Let_def
        flip: s0_def s1_def s2_def)
  have l1: "same_layout (screen s) (screen s1)" and d1: "desk s1 = desk s0"
    using erase_cursor_screen(2,3) [of s0] 0 assms(1) pointer_ok_def unfolding s1_def
    by (simp_all add: erase_cursor_def Let_def same_layout_paint)
  have ok1: "screen_ok (screen s1)" "pointer_ok (screen s1) (mouse_x s) (mouse_y s)" "visible (screen s1) = visible (screen s)"
    using screen_ok_same [OF l1] same_layout_facts [OF l1] assms(1,4) by (simp_all add: pointer_ok_def)
  note d = draw_cursor_screen [OF ok1(1,2), folded s2_def, unfolded ok1(3)]
  have l2: "same_layout (screen s1) (screen s2)"
    unfolding s2_def draw_cursor_def fb_fill_rect_def Let_def by (simp add: CURSOR_W_def CURSOR_H_def same_layout_paint)
  have f2: "prev_cursor_x (desk s2) = mouse_x s" "prev_cursor_y (desk s2) = mouse_y s" "gui_dirty (desk s2) = gui_dirty (desk s)"
    using d1 unfolding s2_def by (simp_all add: draw_cursor_def Let_def s0_def)
  have "draw_buf (screen s2) = 0 \<or> presenting (screen s2)"
    using screen_ok_same [OF l2] ok1(1) by (simp add: screen_ok_def)
  then have k: "keeps_picture (screen s2) (screen (gui_draw s))" unfolding g(1) by (rule present_rects_keep)
  show l: "same_layout (screen s) (screen (gui_draw s))"
    using same_layout_trans [OF same_layout_trans [OF l1 l2]] k by (simp add: keeps_picture_def)
  show "\<not> gui_dirty (desk (gui_draw s))" using f2(3) assms(3) by (simp add: g(2))
  show "cursor_ok (gui_draw s)"
    using assms(4) same_layout_facts [OF l] by (simp add: cursor_ok_def g(2) f2 pointer_ok_def)
  fix px py assume v: "visible (screen s) px py"
  then have e: "fb_get_pixel px py (screen s1) = scene s px py"
    using erase_cursor_screen(1) [of s0 px py] 0 assms(1) by (simp add: s1_def)
  have "visible (screen s2) px py" using v ok1(3) same_layout_facts(3) [OF l2] by simp
  then have p: "fb_get_pixel px py (screen (gui_draw s)) = fb_get_pixel px py (screen s2)"
    using k by (simp add: keeps_picture_def)
  then show q: "fb_get_pixel px py (screen (gui_draw s)) =
      (if under_cursor (mouse_x s) (mouse_y s) px py then RGB 255 255 255 else scene s px py)"
    using d(1) [OF v] e by simp
  show "scene (gui_draw s) px py = scene s px py"
    using q d(3) [OF v] e assms(4) by (simp add: scene_def g(2) f2 Let_def pointer_ok_def)
qed

section \<open>Properties\<close>

text \<open>Frames in which only the pointer moves, from one place to the next.\<close>

fun pointer_frames :: "(int \<times> int) list \<Rightarrow> session \<Rightarrow> session" where
  "pointer_frames [] s = s"
| "pointer_frames ((x, y) # ps) s = pointer_frames ps (gui_draw (s\<lparr>mouse_x := x, mouse_y := y\<rparr>))"

lemma moved_simps [simp]:
  "screen (s\<lparr>mouse_x := x, mouse_y := y\<rparr>) = screen s" "desk (s\<lparr>mouse_x := x, mouse_y := y\<rparr>) = desk s"
  by (simp_all add: screen_def)

lemma scene_moved [simp]: "scene (s\<lparr>mouse_x := x, mouse_y := y\<rparr>) = scene s"
  by (simp only: fun_eq_iff scene_def moved_simps) simp

lemma cursor_ok_moved [simp]: "cursor_ok (s\<lparr>mouse_x := x, mouse_y := y\<rparr>) = cursor_ok s"
  by (simp only: cursor_ok_def moved_simps)

text \<open>C18: However the pointer moves over the screen while nothing else changes, it leaves no trace: the pixels under it
  are white, and every other pixel has the colour it had at the start, also where the pointer passed; what lies under
  the pointer is kept in \<open>cursor_bg\<close>.\<close>

theorem pointer_leaves_no_trace:
  assumes "screen_ok (screen s)" and "cursor_ok s" and "\<not> gui_dirty (desk s)"
    and "\<forall>(x, y) \<in> set (ps @ [(x', y')]). pointer_ok (screen s) x y" and "visible (screen s) px py"
  shows "fb_get_pixel px py (screen (pointer_frames (ps @ [(x', y')]) s)) =
      (if under_cursor x' y' px py then RGB 255 255 255 else scene s px py)"
  using assms
proof (induction ps arbitrary: s)
  case Nil
  define t where "t = s\<lparr>mouse_x := x', mouse_y := y'\<rparr>"
  have t: "screen t = screen s" "desk t = desk s" "scene t = scene s" "cursor_ok t = cursor_ok s" "mouse_x t = x'" "mouse_y t = y'"
    unfolding t_def by (simp_all only: moved_simps scene_moved cursor_ok_moved) simp_all
  show ?case using clean_frame(2) [of t px py] Nil.prems by (simp add: t flip: t_def)
next
  case (Cons p ps)
  define t where "t = s\<lparr>mouse_x := fst p, mouse_y := snd p\<rparr>"
  have t: "screen_ok (screen t)" "cursor_ok t" "\<not> gui_dirty (desk t)" "pointer_ok (screen t) (mouse_x t) (mouse_y t)"
    "screen t = screen s" "\<And>px py. scene t px py = scene s px py"
    using Cons.prems unfolding t_def by (simp_all only: moved_simps scene_moved cursor_ok_moved) (auto simp: split_def)
  note f = clean_frame [OF t(1-4)]
  have l: "screen_ok (screen (gui_draw t))" "visible (screen (gui_draw t)) = visible (screen s)"
    "pointer_ok (screen (gui_draw t)) = pointer_ok (screen s)"
    using screen_ok_same [OF f(3)] same_layout_facts [OF f(3)] t(1,5) by (auto simp: pointer_ok_def fun_eq_iff)
  have "fb_get_pixel px py (screen (pointer_frames (ps @ [(x', y')]) (gui_draw t))) =
      (if under_cursor x' y' px py then RGB 255 255 255 else scene (gui_draw t) px py)"
    using Cons.prems(4,5) by (intro Cons.IH l(1) f(4,5)) (simp_all add: l)
  moreover have "scene (gui_draw t) px py = scene s px py" using f(1) [of px py] Cons.prems(5) t(5,6) by simp
  ultimately show ?case by (cases p) (simp add: t_def)
qed


definition idle_session :: session where
  "idle_session = undefined\<lparr>kern := undefined\<lparr>mach := screen_4x2\<rparr>, desk := desktop_at_boot\<lparr>gui_dirty := False\<rparr>\<rparr>"

lemma idle_session_simps:
  "screen idle_session = screen_4x2" "desk idle_session = desktop_at_boot\<lparr>gui_dirty := False\<rparr>"
  by (simp_all add: idle_session_def screen_def)

lemma pointer_leaves_no_trace_witness:
  "fb_get_pixel 0 1 (screen (pointer_frames [(0, 0), (1, 1), (3, 0)] idle_session)) = fb_get_pixel 0 1 screen_4x2 \<and>
   fb_get_pixel 3 1 (screen (pointer_frames [(0, 0), (1, 1), (3, 0)] idle_session)) = RGB 255 255 255"
proof -
  have m: "unat (fb_w screen_4x2) = 4" "unat (fb_h screen_4x2) = 2" "draw_buf screen_4x2 = 0"
    by (simp_all add: screen_4x2_def)
  have "screen_ok (screen idle_session)" "cursor_ok idle_session" "\<not> gui_dirty (desk idle_session)"
    "\<forall>(x, y) \<in> set ([(0, 0), (1, 1)] @ [(3, 0)]). pointer_ok (screen idle_session) x y"
    using screen_4x2_ok(1,2) m by (simp_all add: idle_session_simps screen_ok_def cursor_ok_def desktop_at_boot_def pointer_ok_def)
  note r = pointer_leaves_no_trace [OF this, unfolded idle_session_simps]
  show ?thesis using r [OF screen_4x2_ok(4)] r [OF screen_4x2_ok(3)]
    by (simp add: under_cursor_def CURSOR_W_def scene_def idle_session_simps desktop_at_boot_def CURSOR_H_def)
qed

end
