(* ===== verification/Cursor_Device.thy ===== *)
theory Cursor_Device
  imports Cursor
begin

text \<open>
  The pointer on the device: a frame copies only the rectangles it was told to, the old and the new place of the pointer,
  and yet the device shows the whole back buffer after it.
\<close>

section \<open>Painting and the record of the last copy\<close>

lemma put_pixel_shown:
  assumes "presenting m" and "c_int x" and "c_int y" and "visible m x' y'" and "(x, y) \<noteq> (x', y')"
  shows "shown (fb_put_pixel x y c m) x' y' = shown m x' y'"
proof (cases "visible m x y")
  case False
  then show ?thesis using presentingD(1) [OF assms(1)] off_screen_visible [OF _ assms(2,3)] by (simp add: fb_put_pixel_def)
next
  case True
  note p = presentingD [OF assms(1)]
  have l: "length (le_bytes (pixel_bytes m) (fb_pixel_value m c)) = pixel_bytes m" by simp
  note r = reads_apart [OF p(1) _ _ True _ l, of _ x' y' "mem m"] and o' = reads_other [OF p(1) True assms(4,5) l, of "mem m"]
  show ?thesis
    using r [of "display_surface m"] r [of "device_surface m"] o' p assms(4)
    by (simp add: put_pixel_form shown_def back_pixel_def shadow_pixel_def device_pixel_def load32_def)
qed

lemma paint_points:
  assumes "presenting m" and "\<forall>(dx, dy) \<in> set ps. c_int (x + dx) \<and> c_int (y + dy)" and "visible m px py"
  fixes f defines "m' \<equiv> fold (\<lambda>(dx, dy). fb_put_pixel (x + dx) (y + dy) (f dx dy)) ps m"
  shows "in_step m' px py = in_step m px py" and "(px - x, py - y) \<notin> set ps \<Longrightarrow> shown m' px py = shown m px py"
proof -
  have "in_step m' px py = in_step m px py \<and> ((px - x, py - y) \<notin> set ps \<longrightarrow> shown m' px py = shown m px py)"
    using assms(1-3) unfolding m'_def
  proof (induction ps arbitrary: m)
    case Nil
    then show ?case by simp
  next
    case (Cons p ps)
    define n where "n = fb_put_pixel (x + fst p) (y + snd p) (f (fst p) (snd p)) m"
    have c: "c_int (x + fst p)" "c_int (y + snd p)" using Cons.prems(2) by (auto simp: split_def)
    have n: "presenting n" "visible n px py" "\<forall>(dx, dy) \<in> set ps. c_int (x + dx) \<and> c_int (y + dy)"
      using same_layout_facts [OF same_layout_put, of "x + fst p" "y + snd p" "f (fst p) (snd p)" m] Cons.prems
      by (simp_all add: n_def)
    have "in_step n px py = in_step m px py" unfolding n_def by (rule put_pixel_in_step [OF Cons.prems(1) c Cons.prems(3)])
    moreover have "shown n px py = shown m px py" if "(px - x, py - y) \<noteq> p"
      unfolding n_def by (rule put_pixel_shown [OF Cons.prems(1) c Cons.prems(3)]) (use that in auto)
    ultimately show ?case using Cons.IH [OF n(1,3,2)] by (auto simp: split_def n_def)
  qed
  then show "in_step m' px py = in_step m px py" "(px - x, py - y) \<notin> set ps \<Longrightarrow> shown m' px py = shown m px py" by simp_all
qed

lemma paint_rect_shown:
  assumes "presenting m" and "\<forall>dx \<in> set xs. c_int (x + dx)" and "\<forall>dy \<in> set ys. c_int (y + dy)" and "visible m px py"
  fixes f defines "m' \<equiv> fold (\<lambda>dy. fold (\<lambda>dx. fb_put_pixel (x + dx) (y + dy) (f dx dy)) xs) ys m"
  shows "in_step m' px py = in_step m px py"
    and "\<not> (px - x \<in> set xs \<and> py - y \<in> set ys) \<Longrightarrow> shown m' px py = shown m px py"
proof -
  define ps where "ps = concat (map (\<lambda>dy. map (\<lambda>dx. (dx, dy)) xs) ys)"
  have m': "m' = fold (\<lambda>(dx, dy). fb_put_pixel (x + dx) (y + dy) (f dx dy)) ps m"
    unfolding m'_def ps_def by (rule fold_rows)
  have s: "(dx, dy) \<in> set ps \<longleftrightarrow> dx \<in> set xs \<and> dy \<in> set ys" for dx dy by (auto simp: ps_def)
  have "\<forall>(dx, dy) \<in> set ps. c_int (x + dx) \<and> c_int (y + dy)" using assms(2,3) s by auto
  note p = paint_points [OF assms(1) this assms(4), of f, folded m']
  show "in_step m' px py = in_step m px py" by (rule p(1))
  assume "\<not> (px - x \<in> set xs \<and> py - y \<in> set ys)"
  then show "shown m' px py = shown m px py" using s by (intro p(2)) blast
qed

section \<open>Copying rectangles\<close>

lemma blit_rects_cover:
  assumes "presenting m"
  shows "\<exists>ps. fold (\<lambda>(x, y, w, h). blit_rect x y w h) rs m = fold (\<lambda>(x, y). blit_pixel x y) ps m \<and>
     (\<forall>p \<in> set ps. visible m (fst p) (snd p)) \<and>
     (\<forall>r \<in> set rs. \<forall>px py. visible m px py \<longrightarrow> inside r px py \<longrightarrow> (px, py) \<in> set ps)"
  using assms
proof (induction rs arbitrary: m)
  case Nil
  show ?case by (rule exI [of _ "[]"]) simp
next
  case (Cons r rs)
  obtain x y w h where r: "r = (x, y, w, h)" by (cases r)
  obtain ps where ps: "blit_rect x y w h m = fold (\<lambda>(x, y). blit_pixel x y) ps m"
      "\<forall>p \<in> set ps. visible m (fst p) (snd p)" "\<forall>px py. visible m px py \<longrightarrow> inside r px py \<longrightarrow> (px, py) \<in> set ps"
    using blit_rect_covers [OF Cons.prems, of x y w h] unfolding r by blast
  define n where "n = blit_rect x y w h m"
  have "keeps_picture m n" unfolding n_def using Cons.prems by (rule blit_rect_keeps)
  then have n: "presenting n" "visible n = visible m"
    using Cons.prems same_layout_facts(3,4) [of m n] unfolding keeps_picture_def by blast+
  from Cons.IH [OF n(1)] n(2) obtain qs where
    qs: "fold (\<lambda>(x, y, w, h). blit_rect x y w h) rs n = fold (\<lambda>(x, y). blit_pixel x y) qs n"
      "\<forall>p \<in> set qs. visible m (fst p) (snd p)"
      "\<forall>r \<in> set rs. \<forall>px py. visible m px py \<longrightarrow> inside r px py \<longrightarrow> (px, py) \<in> set qs" by auto
  show ?case
  proof (intro exI conjI)
    show "fold (\<lambda>(x, y, w, h). blit_rect x y w h) (r # rs) m = fold (\<lambda>(x, y). blit_pixel x y) (ps @ qs) m"
      using ps(1) qs(1) by (simp add: r n_def)
    show "\<forall>p \<in> set (ps @ qs). visible m (fst p) (snd p)" using ps(2) qs(2) by auto
    show "\<forall>r \<in> set (r # rs). \<forall>px py. visible m px py \<longrightarrow> inside r px py \<longrightarrow> (px, py) \<in> set (ps @ qs)"
      using ps(3) qs(3) by simp
  qed
qed

lemma force_reads: "shown (m\<lparr>fb_force_full := b\<rparr>) px py = shown m px py"
  by (simp add: shown_def back_pixel_def shadow_pixel_def device_pixel_def draw_address_def display_address_def
      device_address_def device_bytes_def)

lemma present_rects_shown:
  assumes "presenting m" and "\<And>px py. visible m px py \<Longrightarrow> in_step m px py" and "visible m px py" and "rs \<noteq> []"
    and "shown m px py \<or> (\<exists>r \<in> set rs. inside r px py)"
  shows "shown (fb_present_rects (Some rs) (int (length rs)) m) px py"
proof -
  obtain ps where ps: "fold (\<lambda>(x, y, w, h). blit_rect x y w h) rs m = fold (\<lambda>(x, y). blit_pixel x y) ps m"
    "\<forall>p \<in> set ps. visible m (fst p) (snd p)" "\<forall>r \<in> set rs. \<forall>px py. visible m px py \<longrightarrow> inside r px py \<longrightarrow> (px, py) \<in> set ps"
    using blit_rects_cover [OF assms(1)] by blast
  have "shown (fold (\<lambda>(x, y). blit_pixel x y) ps m) px py"
    using blit_all [OF assms(1) _ assms(2,3), of ps] ps(2,3) assms(3,5) by blast
  moreover have "draw_buf m \<noteq> 0" "display_buf m \<noteq> 0" using presentingD(7,8) [OF assms(1)] by simp_all
  ultimately show ?thesis using assms(4) by (simp add: fb_present_rects_def ps(1) force_reads)
qed

lemma shown_in_step: "shown m x y \<Longrightarrow> in_step m x y"
  by (simp add: shown_def in_step_def)

lemma inside_square:
  "inside (x, y, CURSOR_W, CURSOR_H) px py \<longleftrightarrow> px - x \<in> set [0..CURSOR_W - 1] \<and> py - y \<in> set [0..CURSOR_H - 1]"
  by (auto simp: inside_def)

section \<open>A frame\<close>

text \<open>The device shows the back buffer, everywhere.\<close>

definition device_shows :: "machine \<Rightarrow> bool" where
  "device_shows m \<longleftrightarrow> (\<forall>x y. visible m x y \<longrightarrow> shown m x y)"

lemma clean_frame_shown:
  assumes "screen_ok (screen s)" and "cursor_ok s" and "\<not> gui_dirty (desk s)"
    and "pointer_ok (screen s) (mouse_x s) (mouse_y s)" and "presenting (screen s)" and "device_shows (screen s)"
  shows "device_shows (screen (gui_draw s))"
proof -
  define s0 where "s0 = on_desk (\<lambda>d. d\<lparr>g_layout := recompute_layout (screen s)\<rparr>) s"
  define s1 where "s1 = snd (erase_cursor s0)"
  define s2 where "s2 = snd (draw_cursor (mouse_x s) (mouse_y s) s1)"
  define cx cy where "cx = prev_cursor_x (desk s)" and "cy = prev_cursor_y (desk s)"
  define rs where "rs = (if cx \<ge> 0 then [(cx, cy, CURSOR_W, CURSOR_H)] else []) @ [(mouse_x s, mouse_y s, CURSOR_W, CURSOR_H)]"
  have 0: "screen s0 = screen s" "prev_cursor_x (desk s0) = cx" "prev_cursor_y (desk s0) = cy" by (simp_all add: s0_def cx_def cy_def)
  have g: "screen (gui_draw s) = fb_present_rects (Some rs) (int (length rs)) (screen s2)"
    using assms(3) by (simp add: gui_draw_def compose_frame_def paint_def mouse_get_state_def split_def Let_def rs_def
        erase_cursor_def draw_cursor_def s1_def s2_def s0_def cx_def cy_def)
  have e1: "screen s1 = (if cx \<ge> 0 then fold (\<lambda>dy. fold (\<lambda>dx. fb_put_pixel (cx + dx) (cy + dy)
      (cursor_bg (desk s0) ! nat (dy * CURSOR_W + dx))) [0..CURSOR_W - 1]) [0..CURSOR_H - 1] (screen s) else screen s)"
    by (simp add: s1_def erase_cursor_def Let_def 0)
  have e2: "screen s2 = fold (\<lambda>dy. fold (\<lambda>dx. fb_put_pixel (mouse_x s + dx) (mouse_y s + dy) (RGB 255 255 255))
      [0..CURSOR_W - 1]) [0..CURSOR_H - 1] (screen s1)"
    by (simp add: s2_def draw_cursor_def fb_fill_rect_def CURSOR_W_def CURSOR_H_def Let_def)
  have l1: "same_layout (screen s) (screen s1)" unfolding e1 by (auto intro: same_layout_paint)
  have l2: "same_layout (screen s1) (screen s2)" unfolding e2 by (rule same_layout_paint)
  note f1 = same_layout_facts(3,4) [OF l1] and f2 = same_layout_facts(3,4) [OF l2]
  have c: "pointer_ok (screen s) cx cy" if "cx \<ge> 0" using assms(2) that by (simp add: cursor_ok_def cx_def cy_def)
  note r1 = pointer_range [OF assms(1) c] and r2 = pointer_range [OF assms(1,4)]
  have m: "in_step (screen s2) px py \<and> (shown (screen s2) px py \<or> (\<exists>r \<in> set rs. inside r px py))"
    if v: "visible (screen s) px py" for px py
  proof -
    have s: "shown (screen s) px py" using assms(6) v by (simp add: device_shows_def)
    have a: "in_step (screen s1) px py \<and> (shown (screen s1) px py \<or> (\<exists>r \<in> set rs. inside r px py))"
    proof (cases "cx \<ge> 0")
      case False
      then show ?thesis using s shown_in_step by (simp add: e1)
    next
      case True
      then have "screen s1 = fold (\<lambda>dy. fold (\<lambda>dx. fb_put_pixel (cx + dx) (cy + dy)
          (cursor_bg (desk s0) ! nat (dy * CURSOR_W + dx))) [0..CURSOR_W - 1]) [0..CURSOR_H - 1] (screen s)" by (simp add: e1)
      note w = paint_rect_shown [OF assms(5) r1 [OF True] v, of "\<lambda>dx dy. cursor_bg (desk s0) ! nat (dy * CURSOR_W + dx)",
          folded this inside_square]
      have "(cx, cy, CURSOR_W, CURSOR_H) \<in> set rs" using True by (simp add: rs_def)
      then show ?thesis using w s shown_in_step [OF s] by blast
    qed
    have "presenting (screen s1)" "visible (screen s1) px py" using f1 assms(5) v by simp_all
    note w = paint_rect_shown [OF this(1) r2 this(2), of "\<lambda>_ _. RGB 255 255 255", folded e2 inside_square]
    have "(mouse_x s, mouse_y s, CURSOR_W, CURSOR_H) \<in> set rs" by (simp add: rs_def)
    then show ?thesis using w a by blast
  qed
  have "presenting (screen s2)" "visible (screen s2) = visible (screen s)" using f1 f2 assms(5) by simp_all
  note p = present_rects_shown [OF this(1), of _ _ rs, unfolded this(2)]
  have "visible (screen (gui_draw s)) = visible (screen s)"
    using same_layout_facts(3) [OF clean_frame(3) [OF assms(1-4)]] .
  then show ?thesis using m p by (simp add: device_shows_def g) (simp add: rs_def)
qed


lemma pointer_frames_shown:
  assumes "screen_ok (screen s)" and "cursor_ok s" and "\<not> gui_dirty (desk s)"
    and "\<forall>(x, y) \<in> set ps. pointer_ok (screen s) x y" and "presenting (screen s)" and "device_shows (screen s)"
  shows "device_shows (screen (pointer_frames ps s)) \<and> same_layout (screen s) (screen (pointer_frames ps s))"
  using assms
proof (induction ps arbitrary: s)
  case Nil
  then show ?case by simp
next
  case (Cons p ps)
  define t where "t = s\<lparr>mouse_x := fst p, mouse_y := snd p\<rparr>"
  have t: "screen_ok (screen t)" "cursor_ok t" "\<not> gui_dirty (desk t)" "pointer_ok (screen t) (mouse_x t) (mouse_y t)"
    "screen t = screen s"
    using Cons.prems unfolding t_def by (simp_all only: moved_simps cursor_ok_moved) (auto simp: split_def)
  note f = clean_frame [OF t(1-4)]
  have l: "screen_ok (screen (gui_draw t))" "presenting (screen (gui_draw t))"
    "pointer_ok (screen (gui_draw t)) = pointer_ok (screen s)"
    using screen_ok_same [OF f(3)] same_layout_facts [OF f(3)] t(1,5) Cons.prems(5) by (auto simp: pointer_ok_def fun_eq_iff)
  have "device_shows (screen (gui_draw t))" using clean_frame_shown [OF t(1-4)] t(5) Cons.prems(5,6) by simp
  with Cons.prems(4) have "device_shows (screen (pointer_frames ps (gui_draw t))) \<and>
      same_layout (screen (gui_draw t)) (screen (pointer_frames ps (gui_draw t)))"
    by (intro Cons.IH l(1,2) f(4,5)) (simp_all add: l(3))
  then show ?case using same_layout_trans [OF f(3)] t(5) by (cases p) (auto simp: t_def)
qed

section \<open>Properties\<close>

text \<open>C21: Over any number of frames in which only the pointer moves, the device keeps showing the back buffer, pixel by
  pixel, although each frame copies at most two squares of it: the rectangles a frame reports cover what it paints.\<close>

theorem pointer_frames_reach_device:
  assumes "screen_ok (screen s)" and "cursor_ok s" and "\<not> gui_dirty (desk s)"
    and "\<forall>(x, y) \<in> set ps. pointer_ok (screen s) x y" and "presenting (screen s)" and "device_shows (screen s)"
    and "visible (screen s) px py"
  shows "device_pixel (screen (pointer_frames ps s)) px py =
     le_bytes (device_bytes (screen s)) (back_pixel (screen (pointer_frames ps s)) px py)"
proof -
  have f: "device_shows (screen (pointer_frames ps s))" "same_layout (screen s) (screen (pointer_frames ps s))"
    using pointer_frames_shown [OF assms(1-6)] by simp_all
  have "device_bytes (screen (pointer_frames ps s)) = device_bytes (screen s)"
    using f(2) by (auto simp: same_layout_def device_bytes_def dest: arg_cong [where f = fb_bpp])
  then show ?thesis using f(1) same_layout_facts(3) [OF f(2)] assms(7) by (simp add: device_shows_def shown_def)
qed

definition presented_session :: session where
  "presented_session = undefined\<lparr>kern := undefined\<lparr>mach := screen_2x1\<rparr>, desk := desktop_at_boot\<lparr>gui_dirty := False\<rparr>\<rparr>"

lemma pointer_frames_reach_device_witness:
  "device_pixel (screen (pointer_frames [(0, 0), (1, 0), (0, 0)] presented_session)) 1 0 =
     le_bytes (device_bytes screen_2x1) (back_pixel (screen (pointer_frames [(0, 0), (1, 0), (0, 0)] presented_session)) 1 0)"
proof -
  have s: "screen presented_session = screen_2x1" "desk presented_session = desktop_at_boot\<lparr>gui_dirty := False\<rparr>"
    by (simp_all add: presented_session_def screen_def)
  have z: "load_bytes (\<lambda>_. 0) a n = replicate n 0" for a n by (simp add: load_bytes_def list_eq_iff_nth_eq)
  have w: "(le_word (replicate 4 0) :: u32) = 0" by code_simp
  have b: "le_bytes n (0 :: u32) = replicate n 0" for n by (induction n) simp_all
  have "device_shows screen_2x1"
    by (simp add: device_shows_def shown_def shadow_pixel_def back_pixel_def device_pixel_def load32_def)
      (simp add: screen_2x1_def z w b)
  moreover have "screen_ok screen_2x1" using screen_2x1_ok(1) presentingD(1) [OF screen_2x1_ok(1)]
    by (simp add: screen_ok_def channels_ok_def) (simp add: screen_2x1_def)
  ultimately show ?thesis
    using pointer_frames_reach_device [of presented_session "[(0, 0), (1, 0), (0, 0)]" 1 0] screen_2x1_ok(1,2)
    by (simp add: s cursor_ok_def desktop_at_boot_def) (simp add: pointer_ok_def screen_2x1_def)
qed

end
