(* ===== verification/Window_Events.thy ===== *)
theory Window_Events
  imports Desktop
begin

text \<open>
  What the windows do over many turns of the main loop of \<open>kmain\<close>: each takes the packet of the mouse, updates the
  desktop and draws a frame. A window held by its title bar moves with the pointer, and the arrays of the desktop
  never overflow.
\<close>

section \<open>What drawing leaves alone\<close>

text \<open>The windows but for the fading and the place of the last frame, and the rest of the desktop.\<close>

definition placed :: "window \<Rightarrow> window" where
  "placed w = w\<lparr>win_fading := False, prev_x := 0, prev_y := 0, prev_w := 0, prev_h := 0, prev_visible := False\<rparr>"

definition held_state :: "session \<Rightarrow> window list \<times> bool \<times> int \<times> int \<times> u8 \<times> nat option \<times> string list \<times> int \<times> int" where
  "held_state s = (map placed (windows (desk s)), prev_left (desk s), mouse_x s, mouse_y s, buttons s,
     terminal_window (desk s), notifications (desk s), dock_hover (desk s), quick_hover (desk s))"

lemma placed_fields:
  assumes "placed w = placed w'"
  shows "win_x w = win_x w'" "win_y w = win_y w'" "win_w w = win_w w'" "win_h w = win_h w'"
    "win_dragging w = win_dragging w'" "drag_offset_x w = drag_offset_x w'" "drag_offset_y w = drag_offset_y w'"
    "window_visible w = window_visible w'" "win_title w = win_title w'"
  using assms by (cases w; cases w'; simp add: placed_def window_visible_def)+

lemma display_frame [simp]: "desk (on_display f s) = desk s" "held_state (on_display f s) = held_state s"
    "held_state (on_terminal t s) = held_state s" "desk (on_terminal t s) = desk s"
  by (simp_all add: held_state_def on_display_def on_kern_def on_mach_def on_terminal_def Let_def)

lemma placed_drawn: "placed (fst (draw_window hz ticks w m)) = placed w"
  by (simp add: draw_window_def window_opacity_pm_def placed_def Let_def split_def)

lemma held_on_desk:
  assumes "\<And>d. map placed (windows (f d)) = map placed (windows d)" "\<And>d. prev_left (f d) = prev_left d"
    "\<And>d. terminal_window (f d) = terminal_window d" "\<And>d. notifications (f d) = notifications d"
    "\<And>d. dock_hover (f d) = dock_hover d" "\<And>d. quick_hover (f d) = quick_hover d"
  shows "held_state (on_desk f s) = held_state s"
  using assms by (simp add: held_state_def on_desk_def)

lemma set_window_held: "placed w = placed (windows (desk s) ! i) \<Longrightarrow> held_state (set_window i w s) = held_state s"
  by (simp add: held_state_def set_window_def on_desk_def map_update list_update_id nth_equalityI)
    (metis list_update_beyond list_update_id map_update not_le)

lemma follow_held [simp]: "held_state (follow_window fresh w s) = held_state s" "desk (follow_window fresh w s) = desk s"
  by (simp_all add: follow_window_def Let_def split_def)

lemma paint_window_held [simp]: "held_state (paint_window fresh i s) = held_state s"
proof -
  define w where "w = windows (desk s) ! i"
  define p where "p = draw_window (timer_hz s) (timer_get_ticks (clk s)) w (screen s)"
  define t where "t = (if window_visible w then follow_window fresh (fst p) (on_display (\<lambda>_. snd p) s) else s)"
  define v where "v = (if window_visible w then fst p else w)"
  have "paint_window fresh i s = set_window i (remember (window_visible w) v) t"
    by (simp add: paint_window_def w_def p_def t_def v_def split_def Let_def)
  moreover have "desk t = desk s" "held_state t = held_state s" by (simp_all add: t_def)
  moreover have "placed (remember b v) = placed w" for b
    using placed_drawn [of "timer_hz s" "timer_get_ticks (clk s)" w "screen s"]
    by (simp add: v_def p_def remember_def placed_def)
  ultimately show ?thesis by (simp add: set_window_held w_def)
qed

lemma fold_held: "(\<And>x s. held_state (f x s) = held_state s) \<Longrightarrow> held_state (fold f xs s) = held_state s"
  by (induction xs arbitrary: s) simp_all

lemma draw_panels_held [simp]: "held_state (draw_panels s) = held_state s" "desk (draw_panels s) = desk s"
  by (simp_all add: draw_panels_def Let_def)

lemma draw_background_held [simp]: "held_state (draw_background_full s) = held_state s"
  by (simp add: draw_background_full_def Let_def held_on_desk recompute_wallpaper_fit_def)

lemma paint_held: "held_state (snd (paint s)) = held_state s"
  by (simp add: paint_def paint_first_def paint_again_def Let_def split_def held_on_desk fold_held)

lemma gui_draw_held [simp]: "held_state (gui_draw s) = held_state s"
proof -
  have "held_state (snd (compose_frame s)) = held_state s"
    by (simp add: compose_frame_def erase_cursor_def draw_cursor_def Let_def split_def held_on_desk paint_held)
  then show ?thesis by (simp add: gui_draw_def split_def Let_def)
qed

section \<open>A window held by its title bar\<close>

lemma wheel_held [simp]: "held_state (wheel x y s) = held_state s"
proof -
  have "held_state (s\<lparr>scroll_accum := 0\<rparr>) = held_state s" by (simp add: held_state_def)
  then show ?thesis by (simp add: wheel_def mouse_get_scroll_def Let_def)
qed

lemma top_window_held:
  assumes "map placed ws = map placed ws'"
  shows "top_window ws = top_window ws'"
proof -
  have l: "length ws = length ws'" using assms by (rule map_eq_imp_length_eq)
  have "window_visible (ws ! i) = window_visible (ws' ! i)" if "i < length ws" for i
    using placed_fields(8) assms that l by (metis nth_map)
  then show ?thesis unfolding top_window_def l by (intro find_cong) (auto simp: l)
qed

lemma top_window_facts:
  assumes "top_window ws = Some i"
  shows "i < length ws" and "window_visible (ws ! i)"
  using assms by (auto simp: top_window_def find_Some_iff rev_nth)

text \<open>One turn of the loop after a packet of the mouse has arrived.\<close>

definition desktop_turn :: "session \<Rightarrow> session option" where
  "desktop_turn s = map_option gui_draw (gui_update (snd (mouse_tick (fb_width (screen s)) (fb_height (screen s)) s)))"

definition packet_arrived :: "u8 list \<Rightarrow> session \<Rightarrow> session" where
  "packet_arrived p s = s\<lparr>packet := p, packet_ready := True\<rparr>"

fun turns :: "u8 list list \<Rightarrow> session \<Rightarrow> session option" where
  "turns [] s = Some s"
| "turns (p # ps) s = Option.bind (desktop_turn (packet_arrived p s)) (turns ps)"

text \<open>The window \<open>i\<close> gets the events, is being dragged, is \<open>ww\<close> wide and \<open>wh\<close> high, and its corner
  is at the offset \<open>(ox, oy)\<close> from the pointer.\<close>

definition held_by :: "nat \<Rightarrow> int \<Rightarrow> int \<Rightarrow> int \<Rightarrow> int \<Rightarrow> session \<Rightarrow> bool" where
  "held_by i ox oy ww wh s \<longleftrightarrow> prev_left (desk s) \<and> top_window (windows (desk s)) = Some i \<and>
     (let w = windows (desk s) ! i in win_dragging w \<and> drag_offset_x w = ox \<and> drag_offset_y w = oy \<and>
        mouse_x s = win_x w + ox \<and> mouse_y s = win_y w + oy \<and> win_w w = ww \<and> win_h w = wh)"

lemma held_by_held:
  assumes "held_state s = held_state s'"
  shows "held_by i ox oy ww wh s = held_by i ox oy ww wh s'"
proof -
  have h: "map placed (windows (desk s)) = map placed (windows (desk s'))" "prev_left (desk s) = prev_left (desk s')"
    "mouse_x s = mouse_x s'" "mouse_y s = mouse_y s'" using assms by (simp_all add: held_state_def)
  have t: "top_window (windows (desk s)) = top_window (windows (desk s'))" using h(1) by (rule top_window_held)
  have "placed (windows (desk s) ! i) = placed (windows (desk s') ! i)" if "top_window (windows (desk s)) = Some i"
    using top_window_facts(1) [OF that] h(1) map_eq_imp_length_eq [OF h(1)] by (metis nth_map)
  note placed_fields [OF this]
  then show ?thesis using h t by (auto simp: held_by_def Let_def)
qed


section \<open>An update\<close>

text \<open>The desktop when the clicks are looked at, and the end of the update.\<close>

definition before_click :: "session \<Rightarrow> session" where
  "before_click s =
     (let m = screen s; mx = mouse_x s; my = mouse_y s; (ch, cm, sec) = clock_get (clk s);
          s = on_desk (\<lambda>d. d\<lparr>g_layout := recompute_layout m\<rparr>) s
      in on_desk (\<lambda>d. mark (list_ex win_fading (windows d)) d)
           (on_desk (update_hover m mx my) (on_desk (update_clock (ch * 3600 + cm * 60 + sec)) s)))"

definition after_click :: "bool \<Rightarrow> session \<Rightarrow> session" where
  "after_click clicked s =
     (let mouse = mouse_get_state s;
          s = (case top_window (windows (desk s)) of None \<Rightarrow> s | Some i \<Rightarrow> update_window i clicked mouse s)
      in on_desk (\<lambda>d. d\<lparr>prev_left := (state_left mouse \<noteq> 0)\<rparr>) s)"

definition left_down :: "session \<Rightarrow> bool" where
  "left_down s \<longleftrightarrow> buttons s AND 1 \<noteq> 0"

lemma on_desk_simps [simp]: "screen (on_desk f s) = screen s" "desk (on_desk f s) = f (desk s)" "clk (on_desk f s) = clk s"
    "mouse_get_state (on_desk f s) = mouse_get_state s" "mouse_x (on_desk f s) = mouse_x s" "mouse_y (on_desk f s) = mouse_y s"
    "buttons (on_desk f s) = buttons s"
  by (simp_all add: on_desk_def screen_def mouse_get_state_def mouse_left_def mouse_right_def mouse_middle_def)

lemma mark_simps [simp]: "windows (mark b d) = windows d" "prev_left (mark b d) = prev_left d" "g_layout (mark b d) = g_layout d"
    "terminal_window (mark b d) = terminal_window d" "notifications (mark b d) = notifications d"
    "dock_hover (mark b d) = dock_hover d" "quick_hover (mark b d) = quick_hover d"
  by (simp_all add: mark_def)

lemma before_click_simps [simp]:
  "windows (desk (before_click s)) = windows (desk s)" "prev_left (desk (before_click s)) = prev_left (desk s)"
  "g_layout (desk (before_click s)) = recompute_layout (screen s)" "screen (before_click s) = screen s"
  "clk (before_click s) = clk s" "mouse_x (before_click s) = mouse_x s" "mouse_y (before_click s) = mouse_y s"
  "mouse_get_state (before_click s) = mouse_get_state s" "buttons (before_click s) = buttons s"
  "terminal_window (desk (before_click s)) = terminal_window (desk s)"
  "notifications (desk (before_click s)) = notifications (desk s)"
  by (simp_all add: before_click_def update_hover_def update_clock_def Let_def split_def)

lemma gui_update_form:
  "gui_update s =
     (let b = before_click s; clicked = (\<not> prev_left (desk s) \<and> left_down s) in
      map_option (\<lambda>d. after_click clicked (b\<lparr>desk := d\<rparr>))
        (if clicked then click_panels (screen s) (timer_get_ticks (clk s)) (mouse_x s) (mouse_y s) (desk b)
         else Some (desk b)))"
proof -
  have m: "mouse_get_state (before_click s\<lparr>desk := d\<rparr>) = mouse_get_state s" for d
    by (simp add: before_click_def mouse_get_state_def mouse_left_def mouse_right_def mouse_middle_def on_desk_def Let_def split_def)
  have x: "state_x (mouse_get_state s) = mouse_x s" "state_y (mouse_get_state s) = mouse_y s"
    "(state_left (mouse_get_state s) \<noteq> 0) = left_down s"
    by (simp_all add: mouse_get_state_def mouse_left_def left_down_def)
  have b: "before_click s = (case clock_get (clk s) of (ch, cm, sec) \<Rightarrow> on_desk (\<lambda>d. mark (list_ex win_fading (windows d)) d)
      (on_desk (update_hover (screen s) (mouse_x s) (mouse_y s)) (on_desk (update_clock (ch * 3600 + cm * 60 + sec))
        (on_desk (\<lambda>d. d\<lparr>g_layout := recompute_layout (screen s)\<rparr>) s))))"
    by (simp add: before_click_def Let_def split_def)
  show ?thesis unfolding gui_update_def after_click_def Let_def m
    by (cases "clock_get (clk s)") (simp add: b x split: option.split)
qed


text \<open>What a turn does to the window that gets the events.\<close>

definition window_event :: "bool \<Rightarrow> session \<Rightarrow> window \<Rightarrow> window" where
  "window_event clicked s w = snd (window_drag (left_down s) (mouse_x s) (mouse_y s)
     (snd (window_click (screen s) (g_layout (desk s)) clicked (mouse_x s) (mouse_y s) w)))"

lemma update_window_held:
  "held_state (update_window i clicked (mouse_get_state s) s) =
     held_state (set_window i (window_event clicked s (windows (desk s) ! i)) s)"
proof -
  define w where "w = windows (desk s) ! i"
  define c where "c = window_click (screen s) (g_layout (desk s)) clicked (mouse_x s) (mouse_y s) w"
  define g where "g = window_drag (left_down s) (mouse_x s) (mouse_y s) (snd c)"
  define t where "t = on_desk (\<lambda>d. mark (fst c \<or> fst g) (d\<lparr>windows := (windows d)[i := snd g]\<rparr>)) s"
  have "update_window i clicked (mouse_get_state s) s =
      (if win_kind (snd g) = WINDOW_KIND_TERMINAL then wheel (mouse_x s) (mouse_y s) t else t)"
    by (simp add: update_window_def Let_def split_def w_def c_def g_def t_def mouse_get_state_def mouse_left_def left_down_def)
  moreover have "held_state t = held_state (set_window i (window_event clicked s w) s)"
    by (simp add: t_def g_def c_def held_state_def set_window_def window_event_def)
  ultimately show ?thesis by (simp add: w_def)
qed

lemma after_click_mouse: "mouse_x (after_click clicked s) = mouse_x s" "mouse_y (after_click clicked s) = mouse_y s"
proof -
  have "mouse_x t = mouse_x s \<and> mouse_y t = mouse_y s"
    if "t = (case top_window (windows (desk s)) of None \<Rightarrow> s | Some i \<Rightarrow> update_window i clicked (mouse_get_state s) s)" for t
  proof (cases "top_window (windows (desk s))")
    case None
    with that show ?thesis by simp
  next
    case (Some i)
    with that update_window_held [of i clicked s] show ?thesis by (simp add: held_state_def set_window_def)
  qed
  then show "mouse_x (after_click clicked s) = mouse_x s" "mouse_y (after_click clicked s) = mouse_y s"
    by (simp_all add: after_click_def Let_def)
qed

lemma after_click_window:
  assumes "top_window (windows (desk s)) = Some i"
    and "window_visible (window_event clicked s (windows (desk s) ! i))"
    and "win_dragging (window_event clicked s (windows (desk s) ! i))" and "left_down s"
  defines "w \<equiv> window_event clicked s (windows (desk s) ! i)"
  assumes "mouse_x s = win_x w + ox" "mouse_y s = win_y w + oy" "drag_offset_x w = ox" "drag_offset_y w = oy"
    and "win_w w = ww" "win_h w = wh"
  shows "held_by i ox oy ww wh (after_click clicked s)"
proof -
  define t where "t = on_desk (\<lambda>d. d\<lparr>prev_left := True\<rparr>) (set_window i w s)"
  have "held_state (after_click clicked s) = held_state t"
  proof -
    define u where "u = update_window i clicked (mouse_get_state s) s"
    have "held_state u = held_state (set_window i w s)" unfolding u_def w_def by (rule update_window_held)
    then have "held_state (on_desk (\<lambda>d. d\<lparr>prev_left := True\<rparr>) u) = held_state t" by (simp add: held_state_def t_def)
    moreover have "after_click clicked s = on_desk (\<lambda>d. d\<lparr>prev_left := True\<rparr>) u"
      using assms(1,4) by (simp add: after_click_def u_def Let_def mouse_get_state_def mouse_left_def left_down_def)
    ultimately show ?thesis by simp
  qed
  moreover have "held_by i ox oy ww wh t"
  proof -
    note f = top_window_facts [OF assms(1)]
    have "top_window ((windows (desk s))[i := w]) = top_window (windows (desk s))"
      unfolding top_window_def length_list_update using f assms(2)
      by (intro find_cong) (auto simp: nth_list_update w_def)
    with assms f(1) show ?thesis by (simp add: held_by_def t_def set_window_def)
  qed
  ultimately show ?thesis using held_by_held by blast
qed


lemma held_window_moves:
  assumes "win_dragging w" and "left_down s"
  shows "window_event False s w =
     w\<lparr>win_x := mouse_x s - drag_offset_x w, win_y := mouse_y s - drag_offset_y w\<rparr>"
  using assms by (simp add: window_event_def window_click_def window_drag_def Let_def split_def)

lemma held_update:
  assumes "held_by i ox oy ww wh s'" and "left_down s"
    and "windows (desk s) = windows (desk s')" and "prev_left (desk s) = prev_left (desk s')"
  shows "\<exists>t. gui_update s = Some t \<and> held_by i ox oy ww wh t \<and> mouse_x t = mouse_x s \<and> mouse_y t = mouse_y s"
proof -
  define b where "b = before_click s"
  note h = assms(1) [unfolded held_by_def Let_def, folded assms(3,4)]
  have b: "windows (desk b) = windows (desk s)" "left_down b" "mouse_x b = mouse_x s" "mouse_y b = mouse_y s"
    using assms(2) by (simp_all add: b_def left_down_def)
  have u: "gui_update s = Some (after_click False b)" using h by (simp add: gui_update_form b_def)
  have w: "window_event False b (windows (desk s) ! i) = (windows (desk s) ! i)
      \<lparr>win_x := mouse_x s - ox, win_y := mouse_y s - oy\<rparr>"
    using h b by (simp add: held_window_moves)
  have v: "window_visible (windows (desk s) ! i)" using h top_window_facts(2) by blast
  have "held_by i ox oy ww wh (after_click False b)"
    by (rule after_click_window) (use h b v in \<open>simp_all add: w window_visible_def\<close>)
  moreover have "mouse_x (after_click False b) = mouse_x s" "mouse_y (after_click False b) = mouse_y s"
    using after_click_mouse [of False b] b by simp_all
  ultimately show ?thesis using u by blast
qed


text \<open>The pointer is on the title bar of window \<open>i\<close>, and not on a button or an active part of the panels.\<close>

definition on_title_bar :: "nat \<Rightarrow> session \<Rightarrow> bool" where
  "on_title_bar i s \<longleftrightarrow>
     (let m = screen s; g = recompute_layout m; x = mouse_x s; y = mouse_y s; w = windows (desk s) ! i;
          (close_r, max_r, min_r) = button_rects m w;
          (restart_r, lock_r, off_r) = power_button_rects m (lay_sidebar g)
      in win_x w \<le> x \<and> x < win_x w + win_w w \<and> win_y w \<le> y \<and> y < win_y w + titlebar_height m \<and>
         \<not> point_in_rect x y close_r \<and> \<not> point_in_rect x y max_r \<and> \<not> point_in_rect x y min_r \<and>
         \<not> point_in_rect x y restart_r \<and> \<not> point_in_rect x y off_r \<and>
         sidebar_nav_hit_test m g x y \<noteq> 0 \<and> dock_hit_test m g x y \<noteq> 0)"

lemma title_bar_event:
  assumes "on_title_bar i s" and "left_down s" and "\<not> win_maximized (windows (desk s) ! i)"
    and "screen b = screen s" and "mouse_x b = mouse_x s" and "mouse_y b = mouse_y s" and "left_down b"
  shows "window_event True b (windows (desk s) ! i) = (windows (desk s) ! i)
     \<lparr>win_dragging := True, drag_offset_x := mouse_x s - win_x (windows (desk s) ! i),
      drag_offset_y := mouse_y s - win_y (windows (desk s) ! i)\<rparr>"
proof -
  define w where "w = windows (desk s) ! i"
  have "window_click (screen b) (g_layout (desk b)) True (mouse_x b) (mouse_y b) w =
      (False, w\<lparr>win_dragging := True, drag_offset_x := mouse_x s - win_x w, drag_offset_y := mouse_y s - win_y w\<rparr>)"
    using assms unfolding on_title_bar_def window_click_def w_def [symmetric] by (auto simp: Let_def split_def)
  then show ?thesis using assms(5-7) by (simp add: window_event_def window_drag_def w_def)
qed

lemma press_update:
  assumes "top_window (windows (desk s)) = Some i" and "\<not> prev_left (desk s)" and "left_down s"
    and "on_title_bar i s" and "\<not> win_maximized (windows (desk s) ! i)"
  defines "w \<equiv> windows (desk s) ! i"
  shows "\<exists>t. gui_update s = Some t \<and> held_by i (mouse_x s - win_x w) (mouse_y s - win_y w) (win_w w) (win_h w) t \<and>
     mouse_x t = mouse_x s \<and> mouse_y t = mouse_y s"
proof -
  define b where "b = before_click s"
  have b: "windows (desk b) = windows (desk s)" "left_down b" "mouse_x b = mouse_x s" "mouse_y b = mouse_y s" "screen b = screen s"
    using assms(3) by (simp_all add: b_def left_down_def)
  have "click_panels (screen s) (timer_get_ticks (clk s)) (mouse_x s) (mouse_y s) (desk b) = Some (desk b)"
    using assms(4) by (simp add: click_panels_def on_title_bar_def b_def Let_def split_def)
  then have u: "gui_update s = Some (after_click True b)"
    using assms(2,3) by (simp add: gui_update_form b_def Let_def)
  note e = title_bar_event [OF assms(4,3,5) b(5,3,4,2), folded w_def]
  have v: "window_visible w" using assms(1) top_window_facts(2) unfolding w_def by blast
  have "held_by i (mouse_x s - win_x w) (mouse_y s - win_y w) (win_w w) (win_h w) (after_click True b)"
    by (rule after_click_window) (use assms(1) b v in \<open>simp_all add: e window_visible_def flip: w_def\<close>)
  then show ?thesis using u b(3,4) after_click_mouse [of True b] by auto
qed

section \<open>A turn of the loop\<close>

lemma mouse_tick_session:
  fixes s :: session
  shows "desk (snd (mouse_tick width height s)) = desk s" and "kern (snd (mouse_tick width height s)) = kern s"
    and "packet_ready s \<Longrightarrow> buttons (snd (mouse_tick width height s)) = packet s ! 0 AND 0x07"
  by (simp_all add: mouse_tick_def Let_def del: One_nat_def)


lemma turn_after_update:
  assumes "packet_ready s" and "packet s ! 0 AND 1 \<noteq> 0"
  defines "s1 \<equiv> snd (mouse_tick (fb_width (screen s)) (fb_height (screen s)) s)"
  shows "left_down s1" and "desktop_turn s = map_option gui_draw (gui_update s1)"
    and "desk s1 = desk s"
proof -
  have "(x AND 7) AND 1 = x AND (1 :: u8)" for x
    by (rule bit_word_eqI) (auto simp: bit_simps)
  then show "left_down s1"
    using mouse_tick_session(3) [OF assms(1)] assms(2) by (simp add: left_down_def s1_def del: One_nat_def)
  show "desktop_turn s = map_option gui_draw (gui_update s1)" "desk s1 = desk s"
    by (simp_all add: desktop_turn_def s1_def mouse_tick_session)
qed

lemma packet_arrived_simps [simp]:
  "packet_ready (packet_arrived p s)" "packet (packet_arrived p s) = p" "desk (packet_arrived p s) = desk s"
  by (simp_all add: packet_arrived_def)

lemma held_turn:
  assumes "\<exists>t. gui_update s1 = Some t \<and> held_by i ox oy ww wh t \<and> P (mouse_x t) (mouse_y t)"
    and "desktop_turn s = map_option gui_draw (gui_update s1)"
  shows "\<exists>t. desktop_turn s = Some t \<and> held_by i ox oy ww wh t \<and> P (mouse_x t) (mouse_y t)"
proof -
  obtain t where t: "gui_update s1 = Some t" "held_by i ox oy ww wh t" "P (mouse_x t) (mouse_y t)" using assms(1) by blast
  have "held_by i ox oy ww wh (gui_draw t)" using t(2) held_by_held [OF gui_draw_held] by blast
  moreover have "mouse_x (gui_draw t) = mouse_x t" "mouse_y (gui_draw t) = mouse_y t"
    using gui_draw_held [of t] by (simp_all add: held_state_def)
  ultimately show ?thesis using t(1,3) assms(2) by simp
qed

lemma held_turns:
  assumes "held_by i ox oy ww wh s" and "\<forall>p \<in> set ps. p ! 0 AND 1 \<noteq> 0"
  shows "\<exists>t. turns ps s = Some t \<and> held_by i ox oy ww wh t"
  using assms
proof (induction ps arbitrary: s)
  case Nil
  then show ?case by simp
next
  case (Cons p ps)
  have "packet (packet_arrived p s) ! 0 AND 1 \<noteq> 0" using Cons.prems(2) by simp
  note a = turn_after_update [OF packet_arrived_simps(1) this]
  have "\<exists>t. desktop_turn (packet_arrived p s) = Some t \<and> held_by i ox oy ww wh t \<and> True"
    by (rule held_turn [OF _ a(2)], insert held_update [OF Cons.prems(1) a(1)]) (simp add: a(3), blast)
  then obtain t where "desktop_turn (packet_arrived p s) = Some t" "held_by i ox oy ww wh t" by blast
  with Cons.IH [of t] Cons.prems(2) show ?case by simp
qed

section \<open>Properties\<close>

text \<open>C19: A window that is not maximised and is taken by its title bar moves with the pointer for as long as the left
  button is down: after any number of packets of the mouse, each followed by an update and a frame, the loop goes on and
  the window has moved by exactly what the pointer has moved since it was pressed, and has kept its size.\<close>

theorem dragged_window_follows_pointer:
  assumes "\<not> prev_left (desk s)" and "top_window (windows (desk s)) = Some i"
    and "\<not> win_maximized (windows (desk s) ! i)" and "\<forall>q \<in> set (p # ps). q ! 0 AND 1 \<noteq> 0"
  defines "s1 \<equiv> snd (mouse_tick (fb_width (screen s)) (fb_height (screen s)) (packet_arrived p s))"
  assumes "on_title_bar i s1"
  shows "\<exists>t. turns (p # ps) s = Some t \<and>
     win_x (windows (desk t) ! i) - win_x (windows (desk s) ! i) = mouse_x t - mouse_x s1 \<and>
     win_y (windows (desk t) ! i) - win_y (windows (desk s) ! i) = mouse_y t - mouse_y s1 \<and>
     win_w (windows (desk t) ! i) = win_w (windows (desk s) ! i) \<and> win_h (windows (desk t) ! i) = win_h (windows (desk s) ! i)"
proof -
  define w where "w = windows (desk s) ! i"
  have c: "screen (packet_arrived p s) = screen s" by (simp add: packet_arrived_def screen_def)
  have "packet (packet_arrived p s) ! 0 AND 1 \<noteq> 0" using assms(4) by simp
  note a = turn_after_update [OF packet_arrived_simps(1) this, unfolded c, folded s1_def]
  have d: "desk s1 = desk s" using a(3) by simp
  have "\<exists>t. gui_update s1 = Some t \<and> held_by i (mouse_x s1 - win_x w) (mouse_y s1 - win_y w) (win_w w) (win_h w) t \<and> True"
    using press_update [of s1 i] assms(1-3,6) a(1) unfolding d w_def by blast
  from held_turn [OF this a(2)] obtain t where t: "desktop_turn (packet_arrived p s) = Some t"
    and h: "held_by i (mouse_x s1 - win_x w) (mouse_y s1 - win_y w) (win_w w) (win_h w) t" by blast
  have "\<exists>u. turns ps t = Some u \<and> held_by i (mouse_x s1 - win_x w) (mouse_y s1 - win_y w) (win_w w) (win_h w) u"
    using h by (rule held_turns) (use assms(4) in simp)
  then obtain u where "turns ps t = Some u" "held_by i (mouse_x s1 - win_x w) (mouse_y s1 - win_y w) (win_w w) (win_h w) u" by blast
  with t show ?thesis by (auto simp: held_by_def w_def Let_def)
qed

definition screen_1440x900 :: machine where
  "screen_1440x900 = screen_4x2\<lparr>fb_w := 1440, fb_h := 900\<rparr>"

lemma screen_1440x900_layout:
  "fb_width screen_1440x900 = 1440" "fb_height screen_1440x900 = 900" "1 \<le> n \<Longrightarrow> ui_scaled screen_1440x900 n = n"
  "lay_sidebar (recompute_layout screen_1440x900) = (14, 36, 216, 819)"
  "lay_dock (recompute_layout screen_1440x900) = (432, 814, 576, 61)"
proof -
  show f: "fb_width screen_1440x900 = 1440" "fb_height screen_1440x900 = 900"
    by (simp_all add: fb_width_def fb_height_def screen_1440x900_def)
  show "1 \<le> n \<Longrightarrow> ui_scaled screen_1440x900 n = n"
    by (simp add: ui_scaled_def ui_scale_pm_def f UI_DESIGN_W_def UI_DESIGN_H_def Let_def signed_divide_int_def)
  show "lay_sidebar (recompute_layout screen_1440x900) = (14, 36, 216, 819)"
    "lay_dock (recompute_layout screen_1440x900) = (432, 814, 576, 61)"
    by (simp_all add: recompute_layout_def f Let_def signed_divide_int_def ui_pm_right_def ui_pm_bottom_center_def)
qed

lemma screen_1440x900_power:
  "power_button_rects screen_1440x900 (14, 36, 216, 819) = ((30, 805, 53, 36), (95, 805, 53, 36), (160, 805, 53, 36))"
  by (simp add: power_button_rects_def screen_1440x900_layout Let_def signed_divide_int_def)

definition open_window :: "desktop \<Rightarrow> desktop" where
  "open_window d = snd (window_create WINDOW_KIND_TERMINAL ''Terminal'' 300 100 400 300 0 d)"

definition session_with_window :: session where
  "session_with_window = undefined\<lparr>kern := undefined\<lparr>mach := screen_1440x900\<rparr>, desk := open_window desktop_at_boot,
     mouse_x := 340, mouse_y := 110, packet_size := 3\<rparr>"

lemma dragged_window_follows_pointer_witness:
  "\<exists>t. turns [[9, 10, 0, 0], [9, 5, 251, 0], [9, 200, 0, 0]] session_with_window = Some t \<and>
     win_x (windows (desk t) ! 0) = 300 + (mouse_x t - 350) \<and> win_y (windows (desk t) ! 0) = 100 + (mouse_y t - 110)"
proof -
  define s where "s = session_with_window"
  define s1 where "s1 = snd (mouse_tick (fb_width (screen s)) (fb_height (screen s)) (packet_arrived [9, 10, 0, 0] s))"
  have m: "screen s = screen_1440x900" "desk s = open_window desktop_at_boot"
    by (simp_all add: s_def session_with_window_def screen_def)
  note f = screen_1440x900_layout(1,2) and sc = screen_1440x900_layout(3) and l = screen_1440x900_layout(4,5)
  have s1: "mouse_x s1 = 350" "mouse_y s1 = 110" "screen s1 = screen_1440x900" "desk s1 = open_window desktop_at_boot"
    by (simp_all add: s1_def mouse_tick_def packet_arrived_def m f s_def session_with_window_def screen_def Let_def)
  define w where "w = windows (open_window desktop_at_boot) ! 0"
  have ws: "windows (open_window desktop_at_boot) = [w]"
    by (simp add: w_def open_window_def window_create_def desktop_at_boot_def MAX_WINDOWS_def)
  have w: "win_x w = 300" "win_y w = 100" "win_w w = 400" "win_h w = 300" "\<not> win_maximized w" "window_visible w"
    by (simp_all add: w_def open_window_def window_create_def desktop_at_boot_def MAX_WINDOWS_def window_visible_def)
  have br: "button_rects screen_1440x900 w = ((675, 110, 11, 11), (655, 110, 11, 11), (635, 110, 11, 11))"
    by (simp add: button_rects_def sc w Let_def titlebar_height_def window_btn_size_def signed_divide_int_def)
  note pr = screen_1440x900_power
  have "titlebar_height screen_1440x900 = 30" by (simp add: titlebar_height_def sc)
  then have ot: "on_title_bar 0 s1"
    unfolding on_title_bar_def s1 ws Let_def nth_Cons_0 br pr l prod.case sidebar_nav_hit_test_def dock_hit_test_def
    by (simp add: w point_in_rect_def)
  have a: "\<not> prev_left (desk s)" "top_window (windows (desk s)) = Some 0" "windows (desk s) ! 0 = w"
    "\<not> win_maximized (windows (desk s) ! 0)"
    unfolding m by (simp_all add: ws w top_window_def) (simp add: open_window_def window_create_def desktop_at_boot_def MAX_WINDOWS_def)
  have p: "\<forall>q \<in> set [[9, 10, 0, 0], [9, 5, 251, 0], [9, 200, 0, 0 :: u8]]. q ! 0 AND 1 \<noteq> 0" by simp
  from dragged_window_follows_pointer [OF a(1,2,4) p ot [unfolded s1_def]] show ?thesis
    by (auto simp: a(3) w s1 s_def [symmetric] s1_def [symmetric])
qed

end
