(* ===== verification/Desktop_Bounds.thy ===== *)
theory Desktop_Bounds
  imports Window_Events
begin

text \<open>
  The desktop's state from \<open>gui_init\<close> on, over every event that reaches it: its arrays, its indices and the number of
  rectangles a frame presents stay within their bounds.
\<close>

section \<open>The invariant\<close>

definition desk_ok :: "session \<Rightarrow> bool" where
  "desk_ok s \<longleftrightarrow>
     (let d = desk s in
      length (windows d) = 1 \<and> win_used (windows d ! 0) \<and> win_title (windows d ! 0) = ''Terminal'' \<and>
      terminal_window d = Some 0 \<and> length (notifications d) \<le> MAX_NOTIFICATIONS \<and>
      list_all (\<lambda>t. length t \<le> 39) (notifications d) \<and>
      - 1 \<le> dock_hover d \<and> dock_hover d < DOCK_ITEM_COUNT \<and>
      - 1 \<le> quick_hover d \<and> quick_hover d < QUICK_ROWS * QUICK_COLS)"

lemma desk_ok_held:
  assumes "held_state s = held_state t"
  shows "desk_ok s = desk_ok t"
proof -
  have h: "map placed (windows (desk s)) = map placed (windows (desk t))" using assms by (simp add: held_state_def)
  then have l: "length (windows (desk s)) = length (windows (desk t))" by (rule map_eq_imp_length_eq)
  have "placed (windows (desk s) ! 0) = placed (windows (desk t) ! 0)" if "length (windows (desk s)) = 1"
    using h l that by (cases "windows (desk s)"; cases "windows (desk t)") simp_all
  then have "win_used (windows (desk s) ! 0) = win_used (windows (desk t) ! 0)"
    "win_title (windows (desk s) ! 0) = win_title (windows (desk t) ! 0)" if "length (windows (desk s)) = 1"
    using that by (cases "windows (desk s) ! 0"; cases "windows (desk t) ! 0"; simp add: placed_def)+
  then show ?thesis using assms l by (auto simp: desk_ok_def held_state_def Let_def)
qed

lemma first_hit_bounds: "0 \<le> n \<Longrightarrow> - 1 \<le> first_hit P n \<and> first_hit P n < max n 1"
  by (auto simp: first_hit_def find_Some_iff split: option.split)

lemma hover_bounds:
  "- 1 \<le> dock_hit_test m g x y" "dock_hit_test m g x y < DOCK_ITEM_COUNT"
  "- 1 \<le> quick_hit_test m g x y" "quick_hit_test m g x y < QUICK_ROWS * QUICK_COLS"
  using first_hit_bounds [of DOCK_ITEM_COUNT] first_hit_bounds [of "QUICK_ROWS * QUICK_COLS"]
  by (simp_all add: dock_hit_test_def quick_hit_test_def DOCK_ITEM_COUNT_def QUICK_ROWS_def QUICK_COLS_def max_def Let_def)

lemma set_window_ok:
  assumes "desk_ok s" and "win_used w = win_used (windows (desk s) ! i)" and "win_title w = win_title (windows (desk s) ! i)"
  shows "desk_ok (set_window i w s)"
  using assms by (cases i) (auto simp: desk_ok_def set_window_def Let_def)

lemma before_click_ok: "desk_ok s \<Longrightarrow> desk_ok (before_click s)"
  using hover_bounds
  by (auto simp: desk_ok_def Let_def before_click_def update_hover_def update_clock_def mark_def split_def)

lemma window_event_kept:
  "win_used (window_event c s w) = win_used w" "win_title (window_event c s w) = win_title w"
  by (simp_all add: window_event_def window_click_def window_drag_def toggle_maximize_def Let_def split_def)

lemma after_click_ok:
  assumes "desk_ok s"
  shows "desk_ok (after_click c s)"
proof -
  have p: "desk_ok (on_desk (\<lambda>d. d\<lparr>prev_left := b\<rparr>) t) = desk_ok t" for b t by (simp add: desk_ok_def Let_def)
  show ?thesis
  proof (cases "top_window (windows (desk s))")
    case None
    then show ?thesis using assms by (simp add: after_click_def Let_def p)
  next
    case (Some i)
    have "desk_ok (set_window i (window_event c s (windows (desk s) ! i)) s)"
      using assms by (rule set_window_ok) (simp_all add: window_event_kept)
    then show ?thesis using Some desk_ok_held [OF update_window_held] by (simp add: after_click_def Let_def p)
  qed
qed

lemma restore_ok: "desk_ok (s\<lparr>desk := d\<rparr>) \<Longrightarrow> desk_ok (s\<lparr>desk := gui_restore_terminal ticks d\<rparr>)"
  by (auto simp: desk_ok_def gui_restore_terminal_def Let_def)

lemma click_panels_ok:
  assumes "click_panels m ticks mx my d = Some d'" and "desk_ok (s\<lparr>desk := d\<rparr>)"
  shows "desk_ok (s\<lparr>desk := d'\<rparr>)"
proof -
  obtain r l o' where "power_button_rects m (lay_sidebar (g_layout d)) = (r, l, o')" by (rule prod_cases3)
  then show ?thesis using assms restore_ok
    by (auto simp: click_panels_def Let_def split_def split: if_splits)
qed

lemma gui_update_ok:
  assumes "desk_ok s" and "gui_update s = Some t"
  shows "desk_ok t"
proof -
  define b c where "b = before_click s" and "c \<longleftrightarrow> \<not> prev_left (desk s) \<and> left_down s"
  have b: "desk_ok (b\<lparr>desk := desk b\<rparr>)" using before_click_ok [OF assms(1)] by (simp add: b_def)
  obtain d where d: "(if c then click_panels (screen s) (timer_get_ticks (clk s)) (mouse_x s) (mouse_y s) (desk b)
      else Some (desk b)) = Some d" and t: "t = after_click c (b\<lparr>desk := d\<rparr>)"
    using assms(2) unfolding gui_update_form Let_def b_def [symmetric] c_def [symmetric] by blast
  have "desk_ok (b\<lparr>desk := d\<rparr>)" using d b click_panels_ok by (cases c) auto
  then show ?thesis unfolding t by (rule after_click_ok)
qed


section \<open>Every event\<close>

text \<open>
  A turn of the main loop with or without a packet of the mouse, an interrupt of the timer, a character printed by the
  shell, and the functions that the shell and the loader of the picture call.
\<close>

datatype desk_event =
    PacketTurn "u8 list" | IdleTurn | TimerTick | Printed char | Notified string | TerminalShown | ColorSet color
  | PictureSet u64 int int | Invalidated

fun desk_step :: "desk_event \<Rightarrow> session \<Rightarrow> session option" where
  "desk_step (PacketTurn p) s = desktop_turn (packet_arrived p s)"
| "desk_step IdleTurn s = desktop_turn s"
| "desk_step TimerTick s = Some (s\<lparr>clk := timer_handler (clk s)\<rparr>)"
| "desk_step (Printed c) s = Some (on_terminal (terminal_putchar_s c) s)"
| "desk_step (Notified t) s = Some (on_desk (gui_notify t) s)"
| "desk_step TerminalShown s = Some (on_desk (gui_restore_terminal (timer_get_ticks (clk s))) s)"
| "desk_step (ColorSet c) s = Some (on_desk (gui_set_bg_color c) s)"
| "desk_step (PictureSet p w h) s = Some (on_desk (gui_set_background p w h) s)"
| "desk_step Invalidated s = Some (on_desk gui_invalidate s)"

fun desk_run :: "desk_event list \<Rightarrow> session \<Rightarrow> session option" where
  "desk_run [] s = Some s"
| "desk_run (e # es) s = Option.bind (desk_step e s) (desk_run es)"

lemma turn_ok:
  assumes "desk_ok s" and "desktop_turn s = Some t"
  shows "desk_ok t"
proof -
  define s1 where "s1 = snd (mouse_tick (fb_width (screen s)) (fb_height (screen s)) s)"
  obtain u where u: "gui_update s1 = Some u" "t = gui_draw u" using assms(2) by (auto simp: desktop_turn_def s1_def)
  have "desk_ok s1" using assms(1) by (simp add: desk_ok_def s1_def mouse_tick_session)
  from gui_update_ok [OF this u(1)] show ?thesis unfolding u(2) using desk_ok_held [OF gui_draw_held] by blast
qed

lemma gui_notify_ok: "desk_ok s \<Longrightarrow> desk_ok (on_desk (gui_notify t) s)"
  by (auto simp: desk_ok_def gui_notify_def Let_def)

lemma desk_step_ok: "desk_ok s \<Longrightarrow> desk_step e s = Some t \<Longrightarrow> desk_ok t"
proof (cases e)
  case (PacketTurn p)
  moreover have "desk_ok (packet_arrived p s) = desk_ok s" by (simp add: desk_ok_def)
  moreover assume "desk_ok s" "desk_step e s = Some t"
  ultimately show ?thesis using turn_ok by auto
next
  case IdleTurn
  then show "desk_ok s \<Longrightarrow> desk_step e s = Some t \<Longrightarrow> desk_ok t" using turn_ok by simp
next
  case (Notified x)
  then show "desk_ok s \<Longrightarrow> desk_step e s = Some t \<Longrightarrow> desk_ok t" using gui_notify_ok by auto
qed (auto simp: gui_notify_ok desk_ok_def gui_restore_terminal_def gui_set_bg_color_def gui_set_background_def
      gui_invalidate_def Let_def)

lemma desk_run_ok: "desk_ok s \<Longrightarrow> desk_run es s = Some t \<Longrightarrow> desk_ok t"
proof (induction es arbitrary: s)
  case Nil
  then show ?case by simp
next
  case (Cons e es)
  then obtain u where u: "desk_step e s = Some u" "desk_run es u = Some t" by (auto split: bind_splits)
  from desk_step_ok [OF Cons.prems(1) u(1)] Cons.IH u(2) show ?case by blast
qed

lemma gui_init_ok: "desk s = desktop_at_boot \<Longrightarrow> desk_ok (gui_init s)"
  by (simp add: gui_init_def desk_ok_def desktop_at_boot_def window_create_def gui_notify_def MAX_WINDOWS_def
      MAX_NOTIFICATIONS_def DOCK_ITEM_COUNT_def QUICK_ROWS_def QUICK_COLS_def Let_def)

lemma rectangles_of_frame: "length (fst (compose_frame s)) \<le> 2 * length (windows (desk s)) + 5"
proof -
  have f: "length (filter P xs) + length (filter Q xs) \<le> 2 * length xs" for P Q and xs :: "window list"
    using length_filter_le [of P xs] length_filter_le [of Q xs] by linarith
  have p: "length (fst (paint s)) \<le> (if gui_dirty (desk s) then 2 * length (windows (desk s)) + 4 else 0) \<and>
      (gui_dirty (desk s) \<longrightarrow> prev_cursor_x (desk (snd (paint s))) = - 1)" for s
    by (auto simp: paint_def paint_first_def paint_again_def Let_def split_def f)
  define t where "t = on_desk (\<lambda>d. d\<lparr>g_layout := recompute_layout (screen s)\<rparr>) s"
  have t: "gui_dirty (desk t) = gui_dirty (desk s)" "windows (desk t) = windows (desk s)" by (simp_all add: t_def)
  have "length (fst (compose_frame s)) = length (fst (paint t)) + length (fst (erase_cursor (snd (paint t)))) + 1"
    by (simp add: compose_frame_def draw_cursor_def t_def Let_def split_def)
  moreover have "length (fst (erase_cursor (snd (paint t)))) \<le> (if prev_cursor_x (desk (snd (paint t))) \<ge> 0 then 1 else 0)"
    by (simp add: erase_cursor_def Let_def)
  ultimately show ?thesis using p [of t] t by (cases "gui_dirty (desk t)") (auto split: if_splits)
qed

lemma gui_update_stops:
  "gui_update s = None \<longleftrightarrow> \<not> prev_left (desk s) \<and> left_down s \<and>
     (case power_button_rects (screen s) (lay_sidebar (recompute_layout (screen s))) of (restart_r, lock_r, off_r) \<Rightarrow>
        point_in_rect (mouse_x s) (mouse_y s) restart_r \<or> point_in_rect (mouse_x s) (mouse_y s) off_r)"
proof -
  have "g_layout (gui_restore_terminal ticks d) = g_layout d" for ticks d
    by (simp add: gui_restore_terminal_def split: option.split)
  then show ?thesis by (auto simp: gui_update_form click_panels_def Let_def split_def)
qed


section \<open>The dock brings the terminal back\<close>

lemma wheel_desk [simp]: "desk (wheel x y s) = desk s"
  by (simp add: wheel_def mouse_get_scroll_def Let_def)

lemma update_window_desk:
  "\<exists>b. desk (update_window i clicked (mouse_get_state s) s) =
     mark b ((desk s)\<lparr>windows := (windows (desk s))[i := window_event clicked s (windows (desk s) ! i)]\<rparr>)"
  by (simp add: update_window_def window_event_def Let_def split_def mouse_get_state_def mouse_left_def left_down_def) blast

text \<open>A click that is on none of the window's buttons leaves it where it is, if it was not being dragged.\<close>

definition off_buttons :: "machine \<Rightarrow> int \<Rightarrow> int \<Rightarrow> window \<Rightarrow> bool" where
  "off_buttons m x y w \<longleftrightarrow> (case button_rects m w of (close_r, max_r, min_r) \<Rightarrow>
     \<not> point_in_rect x y close_r \<and> \<not> point_in_rect x y max_r \<and> \<not> point_in_rect x y min_r)"

definition shape :: "window \<Rightarrow> bool \<times> bool \<times> u64 \<times> fb_rect" where
  "shape w = (window_visible w, win_fading w, fade_start_tick w, win_rect w)"

lemma click_keeps_shape:
  assumes "off_buttons (screen s) (mouse_x s) (mouse_y s) w" and "\<not> win_dragging w"
  shows "shape (window_event c s w) = shape w"
  using assms by (auto simp: window_event_def window_click_def window_drag_def off_buttons_def shape_def win_rect_def
      window_visible_def Let_def split_def)

section \<open>Properties\<close>

text \<open>C20: From \<open>gui_init\<close> on, after any turns of the main loop, timer interrupts, output of the shell and calls to the
  desktop: there is exactly one window, the terminal, which \<open>terminal_window\<close> designates; notifications and their texts
  fit their arrays; the hover marks are -1 or an item; a frame presents at most 7 rectangles, which fit the array
  \<open>dirty\<close>; and the next update returns, unless the left button was just pressed on restart or shutdown.\<close>

theorem desktop_stays_in_bounds:
  assumes "desk s = desktop_at_boot" and "desk_run es (gui_init s) = Some t"
  shows "desk_ok t \<and> length (fst (compose_frame t)) \<le> 7 \<and> 7 \<le> DIRTY_MAX \<and>
     (gui_update t = None \<longleftrightarrow> \<not> prev_left (desk t) \<and> left_down t \<and>
       (case power_button_rects (screen t) (lay_sidebar (recompute_layout (screen t))) of (restart_r, lock_r, off_r) \<Rightarrow>
          point_in_rect (mouse_x t) (mouse_y t) restart_r \<or> point_in_rect (mouse_x t) (mouse_y t) off_r))"
proof -
  have ok: "desk_ok t" using desk_run_ok [OF gui_init_ok [OF assms(1)] assms(2)] .
  then have "length (windows (desk t)) = 1" by (simp add: desk_ok_def Let_def)
  with rectangles_of_frame [of t] have "length (fst (compose_frame t)) \<le> 7" by simp
  with ok gui_update_stops [of t] show ?thesis by (simp add: DIRTY_MAX_def MAX_WINDOWS_def)
qed

definition cold_session :: session where
  "cold_session = undefined\<lparr>desk := desktop_at_boot, buttons := 0, packet_ready := False\<rparr>"

lemma desktop_stays_in_bounds_witness:
  "\<exists>t. desk_run [TimerTick, IdleTurn, Notified ''Hello'', ColorSet (RGB 1 2 3), TerminalShown] (gui_init cold_session) = Some t \<and>
     desk_ok t \<and> length (fst (compose_frame t)) \<le> 7"
proof -
  have d: "desk cold_session = desktop_at_boot" by (simp add: cold_session_def)
  define s where "s = (gui_init cold_session)\<lparr>clk := timer_handler (clk (gui_init cold_session))\<rparr>"
  have "\<not> packet_ready s" "\<not> left_down s"
    by (simp_all add: s_def cold_session_def gui_init_def on_desk_def left_down_def Let_def)
  then have "desktop_turn s \<noteq> None" using gui_update_stops [of s] by (simp add: desktop_turn_def mouse_tick_def)
  then obtain u where "desktop_turn s = Some u" by blast
  then have "\<exists>t. desk_run [TimerTick, IdleTurn, Notified ''Hello'', ColorSet (RGB 1 2 3), TerminalShown] (gui_init cold_session) = Some t"
    by (simp add: s_def)
  then show ?thesis using desktop_stays_in_bounds [OF d] by blast
qed

text \<open>C22: Clicking the terminal's place in the dock shows the terminal window, whether it was closed or minimised: when
  the pointer is neither on restart and shutdown nor where the window has its buttons, the update returns, the window is visible where it was, starts to fade in at the current tick, and is drawn with the next
  frame.\<close>

theorem dock_shows_terminal:
  assumes "desk_ok s" and "\<not> prev_left (desk s)" and "left_down s"
    and "dock_hit_test (screen s) (recompute_layout (screen s)) (mouse_x s) (mouse_y s) = 0"
    and "case power_button_rects (screen s) (lay_sidebar (recompute_layout (screen s))) of (restart_r, lock_r, off_r) \<Rightarrow>
      \<not> point_in_rect (mouse_x s) (mouse_y s) restart_r \<and> \<not> point_in_rect (mouse_x s) (mouse_y s) off_r"
    and "off_buttons (screen s) (mouse_x s) (mouse_y s) (windows (desk s) ! 0)" and "\<not> win_dragging (windows (desk s) ! 0)"
  shows "\<exists>t. gui_update s = Some t \<and> gui_dirty (desk t) \<and>
     shape (windows (desk t) ! 0) = (True, True, timer_get_ticks (clk s), win_rect (windows (desk s) ! 0))"
proof -
  define b where "b = before_click s"
  define r where "r = (windows (desk s) ! 0)\<lparr>win_minimized := False, win_closed := False, win_fading := True,
     fade_start_tick := timer_get_ticks (clk s)\<rparr>"
  define d where "d = (desk b)\<lparr>windows := [r], gui_dirty := True\<rparr>"
  have w: "windows (desk s) = [windows (desk s) ! 0]" "win_used (windows (desk s) ! 0)" "terminal_window (desk s) = Some 0"
    using assms(1) by (auto simp: desk_ok_def Let_def length_Suc_conv)
  have bw: "windows (desk b) = [windows (desk s) ! 0]" "terminal_window (desk b) = Some 0"
    "g_layout (desk b) = recompute_layout (screen s)"
    using w by (simp_all add: b_def)
  have g: "gui_restore_terminal (timer_get_ticks (clk s)) (desk b) = d" "gui_restore_terminal (timer_get_ticks (clk s)) d = d"
    using bw by (simp_all add: gui_restore_terminal_def d_def r_def)
  have "gui_update s \<noteq> None" using assms(5) by (auto simp: gui_update_stops)
  then have "click_panels (screen s) (timer_get_ticks (clk s)) (mouse_x s) (mouse_y s) (desk b) = Some d"
    using assms(2-4) g bw(3) by (auto simp: gui_update_form b_def [symmetric] click_panels_def d_def Let_def split_def split: if_splits)
  then have u: "gui_update s = Some (after_click True (b\<lparr>desk := d\<rparr>))"
    using assms(2,3) by (simp add: gui_update_form b_def [symmetric] Let_def)
  define v where "v = b\<lparr>desk := d\<rparr>"
  have v: "windows (desk v) = [r]" "screen v = screen s" "mouse_x v = mouse_x s" "mouse_y v = mouse_y s" "gui_dirty (desk v)"
    by (simp_all add: v_def d_def b_def before_click_simps(4) screen_def on_desk_def before_click_def Let_def split_def)
  have rv: "window_visible r" using w(2) by (simp add: r_def window_visible_def)
  then have top: "top_window (windows (desk v)) = Some 0" by (simp add: v(1) top_window_def)
  have "button_rects (screen s) r = button_rects (screen s) (windows (desk s) ! 0)" by (simp add: button_rects_def r_def)
  then have "shape (window_event True v r) = shape r"
    using assms(6,7) v by (intro click_keeps_shape) (simp_all add: off_buttons_def r_def)
  moreover obtain q where "desk (update_window 0 True (mouse_get_state v) v) =
      mark q ((desk v)\<lparr>windows := [window_event True v r]\<rparr>)"
    using update_window_desk [of 0 True v] v(1) by auto
  ultimately have "gui_dirty (desk (after_click True v))" "shape (windows (desk (after_click True v)) ! 0) = shape r"
    using top v(5) by (simp_all add: after_click_def Let_def mark_def)
  then show ?thesis using u rv by (simp add: v_def shape_def r_def win_rect_def)
qed


definition closed_session :: session where
  "closed_session = undefined
     \<lparr>kern := undefined\<lparr>mach := screen_1440x900\<rparr>, mouse_x := 600, mouse_y := 840, buttons := 1,
      desk := (open_window desktop_at_boot)\<lparr>terminal_window := Some 0,
        windows := [(windows (open_window desktop_at_boot) ! 0)\<lparr>win_closed := True\<rparr>]\<rparr>\<rparr>"

lemma dock_shows_terminal_witness:
  "\<exists>t. gui_update closed_session = Some t \<and> gui_dirty (desk t) \<and> window_visible (windows (desk t) ! 0) \<and>
     win_rect (windows (desk t) ! 0) = (300, 100, 400, 300)"
proof -
  define s where "s = closed_session"
  have m: "screen s = screen_1440x900" "mouse_x s = 600" "mouse_y s = 840" "left_down s"
    by (simp_all add: s_def closed_session_def screen_def left_down_def)
  have d: "desk_ok s" "\<not> prev_left (desk s)" "\<not> win_dragging (windows (desk s) ! 0)"
    "win_rect (windows (desk s) ! 0) = (300, 100, 400, 300)"
    by (simp_all add: s_def closed_session_def desk_ok_def open_window_def window_create_def desktop_at_boot_def MAX_WINDOWS_def
        MAX_NOTIFICATIONS_def DOCK_ITEM_COUNT_def QUICK_ROWS_def QUICK_COLS_def win_rect_def Let_def)
  have "dock_item_rect screen_1440x900 (432, 814, 576, 61) 0 = (582, 824, 41, 41)"
    by (simp add: dock_item_rect_def screen_1440x900_layout Let_def signed_divide_int_def DOCK_ITEM_COUNT_def)
  then have h: "dock_hit_test screen_1440x900 (recompute_layout screen_1440x900) 600 840 = 0"
    by (simp add: dock_hit_test_def screen_1440x900_layout(5) first_hit_def DOCK_ITEM_COUNT_def point_in_rect_def upto.simps)
  have g: "case power_button_rects (screen s) (lay_sidebar (recompute_layout (screen s))) of (restart_r, lock_r, off_r) \<Rightarrow>
      \<not> point_in_rect (mouse_x s) (mouse_y s) restart_r \<and> \<not> point_in_rect (mouse_x s) (mouse_y s) off_r"
    by (simp add: m screen_1440x900_layout(4) screen_1440x900_power point_in_rect_def)
  have "off_buttons screen_1440x900 600 840 (windows (desk s) ! 0)"
    using d(4) by (simp add: off_buttons_def button_rects_def win_rect_def screen_1440x900_layout titlebar_height_def
        window_btn_size_def point_in_rect_def Let_def signed_divide_int_def)
  with dock_shows_terminal [OF d(1,2) m(4) _ g _ d(3)] h d(4) show ?thesis
    by (auto simp: m shape_def s_def [symmetric])
qed

end
