(* ===== verification/Startup.thy ===== *)
theory Startup
  imports Window_Events Shell Descriptors Acpi Memory Syscalls
begin

text \<open>
  The whole machine: the start-up sequence of \<open>src/kernel.c\<close> and the interrupts that reach the running system. The
  state joins those of the other theories: what several of them hold (the kernel, the clock, the log of console output,
  the trace of the ports) is kept in the session and lent to each operation. After each initialisation, and at the end of
  an interrupt, the terminal draws what was printed, in order; inside one operation the drawing is thus after the
  operation's other effects. An initialiser that stops the machine itself does not return: \<open>None\<close>.
\<close>

record computer =
  ses :: session
  segs :: segments
  gates :: idt_state
  cpus :: acpi
  line_editor :: shell

text \<open>The addresses the linker gives to the kernel's image, its tables and the stubs of the interrupts.\<close>

record image_layout =
  img_start :: u64
  img_end :: u64
  img_gdt :: u64
  img_tss :: u64
  img_idt :: u64
  img_stubs :: "nat \<Rightarrow> u64"

section \<open>The parts of the state\<close>

definition on_ses :: "(session \<Rightarrow> session) \<Rightarrow> computer \<Rightarrow> computer" where
  "on_ses f c = c\<lparr>ses := f (ses c)\<rparr>"

definition machine_of :: "computer \<Rightarrow> machine" where
  "machine_of c = screen (ses c)"

definition on_machine :: "(machine \<Rightarrow> machine) \<Rightarrow> computer \<Rightarrow> computer" where
  "on_machine f c = on_ses (on_display f) c"

definition with_console :: "(console \<Rightarrow> console option) \<Rightarrow> computer \<Rightarrow> computer option" where
  "with_console f c =
     map_option (\<lambda>l. on_machine (on_pmm (\<lambda>p. p\<lparr>display := display l\<rparr>)) c) (f \<lparr>display = display (pmm (machine_of c))\<rparr>)"

definition with_cpus :: "(acpi \<Rightarrow> acpi option) \<Rightarrow> computer \<Rightarrow> computer option" where
  "with_cpus f c =
     map_option (\<lambda>a. on_machine (on_pmm (\<lambda>p. p\<lparr>display := display a\<rparr>)) (c\<lparr>cpus := a\<rparr>))
       (f ((cpus c)\<lparr>display := display (pmm (machine_of c))\<rparr>))"

definition with_gates :: "(idt_state \<Rightarrow> idt_state) \<Rightarrow> computer \<Rightarrow> computer" where
  "with_gates f c =
     (let g = f ((gates c)\<lparr>trace := trace (ses c)\<rparr>) in on_ses (\<lambda>s. s\<lparr>trace := trace g\<rparr>) (c\<lparr>gates := g\<rparr>))"

section \<open>Output on the screen\<close>

fun play_ui :: "ui_call \<Rightarrow> session \<Rightarrow> session" where
  "play_ui TerminalClear s = on_terminal terminal_clear s"
| "play_ui GuiRestoreTerminal s = on_desk (gui_restore_terminal (timer_get_ticks (clk s))) s"
| "play_ui (GuiSetBgColor r g b) s = on_desk (gui_set_bg_color (RGB r g b)) s"
| "play_ui (GuiSetBackground p w h) s = on_desk (gui_set_background p w h) s"

text \<open>The log of the console, and between its entries what the shell asked for, by the number of entries before it.\<close>

fun play_log :: "nat \<Rightarrow> display_call list \<Rightarrow> (nat \<times> ui_call) list \<Rightarrow> session \<Rightarrow> session" where
  "play_log n [] us s = fold (\<lambda>(_, u). play_ui u) us s"
| "play_log n (p # ps) us s =
     play_log (n + 1) ps (dropWhile (\<lambda>(i, _). i \<le> n) us)
       (on_terminal (show_call p) (fold (\<lambda>(_, u). play_ui u) (takeWhile (\<lambda>(i, _). i \<le> n) us) s))"

definition show_output :: "computer \<Rightarrow> computer" where
  "show_output c =
     (let l = display (pmm (machine_of c)); us = ui_log (line_editor c);
          c = on_machine (on_pmm (\<lambda>p. p\<lparr>display := []\<rparr>)) (c\<lparr>line_editor := (line_editor c)\<lparr>ui_log := []\<rparr>\<rparr>)
      in on_ses (play_log 0 l us) c)"

definition with_shell :: "(shell \<Rightarrow> shell option) \<Rightarrow> computer \<Rightarrow> computer option" where
  "with_shell f c =
     map_option (\<lambda>s. on_ses (\<lambda>t. t\<lparr>kern := sh_kern s, clk := sh_clock s\<rparr>) (c\<lparr>line_editor := s\<rparr>))
       (f ((line_editor c)\<lparr>sh_kern := kern (ses c), sh_clock := clk (ses c)\<rparr>))"

definition say_c :: "string \<Rightarrow> computer \<Rightarrow> computer" where
  "say_c t c = show_output (on_machine (print_m t) c)"

section \<open>Start-up\<close>

text \<open>How \<open>kmain\<close> ends: both interrupts off and halted, halted for interrupts, or in the main loop.\<close>

datatype boot = Stopped computer | Waiting computer | Running computer

text \<open>\<open>memory_detect\<close> to \<open>kmalloc_init\<close>\<close>

definition init_memory :: "image_layout \<Rightarrow> u64 \<Rightarrow> computer \<Rightarrow> computer option" where
  "init_memory img mb2_info c =
     Option.bind (with_console (memory_detect (mem (machine_of c)) mb2_info) c) (\<lambda>c.
       (let c = show_output c; m = machine_of c in
        case pmm_init (mem m) mb2_info (img_start img) (img_end img) (fb_physical_address m) (fb_memory_size m) (pmm m) of
          None \<Rightarrow> None
        | Some p \<Rightarrow> Some (on_machine kmalloc_init (show_output (on_machine (on_pmm (\<lambda>_. p)) c)))))"

text \<open>\<open>vmm_init\<close> to \<open>vmm_map_kernel_memory\<close>, with its result.\<close>

definition init_paging :: "image_layout \<Rightarrow> computer \<Rightarrow> (int \<times> computer) option" where
  "init_paging img c =
     (let c = show_output (on_machine vmm_init c) in
      case vmm_prepare_kernel_space (img_start img) (img_end img) (machine_of c) of
        None \<Rightarrow> None
      | Some m \<Rightarrow>
          (let c = show_output (on_machine (\<lambda>_. m) c);
               c = show_output (on_machine fb_enable_backbuffer c);
               (rc, m) = vmm_map_kernel_memory (machine_of c)
           in Some (rc, show_output (on_machine (\<lambda>_. m) c))))"

text \<open>The addresses that the page tables in force map to themselves, and that a table of the firmware can thus be read at.\<close>

definition identity_mapped :: "machine \<Rightarrow> u64 \<Rightarrow> bool" where
  "identity_mapped m a \<longleftrightarrow> vmm_get_physical a m = a"

text \<open>\<open>gdt_init\<close> to \<open>syscall_init\<close>\<close>

definition init_devices :: "device \<Rightarrow> image_layout \<Rightarrow> u64 \<Rightarrow> computer \<Rightarrow> computer option" where
  "init_devices dev img mb2_info c =
     (let c = c\<lparr>segs := gdt_init (img_gdt img) (img_tss img) (segs c)\<rparr>;
          c = with_gates (idt_init (img_idt img) (img_stubs img)) c in
      Option.bind (with_cpus (acpi_init (identity_mapped (machine_of c)) (mem (machine_of c)) mb2_info) c) (\<lambda>c.
        (let c = on_ses (keyboard_init dev) (show_output c);
             m = machine_of c;
             c = on_ses (mouse_init dev (fb_width m) (fb_height m)) c in
         case timer_init dev 100 (ses c) of
           None \<Rightarrow> None
         | Some s \<Rightarrow> Some (show_output (on_ses (on_kern syscall_init) (c\<lparr>ses := s\<rparr>))))))"

text \<open>\<open>shell_init\<close>, \<open>wallpaper_load\<close> and \<open>gui_init\<close>\<close>

definition init_desktop :: "computer \<Rightarrow> computer option" where
  "init_desktop c =
     Option.bind (with_shell shell_init c) (\<lambda>c.
       (let c = show_output c;
            (_, m, picture) = wallpaper_load (disk (fs (kern (ses c)))) (machine_of c);
            c = on_machine (\<lambda>_. m) c;
            c = (case picture of None \<Rightarrow> c | Some (p, w, h) \<Rightarrow> on_ses (on_desk (gui_set_background p w h)) c)
        in Some (on_ses gui_init (show_output c))))"

definition kmain :: "device \<Rightarrow> image_layout \<Rightarrow> u64 \<Rightarrow> computer \<Rightarrow> boot option" where
  "kmain dev img mb2_info c =
     (case fb_init mb2_info (machine_of c) of
        None \<Rightarrow> None
      | Some (rc, m) \<Rightarrow>
          (let c = on_machine (\<lambda>_. m) c in
           if rc \<noteq> 0 then Some (Stopped c)
           else
             (let w = of_int (fb_width m); h = of_int (fb_height m);
                  c = c\<lparr>line_editor := (line_editor c)\<lparr>system_width := w, system_height := h, system_timer_hz := 60\<rparr>\<rparr>;
                  c = on_ses (\<lambda>s. on_terminal (terminal_init (sint w) (sint h)) (s\<lparr>timer_hz := 60\<rparr>)) c in
              Option.bind (init_memory img mb2_info c) (\<lambda>c.
              Option.bind (init_paging img c) (\<lambda>(rc, c).
                if rc \<noteq> 0 then Some (Stopped (say_c ''VMM: kernel memory mapping failed.\<newline>'' c))
                else
                  Option.bind (init_devices dev img mb2_info (on_machine vmm_switch_kernel_space c)) (\<lambda>c.
                    (let (mounted, f) = fs_mount (fs (kern (ses c)));
                         c = on_ses (on_kern (\<lambda>k. k\<lparr>fs := f\<rparr>)) c in
                     if mounted = 0 then
                       (let c = say_c ''Filesystem mount failed.\<newline>'' c;
                            c = say_c ''(No valid NANOFS2 superblock found on disk 0 -\<newline>'' c;
                            c = say_c '' make sure disk.img is attached, e.g. via\<newline>'' c;
                            c = say_c ('' '' @ [char_of (39 :: nat)] @ ''qemu-system-x86_64 ... -drive file=disk.img,format=raw,if=ide'' @
                                  [char_of (39 :: nat)] @ ''.)\<newline>'') c
                        in Some (Waiting (c\<lparr>gates := (gates c)\<lparr>interrupts_on := True\<rparr>\<rparr>)))
                     else
                       map_option (\<lambda>c. Running (c\<lparr>gates := (gates c)\<lparr>interrupts_on := True\<rparr>\<rparr>)) (init_desktop c))))))))"

section \<open>The running system\<close>

text \<open>The body of the main loop up to its \<open>hlt\<close>; \<open>None\<close> when the machine is restarted or switched off.\<close>

definition main_loop_turn :: "computer \<Rightarrow> computer option" where
  "main_loop_turn c = map_option (\<lambda>s. c\<lparr>ses := s\<rparr>) (desktop_turn (ses c))"

text \<open>
  While an interrupt is served the line editor belongs to the state the handler works on: the keyboard calls the
  shell with a character, before the interrupt is acknowledged.
\<close>

record served = session +
  editor :: shell

definition serving :: "computer \<Rightarrow> served" where
  "serving c = session.extend (ses c) (served.fields (line_editor c))"

definition shell_key :: "u8 list \<Rightarrow> char \<Rightarrow> served \<Rightarrow> served option" where
  "shell_key uninit k s =
     map_option (\<lambda>e. s\<lparr>kern := sh_kern e, clk := sh_clock e, editor := e\<rparr>)
       (shell_input uninit (of_char k) ((editor s)\<lparr>sh_kern := kern s, sh_clock := clk s\<rparr>))"

text \<open>
  An interrupt or system call, with the frame that is returned to. \<open>None\<close> when the machine halts, is restarted or switched
  off, or the call does not return.
\<close>

definition interrupt ::
  "device \<Rightarrow> u64 \<Rightarrow> u8 list \<Rightarrow> interrupt_frame option \<Rightarrow> computer \<Rightarrow> (interrupt_frame option \<times> computer) option" where
  "interrupt dev exit_return uninit f c =
     (case isr_handler dev (shell_key uninit) exit_return f (serving c) of
        None \<Rightarrow> None
      | Some (Halted, s) \<Rightarrow> None
      | Some (Returned f', s) \<Rightarrow> Some (f', show_output (c\<lparr>ses := session.truncate s, line_editor := editor s\<rparr>)))"

end
