(* ===== verification/Typing.thy ===== *)
theory Typing
  imports Startup Cursor
begin

text \<open>
  From the keys to the screen: interrupts of the keyboard go through the interrupt handler, the keyboard driver, the line
  editor of the shell and the console to the terminal that the desktop shows.
\<close>

section \<open>Drawing leaves the kernel alone\<close>

lemma same_layout_rects: "same_layout m (fb_present_rects rs n m)"
proof -
  have b: "same_layout m (blit_pixel x y m)" for x y m
    by (auto simp: blit_pixel_form intro: same_layout_trans [OF same_layout_poke same_layout_poke])
  have f: "same_layout m (fold (\<lambda>row. fold (\<lambda>col. blit_pixel (a + col) row) ks) rs m)" for a ks rs m
    by (intro same_layout_fold b)
  have f': "same_layout m (fold (\<lambda>row. fold (\<lambda>col. blit_pixel col row) ks) rs m)" for ks rs m
    by (intro same_layout_fold b)
  have r: "same_layout m (blit_rect x y w h m)" for x y w h m
    by (simp add: blit_rect_def f f' Let_def)
  show ?thesis
    by (auto simp: fb_present_rects_def split_def split: option.split
        intro: same_layout_trans [OF same_layout_fold same_layout_force] r)
qed

lemma play_call_layout: "same_layout m (play_call p m)"
  by (cases p) (simp_all add: fb_fill_rect_def fb_draw_char_def fb_present_s_def Let_def same_layout_paint same_layout_rects)

lemma play_call_pmm: "pmm (play_call p m) = pmm m"
proof -
  obtain f b where "play_call p m = m\<lparr>mem := f, fb_force_full := b\<rparr>"
    using play_call_layout [of m p] unfolding same_layout_def by blast
  then show ?thesis by simp
qed

lemma show_putchar: "show_call (TerminalPutchar k) = terminal_putchar_s k"
  by (rule ext) simp

lemma terminal_frame [simp]:
  "pmm (screen (on_terminal f s)) = pmm (screen s)" "terml (on_terminal f s) = (f ((terml s)\<lparr>calls := []\<rparr>))\<lparr>calls := []\<rparr>"
  "shift (on_terminal f s) = shift s" "caps (on_terminal f s) = caps s" "fs (kern (on_terminal f s)) = fs (kern s)"
proof -
  have "pmm (fold play_call ps m) = pmm m" for ps m by (induction ps arbitrary: m) (simp_all add: play_call_pmm)
  then show "pmm (screen (on_terminal f s)) = pmm (screen s)"
    by (simp add: on_terminal_def on_display_def on_kern_def on_mach_def screen_def Let_def)
qed (simp_all add: on_terminal_def on_display_def on_kern_def on_mach_def Let_def)

lemma text_calls [simp]: "text_ok (t\<lparr>calls := cs'\<rparr>) = text_ok t" "text_lines (t\<lparr>calls := cs'\<rparr>) = text_lines t"
  by (simp_all add: text_ok_def grid_ok_def text_lines_def line_def)

lemma play_putchars:
  assumes "text_ok (terml s)" and "NUL \<notin> set ks"
    and "t = play_log n (map TerminalPutchar ks) [] s"
  shows "text_ok (terml t)" and "text_lines (terml t) = fold (spec_putchar (nat (cols (terml s)))) ks (text_lines (terml s))"
    and "cols (terml t) = cols (terml s)" and "pmm (screen t) = pmm (screen s)" and "shift t = shift s" and "caps t = caps s"
    and "fs (kern t) = fs (kern s)"
proof -
  have "text_ok (terml t) \<and> text_lines (terml t) = fold (spec_putchar (nat (cols (terml s)))) ks (text_lines (terml s)) \<and>
      cols (terml t) = cols (terml s) \<and> pmm (screen t) = pmm (screen s) \<and> shift t = shift s \<and> caps t = caps s \<and>
      fs (kern t) = fs (kern s)"
    using assms
  proof (induction ks arbitrary: s n t)
    case Nil
    then show ?case by simp
  next
    case (Cons k ks)
    define u where "u = on_terminal (terminal_putchar_s k) s"
    have "k \<noteq> NUL" "text_ok ((terml s)\<lparr>calls := []\<rparr>)" using Cons.prems by auto
    note p = putchar_text [OF this(2,1)]
    have "text_ok (terml u)" "NUL \<notin> set ks" "t = play_log (n + 1) (map TerminalPutchar ks) [] u"
      using p Cons.prems(2,3) by (simp_all add: u_def show_putchar)
    from Cons.IH [OF this] p show ?case by (simp add: u_def)
  qed
  then show "text_ok (terml t)" "text_lines (terml t) = fold (spec_putchar (nat (cols (terml s)))) ks (text_lines (terml s))"
    "cols (terml t) = cols (terml s)" "pmm (screen t) = pmm (screen s)" "shift t = shift s" "caps t = caps s"
    "fs (kern t) = fs (kern s)" by simp_all
qed

section \<open>One key\<close>

text \<open>Nothing waits to be drawn.\<close>

definition quiet :: "computer \<Rightarrow> bool" where
  "quiet c \<longleftrightarrow> display (pmm (machine_of c)) = [] \<and> ui_log (line_editor c) = []"

lemma input_no_ui: "c \<noteq> 10 \<Longrightarrow> shell_input uninit c s = Some s' \<Longrightarrow> ui_log s' = ui_log s"
  by (auto simp: shell_input_def putchar_sh_def emit_def split: if_splits)


lemma show_putchars:
  assumes "display (pmm (machine_of c)) = map TerminalPutchar ks" and "ui_log (line_editor c) = []" and "NUL \<notin> set ks"
    and "text_ok (terml (ses c))" and "d = show_output c"
  shows "text_ok (terml (ses d))" and "cols (terml (ses d)) = cols (terml (ses c))"
    and "text_lines (terml (ses d)) = fold (spec_putchar (nat (cols (terml (ses c))))) ks (text_lines (terml (ses c)))"
    and "quiet d" and "shift (ses d) = shift (ses c)" and "caps (ses d) = caps (ses c)"
    and "line_editor d = line_editor c" and "fs (kern (ses d)) = fs (kern (ses c))"
proof -
  define s where "s = on_display (on_pmm (\<lambda>p. p\<lparr>display := []\<rparr>)) (ses c)"
  have s: "terml s = terml (ses c)" "shift s = shift (ses c)" "caps s = caps (ses c)" "fs (kern s) = fs (kern (ses c))"
    "display (pmm (screen s)) = []"
    by (simp_all add: s_def on_display_def on_kern_def on_mach_def on_pmm_def screen_def)
  have d: "ses d = play_log 0 (map TerminalPutchar ks) [] s" "line_editor d = line_editor c"
    using assms(1,2,5) by (simp_all add: show_output_def s_def on_machine_def on_ses_def Let_def)
  have "text_ok (terml s)" using assms(4) s(1) by simp
  note p = play_putchars [OF this assms(3) d(1)]
  show "text_ok (terml (ses d))" "cols (terml (ses d)) = cols (terml (ses c))"
    "text_lines (terml (ses d)) = fold (spec_putchar (nat (cols (terml (ses c))))) ks (text_lines (terml (ses c)))"
    "shift (ses d) = shift (ses c)" "caps (ses d) = caps (ses c)" "line_editor d = line_editor c"
    "fs (kern (ses d)) = fs (kern (ses c))"
    using p s d(2) by simp_all
  show "quiet d" using p(4) s(5) d(2) assms(2) by (simp add: quiet_def machine_of_def)
qed

text \<open>The state that an interrupt of the keyboard hands to the shell, or returns with, as a computer again.\<close>

definition resumed :: "served \<Rightarrow> computer \<Rightarrow> computer" where
  "resumed s c = c\<lparr>ses := session.truncate s, line_editor := editor s\<rparr>"

lemma serving_fields [simp]:
  "trace (serving c) = trace (ses c)" "shift (serving c) = shift (ses c)" "caps (serving c) = caps (ses c)"
  "kern (serving c) = kern (ses c)" "clk (serving c) = clk (ses c)" "terml (serving c) = terml (ses c)"
  "editor (serving c) = line_editor c"
  by (simp_all add: serving_def session.extend_def served.fields_def)

lemma truncate_fields [simp]:
  "shift (session.truncate s) = shift s" "caps (session.truncate s) = caps s" "kern (session.truncate s) = kern s"
  "clk (session.truncate s) = clk s" "terml (session.truncate s) = terml s"
  by (simp_all add: session.truncate_def)

lemma served_frame [simp]:
  fixes s :: served
  shows "kern (key_arrives sc s) = kern s" "clk (key_arrives sc s) = clk s" "terml (key_arrives sc s) = terml s"
    "editor (key_arrives sc s) = editor s" "shift (key_arrives sc s) = (shift_press sc \<or> (shift s \<and> \<not> shift_release sc))"
    "caps (key_arrives sc s) = (caps s \<noteq> (sc = 0x3A))"
    "kern (acknowledged irq s) = kern s" "clk (acknowledged irq s) = clk s" "terml (acknowledged irq s) = terml s"
    "editor (acknowledged irq s) = editor s" "shift (acknowledged irq s) = shift s" "caps (acknowledged irq s) = caps s"
  by (simp_all add: key_arrives_def acknowledged_def)

text \<open>The interrupt of the keyboard on the whole machine, when the key gives no character and when it gives one.\<close>

lemma keyboard_interrupt:
  assumes "int_num fr = 0x21" and "t = key_arrives sc (serving c)"
  shows "key_text (shift (ses c) \<noteq> caps (ses c)) sc = [] \<Longrightarrow>
     interrupt (\<lambda>_ _. sc) exit_return uninit (Some fr) c = Some (Some fr, show_output (resumed (acknowledged 1 t) c))"
   and "key_text (shift (ses c) \<noteq> caps (ses c)) sc = [k] \<Longrightarrow>
     shell_input uninit (of_char k) ((line_editor c)\<lparr>sh_kern := kern (ses c), sh_clock := clk (ses c)\<rparr>) = Some e \<Longrightarrow>
     interrupt (\<lambda>_ _. sc) exit_return uninit (Some fr) c =
       Some (Some fr, show_output (resumed (acknowledged 1 (t\<lparr>kern := sh_kern e, clk := sh_clock e, editor := e\<rparr>)) c))"
proof -
  have "(0x21 :: u64) = 0x20 + of_nat 1" by simp
  then have u: "unat (int_num fr - 0x20) = 1" "\<not> int_num fr < 32" "0x20 \<le> int_num fr" "int_num fr < 0x30" "int_num fr \<noteq> 0x80"
    by (simp_all add: assms(1))
  have eo: "pic_send_eoi 1 s = acknowledged (Suc 0) s" for s :: served
    using eoi_acknowledged [of 1 s] by simp
  have h: "isr_handler (\<lambda>_ _. sc) (shell_key uninit) exit_return (Some fr) (serving c) =
      (case irq_dispatch (\<lambda>_ _. sc) (shell_key uninit) 1 fr (serving c) of None \<Rightarrow> None
       | Some (f, s) \<Rightarrow> Some (Returned f, acknowledged 1 s))"
    by (simp add: isr_handler_def u eo Let_def cong: option.case_cong)
  have k: "keyboard_handler (\<lambda>_ _. sc) (serving c) =
      (case key_text (shift (ses c) \<noteq> caps (ses c)) sc of [] \<Rightarrow> None | k # _ \<Rightarrow> Some k, t)"
    using keyboard_handler_arrives [OF refl, of "\<lambda>_ _. sc" "serving c"] assms(2) by simp
  show "interrupt (\<lambda>_ _. sc) exit_return uninit (Some fr) c = Some (Some fr, show_output (resumed (acknowledged 1 t) c))"
    if "key_text (shift (ses c) \<noteq> caps (ses c)) sc = []"
    using that by (simp add: interrupt_def h irq_dispatch_def k resumed_def)
  show "interrupt (\<lambda>_ _. sc) exit_return uninit (Some fr) c =
       Some (Some fr, show_output (resumed (acknowledged 1 (t\<lparr>kern := sh_kern e, clk := sh_clock e, editor := e\<rparr>)) c))"
    if "key_text (shift (ses c) \<noteq> caps (ses c)) sc = [k]"
      and "shell_input uninit (of_char k) ((line_editor c)\<lparr>sh_kern := kern (ses c), sh_clock := clk (ses c)\<rparr>) = Some e"
    using that assms(2) by (simp add: interrupt_def h irq_dispatch_def k resumed_def shell_key_def)
qed

lemma char_bytes [simp]: "char_of (unat (of_char k :: u8)) = k" "(of_char k :: u8) = 10 \<longleftrightarrow> k = CHR 0x0A"
proof -
  have "unat (of_char k :: u8) = of_char k" by (cases k) (simp add: unat_of_nat)
  then show c: "char_of (unat (of_char k :: u8)) = k" by simp
  show "(of_char k :: u8) = 10 \<longleftrightarrow> k = CHR 0x0A" using c
  proof (safe, goal_cases)
    case 1
    then have "k = char_of (unat (10 :: u8))" by simp
    moreover have "char_of (10 :: nat) = CHR 0x0A" by code_simp
    ultimately show ?case by simp
  qed simp
qed


text \<open>The interrupt of a key whose scan code is \<open>sc\<close>, when it does not give a newline.\<close>

lemma key_interrupt:
  assumes "int_num fr = 0x21" and "line_ok (line_editor c)" and "text_ok (terml (ses c))" and "quiet c"
    and "CHR 0x0A \<notin> set kt" and "kt = key_text (shift (ses c) \<noteq> caps (ses c)) sc"
  defines "l \<equiv> typed_line (line_editor c)" and "ks \<equiv> map of_char kt"
  shows "\<exists>d. interrupt (\<lambda>_ _. sc) exit_return uninit (Some fr) c = Some (Some fr, d) \<and>
     line_ok (line_editor d) \<and> typed_line (line_editor d) = edit l ks \<and> text_ok (terml (ses d)) \<and>
     cols (terml (ses d)) = cols (terml (ses c)) \<and>
     text_lines (terml (ses d)) = fold (spec_putchar (nat (cols (terml (ses c))))) (map (\<lambda>k. char_of (unat k)) (echo l ks))
       (text_lines (terml (ses c))) \<and>
     quiet d \<and> shift (ses d) = (shift_press sc \<or> (shift (ses c) \<and> \<not> shift_release sc)) \<and>
     caps (ses d) = (caps (ses c) \<noteq> (sc = 0x3A)) \<and> fs (kern (ses d)) = fs (kern (ses c))"
proof -
  define t where "t = key_arrives sc (serving c)"
  note i = keyboard_interrupt [OF assms(1) t_def]
  have q: "display (pmm (machine_of c)) = []" "ui_log (line_editor c) = []" using assms(4) by (simp_all add: quiet_def)
  consider "kt = []" | k where "kt = [k]" "k \<noteq> NUL"
    using assms(6) by (auto simp: key_text_def Let_def split: if_splits)
  then show ?thesis
  proof cases
    case 1
    define d where "d = resumed (acknowledged 1 t) c"
    have d: "machine_of d = machine_of c" "kern (ses d) = kern (ses c)" "terml (ses d) = terml (ses c)"
      "line_editor d = line_editor c" "shift (ses d) = (shift_press sc \<or> (shift (ses c) \<and> \<not> shift_release sc))"
      "caps (ses d) = (caps (ses c) \<noteq> (sc = 0x3A))"
      by (simp_all add: d_def t_def resumed_def machine_of_def screen_def)
    have e: "interrupt (\<lambda>_ _. sc) exit_return uninit (Some fr) c = Some (Some fr, show_output d)"
      using i(1) 1 assms(6) by (simp add: d_def)
    have "display (pmm (machine_of d)) = map TerminalPutchar []" using d(1) q by simp
    note s = show_putchars [OF this _ _ _ refl, unfolded d, OF q(2) _ assms(3)]
    show ?thesis using e s 1 assms(2) by (simp add: l_def ks_def)
  next
    case 2
    then have ch: "k \<noteq> NUL" "(of_char k :: u8) \<noteq> 10" using assms(5) by auto
    define s0 where "s0 = (line_editor c)\<lparr>sh_kern := kern (ses c), sh_clock := clk (ses c)\<rparr>"
    have s0: "line_ok s0" "typed_line s0 = l" "shown_calls s0 = []" "ui_log s0 = []" "sh_fs s0 = fs (kern (ses c))"
      using assms(2) q by (simp_all add: s0_def line_ok_def typed_line_def l_def shown_calls_def machine_of_def screen_def sh_fs_def)
    obtain s' where s': "shell_input uninit (of_char k) s0 = Some s'" "line_ok s'" "typed_line s' = edit l [of_char k]"
        "sh_fs s' = fs (kern (ses c))"
        "shown_calls s' = map (\<lambda>c. TerminalPutchar (char_of (unat c))) (echo l [of_char k])" "ui_log s' = []"
      using input_edits [OF s0(1) ch(2), of uninit] input_no_ui [OF ch(2)] s0 by fastforce
    define d where "d = resumed (acknowledged 1 (t\<lparr>kern := sh_kern s', clk := sh_clock s', editor := s'\<rparr>)) c"
    have d: "terml (ses d) = terml (ses c)" "line_editor d = s'"
      "shift (ses d) = (shift_press sc \<or> (shift (ses c) \<and> \<not> shift_release sc))" "caps (ses d) = (caps (ses c) \<noteq> (sc = 0x3A))"
      "fs (kern (ses d)) = fs (kern (ses c))" "display (pmm (machine_of d)) = shown_calls s'"
      using s'(4) by (simp_all add: d_def t_def resumed_def machine_of_def screen_def shown_calls_def sh_fs_def)
    have e: "interrupt (\<lambda>_ _. sc) exit_return uninit (Some fr) c = Some (Some fr, show_output d)"
      using i(2) [of k uninit s'] 2 s'(1) assms(6) by (simp add: d_def s0_def)
    have m: "display (pmm (machine_of d)) = map TerminalPutchar (map (\<lambda>k. char_of (unat k)) (echo l ks))"
      by (simp add: d(6) s'(5) ks_def 2)
    have b8: "char_of (8 :: nat) \<noteq> NUL" by code_simp
    have "NUL \<notin> set (map (\<lambda>k. char_of (unat k)) (echo l ks))" using ch(1) b8 by (auto simp: ks_def 2)
    note p = show_putchars [OF m _ this _ refl, unfolded d, OF s'(6) assms(3)]
    show ?thesis using e p s'(2,3) by (simp add: ks_def 2)
  qed
qed

section \<open>Many keys\<close>

text \<open>The interrupts of a sequence of scan codes, each of which must return to the interrupted frame.\<close>

fun key_interrupts :: "u64 \<Rightarrow> u8 list \<Rightarrow> interrupt_frame \<Rightarrow> u8 list \<Rightarrow> computer \<Rightarrow> computer option" where
  "key_interrupts exit_return uninit fr [] c = Some c"
| "key_interrupts exit_return uninit fr (sc # scs) c =
     (case interrupt (\<lambda>_ _. sc) exit_return uninit (Some fr) c of
        None \<Rightarrow> None
      | Some (f, c) \<Rightarrow> if f = Some fr then key_interrupts exit_return uninit fr scs c else None)"

lemma key_interrupts_snoc:
  assumes "key_interrupts exit_return uninit fr scs c = Some d"
    and "interrupt (\<lambda>_ _. sc) exit_return uninit (Some fr) d = Some (Some fr, e)"
  shows "key_interrupts exit_return uninit fr (scs @ [sc]) c = Some e"
  using assms by (induction scs arbitrary: c) (auto split: option.splits if_splits)

lemma edit_append: "edit l (ks @ js) = edit (edit l ks) js" "echo l (ks @ js) = echo l ks @ echo (edit l ks) js"
  by (induction ks arbitrary: l) simp_all

lemma keys_interrupts:
  assumes "int_num fr = 0x21" and "line_ok (line_editor c)" and "text_ok (terml (ses c))" and "quiet c"
    and "\<not> shift (ses c)" and "\<not> caps (ses c)" and "CHR 0x0A \<notin> set (typed_text scs)"
  defines "l \<equiv> typed_line (line_editor c)" and "n \<equiv> nat (cols (terml (ses c)))"
  shows "\<exists>d. key_interrupts exit_return uninit fr scs c = Some d \<and> line_ok (line_editor d) \<and>
     typed_line (line_editor d) = edit l (map of_char (typed_text scs)) \<and> text_ok (terml (ses d)) \<and>
     nat (cols (terml (ses d))) = n \<and>
     text_lines (terml (ses d)) = fold (spec_putchar n) (map (\<lambda>k. char_of (unat k)) (echo l (map of_char (typed_text scs))))
       (text_lines (terml (ses c))) \<and>
     quiet d \<and> shift (ses d) = shift_held scs \<and> caps (ses d) = caps_on scs \<and> fs (kern (ses d)) = fs (kern (ses c))"
  using assms(7)
proof (induction scs rule: rev_induct)
  case Nil
  show ?case using assms(2-6) by (simp add: typed_text_def shift_held_Nil caps_on_def l_def n_def)
next
  case (snoc sc scs)
  define ks where "ks = key_text (shift_held scs \<noteq> caps_on scs) sc"
  have nl: "CHR 0x0A \<notin> set (typed_text scs)" "CHR 0x0A \<notin> set ks" using snoc.prems by (simp_all add: typed_text_snoc ks_def)
  from snoc.IH [OF nl(1)] obtain d where
    d: "key_interrupts exit_return uninit fr scs c = Some d" "line_ok (line_editor d)"
      "typed_line (line_editor d) = edit l (map of_char (typed_text scs))" "text_ok (terml (ses d))"
      "nat (cols (terml (ses d))) = n"
      "text_lines (terml (ses d)) = fold (spec_putchar n) (map (\<lambda>k. char_of (unat k)) (echo l (map of_char (typed_text scs))))
        (text_lines (terml (ses c)))"
      "quiet d" "shift (ses d) = shift_held scs" "caps (ses d) = caps_on scs" "fs (kern (ses d)) = fs (kern (ses c))" by blast
  have k: "ks = key_text (shift (ses d) \<noteq> caps (ses d)) sc" by (simp add: ks_def d)
  from key_interrupt [OF assms(1) d(2,4,7) nl(2) k, of exit_return uninit] obtain e where
    e: "interrupt (\<lambda>_ _. sc) exit_return uninit (Some fr) d = Some (Some fr, e)" "line_ok (line_editor e)"
      "typed_line (line_editor e) = edit (typed_line (line_editor d)) (map of_char ks)" "text_ok (terml (ses e))"
      "cols (terml (ses e)) = cols (terml (ses d))"
      "text_lines (terml (ses e)) = fold (spec_putchar (nat (cols (terml (ses d)))))
        (map (\<lambda>k. char_of (unat k)) (echo (typed_line (line_editor d)) (map of_char ks))) (text_lines (terml (ses d)))"
      "quiet e" "shift (ses e) = (shift_press sc \<or> (shift (ses d) \<and> \<not> shift_release sc))"
      "caps (ses e) = (caps (ses d) \<noteq> (sc = 0x3A))" "fs (kern (ses e)) = fs (kern (ses d))" by blast
  have "typed_text (scs @ [sc]) = typed_text scs @ ks" by (simp add: typed_text_snoc ks_def)
  then show ?case using key_interrupts_snoc [OF d(1) e(1)] e d
    by (simp add: edit_append shift_held_snoc caps_on_snoc)
qed

section \<open>Properties\<close>

text \<open>C1: Keys pressed and released while the system runs: every interrupt returns to what it interrupted; the
  command line of the shell becomes what an editor with backspace, limited to 255 characters, makes of the text that the
  scan codes type with shift and caps lock; the terminal's lines are those of the abstract terminal after the accepted
  characters, and a backspace for each one taken back; and the file system is not touched.\<close>

theorem typed_keys_reach_line_and_screen:
  assumes "int_num fr = 0x21" and "line_ok (line_editor c)" and "text_ok (terml (ses c))" and "quiet c"
    and "\<not> shift (ses c)" and "\<not> caps (ses c)" and "CHR 0x0A \<notin> set (typed_text scs)"
  shows "\<exists>d. key_interrupts exit_return uninit fr scs c = Some d \<and>
     typed_line (line_editor d) = edit (typed_line (line_editor c)) (map of_char (typed_text scs)) \<and>
     text_lines (terml (ses d)) = fold (spec_putchar (nat (cols (terml (ses c)))))
       (map (\<lambda>k. char_of (unat k)) (echo (typed_line (line_editor c)) (map of_char (typed_text scs))))
       (text_lines (terml (ses c))) \<and>
     fs (kern (ses d)) = fs (kern (ses c))"
  using keys_interrupts [OF assms, of exit_return uninit] by blast

definition shell_ready :: computer where
  "shell_ready = undefined
     \<lparr>ses := undefined\<lparr>kern := undefined\<lparr>mach := screen_4x2\<lparr>pmm := undefined\<lparr>display := []\<rparr>\<rparr>\<rparr>,
        terml := terminal_init 800 600 cold_terminal, shift := False, caps := False\<rparr>,
      line_editor := undefined\<lparr>cmd_buf := replicate CMD_MAX 0, cmd_len := 0, ui_log := []\<rparr>\<rparr>"

text \<open>Typing \<open>ls\<close> and a capital A with shift, and taking it back.\<close>

lemma typed_keys_reach_line_and_screen_witness:
  "\<exists>d. key_interrupts 0 [] (zero_frame\<lparr>int_num := 0x21\<rparr>) [0x26, 0x1F, 0x2A, 0x1E, 0xAA, 0x0E] shell_ready = Some d \<and>
     typed_line (line_editor d) = map of_char ''ls'' \<and> text_lines (terml (ses d)) = [''ls'']"
proof -
  define scs :: "u8 list" where "scs = [0x26, 0x1F, 0x2A, 0x1E, 0xAA, 0x0E]"
  have kt: "key_text False 0x26 = ''l''" "key_text False 0x1F = ''s''" "key_text False 0x2A = []" "key_text True 0x1E = ''A''"
    "key_text True 0xAA = []" "key_text False 0x0E = [CHR 0x08]"
    by code_simp+
  have "scs = ((((([] @ [0x26]) @ [0x1F]) @ [0x2A]) @ [0x1E]) @ [0xAA]) @ [0x0E]" by (simp add: scs_def)
  then have k: "typed_text scs = ''lsA'' @ [CHR 0x08]"
    by (simp only: typed_text_snoc shift_held_snoc caps_on_snoc)
      (simp add: kt typed_text_def shift_held_Nil caps_on_def shift_press_def shift_release_def)
  have c: "line_ok (line_editor shell_ready)" "text_ok (terml (ses shell_ready))" "quiet shell_ready"
    "\<not> shift (ses shell_ready)" "\<not> caps (ses shell_ready)" "typed_line (line_editor shell_ready) = []"
    "cols (terml (ses shell_ready)) = 100" "text_lines (terml (ses shell_ready)) = [[]]"
    using init_text [of 800 600 cold_terminal]
    by (simp_all add: shell_ready_def line_ok_def CMD_MAX_def quiet_def machine_of_def screen_def typed_line_def init_state sdiv_nonneg)
  have i: "int_num (zero_frame\<lparr>int_num := 0x21\<rparr>) = 0x21" "CHR 0x0A \<notin> set (typed_text scs)" by (simp_all add: k)
  have e: "edit [] (map of_char (''lsA'' @ [CHR 0x08])) = map of_char ''ls''"
    "map (\<lambda>k. char_of (unat k)) (echo [] (map of_char (''lsA'' @ [CHR 0x08]))) = ''lsA'' @ [CHR 0x08]"
    "fold (spec_putchar (nat 100)) (''lsA'' @ [CHR 0x08]) [[]] = [''ls'']"
    by code_simp+
  from typed_keys_reach_line_and_screen [OF i(1) c(1-5) i(2), of 0 "[]", unfolded c(6-8) k e] show ?thesis
    unfolding scs_def by blast
qed

end
