(* ===== verification/Spec2Isabelle.thy ===== *)
theory Spec2Isabelle
  imports Vmm_Spaces Libc Ata Memory Heap Fs_Directory Executables Elf_Check Clock Acpi Terminal Framebuffer
    Descriptors Interrupts Riru_Pack Present Ui_Layout Nanofs_Image Wallpaper Shell Cursor
    Cursor_Device Desktop_Bounds Typing
begin

text \<open>
  A verification of TinyOS, a 64-bit hobby kernel written in C: its memory management, file system, program
  loaders, processes and system calls, the devices around it (interrupts, keyboard, mouse, clock, terminal,
  framebuffer, ACPI tables), the desktop with its windows, the shell, the start-up sequence, and the tools that
  pack executables and build disks. Paths are relative to \<open>src/\<close>.

  \<^bold>\<open>How the parts fit together.\<close> At boot the page allocator reads the memory map and the virtual
  memory manager builds the kernel's page tables. The heap takes runs of pages from the allocator. The
  file system sits on the ATA driver. The program loader reads a file into the heap, validates it, and
  builds an address space for it; the process layer gives it a slot, and the timer interrupt calls the
  scheduler, which exchanges the interrupted registers for those of the next process. Programs come back
  with system calls. All interrupts enter one handler, which also serves the keyboard and the mouse and
  acknowledges the interrupt controllers. What the kernel prints is laid out by the terminal, whose calls
  the framebuffer turns into pixels. Keys go to the shell. The main loop moves the pointer, turns the buttons
  of the mouse into what the windows do, and draws a frame into the back buffer, of which it presents the
  rectangles that changed.

  \<^bold>\<open>Theories.\<close>
  \<^item> \<open>Prelude\<close>: words, little-endian memory, page arithmetic, bounded search (\<open>first_index\<close>).
  \<^item> \<open>Console\<close>: what the kernel prints, as a log; \<open>print_decimal\<close>, \<open>print_hex64\<close>, \<open>print_uint\<close>.
  \<^item> \<open>Page_Allocator\<close>: the contract of a page allocator as a locale, and clients proved from it.
  \<^item> \<open>Pmm\<close> (\<open>src/memory/pmm.c\<close>): bitmap and counters, initialisation from the Multiboot2 memory map,
    single pages, runs; the interpretation of the contract.
  \<^item> \<open>Memory\<close> (\<open>src/memory/memory.c\<close>): the memory map report.
  \<^item> \<open>Machine\<close>, \<open>Vmm\<close> (\<open>src/memory/vmm.c\<close>): physical memory, the address space registers, and every
    operation on four-level page tables; \<open>Vmm_Tree\<close>: the tables as a tree and what one level does;
    \<open>Vmm_Spaces\<close>: the contract of a page mapper as a locale, interpreted on the current, the kernel's and
    any other address space, and what mapping and unmapping do to translations.
  \<^item> \<open>Kmalloc\<close> (\<open>src/memory/kmalloc.c\<close>): the heap's operations; \<open>Heap\<close>: that they take and return whole blocks.
  \<^item> \<open>Libc\<close> (\<open>src/libc/string.c\<close>), \<open>Ata\<close> (\<open>src/drivers/ata/ata.c\<close>).
  \<^item> \<open>Fs\<close> (\<open>src/fs/fs.c\<close>): NanoFS. \<open>Fs_Table\<close>: the inode table as a store (locale and interpretation), the
    searches; \<open>Fs_Data\<close>: the read and write loops; \<open>Fs_Invariant\<close>, \<open>Fs_Files\<close>, \<open>Fs_Volume\<close>: the invariant of a
    volume, kept by every operation; \<open>Fs_Correct\<close>, \<open>Fs_Directory\<close>: the properties.
  \<^item> \<open>Riru\<close>, \<open>Elf\<close> (\<open>src/riru/riru.c\<close>, \<open>src/elf/elf.c\<close>): executable headers; \<open>Kernel_State\<close>: the state of the
    kernel above the machine; \<open>Riru_Loader\<close>, \<open>Elf_Loader\<close> (\<open>src/riru/loader.c\<close>, \<open>src/elf/loader.c\<close>).
  \<^item> \<open>Process\<close>, \<open>Syscalls\<close> (\<open>src/process/process.c\<close>, \<open>src/syscalls.c\<close>); \<open>Process_Table\<close>: the process table as a
    state machine. \<open>Executables\<close>: the range checks as one contract, executable files, system calls;
    \<open>Elf_Check\<close>: ELF program headers.
  \<^item> \<open>Ports\<close> (\<open>src/io.h\<close>, \<open>src/pic.c\<close>, \<open>timer_init\<close>): port accesses as a trace, and the 8259's protocol.
  \<^item> \<open>Keyboard\<close>, \<open>Mouse\<close> (\<open>src/drivers\<close>): scan codes, the character ring as a bounded queue (locale
    \<open>bounded_queue\<close> and its interpretation), packets and the pointer. \<open>C_Division\<close>, \<open>Clock\<close>
    (\<open>src/drivers/timer/timer.c\<close>, \<open>src/system/clock.c\<close>).
  \<^item> \<open>Descriptors\<close> (\<open>src/gdt.c\<close>, the gates of \<open>src/idt.c\<close>): packed descriptors and what the processor decodes
    from them; \<open>Interrupts\<close>: \<open>isr_handler\<close>, over the joined state of the kernel, the devices and the clock.
  \<^item> \<open>Terminal\<close> (\<open>src/terminal/terminal.c\<close>): the grid, and its refinement of a list of lines;
    \<open>Font8x8\<close>, \<open>Framebuffer\<close> (\<open>src/framebuffer.c\<close>): pixels in the memory of the machine.
  \<^item> \<open>Multiboot\<close> (\<open>src/multiboot2.h\<close>), \<open>Acpi\<close> (\<open>src/acpi/acpi.c\<close>): boot information and ACPI tables.
  \<^item> \<open>Present\<close>: the copy of the back buffer to the device; \<open>Ui_Layout\<close> (\<open>src/gui/ui_layout.c\<close>): blending and
    the shapes of the desktop.
  \<^item> \<open>Riru_Pack\<close> (\<open>src/tools/riru_pack.c\<close>): the packer, checked against the kernel's validation.
  \<^item> \<open>Nanofs_Image\<close> (\<open>src/tools/nanofs_img.c\<close>), \<open>Wallpaper\<close> (\<open>src/tools/wallpaper_pack.c\<close>,
    \<open>src/gui/wallpaper.c\<close>): the tools that write the disk, checked against what the kernel reads.
  \<^item> \<open>Shell\<close> (\<open>src/terminal/shell.c\<close>): the line editor, the dispatch and the commands, over the kernel, its
    file system and the clock.
  \<^item> \<open>Widgets\<close>, \<open>Windows\<close>, \<open>Desktop\<close> (\<open>src/gui/gui.c\<close>): the panels, the windows and what the pointer does to
    them, the frame; \<open>Cursor\<close>, \<open>Cursor_Device\<close>: the pointer as an overlay of the picture, and that it reaches the device;
    \<open>Window_Events\<close>: windows that are moved;
    \<open>Desktop_Bounds\<close>: the arrays of the desktop, over every event.
  \<^item> \<open>Startup\<close> (\<open>src/kernel.c\<close>): the start-up sequence, the main loop and the interrupts of the running
    system, over the joined state of all parts; \<open>Typing\<close>: from the keys to the command line and the terminal.

  \<^bold>\<open>Modelling.\<close> Integers are words of the C width. Memory is a function from 64-bit addresses to bytes; the
  page tables and the heap's headers live in it. A structure is a record, static variables are fields of
  the state, a null pointer is \<open>None\<close>, a return code is an \<open>int\<close>. A loop is a fold over its index range, a
  structural recursion, or, where the code may loop for ever, a \<open>partial_function\<close> whose result \<open>None\<close> means
  that it does; there is no fuel. A page fault, where the loaders or a system call touch user memory or a
  table of the firmware lies where nothing is mapped, is \<open>None\<close> too. Console output is a log of calls in order.

  \<^bold>\<open>Parameters and bounds.\<close> The linker's symbols, the address of the idle loop and the contents of
  uninitialised stack buffers are arguments. A disk is a function from 28-bit block addresses to sectors
  with a status for each access: a failed write leaves the sector, a failed read the buffer. The theorems
  about volumes assume accesses that succeed, new names that do not clash once they are cut to what an inode
  keeps, and fewer than 2 to the 28 minus 9 operations, so that block numbers stay below the driver's limit; those about processes fewer
  than 2 to the 64 minus 2 events, so that process ids do not wrap.

  \<^bold>\<open>What is proved.\<close> The allocator's counter and first fit, the mapping of pages with their errors, the
  refinement of the directory operations to a map (and the clash of cut names, where they do not), the isolation of files, the round trip of file
  contents (and the case in which the code corrupts them), the scheduler's order, fairness and exact
  resumption; that the terminal shows the text it is given and never leaves its array, that pixels and
  rectangles are exactly those asked for, that gates and segments decode to what was meant, that every
  hardware interrupt has exactly the effect it should and is then acknowledged, that the keyboard types and the mouse points as their
  protocols say, that the processors are those that the ACPI tables list, while the tables stay inside the four gigabytes the
  kernel maps, that a disk read returns the data or the error that the controller reports, and that packed
  programs are accepted and hold the segments of the ELF file; that
  presenting shows the whole back buffer, that panels blend exactly their pixels, and that the kernel reads
  back the picture, and of the program the first sector, that the host's tools write; that what is typed
  at the shell, once edited, is what the file system is asked for; that the pointer leaves the picture
  under it intact, that a window follows the pointer that holds it, that the dock brings the terminal back, that the
  desktop's arrays suffice, and that what the keys type arrives in the command line and on the screen. Each theory states
  what its lemmas are for.

  \<^bold>\<open>Not modelled.\<close> The files the tools of the build host read and write, the sample program, and all assembly
  (the entry code, the switch to ring 3). The terminal draws what an operation printed after the operation, not
  in the middle of it. The devices'
  answers are arguments (a \<open>device\<close> gives the byte read from a port after a trace of accesses). The
  translation look-aside buffer is only a log of invalidations. Each operation is one step: an
  interrupt in the middle of a kernel operation is not modelled.
\<close>

end
